(* ===== verification/CF_Prelude.thy ===== *)
theory CF_Prelude
  imports Main "HOL-Library.Word" "HOL-Library.Char_ord" "HOL-Library.List_Lexorder"
    "HOL-Library.Product_Lexorder"
begin

text \<open>
  Shared vocabulary of the development: the C++ integer types as words, raw byte
  buffers, the byte/character correspondence behind the \<open>reinterpret_cast\<close>s of the
  sources, big-endian numerals, and \<open>std::map\<close> as a key-sorted association list
  behind the interface \<open>ordered_map\<close>. The collections \<open>codec\<close> (facts that
  drive a decoder over an encoded buffer) and \<open>fabric\<close> (definitions that the
  invariant proofs unfold) are filled by the component theories.
\<close>

unbundle bit_operations_syntax

named_theorems codec \<open>decoding facts for one encoded item\<close>
named_theorems fabric \<open>definitions unfolded in invariant proofs\<close>

type_synonym u8 = "8 word"
type_synonym u16 = "16 word"
type_synonym u32 = "32 word"
type_synonym u64 = "64 word"
type_synonym i64 = "64 word"
type_synonym bytes = "u8 list"

section \<open>Bytes and characters\<close>

definition byte_of_char :: "char \<Rightarrow> u8" where
  "byte_of_char c = of_nat (of_char c)"

definition char_of_byte :: "u8 \<Rightarrow> char" where
  "char_of_byte b = char_of (unat b)"

definition bytes_of :: "string \<Rightarrow> bytes" where
  "bytes_of s = map byte_of_char s"

definition string_of :: "bytes \<Rightarrow> string" where
  "string_of bs = map char_of_byte bs"

lemma unat_u8_lt: "unat (b :: u8) < 256"
  using unsigned_less [of b] by simp

lemma char_of_byte_of_char [simp]: "char_of_byte (byte_of_char c) = c"
proof -
  have "(of_char c :: nat) < 256" by (rule nat_of_char_less_256)
  then show ?thesis by (simp add: char_of_byte_def byte_of_char_def unat_of_nat)
qed

lemma byte_of_char_of_byte [simp]: "byte_of_char (char_of_byte b) = b"
  using unat_u8_lt [of b] by (simp add: char_of_byte_def byte_of_char_def of_char_of)

lemma string_of_bytes_of [simp]: "string_of (bytes_of s) = s"
  by (induction s) (simp_all add: string_of_def bytes_of_def)

lemma bytes_of_string_of [simp]: "bytes_of (string_of bs) = bs"
  by (induction bs) (simp_all add: string_of_def bytes_of_def)

lemma length_bytes_of [simp]: "length (bytes_of s) = length s"
  by (simp add: bytes_of_def)

lemma length_string_of [simp]: "length (string_of bs) = length bs"
  by (simp add: string_of_def)

lemma bytes_of_inject [simp]: "bytes_of s = bytes_of t \<longleftrightarrow> s = t"
  by (metis string_of_bytes_of)

section \<open>Big-endian numerals\<close>

definition be_nat :: "bytes \<Rightarrow> nat" where
  "be_nat bs = foldl (\<lambda>a b. a * 256 + unat b) 0 bs"

fun be_bytes :: "nat \<Rightarrow> nat \<Rightarrow> bytes" where
  "be_bytes 0 x = []"
| "be_bytes (Suc n) x = be_bytes n (x div 256) @ [of_nat x]"

definition be_join :: "bytes \<Rightarrow> 'a::len word" where
  "be_join bs = foldl (\<lambda>out b. push_bit 8 out OR ucast b) 0 bs"

lemma be_nat_snoc [simp]: "be_nat (bs @ [b]) = be_nat bs * 256 + unat b"
  by (simp add: be_nat_def)
lemma be_nat_Nil [simp]: "be_nat [] = 0"
  by (simp add: be_nat_def)
lemma be_join_snoc [simp]: "be_join (bs @ [b]) = push_bit 8 (be_join bs) OR ucast b"
  by (simp add: be_join_def)
lemma be_join_Nil [simp]: "be_join [] = 0"
  by (simp add: be_join_def)

lemma be_nat_bound: "be_nat bs < 256 ^ length bs"
proof (induction bs rule: rev_induct)
  case (snoc b bs)
  have "unat b < 256" by (rule unat_u8_lt)
  moreover have "be_nat bs * 256 + 256 \<le> 256 ^ length bs * 256" using snoc
    by (metis Suc_leI add.commute mult_Suc mult_le_mono1)
  ultimately show ?case by (simp add: mult.commute)
qed simp

lemma length_be_bytes [simp]: "length (be_bytes n x) = n"
  by (induction n arbitrary: x) auto

lemma be_nat_be_bytes: "be_nat (be_bytes n x) = x mod 256 ^ n"
proof (induction n arbitrary: x)
  case (Suc n)
  have "x mod (256 * 256 ^ n) = 256 * (x div 256 mod 256 ^ n) + x mod 256"
    by (rule mod_mult2_eq)
  with Suc show ?case by (simp add: unat_of_nat)
qed simp

lemma u8_256: "(256 :: u8) = 0"
  by (rule unsigned_word_eqI [where 'a = nat]) simp

lemma be_bytes_be_nat: "be_bytes (length bs) (be_nat bs) = bs"
proof (induction bs rule: rev_induct)
  case (snoc b bs)
  have "(be_nat bs * 256 + unat b) div 256 = be_nat bs" using unat_u8_lt [of b] by simp
  moreover have "(of_nat (be_nat bs * 256 + unat b) :: u8) = b"
    by (simp add: u8_256)
  ultimately show ?case using snoc by simp
qed simp

lemma push_or_add: "push_bit 8 (w::'a::len word) OR ucast (b::u8) = w * 256 + ucast b"
proof -
  have "bit (push_bit 8 w) n \<longrightarrow> \<not> bit (ucast b :: 'a word) n" for n
    by (auto simp: bit_simps dest: bit_imp_le_length)
  then have "push_bit 8 w OR ucast b = push_bit 8 w + ucast b"
    by (simp add: disjunctive_add)
  then show ?thesis by (simp add: push_bit_eq_mult)
qed

lemma unat_be_join:
  assumes "8 * length bs \<le> LENGTH('a::len)"
  shows "unat (be_join bs :: 'a word) = be_nat bs"
  using assms
proof (induction bs rule: rev_induct)
  case (snoc b bs)
  let ?w = "be_join bs :: 'a word"
  have IH: "unat ?w = be_nat bs" using snoc by simp
  have p: "(256::nat) ^ Suc (length bs) \<le> 2 ^ LENGTH('a)"
  proof -
    have "(256::nat) ^ Suc (length bs) = 2 ^ (8 * length (bs @ [b]))"
      by (simp add: power_mult power_add)
    then show ?thesis using snoc.prems by (metis one_le_numeral power_increasing)
  qed
  have lt: "be_nat (bs @ [b]) < 2 ^ LENGTH('a)"
    using be_nat_bound [of "bs @ [b]"] p by simp
  have "be_join (bs @ [b]) = (of_nat (be_nat (bs @ [b])) :: 'a word)"
    by (simp add: push_or_add) (simp flip: IH)
  then show ?case using lt by (simp add: unat_of_nat del: be_nat_snoc be_join_snoc)
qed simp

lemma be_bytes_map: "be_bytes n x = map (\<lambda>i. of_nat (x div 256 ^ i)) (rev [0..<n])"
proof (induction n arbitrary: x)
  case (Suc n)
  have "rev [0..<Suc n] = map Suc (rev [0..<n]) @ [0]"
    by (simp add: upt_conv_Cons rev_map flip: map_Suc_upt del: upt_Suc)
  then show ?case
    using Suc by (simp add: div_mult2_eq del: upt_Suc)
qed simp

lemma byte_at:
  "(ucast (drop_bit (8 * i) (v :: 'a::len word) AND 0xFF) :: u8) = of_nat (unat v div 256 ^ i)"
proof -
  have m: "(0xFF :: 'a word) = mask 8" by (simp add: mask_eq_exp_minus_1)
  have "(ucast (drop_bit (8 * i) v AND 0xFF) :: u8) = ucast (drop_bit (8 * i) v)"
    unfolding m by (rule bit_word_eqI) (auto simp: bit_simps dest: bit_imp_le_length)
  also have "\<dots> = of_nat (unat (drop_bit (8 * i) v))"
    by (rule unsigned_word_eqI [where 'a = nat]) (simp add: unat_of_nat unsigned_ucast_eq take_bit_eq_mod)
  also have "unat (drop_bit (8 * i) v) = unat v div 256 ^ i"
    by (subst unat_drop_bit_eq) (simp add: drop_bit_eq_div power_mult)
  finally show ?thesis .
qed

section \<open>Ordered maps\<close>

text \<open>
  \<open>std::map<K,V>\<close> is an association list sorted strictly by key, in iteration
  order: \<open>smap_put\<close> is \<open>insert_or_assign\<close> (and assignment through
  \<open>operator[]\<close>), \<open>smap_del\<close> is \<open>erase\<close> by key, \<open>map_of\<close> is
  \<open>find\<close>.
\<close>

type_synonym ('k, 'v) smap = "('k \<times> 'v) list"

fun smap_put :: "'k::linorder \<Rightarrow> 'v \<Rightarrow> ('k, 'v) smap \<Rightarrow> ('k, 'v) smap" where
  "smap_put k v [] = [(k, v)]"
| "smap_put k v ((a, b) # m) =
     (if k < a then (k, v) # (a, b) # m
      else if k = a then (k, v) # m
      else (a, b) # smap_put k v m)"

definition smap_del :: "'k \<Rightarrow> ('k, 'v) smap \<Rightarrow> ('k, 'v) smap" where
  "smap_del k m = filter (\<lambda>e. fst e \<noteq> k) m"

definition smap_inv :: "('k::linorder, 'v) smap \<Rightarrow> bool" where
  "smap_inv m \<longleftrightarrow> sorted_wrt (<) (map fst m)"

text \<open>The interface its clients use, with the laws they rely on.\<close>

locale ordered_map =
  fixes get :: "'m \<Rightarrow> 'k \<Rightarrow> 'v option"
    and put :: "'k \<Rightarrow> 'v \<Rightarrow> 'm \<Rightarrow> 'm"
    and del :: "'k \<Rightarrow> 'm \<Rightarrow> 'm"
    and inv :: "'m \<Rightarrow> bool"
    and emp :: "'m"
  assumes inv_emp: "inv emp"
    and get_emp: "get emp k = None"
    and inv_put: "inv m \<Longrightarrow> inv (put k v m)"
    and inv_del: "inv m \<Longrightarrow> inv (del k m)"
    and get_put: "get (put k v m) k' = (if k' = k then Some v else get m k')"
    and get_del: "get (del k m) k' = (if k' = k then None else get m k')"
    and ext: "inv m \<Longrightarrow> inv m' \<Longrightarrow> (\<And>k. get m k = get m' k) \<Longrightarrow> m = m'"
begin

lemma put_put: "inv m \<Longrightarrow> put k v (put k w m) = put k v m"
  by (rule ext) (simp_all add: inv_put get_put)

lemma put_commute: "inv m \<Longrightarrow> k \<noteq> k' \<Longrightarrow> put k v (put k' w m) = put k' w (put k v m)"
  by (rule ext) (simp_all add: inv_put get_put)

lemma del_put: "inv m \<Longrightarrow> get m k = None \<Longrightarrow> del k (put k v m) = m"
  by (rule ext) (simp_all add: inv_put inv_del get_put get_del)

lemma put_get_id: "inv m \<Longrightarrow> get m k = Some v \<Longrightarrow> put k v m = m"
  by (rule ext) (simp_all add: inv_put get_put)

lemma inv_fold_put: "inv m \<Longrightarrow> inv (fold (\<lambda>(k, v). put k v) kvs m)"
  by (induction kvs arbitrary: m) (auto simp: inv_put)

lemma get_fold_put:
  "get (fold (\<lambda>(k, v). put k v) kvs m) k =
     (case map_of (rev kvs) k of Some v \<Rightarrow> Some v | None \<Rightarrow> get m k)"
  by (induction kvs arbitrary: m) (auto simp: get_put map_add_def split: option.splits)

end

lemma map_of_rev_distinct: "distinct (map fst m) \<Longrightarrow> map_of (rev m) = map_of m"
  by (intro map_of_inject_set [THEN iffD2]) (simp_all add: rev_map [symmetric])

lemma smap_inv_Nil: "smap_inv []"
  by (simp add: smap_inv_def)

lemma set_smap_put: "set (map fst (smap_put k v m)) = insert k (set (map fst m))"
  by (induction k v m rule: smap_put.induct) auto

lemma smap_inv_put: "smap_inv m \<Longrightarrow> smap_inv (smap_put k v m)"
proof (induction k v m rule: smap_put.induct)
  case (2 k v a b m)
  then have a: "\<forall>x \<in> set (map fst m). a < x" and m: "smap_inv m"
    by (auto simp: smap_inv_def)
  show ?case
  proof (cases "a < k")
    case True
    then have "\<forall>x \<in> set (map fst (smap_put k v m)). a < x"
      using a unfolding set_smap_put by auto
    then show ?thesis using "2.IH" m True by (auto simp: smap_inv_def)
  next
    case False
    then show ?thesis using "2.prems" by (fastforce simp: smap_inv_def)
  qed
qed (simp add: smap_inv_def)

lemma smap_get_put: "map_of (smap_put k v m) k' = (if k' = k then Some v else map_of m k')"
  by (induction k v m rule: smap_put.induct) auto

lemma smap_get_del: "map_of (smap_del k m) k' = (if k' = k then None else map_of m k')"
  by (induction m) (auto simp: smap_del_def)

lemma smap_inv_del: "smap_inv m \<Longrightarrow> smap_inv (smap_del k m)"
  unfolding smap_inv_def smap_del_def sorted_wrt_map by (rule sorted_wrt_filter)

lemma smap_rebuild:
  assumes "distinct (map fst m)"
  shows "m = map (\<lambda>k. (k, the (map_of m k))) (map fst m)"
  using assms by (auto intro!: map_idI [symmetric] simp: o_def)

lemma smap_ext:
  assumes "smap_inv m" and "smap_inv m'" and "\<And>k. map_of m k = map_of m' k"
  shows "m = m'"
proof -
  have d: "distinct (map fst m)" "distinct (map fst m')"
    using assms(1,2) by (auto simp: smap_inv_def strict_sorted_iff)
  have "map_of m = map_of m'" using assms(3) by blast
  then have s: "set m = set m'"
    using d by (metis map_of_inject_set)
  have "map fst m = map fst m'"
    using assms(1,2) s unfolding smap_inv_def by (metis list.set_map strict_sorted_equal)
  then show ?thesis
    using assms(3) smap_rebuild [OF d(1)] smap_rebuild [OF d(2)] by simp
qed

interpretation smap: ordered_map map_of smap_put smap_del smap_inv "[]"
  by unfold_locales
    (simp_all add: smap_inv_put smap_inv_del smap_get_put smap_get_del smap_ext smap_inv_Nil)

lemmas smap_simps [simp] = smap_get_put smap_get_del smap_inv_put smap_inv_del smap.inv_emp

end
