(* ===== verification/CF_Core.thy ===== *)
theory CF_Core
  imports CF_Prelude
begin

text \<open>
  The type foundation of \<open>include/CompilationFabric/Core.hpp\<close> and \<open>src/Core.cpp\<close>:
  error codes, \<open>Result\<close>, 128-bit identities and the hexadecimal codecs. An
  \<open>enum class\<close> with a fixed underlying type may hold any value of that type (the
  sources cast integers into enums without a range check), so an enum that is cast is a
  one-field datatype over its underlying word with its enumerators as abbreviations, and
  a \<open>switch\<close> over it is a table with the source's fall-through value.
\<close>

section \<open>Error codes and results\<close>

datatype ErrorCode = ErrorCode (errorCode_value: u32)

abbreviation ErrOk :: ErrorCode where "ErrOk \<equiv> ErrorCode 0"
abbreviation ErrInvalidArgument :: ErrorCode where "ErrInvalidArgument \<equiv> ErrorCode 1"
abbreviation ErrInvalidSource :: ErrorCode where "ErrInvalidSource \<equiv> ErrorCode 2"
abbreviation ErrUnsupportedIR :: ErrorCode where "ErrUnsupportedIR \<equiv> ErrorCode 3"
abbreviation ErrCompilerMissing :: ErrorCode where "ErrCompilerMissing \<equiv> ErrorCode 4"
abbreviation ErrBackendMissing :: ErrorCode where "ErrBackendMissing \<equiv> ErrorCode 5"
abbreviation ErrTargetUnsupported :: ErrorCode where "ErrTargetUnsupported \<equiv> ErrorCode 6"
abbreviation ErrArchitectureMismatch :: ErrorCode where "ErrArchitectureMismatch \<equiv> ErrorCode 7"
abbreviation ErrABIMismatch :: ErrorCode where "ErrABIMismatch \<equiv> ErrorCode 8"
abbreviation ErrDatatypeMismatch :: ErrorCode where "ErrDatatypeMismatch \<equiv> ErrorCode 9"
abbreviation ErrLayoutMismatch :: ErrorCode where "ErrLayoutMismatch \<equiv> ErrorCode 10"
abbreviation ErrShapeMismatch :: ErrorCode where "ErrShapeMismatch \<equiv> ErrorCode 11"
abbreviation ErrQuantizationMismatch :: ErrorCode where "ErrQuantizationMismatch \<equiv> ErrorCode 12"
abbreviation ErrPrecisionMismatch :: ErrorCode where "ErrPrecisionMismatch \<equiv> ErrorCode 13"
abbreviation ErrInvalidSpecialization :: ErrorCode where "ErrInvalidSpecialization \<equiv> ErrorCode 14"
abbreviation ErrInvalidKey :: ErrorCode where "ErrInvalidKey \<equiv> ErrorCode 15"
abbreviation ErrMalformedKey :: ErrorCode where "ErrMalformedKey \<equiv> ErrorCode 16"
abbreviation ErrMalformedFrame :: ErrorCode where "ErrMalformedFrame \<equiv> ErrorCode 17"
abbreviation ErrProtocolVersionMismatch :: ErrorCode where "ErrProtocolVersionMismatch \<equiv> ErrorCode 18"
abbreviation ErrUnknownMessageType :: ErrorCode where "ErrUnknownMessageType \<equiv> ErrorCode 19"
abbreviation ErrFrameTooLarge :: ErrorCode where "ErrFrameTooLarge \<equiv> ErrorCode 20"
abbreviation ErrTruncatedFrame :: ErrorCode where "ErrTruncatedFrame \<equiv> ErrorCode 21"
abbreviation ErrStaleEpoch :: ErrorCode where "ErrStaleEpoch \<equiv> ErrorCode 22"
abbreviation ErrStaleWorkerBoot :: ErrorCode where "ErrStaleWorkerBoot \<equiv> ErrorCode 23"
abbreviation ErrStaleGeneration :: ErrorCode where "ErrStaleGeneration \<equiv> ErrorCode 24"
abbreviation ErrStaleAttempt :: ErrorCode where "ErrStaleAttempt \<equiv> ErrorCode 25"
abbreviation ErrStaleArtifact :: ErrorCode where "ErrStaleArtifact \<equiv> ErrorCode 26"
abbreviation ErrDuplicateCompletion :: ErrorCode where "ErrDuplicateCompletion \<equiv> ErrorCode 27"
abbreviation ErrDuplicateRequest :: ErrorCode where "ErrDuplicateRequest \<equiv> ErrorCode 28"
abbreviation ErrDuplicateAttempt :: ErrorCode where "ErrDuplicateAttempt \<equiv> ErrorCode 29"
abbreviation ErrDuplicateArtifact :: ErrorCode where "ErrDuplicateArtifact \<equiv> ErrorCode 30"
abbreviation ErrObsoleteAttempt :: ErrorCode where "ErrObsoleteAttempt \<equiv> ErrorCode 31"
abbreviation ErrInvalidStateTransition :: ErrorCode where "ErrInvalidStateTransition \<equiv> ErrorCode 32"
abbreviation ErrLifecycleConflict :: ErrorCode where "ErrLifecycleConflict \<equiv> ErrorCode 33"
abbreviation ErrArtifactCorrupt :: ErrorCode where "ErrArtifactCorrupt \<equiv> ErrorCode 34"
abbreviation ErrArtifactTruncated :: ErrorCode where "ErrArtifactTruncated \<equiv> ErrorCode 35"
abbreviation ErrArtifactInvalid :: ErrorCode where "ErrArtifactInvalid \<equiv> ErrorCode 36"
abbreviation ErrMetadataCorrupt :: ErrorCode where "ErrMetadataCorrupt \<equiv> ErrorCode 37"
abbreviation ErrPersistenceFailure :: ErrorCode where "ErrPersistenceFailure \<equiv> ErrorCode 38"
abbreviation ErrPersistenceVersionUnknown :: ErrorCode where "ErrPersistenceVersionUnknown \<equiv> ErrorCode 39"
abbreviation ErrTrailingGarbage :: ErrorCode where "ErrTrailingGarbage \<equiv> ErrorCode 40"
abbreviation ErrPolicyRejected :: ErrorCode where "ErrPolicyRejected \<equiv> ErrorCode 41"
abbreviation ErrNotDeployable :: ErrorCode where "ErrNotDeployable \<equiv> ErrorCode 42"
abbreviation ErrNotValid :: ErrorCode where "ErrNotValid \<equiv> ErrorCode 43"
abbreviation ErrConcurrentModification :: ErrorCode where "ErrConcurrentModification \<equiv> ErrorCode 44"
abbreviation ErrReentrancyLocked :: ErrorCode where "ErrReentrancyLocked \<equiv> ErrorCode 45"
abbreviation ErrNoBackend :: ErrorCode where "ErrNoBackend \<equiv> ErrorCode 46"
abbreviation ErrNoToolchain :: ErrorCode where "ErrNoToolchain \<equiv> ErrorCode 47"
abbreviation ErrNotFound :: ErrorCode where "ErrNotFound \<equiv> ErrorCode 48"
abbreviation ErrInternal :: ErrorCode where "ErrInternal \<equiv> ErrorCode 49"
abbreviation ErrNotImplemented :: ErrorCode where "ErrNotImplemented \<equiv> ErrorCode 50"
abbreviation ErrValidationFailed :: ErrorCode where "ErrValidationFailed \<equiv> ErrorCode 51"
abbreviation ErrLoadFailed :: ErrorCode where "ErrLoadFailed \<equiv> ErrorCode 52"
abbreviation ErrExecutionFailed :: ErrorCode where "ErrExecutionFailed \<equiv> ErrorCode 53"
abbreviation ErrBuildFailed :: ErrorCode where "ErrBuildFailed \<equiv> ErrorCode 54"
abbreviation ErrCancelled :: ErrorCode where "ErrCancelled \<equiv> ErrorCode 55"
abbreviation ErrIOError :: ErrorCode where "ErrIOError \<equiv> ErrorCode 56"
abbreviation ErrTimeout :: ErrorCode where "ErrTimeout \<equiv> ErrorCode 57"
abbreviation ErrGenerationRollback :: ErrorCode where "ErrGenerationRollback \<equiv> ErrorCode 58"
abbreviation ErrNoActiveUsers :: ErrorCode where "ErrNoActiveUsers \<equiv> ErrorCode 59"
abbreviation ErrLeaseUnderflow :: ErrorCode where "ErrLeaseUnderflow \<equiv> ErrorCode 60"
abbreviation ErrRaceDetected :: ErrorCode where "ErrRaceDetected \<equiv> ErrorCode 61"
abbreviation ErrOverSizedFrame :: ErrorCode where "ErrOverSizedFrame \<equiv> ErrorCode 62"

definition errorCodeNames :: "(ErrorCode \<times> string) list" where
  "errorCodeNames =
    [(ErrOk, ''Ok''), (ErrInvalidArgument, ''InvalidArgument''),
     (ErrInvalidSource, ''InvalidSource''), (ErrUnsupportedIR, ''UnsupportedIR''),
     (ErrCompilerMissing, ''CompilerMissing''), (ErrBackendMissing, ''BackendMissing''),
     (ErrTargetUnsupported, ''TargetUnsupported''),
     (ErrArchitectureMismatch, ''ArchitectureMismatch''), (ErrABIMismatch, ''ABIMismatch''),
     (ErrDatatypeMismatch, ''DatatypeMismatch''), (ErrLayoutMismatch, ''LayoutMismatch''),
     (ErrShapeMismatch, ''ShapeMismatch''), (ErrQuantizationMismatch, ''QuantizationMismatch''),
     (ErrPrecisionMismatch, ''PrecisionMismatch''),
     (ErrInvalidSpecialization, ''InvalidSpecialization''), (ErrInvalidKey, ''InvalidKey''),
     (ErrMalformedKey, ''MalformedKey''), (ErrMalformedFrame, ''MalformedFrame''),
     (ErrProtocolVersionMismatch, ''ProtocolVersionMismatch''),
     (ErrUnknownMessageType, ''UnknownMessageType''), (ErrFrameTooLarge, ''FrameTooLarge''),
     (ErrTruncatedFrame, ''TruncatedFrame''), (ErrStaleEpoch, ''StaleEpoch''),
     (ErrStaleWorkerBoot, ''StaleWorkerBoot''), (ErrStaleGeneration, ''StaleGeneration''),
     (ErrStaleAttempt, ''StaleAttempt''), (ErrStaleArtifact, ''StaleArtifact''),
     (ErrDuplicateCompletion, ''DuplicateCompletion''),
     (ErrDuplicateRequest, ''DuplicateRequest''), (ErrDuplicateAttempt, ''DuplicateAttempt''),
     (ErrDuplicateArtifact, ''DuplicateArtifact''), (ErrObsoleteAttempt, ''ObsoleteAttempt''),
     (ErrInvalidStateTransition, ''InvalidStateTransition''),
     (ErrLifecycleConflict, ''LifecycleConflict''), (ErrArtifactCorrupt, ''ArtifactCorrupt''),
     (ErrArtifactTruncated, ''ArtifactTruncated''), (ErrArtifactInvalid, ''ArtifactInvalid''),
     (ErrMetadataCorrupt, ''MetadataCorrupt''), (ErrPersistenceFailure, ''PersistenceFailure''),
     (ErrPersistenceVersionUnknown, ''PersistenceVersionUnknown''),
     (ErrTrailingGarbage, ''TrailingGarbage''), (ErrPolicyRejected, ''PolicyRejected''),
     (ErrNotDeployable, ''NotDeployable''), (ErrNotValid, ''NotValid''),
     (ErrConcurrentModification, ''ConcurrentModification''),
     (ErrReentrancyLocked, ''ReentrancyLocked''), (ErrNoBackend, ''NoBackend''),
     (ErrNoToolchain, ''NoToolchain''), (ErrNotFound, ''NotFound''), (ErrInternal, ''Internal''),
     (ErrNotImplemented, ''NotImplemented''), (ErrValidationFailed, ''ValidationFailed''),
     (ErrLoadFailed, ''LoadFailed''), (ErrExecutionFailed, ''ExecutionFailed''),
     (ErrBuildFailed, ''BuildFailed''), (ErrCancelled, ''Cancelled''), (ErrIOError, ''IOError''),
     (ErrTimeout, ''Timeout''), (ErrGenerationRollback, ''GenerationRollback''),
     (ErrNoActiveUsers, ''NoActiveUsers''), (ErrLeaseUnderflow, ''LeaseUnderflow''),
     (ErrRaceDetected, ''RaceDetected''), (ErrOverSizedFrame, ''OverSizedFrame'')]"

definition errorCodeMessages :: "(ErrorCode \<times> string) list" where
  "errorCodeMessages =
    [(ErrOk, ''success''), (ErrInvalidArgument, ''invalid argument''),
     (ErrInvalidSource, ''source is invalid''), (ErrUnsupportedIR, ''IR not supported''),
     (ErrCompilerMissing, ''compiler/toolchain missing''),
     (ErrBackendMissing, ''no backend satisfies the request''),
     (ErrTargetUnsupported, ''target architecture unsupported''),
     (ErrArchitectureMismatch, ''architecture mismatch''), (ErrABIMismatch, ''ABI mismatch''),
     (ErrDatatypeMismatch, ''datatype mismatch''), (ErrLayoutMismatch, ''layout mismatch''),
     (ErrShapeMismatch, ''shape mismatch''),
     (ErrQuantizationMismatch, ''quantization mismatch''),
     (ErrPrecisionMismatch, ''precision mismatch''),
     (ErrInvalidSpecialization, ''invalid specialization''),
     (ErrInvalidKey, ''invalid compilation key''),
     (ErrMalformedKey, ''malformed canonical key encoding''),
     (ErrMalformedFrame, ''malformed protocol frame''),
     (ErrProtocolVersionMismatch, ''protocol version mismatch''),
     (ErrUnknownMessageType, ''unknown message type''),
     (ErrFrameTooLarge, ''frame exceeds maximum size''),
     (ErrTruncatedFrame, ''truncated frame''), (ErrStaleEpoch, ''stale coordinator epoch''),
     (ErrStaleWorkerBoot, ''stale worker boot id''),
     (ErrStaleGeneration, ''stale cache/toolchain generation''),
     (ErrStaleAttempt, ''stale compilation attempt''),
     (ErrStaleArtifact, ''stale artifact generation''),
     (ErrDuplicateCompletion, ''duplicate completion''),
     (ErrDuplicateRequest, ''duplicate request identity''),
     (ErrDuplicateAttempt, ''duplicate attempt identity''),
     (ErrDuplicateArtifact, ''duplicate artifact identity''),
     (ErrObsoleteAttempt, ''obsolete compilation attempt''),
     (ErrInvalidStateTransition, ''invalid lifecycle transition''),
     (ErrLifecycleConflict, ''lifecycle conflict''),
     (ErrArtifactCorrupt, ''artifact content corrupt''),
     (ErrArtifactTruncated, ''artifact content truncated''),
     (ErrArtifactInvalid, ''artifact invalid''), (ErrMetadataCorrupt, ''metadata corrupt''),
     (ErrPersistenceFailure, ''persistence failure''),
     (ErrPersistenceVersionUnknown, ''unknown persistence version''),
     (ErrTrailingGarbage, ''trailing garbage in metadata''),
     (ErrPolicyRejected, ''rejected by policy''),
     (ErrNotDeployable, ''artifact not deployable''), (ErrNotValid, ''artifact not valid''),
     (ErrConcurrentModification, ''concurrent modification detected''),
     (ErrReentrancyLocked, ''reentrant lock acquisition prevented''),
     (ErrNoBackend, ''no backend available''), (ErrNoToolchain, ''no toolchain available''),
     (ErrNotFound, ''not found''), (ErrInternal, ''internal error''),
     (ErrNotImplemented, ''not implemented''), (ErrValidationFailed, ''validation failed''),
     (ErrLoadFailed, ''load failed''), (ErrExecutionFailed, ''execution failed''),
     (ErrBuildFailed, ''compile failed''), (ErrCancelled, ''cancelled''),
     (ErrIOError, ''input/output error''), (ErrTimeout, ''timed out''),
     (ErrGenerationRollback, ''generation rollback rejected''),
     (ErrNoActiveUsers, ''no active users''), (ErrLeaseUnderflow, ''lease count underflow''),
     (ErrRaceDetected, ''race detected''), (ErrOverSizedFrame, ''frame over maximum size'')]"

definition errorCodeName :: "ErrorCode \<Rightarrow> string" where
  "errorCodeName c = (case map_of errorCodeNames c of Some s \<Rightarrow> s | None \<Rightarrow> ''Unknown'')"

definition errorCodeMessage :: "ErrorCode \<Rightarrow> string" where
  "errorCodeMessage c =
     (case map_of errorCodeMessages c of Some s \<Rightarrow> s | None \<Rightarrow> ''unknown error'')"

text \<open>
  \<open>Result<T>\<close>: \<open>Ok v\<close> is a result holding a value, \<open>Err c m\<close> one that
  holds none. \<open>Result<void>\<close> is \<open>unit result\<close>.
\<close>

datatype 'a result = Ok 'a | Err (err_code: ErrorCode) (err_message: string)

definition result_ok :: "'a result \<Rightarrow> bool" where
  "result_ok r = (case r of Ok _ \<Rightarrow> True | Err _ _ \<Rightarrow> False)"

definition value_or :: "'a result \<Rightarrow> 'a \<Rightarrow> 'a" where
  "value_or r d = (case r of Ok v \<Rightarrow> v | Err _ _ \<Rightarrow> d)"

lemma result_ok_simps [simp]: "result_ok (Ok v)" "\<not> result_ok (Err c m)"
  by (simp_all add: result_ok_def)

lemma result_ok_iff: "result_ok r \<longleftrightarrow> (\<exists>v. r = Ok v)"
  by (cases r) simp_all

section \<open>Hexadecimal digits\<close>

definition hexChar :: "nat \<Rightarrow> char" where
  "hexChar n = (if n < 10 then char_of (48 + n) else char_of (97 + (n - 10)))"

definition hexVal :: "char \<Rightarrow> int" where
  "hexVal c = (let k = (of_char c :: nat) in
     if 48 \<le> k \<and> k \<le> 57 then int k - 48
     else if 97 \<le> k \<and> k \<le> 102 then int k - 97 + 10
     else if 65 \<le> k \<and> k \<le> 70 then int k - 65 + 10
     else - 1)"

lemma of_char_hexChar: 
  "n < 16 \<Longrightarrow> (of_char (hexChar n) :: nat) = (if n < 10 then 48 + n else 87 + n)"
  by (auto simp: hexChar_def of_char_of)

lemma hexVal_hexChar [simp]: "n < 16 \<Longrightarrow> hexVal (hexChar n) = int n"
  by (auto simp: hexVal_def of_char_hexChar Let_def)

lemma hexVal_range: "hexVal c < 0 \<or> (0 \<le> hexVal c \<and> hexVal c < 16)"
  by (auto simp: hexVal_def Let_def)

section \<open>128-bit identities\<close>

datatype Id128 = Id128 (hi: u64) (lo: u64)

definition fromU64 :: "u64 \<Rightarrow> Id128" where
  "fromU64 v = Id128 0 v"

definition id_less :: "Id128 \<Rightarrow> Id128 \<Rightarrow> bool" where
  "id_less a b \<longleftrightarrow> hi a < hi b \<or> (hi a = hi b \<and> lo a < lo b)"

instantiation Id128 :: linorder
begin

definition less_Id128 :: "Id128 \<Rightarrow> Id128 \<Rightarrow> bool" where
  "less_Id128 = id_less"

definition less_eq_Id128 :: "Id128 \<Rightarrow> Id128 \<Rightarrow> bool" where
  "less_eq_Id128 a b \<longleftrightarrow> id_less a b \<or> a = b"

instance
  by standard
    (auto simp: less_Id128_def less_eq_Id128_def id_less_def intro: Id128.expand)

end

definition isZero :: "Id128 \<Rightarrow> bool" where
  "isZero v \<longleftrightarrow> hi v = 0 \<and> lo v = 0"

text \<open>
  The loop of \<open>Id128::parse\<close>: position \<open>i\<close>, the remaining characters and the two
  halves so far.
\<close>

fun id_parse_loop :: "nat \<Rightarrow> string \<Rightarrow> u64 \<Rightarrow> u64 \<Rightarrow> Id128 option" where
  "id_parse_loop i [] h l = Some (Id128 h l)"
| "id_parse_loop i (c # cs) h l =
     (let v = hexVal c in
      if v < 0 then None
      else if i < 16 then id_parse_loop (Suc i) cs (push_bit 4 h OR of_int v) l
      else id_parse_loop (Suc i) cs h (push_bit 4 l OR of_int v))"

definition id_parse :: "string \<Rightarrow> Id128 option" where
  "id_parse hex = (if length hex \<noteq> 32 then None else id_parse_loop 0 hex 0 0)"

definition toHex64 :: "u64 \<Rightarrow> string" where
  "toHex64 v = map (\<lambda>shift. hexChar (unat (drop_bit shift v AND 0xF)))
     [60, 56, 52, 48, 44, 40, 36, 32, 28, 24, 20, 16, 12, 8, 4, 0]"

definition toHex :: "Id128 \<Rightarrow> string" where
  "toHex v = toHex64 (hi v) @ toHex64 (lo v)"

section \<open>Digests and byte strings\<close>

type_synonym Digest = bytes

definition zeroDigest :: Digest where
  "zeroDigest = replicate 32 0"

definition bytesToHex :: "bytes \<Rightarrow> string" where
  "bytesToHex p = concat (map (\<lambda>b. [hexChar (unat (drop_bit 4 b)), hexChar (unat (b AND 0xF))]) p)"

definition digestToHex :: "Digest \<Rightarrow> string" where
  "digestToHex d = bytesToHex d"

fun digest_from_loop :: "string \<Rightarrow> Digest option" where
  "digest_from_loop (a # b # cs) =
     (let h = hexVal a; l = hexVal b in
      if h < 0 \<or> l < 0 then None
      else map_option (\<lambda>d. (push_bit 4 (of_int h) OR of_int l) # d) (digest_from_loop cs))"
| "digest_from_loop _ = Some []"

definition digestFromHex :: "string \<Rightarrow> Digest option" where
  "digestFromHex hex = (if length hex \<noteq> 64 then None else digest_from_loop hex)"

section \<open>Round trips\<close>

lemma nibble_lt: "unat (w AND 0xF :: 'a::len word) < 16"
proof -
  have "w AND 0xF = take_bit 4 w" by (simp add: take_bit_eq_mask mask_eq_exp_minus_1)
  then show ?thesis
    using take_bit_nat_less_exp [of 4 "unat w"] by (simp add: unsigned_take_bit_eq)
qed

lemma join_nibble:
  "push_bit 4 (drop_bit (4 * Suc n) x) OR (drop_bit (4 * n) x AND 0xF) = drop_bit (4 * n) (x :: u64)"
proof -
  have f: "(0xF :: u64) = mask 4" by (simp add: mask_eq_exp_minus_1)
  show ?thesis unfolding f
    by (rule bit_word_eqI) (auto simp: bit_simps)
qed

definition nibbles :: "u64 \<Rightarrow> nat \<Rightarrow> u64 list" where
  "nibbles x n = map (\<lambda>i. drop_bit (4 * i) x AND 0xF) (rev [0..<n])"

lemma foldl_nibbles:
  "foldl (\<lambda>d v. push_bit 4 d OR v) (drop_bit (4 * n) x) (nibbles x n) = (x :: u64)"
  by (induction n) (simp_all add: nibbles_def join_nibble del: mult_Suc_right)

lemma toHex64_nibbles: "toHex64 v = map (\<lambda>x. hexChar (unat x)) (nibbles v 16)"
proof -
  have "[60, 56, 52, 48, 44, 40, 36, 32, 28, 24, 20, 16, 12, 8, 4, 0] = map ((*) 4) (rev [0..<16::nat])"
    by code_simp
  then show ?thesis by (simp only: toHex64_def nibbles_def) simp
qed

lemma length_nibbles [simp]: "length (nibbles x n) = n"
  by (simp add: nibbles_def)

lemma nibbles_lt: "\<forall>y \<in> set (nibbles x n). unat y < 16"
  by (auto simp: nibbles_def nibble_lt)

lemma length_toHex64 [simp]: "length (toHex64 v) = 16"
  by (simp add: toHex64_nibbles)

lemma id_parse_loop_hi:
  "\<forall>y \<in> set ns. unat y < 16 \<Longrightarrow> i + length ns \<le> 16 \<Longrightarrow>
   id_parse_loop i (map (\<lambda>x. hexChar (unat x)) ns @ cs) h l =
   id_parse_loop (i + length ns) cs (foldl (\<lambda>d v. push_bit 4 d OR v) h ns) l"
  by (induction ns arbitrary: i h) (auto simp: Let_def)

lemma id_parse_loop_lo:
  "\<forall>y \<in> set ns. unat y < 16 \<Longrightarrow> 16 \<le> i \<Longrightarrow>
   id_parse_loop i (map (\<lambda>x. hexChar (unat x)) ns) h l =
   Some (Id128 h (foldl (\<lambda>d v. push_bit 4 d OR v) l ns))"
  by (induction ns arbitrary: i l) (auto simp: Let_def)

lemma id_parse_toHex [simp]: "id_parse (toHex v) = Some v"
proof -
  have top: "drop_bit (4 * 16) w = 0" for w :: u64
    by (rule bit_word_eqI) (auto simp: bit_simps dest: bit_imp_le_length)
  have "foldl (\<lambda>d v. push_bit 4 d OR v) 0 (nibbles w 16) = w" for w :: u64
    using foldl_nibbles [of 16 w] by (simp add: top [simplified])
  then show ?thesis
    by (cases v) (simp add: id_parse_def toHex_def toHex64_nibbles id_parse_loop_hi
        id_parse_loop_lo nibbles_lt)
qed

lemma length_toHex [simp]: "length (toHex v) = 32"
  by (simp add: toHex_def)

lemma toHex_inject [simp]: "toHex v = toHex w \<longleftrightarrow> v = w"
  by (metis id_parse_toHex option.inject)

lemma nibbles_Suc:
  assumes "n < 16" and "unat v < 16"
  shows "nibbles (push_bit 4 d OR v) (Suc n) = nibbles d n @ [v]"
proof -
  have f: "(0xF :: u64) = mask 4" by (simp add: mask_eq_exp_minus_1)
  have "unat (take_bit 4 v) = unat v"
    using assms(2) by (subst unsigned_take_bit_eq) (simp add: take_bit_eq_mod)
  then have v: "v AND mask 4 = v"
    unfolding take_bit_eq_mask by (rule unsigned_word_eqI)
  then have vb: "bit v m \<Longrightarrow> m < 4" for m
    by (metis bit_and_iff bit_mask_iff)
  have "drop_bit (4 * Suc i) (push_bit 4 d OR v) AND mask 4 = drop_bit (4 * i) d AND mask 4"
    if "i < n" for i
    using that assms(1) by (intro bit_word_eqI) (auto simp: bit_simps dest: vb)
  moreover have "(push_bit 4 d OR v) AND mask 4 = v"
    by (subst (2) v [symmetric], rule bit_word_eqI) (auto simp: bit_simps dest: vb)
  moreover have "rev [0..<Suc n] = map Suc (rev [0..<n]) @ [0]"
    by (simp add: upt_conv_Cons rev_map flip: map_Suc_upt del: upt_Suc)
  ultimately show ?thesis
    by (simp add: nibbles_def f del: upt_Suc mult_Suc_right)
qed

lemma nibbles_foldl:
  assumes "\<forall>y \<in> set ns. unat y < 16" and "length ns \<le> 16"
  shows "nibbles (foldl (\<lambda>d v. push_bit 4 d OR v) 0 ns) (length ns) = ns"
  using assms
  by (induction ns rule: rev_induct) (simp_all add: nibbles_Suc, simp add: nibbles_def)

lemma bytesToHex_Cons [simp]:
  "bytesToHex (b # p) = hexChar (unat (drop_bit 4 b)) # hexChar (unat (b AND 0xF)) # bytesToHex p"
  by (simp add: bytesToHex_def)

lemma bytesToHex_Nil [simp]: "bytesToHex [] = []"
  by (simp add: bytesToHex_def)

lemma length_bytesToHex [simp]: "length (bytesToHex p) = 2 * length p"
  by (induction p) simp_all

lemma join_byte_nibbles: "push_bit 4 (drop_bit 4 b) OR (b AND 0xF) = (b :: u8)"
proof -
  have f: "(0xF :: u8) = mask 4" by (simp add: mask_eq_exp_minus_1)
  show ?thesis unfolding f
    by (rule bit_word_eqI) (auto simp: bit_simps)
qed

lemma drop4_lt: "unat (drop_bit 4 (b :: u8)) < 16"
  using unat_u8_lt [of b] by (subst unat_drop_bit_eq) (simp add: drop_bit_eq_div)

lemma digest_from_bytesToHex: "digest_from_loop (bytesToHex p) = Some p"
  by (induction p) (simp_all add: Let_def drop4_lt nibble_lt join_byte_nibbles)

lemma digestFromHex_digestToHex [simp]: "length d = 32 \<Longrightarrow> digestFromHex (digestToHex d) = Some d"
  by (simp add: digestFromHex_def digestToHex_def digest_from_bytesToHex)

section \<open>What the text forms accept\<close>

text \<open>
  Both parsers read either case of a hexadecimal digit; \<open>hex_lower\<close> is the canonical
  spelling of what they read.
\<close>

definition hex_lower :: "char \<Rightarrow> char" where
  "hex_lower c = (if 0 \<le> hexVal c then hexChar (nat (hexVal c)) else c)"

lemma hexVal_hex_lower [simp]: "hexVal (hex_lower c) = hexVal c"
  using hexVal_range [of c] by (auto simp: hex_lower_def)

lemma id_parse_loop_lower: "id_parse_loop i (map hex_lower s) h l = id_parse_loop i s h l"
  by (induction i s h l rule: id_parse_loop.induct) (simp_all add: Let_def)

lemma id_parse_loop_digits: "id_parse_loop i s h l = Some v \<Longrightarrow> \<forall>c \<in> set s. 0 \<le> hexVal c"
  by (induction i s h l rule: id_parse_loop.induct) (auto simp: Let_def split: if_splits)

lemma unat_of_hexVal:
  "0 \<le> hexVal c \<Longrightarrow> unat (of_int (hexVal c) :: u64) = nat (hexVal c)"
  using hexVal_range [of c] by (cases "hexVal c") (auto simp: unat_of_nat)

lemma lower_digits:
  assumes "\<forall>c \<in> set s. 0 \<le> hexVal c"
  shows "map hex_lower s = map (\<lambda>x. hexChar (unat x)) (map (\<lambda>c. of_int (hexVal c) :: u64) s)"
    and "\<forall>y \<in> set (map (\<lambda>c. of_int (hexVal c) :: u64) s). unat y < 16"
proof -
  show "map hex_lower s = map (\<lambda>x. hexChar (unat x)) (map (\<lambda>c. of_int (hexVal c) :: u64) s)"
    using assms by (simp add: hex_lower_def unat_of_hexVal)
  have "nat (hexVal c) < 16" if "0 \<le> hexVal c" for c using that hexVal_range [of c] by auto
  then show "\<forall>y \<in> set (map (\<lambda>c. of_int (hexVal c) :: u64) s). unat y < 16"
    using assms by (simp add: unat_of_hexVal)
qed

lemma toHex64_foldl:
  "length ns = 16 \<Longrightarrow> \<forall>y \<in> set ns. unat y < 16 \<Longrightarrow>
   toHex64 (foldl (\<lambda>d v. push_bit 4 d OR v) 0 ns) = map (\<lambda>x. hexChar (unat x)) ns"
  using nibbles_foldl [of ns] by (simp add: toHex64_nibbles)

lemma id_parse_lower:
  assumes "id_parse s = Some v"
  shows "map hex_lower s = toHex v"
proof -
  define ns where "ns = map (\<lambda>c. of_int (hexVal c) :: u64) s"
  have len: "length s = 32" and loop: "id_parse_loop 0 s 0 0 = Some v"
    using assms by (auto simp: id_parse_def split: if_splits)
  note low = lower_digits [OF id_parse_loop_digits [OF loop], folded ns_def]
  have lt: "\<forall>y \<in> set (take 16 ns). unat y < 16" "\<forall>y \<in> set (drop 16 ns). unat y < 16"
    using low(2) by (auto dest: in_set_takeD in_set_dropD)
  have l: "length (take 16 ns) = 16" "length (drop 16 ns) = 16" using len by (simp_all add: ns_def)
  have split: "map (\<lambda>x. hexChar (unat x)) ns =
      map (\<lambda>x. hexChar (unat x)) (take 16 ns) @ map (\<lambda>x. hexChar (unat x)) (drop 16 ns)"
    by (simp flip: map_append)
  have "id_parse_loop 0 (map hex_lower s) 0 0 = Some v"
    using loop by (simp add: id_parse_loop_lower)
  then have "v = Id128 (foldl (\<lambda>d v. push_bit 4 d OR v) 0 (take 16 ns))
                      (foldl (\<lambda>d v. push_bit 4 d OR v) 0 (drop 16 ns))"
    unfolding low(1) split using l(1) id_parse_loop_lo [OF lt(2)] id_parse_loop_hi [OF lt(1)]
    by (simp del: length_take length_drop)
  then have "toHex v = map hex_lower s"
    using toHex64_foldl [OF l(1) lt(1)] toHex64_foldl [OF l(2) lt(2)]
    by (simp add: toHex_def low(1) split)
  then show ?thesis by simp
qed

text \<open>
  The 128-bit identity text codec accepts exactly the spellings of an identity: parsing a string
  yields an identity precisely when the string, with its hexadecimal digits lower-cased, is what
  toHex prints for that identity. In particular parse inverts toHex, every other string is
  rejected, and upper-case spellings are accepted too.
\<close>

theorem id_text_accepts: "id_parse s = Some v \<longleftrightarrow> map hex_lower s = toHex v"
proof
  assume lower: "map hex_lower s = toHex v"
  then have "length s = 32" by (metis length_map length_toHex)
  then have "id_parse s = id_parse (map hex_lower s)"
    by (simp add: id_parse_def id_parse_loop_lower)
  then show "id_parse s = Some v" by (simp add: lower)
qed (rule id_parse_lower)

lemma digest_from_loop_lower: "digest_from_loop (map hex_lower s) = digest_from_loop s"
  by (induction s rule: digest_from_loop.induct) (simp_all add: Let_def)

lemma nibble_parts:
  assumes "0 \<le> h" "h < 16" "0 \<le> l" "l < 16"
  defines "b \<equiv> push_bit 4 (of_int h) OR of_int l :: u8"
  shows "unat (drop_bit 4 b) = nat h" and "unat (b AND 0xF) = nat l"
proof -
  have "\<forall>h \<in> {0..<16}. \<forall>l \<in> {0..<16}. unat (drop_bit 4 (push_bit 4 (of_nat h) OR of_nat l :: u8)) = h \<and>
      unat ((push_bit 4 (of_nat h) OR of_nat l :: u8) AND 0xF) = l"
    by code_simp
  then have "unat (drop_bit 4 (push_bit 4 (of_nat (nat h)) OR of_nat (nat l) :: u8)) = nat h \<and>
      unat ((push_bit 4 (of_nat (nat h)) OR of_nat (nat l) :: u8) AND 0xF) = nat l"
    using assms(1-4) by (metis atLeastLessThan_iff nat_less_iff of_nat_0_le_iff of_nat_numeral zero_le)
  then show "unat (drop_bit 4 b) = nat h" and "unat (b AND 0xF) = nat l"
    using assms(1-4) by (simp_all add: b_def)
qed

lemma digest_from_loop_inv:
  "even (length s) \<Longrightarrow> digest_from_loop s = Some d \<Longrightarrow> map hex_lower s = bytesToHex d"
proof (induction s arbitrary: d rule: digest_from_loop.induct)
  case (1 a b cs)
  then obtain d' where d': "digest_from_loop cs = Some d'" "0 \<le> hexVal a" "0 \<le> hexVal b"
      "d = (push_bit 4 (of_int (hexVal a)) OR of_int (hexVal b)) # d'"
    by (auto simp: Let_def split: if_splits)
  have "hexVal a < 16" "hexVal b < 16" using hexVal_range [of a] hexVal_range [of b] d' by auto
  then show ?case
    using 1 d' nibble_parts [of "hexVal a" "hexVal b"] by (simp add: hex_lower_def)
qed simp_all

text \<open>
  The digest text codec accepts exactly the spellings of a 32-byte digest: digestFromHex yields d
  precisely when d has 32 bytes and the string, lower-cased, is digestToHex d.
\<close>

theorem digest_text_accepts:
  "digestFromHex s = Some d \<longleftrightarrow> length d = 32 \<and> map hex_lower s = digestToHex d"
proof
  assume a: "digestFromHex s = Some d"
  then have "length s = 64" and "map hex_lower s = bytesToHex d"
    using digest_from_loop_inv [of s d] by (auto simp: digestFromHex_def split: if_splits)
  then show "length d = 32 \<and> map hex_lower s = digestToHex d"
    using length_bytesToHex [of d] by (metis digestToHex_def length_map mult_cancel1 mult_2
        numeral_Bit0 zero_neq_numeral)
next
  assume b: "length d = 32 \<and> map hex_lower s = digestToHex d"
  then have "length s = 64"
    by (metis digestToHex_def length_bytesToHex length_map mult_2 numeral_Bit0)
  then show "digestFromHex s = Some d"
    using b digest_from_loop_lower [of s]
    by (simp add: digestFromHex_def digestToHex_def digest_from_bytesToHex)
qed

end
