(* ===== verification/CF_Fips180.thy ===== *)
theory CF_Fips180
  imports CF_Prelude Complex_Main
begin

text \<open>
  SHA-256 as FIPS 180-4 states it, without anything of the program: the constants are the
  leading bits of the fractional parts of roots of primes, rotations and byte orders are
  those of the word library and of the big-endian numerals, and the message is padded,
  cut into blocks and compressed in one go.
\<close>

section \<open>Constants\<close>

definition is_prime :: "nat \<Rightarrow> bool" where
  "is_prime n \<longleftrightarrow> 1 < n \<and> (\<forall>d. d dvd n \<longrightarrow> d = 1 \<or> d = n)"

text \<open>The first 64 primes.\<close>

definition primes64 :: "nat list" where
  "primes64 = filter is_prime [2..<312]"

text \<open>
  The first 32 bits of the fractional parts of the cube roots of these primes, and of the
  square roots of the first eight: a word keeps no more than its 32 bits, so that the
  integer part of the root is dropped.
\<close>

definition fips_K :: "u32 list" where
  "fips_K = map (\<lambda>p. of_int \<lfloor>2 ^ 32 * root 3 (real p)\<rfloor>) primes64"

definition fips_H0 :: "u32 list" where
  "fips_H0 = map (\<lambda>p. of_int \<lfloor>2 ^ 32 * root 2 (real p)\<rfloor>) (take 8 primes64)"

section \<open>The functions of the standard\<close>

definition fips_Ch :: "u32 \<Rightarrow> u32 \<Rightarrow> u32 \<Rightarrow> u32" where
  "fips_Ch x y z = (x AND y) XOR (NOT x AND z)"

definition fips_Maj :: "u32 \<Rightarrow> u32 \<Rightarrow> u32 \<Rightarrow> u32" where
  "fips_Maj x y z = (x AND y) XOR (x AND z) XOR (y AND z)"

definition fips_Sum0 :: "u32 \<Rightarrow> u32" where
  "fips_Sum0 x = word_rotr 2 x XOR word_rotr 13 x XOR word_rotr 22 x"

definition fips_Sum1 :: "u32 \<Rightarrow> u32" where
  "fips_Sum1 x = word_rotr 6 x XOR word_rotr 11 x XOR word_rotr 25 x"

definition fips_sig0 :: "u32 \<Rightarrow> u32" where
  "fips_sig0 x = word_rotr 7 x XOR word_rotr 18 x XOR drop_bit 3 x"

definition fips_sig1 :: "u32 \<Rightarrow> u32" where
  "fips_sig1 x = word_rotr 17 x XOR word_rotr 19 x XOR drop_bit 10 x"

section \<open>Preprocessing\<close>

text \<open>The least number of zero bytes that leaves eight bytes of a block for the length.\<close>

definition fips_zeros :: "nat \<Rightarrow> nat" where
  "fips_zeros n = (LEAST z. (n + 1 + z) mod 64 = 56)"

definition fips_pad :: "bytes \<Rightarrow> bytes" where
  "fips_pad m = m @ [0x80] @ replicate (fips_zeros (length m)) 0 @ be_bytes 8 (8 * length m)"

definition fips_blocks :: "bytes \<Rightarrow> bytes list" where
  "fips_blocks p = map (\<lambda>i. take 64 (drop (64 * i) p)) [0..<length p div 64]"

definition fips_words :: "bytes \<Rightarrow> u32 list" where
  "fips_words b = map (\<lambda>t. of_nat (be_nat (take 4 (drop (4 * t) b)))) [0..<16]"

section \<open>Hash computation\<close>

fun fips_W :: "u32 list \<Rightarrow> nat \<Rightarrow> u32" where
  "fips_W M t = (if t < 16 then M ! t
     else fips_sig1 (fips_W M (t - 2)) + fips_W M (t - 7) + fips_sig0 (fips_W M (t - 15)) + fips_W M (t - 16))"

declare fips_W.simps [simp del]

type_synonym fips_regs = "u32 \<times> u32 \<times> u32 \<times> u32 \<times> u32 \<times> u32 \<times> u32 \<times> u32"

fun fips_round :: "u32 \<Rightarrow> u32 \<Rightarrow> fips_regs \<Rightarrow> fips_regs" where
  "fips_round K W (a, b, c, d, e, f, g, h) =
     (let T1 = h + fips_Sum1 e + fips_Ch e f g + K + W;
          T2 = fips_Sum0 a + fips_Maj a b c
      in (T1 + T2, a, b, c, d + T1, e, f, g))"

fun fips_compress :: "u32 list \<Rightarrow> bytes \<Rightarrow> u32 list" where
  "fips_compress [a, b, c, d, e, f, g, h] block =
     (case fold (\<lambda>t. fips_round (fips_K ! t) (fips_W (fips_words block) t)) [0..<64] (a, b, c, d, e, f, g, h) of
        (a', b', c', d', e', f', g', h') \<Rightarrow> [a' + a, b' + b, c' + c, d' + d, e' + e, f' + f, g' + g, h' + h])"
| "fips_compress _ block = []"

definition fips_sha256 :: "bytes \<Rightarrow> bytes" where
  "fips_sha256 m = concat (map (\<lambda>x. be_bytes 4 (unat x)) (foldl fips_compress fips_H0 (fips_blocks (fips_pad m))))"

section \<open>The constants as numbers\<close>

text \<open>A number below 324 that is not prime has one of seven primes as a proper divisor.\<close>

lemma small_factor: "1 < d \<Longrightarrow> d < 18 \<Longrightarrow> \<exists>p \<in> {2, 3, 5, 7, 11, 13, 17}. p dvd (d :: nat)"
proof -
  have "list_all (\<lambda>d. \<exists>p \<in> {2, 3, 5, 7, 11, 13, 17}. p dvd (d :: nat)) [2..<18]" by simp
  then show "1 < d \<Longrightarrow> d < 18 \<Longrightarrow> \<exists>p \<in> {2, 3, 5, 7, 11, 13, 17}. p dvd (d :: nat)"
    by (simp only: list_all_iff set_upt) auto
qed

lemma is_prime_small:
  assumes "1 < n" "n < 324"
  shows "is_prime n \<longleftrightarrow> (\<forall>p \<in> {2, 3, 5, 7, 11, 13, 17}. p dvd n \<longrightarrow> p = n)"
proof
  assume "is_prime n"
  then show "\<forall>p \<in> {2, 3, 5, 7, 11, 13, 17}. p dvd n \<longrightarrow> p = n" unfolding is_prime_def by fastforce
next
  assume small: "\<forall>p \<in> {2, 3, 5, 7, 11, 13, 17}. p dvd n \<longrightarrow> p = n"
  have none: "d = n" if "d dvd n" "1 < d" "d < 18" for d
  proof -
    obtain p where "p \<in> {2, 3, 5, 7, 11, 13, 17}" "p dvd d" using small_factor \<open>1 < d\<close> \<open>d < 18\<close> by blast
    then have "p dvd d" "p = n" using small \<open>d dvd n\<close> dvd_trans by blast+
    then show ?thesis using \<open>d dvd n\<close> dvd_antisym by blast
  qed
  show "is_prime n" unfolding is_prime_def
  proof (intro conjI allI impI)
    fix d assume "d dvd n"
    then obtain e where e: "n = d * e" by blast
    show "d = 1 \<or> d = n"
    proof (rule ccontr)
      assume d: "\<not> (d = 1 \<or> d = n)"
      then have "1 < d" "1 < e" using e assms(1) by (cases d; cases e; auto)+
      moreover have "d < 18 \<or> e < 18"
      proof (rule ccontr)
        assume "\<not> (d < 18 \<or> e < 18)"
        then have "18 * 18 \<le> d * e" by (intro mult_le_mono) simp_all
        then show False using e assms(2) by simp
      qed
      ultimately have "d = n \<or> e = n" using none [of d] none [of e] \<open>d dvd n\<close> e by (metis dvd_triv_right)
      then show False using d e \<open>1 < d\<close> assms(1) by auto
    qed
  qed (rule assms(1))
qed

definition test_prime :: "nat \<Rightarrow> bool" where
  "test_prime n \<longleftrightarrow> (\<forall>p \<in> {2, 3, 5, 7, 11, 13, 17}. p dvd n \<longrightarrow> p = n)"

lemma test_primes:
  "filter test_prime [2..<64] = [2, 3, 5, 7, 11, 13, 17, 19, 23, 29, 31, 37, 41, 43, 47, 53, 59, 61]"
  "filter test_prime [64..<126] = [67, 71, 73, 79, 83, 89, 97, 101, 103, 107, 109, 113]"
  "filter test_prime [126..<188] = [127, 131, 137, 139, 149, 151, 157, 163, 167, 173, 179, 181]"
  "filter test_prime [188..<250] = [191, 193, 197, 199, 211, 223, 227, 229, 233, 239, 241]"
  "filter test_prime [250..<312] = [251, 257, 263, 269, 271, 277, 281, 283, 293, 307, 311]"
  by (simp_all add: test_prime_def)

lemma primes64_list: "primes64 =
    [2, 3, 5, 7, 11, 13, 17, 19, 23, 29, 31, 37, 41, 43, 47, 53,
     59, 61, 67, 71, 73, 79, 83, 89, 97, 101, 103, 107, 109, 113, 127, 131,
     137, 139, 149, 151, 157, 163, 167, 173, 179, 181, 191, 193, 197, 199, 211, 223,
     227, 229, 233, 239, 241, 251, 257, 263, 269, 271, 277, 281, 283, 293, 307, 311]"
proof -
  have "primes64 = filter test_prime [2..<312]"
    unfolding primes64_def
  proof (rule filter_cong)
    fix n :: nat assume "n \<in> set [2..<312]"
    then have "1 < n" "n < 324" unfolding set_upt by auto
    then show "is_prime n = test_prime n" unfolding test_prime_def by (rule is_prime_small)
  qed (rule refl)
  also have "[2..<312] = [2..<64] @ [64..<126] @ [126..<188] @ [188..<250] @ [250..<312]"
    using upt_add_eq_append [of 2 64 62] upt_add_eq_append [of 2 126 62] upt_add_eq_append [of 2 188 62] upt_add_eq_append [of 2 250 62]
    by (simp del: upt_rec_numeral)
  finally show ?thesis unfolding filter_append test_primes by (simp only: append_Cons append_Nil)
qed

text \<open>A root scaled by 2 to the 32 lies between two neighbouring integers when its power does.\<close>

lemma root_floor:
  assumes "0 < k" "0 \<le> x" "x ^ k \<le> int p * 2 ^ (32 * k)" "int p * 2 ^ (32 * k) < (x + 1) ^ k"
  shows "\<lfloor>2 ^ 32 * root k (real p)\<rfloor> = x"
proof (rule floor_unique)
  have r: "2 ^ 32 * root k (real p) = root k (real p * 2 ^ (32 * k))"
  proof -
    have "root k ((2 ^ 32) ^ k) = 2 ^ 32" using assms(1) by (intro real_root_power_cancel) simp_all
    then show ?thesis by (simp only: real_root_mult power_mult mult.commute [of "2 ^ 32"])
  qed
  have "real_of_int (x ^ k) \<le> real_of_int (int p * 2 ^ (32 * k))" using assms(3) by (simp only: of_int_le_iff)
  then have "root k (real_of_int x ^ k) \<le> root k (real p * 2 ^ (32 * k))" using assms(1) by simp
  then show "real_of_int x \<le> 2 ^ 32 * root k (real p)" using assms(1,2) unfolding r by (simp add: real_root_power_cancel)
  have "real_of_int (int p * 2 ^ (32 * k)) < real_of_int ((x + 1) ^ k)" using assms(4) by (simp only: of_int_less_iff)
  then have "root k (real p * 2 ^ (32 * k)) < root k ((real_of_int x + 1) ^ k)" using assms(1) by simp
  then show "2 ^ 32 * root k (real p) < real_of_int x + 1" using assms(1,2) unfolding r by (simp add: real_root_power_cancel)
qed

definition root_between :: "nat \<Rightarrow> nat \<Rightarrow> int \<Rightarrow> bool" where
  "root_between k p x \<longleftrightarrow> 0 \<le> x \<and> x ^ k \<le> int p * 2 ^ (32 * k) \<and> int p * 2 ^ (32 * k) < (x + 1) ^ k"

lemma roots_floor:
  assumes "0 < k" "list_all2 (root_between k) ps xs"
  shows "map (\<lambda>p. of_int \<lfloor>2 ^ 32 * root k (real p)\<rfloor>) ps = (map of_int xs :: u32 list)"
proof -
  have "list_all2 (\<lambda>p x. \<lfloor>2 ^ 32 * root k (real p)\<rfloor> = x) ps xs"
    using assms(2) by (rule list_all2_mono) (auto simp only: root_between_def intro!: root_floor [OF assms(1)])
  then show ?thesis by (induction rule: list_all2_induct) (simp_all only: list.map)
qed

lemma fips_K_words: "fips_K =
    [0x428a2f98, 0x71374491, 0xb5c0fbcf, 0xe9b5dba5, 0x3956c25b, 0x59f111f1, 0x923f82a4, 0xab1c5ed5,
     0xd807aa98, 0x12835b01, 0x243185be, 0x550c7dc3, 0x72be5d74, 0x80deb1fe, 0x9bdc06a7, 0xc19bf174,
     0xe49b69c1, 0xefbe4786, 0xfc19dc6, 0x240ca1cc, 0x2de92c6f, 0x4a7484aa, 0x5cb0a9dc, 0x76f988da,
     0x983e5152, 0xa831c66d, 0xb00327c8, 0xbf597fc7, 0xc6e00bf3, 0xd5a79147, 0x6ca6351, 0x14292967,
     0x27b70a85, 0x2e1b2138, 0x4d2c6dfc, 0x53380d13, 0x650a7354, 0x766a0abb, 0x81c2c92e, 0x92722c85,
     0xa2bfe8a1, 0xa81a664b, 0xc24b8b70, 0xc76c51a3, 0xd192e819, 0xd6990624, 0xf40e3585, 0x106aa070,
     0x19a4c116, 0x1e376c08, 0x2748774c, 0x34b0bcb5, 0x391c0cb3, 0x4ed8aa4a, 0x5b9cca4f, 0x682e6ff3,
     0x748f82ee, 0x78a5636f, 0x84c87814, 0x8cc70208, 0x90befffa, 0xa4506ceb, 0xbef9a3f7, 0xc67178f2]"
proof -
  have "list_all2 (root_between 3) primes64
    [5411319704, 6194414737, 7344290767, 8215976869, 9551921755, 10098905585, 11043570340, 11460697813,
     12214315672, 13195500289, 13492127166, 14311783875, 14809980276, 15046980094, 15499789991, 16133124468,
     16720292289, 16907126662, 17444216262, 17784676812, 17950125167, 18429019306, 18734950876, 19175934170,
     19734090066, 20001703533, 20132865992, 20390182855, 20516441075, 20764397895, 21588763473, 21813078375,
     22141143685, 22248366392, 22769593852, 22871018771, 23170020180, 23461497531, 23651862830, 23931792517,
     24205322401, 24295138891, 24734567280, 24820601251, 24990902297, 25075189284, 25569408389, 26045227120,
     26200031510, 26276752392, 26428864332, 26653801653, 26727943347, 27092625994, 27306805839, 27517677555,
     27725365998, 27793908591, 27997534228, 28131656200, 28198240250, 28526537963, 28973835255, 29099129074]"
    unfolding primes64_list by (simp add: root_between_def)
  from roots_floor [OF _ this] show ?thesis unfolding fips_K_def by simp
qed

lemma fips_H0_words: "fips_H0 =
    [0x6a09e667, 0xbb67ae85, 0x3c6ef372, 0xa54ff53a, 0x510e527f, 0x9b05688c, 0x1f83d9ab, 0x5be0cd19]"
proof -
  have "list_all2 (root_between 2) (take 8 primes64)
    [6074000999, 7439101573, 9603838834, 11363415354, 14244795007, 15485724812, 17708603819, 18721328409]"
    by (simp add: primes64_list root_between_def)
  from roots_floor [OF _ this] show ?thesis unfolding fips_H0_def by simp
qed

section \<open>Padding and blocks\<close>

lemma zeros_count:
  assumes "r < 64"
  shows "(119 - r) mod 64 = (if r \<le> 55 then 55 - r else 119 - (r :: nat))"
proof (cases "r \<le> 55")
  case True
  then have "119 - r = (55 - r) + 64" by simp
  then show ?thesis using True by (simp only: mod_add_self2) simp
qed (use assms in simp)

lemma mod_56: "x < 128 \<Longrightarrow> x mod 64 = 56 \<longleftrightarrow> x = 56 \<or> x = (120 :: nat)"
  by (cases "x < 64") (auto simp: le_mod_geq)

lemma zeros_fit: "z < 64 \<Longrightarrow> (n + 1 + z) mod 64 = 56 \<longleftrightarrow> n mod 64 + 1 + z = 56 \<or> n mod 64 + 1 + z = (120 :: nat)"
proof -
  assume "z < 64"
  moreover have "n mod 64 < 64" by simp
  moreover have "(n + 1 + z) mod 64 = (n mod 64 + 1 + z) mod 64" by (metis add.assoc mod_add_left_eq)
  ultimately show ?thesis using mod_56 [of "n mod 64 + 1 + z"] by simp
qed

lemma zeros_enough: "(n + 1 + (119 - n mod 64) mod 64) mod 64 = (56 :: nat)"
proof -
  have "n mod 64 < 64" by simp
  then show ?thesis by (subst zeros_fit) (auto simp: zeros_count)
qed

lemma fips_zeros_eq: "fips_zeros n = (119 - n mod 64) mod 64"
  unfolding fips_zeros_def
proof (rule Least_equality)
  fix z assume z: "(n + 1 + z) mod 64 = 56"
  have "n mod 64 < 64" by simp
  then show "(119 - n mod 64) mod 64 \<le> z" using z zeros_fit [of z n] zeros_count [of "n mod 64"] by (cases "z < 64") auto
qed (rule zeros_enough)

lemma length_fips_pad: "length (fips_pad m) mod 64 = 0"
proof -
  have "(length m + 1 + fips_zeros (length m) + 8) mod 64 = (56 + 8) mod 64"
    using zeros_enough [of "length m"] unfolding fips_zeros_eq by (metis mod_add_left_eq)
  then show ?thesis by (simp add: fips_pad_def add.assoc add.left_commute add.commute)
qed

lemma fips_blocks_step: "64 \<le> length p \<Longrightarrow> fips_blocks p = take 64 p # fips_blocks (drop 64 p)"
proof -
  assume "64 \<le> length p"
  then have "length p div 64 = Suc ((length p - 64) div 64)" by (simp add: le_div_geq)
  then show ?thesis by (simp add: fips_blocks_def upt_conv_Cons flip: map_Suc_upt del: upt_Suc) (simp add: add.commute)
qed

lemma fips_blocks_short: "length p < 64 \<Longrightarrow> fips_blocks p = []"
  by (simp add: fips_blocks_def)

lemma fips_blocks_length: "b \<in> set (fips_blocks p) \<Longrightarrow> length b = 64"
  by (auto simp: fips_blocks_def)

lemma length_fips_compress: "length H = 8 \<Longrightarrow> length (fips_compress H b) = 8"
  by (cases "(H, b)" rule: fips_compress.cases) (auto split: prod.splits)

end
