(* ===== verification/CF_Sha256.thy ===== *)
theory CF_Sha256
  imports CF_Core CF_Fips180
begin

text \<open>
  The streaming SHA-256 of \<open>src/Core.cpp\<close>: the context with its 64-byte buffer,
  the compression function, \<open>update\<close>, \<open>final\<close> and \<open>hash\<close>. It is proved
  equal to the one-shot definition of the standard in \<open>CF_Fips180\<close>, independent of how
  the input is split over \<open>update\<close> calls, and both loops end.
\<close>

section \<open>Compression function\<close>

definition sha_K :: "u32 list" where
  "sha_K =
    [0x428a2f98, 0x71374491, 0xb5c0fbcf, 0xe9b5dba5, 0x3956c25b, 0x59f111f1, 0x923f82a4, 0xab1c5ed5,
     0xd807aa98, 0x12835b01, 0x243185be, 0x550c7dc3, 0x72be5d74, 0x80deb1fe, 0x9bdc06a7, 0xc19bf174,
     0xe49b69c1, 0xefbe4786, 0x0fc19dc6, 0x240ca1cc, 0x2de92c6f, 0x4a7484aa, 0x5cb0a9dc, 0x76f988da,
     0x983e5152, 0xa831c66d, 0xb00327c8, 0xbf597fc7, 0xc6e00bf3, 0xd5a79147, 0x06ca6351, 0x14292967,
     0x27b70a85, 0x2e1b2138, 0x4d2c6dfc, 0x53380d13, 0x650a7354, 0x766a0abb, 0x81c2c92e, 0x92722c85,
     0xa2bfe8a1, 0xa81a664b, 0xc24b8b70, 0xc76c51a3, 0xd192e819, 0xd6990624, 0xf40e3585, 0x106aa070,
     0x19a4c116, 0x1e376c08, 0x2748774c, 0x34b0bcb5, 0x391c0cb3, 0x4ed8aa4a, 0x5b9cca4f, 0x682e6ff3,
     0x748f82ee, 0x78a5636f, 0x84c87814, 0x8cc70208, 0x90befffa, 0xa4506ceb, 0xbef9a3f7, 0xc67178f2]"

definition rotr :: "u32 \<Rightarrow> nat \<Rightarrow> u32" where
  "rotr x n = drop_bit n x OR push_bit (32 - n) x"

definition bsig0 :: "u32 \<Rightarrow> u32" where
  "bsig0 x = rotr x 2 XOR rotr x 13 XOR rotr x 22"

definition bsig1 :: "u32 \<Rightarrow> u32" where
  "bsig1 x = rotr x 6 XOR rotr x 11 XOR rotr x 25"

definition ssig0 :: "u32 \<Rightarrow> u32" where
  "ssig0 x = rotr x 7 XOR rotr x 18 XOR drop_bit 3 x"

definition ssig1 :: "u32 \<Rightarrow> u32" where
  "ssig1 x = rotr x 17 XOR rotr x 19 XOR drop_bit 10 x"

definition sha_init :: "u32 list" where
  "sha_init =
    [0x6a09e667, 0xbb67ae85, 0x3c6ef372, 0xa54ff53a,
     0x510e527f, 0x9b05688c, 0x1f83d9ab, 0x5be0cd19]"

text \<open>The message schedule \<open>w\<close>: sixteen big-endian words of the block, then 48 more.\<close>

definition sha_load :: "bytes \<Rightarrow> u32 list" where
  "sha_load block = map (\<lambda>i.
     push_bit 24 (ucast (block ! (i * 4))) OR push_bit 16 (ucast (block ! (i * 4 + 1))) OR
     push_bit 8 (ucast (block ! (i * 4 + 2))) OR ucast (block ! (i * 4 + 3))) [0..<16]"

fun sha_expand :: "nat \<Rightarrow> u32 list \<Rightarrow> u32 list" where
  "sha_expand 0 w = w"
| "sha_expand (Suc n) w =
     (let i = length w
      in sha_expand n (w @ [ssig1 (w ! (i - 2)) + w ! (i - 7) + ssig0 (w ! (i - 15)) + w ! (i - 16)]))"

definition sha_schedule :: "bytes \<Rightarrow> u32 list" where
  "sha_schedule block = sha_expand 48 (sha_load block)"

type_synonym sha_regs = "u32 \<times> u32 \<times> u32 \<times> u32 \<times> u32 \<times> u32 \<times> u32 \<times> u32"

definition sha_round :: "u32 \<times> u32 \<Rightarrow> sha_regs \<Rightarrow> sha_regs" where
  "sha_round kw r = (case r of (a, b, c, d, e, f, g, h) \<Rightarrow>
     let t1 = h + bsig1 e + ((e AND f) XOR (NOT e AND g)) + fst kw + snd kw;
         t2 = bsig0 a + ((a AND b) XOR (a AND c) XOR (b AND c))
     in (t1 + t2, a, b, c, d + t1, e, f, g))"

definition sha_transform :: "u32 list \<Rightarrow> bytes \<Rightarrow> u32 list" where
  "sha_transform st block =
     (case fold sha_round (zip sha_K (sha_schedule block))
             (st ! 0, st ! 1, st ! 2, st ! 3, st ! 4, st ! 5, st ! 6, st ! 7) of
        (a, b, c, d, e, f, g, h) \<Rightarrow>
          [st ! 0 + a, st ! 1 + b, st ! 2 + c, st ! 3 + d,
           st ! 4 + e, st ! 5 + f, st ! 6 + g, st ! 7 + h])"

section \<open>The streaming context\<close>

text \<open>
  \<open>sha_buffer\<close> holds the \<open>bufferLen_\<close> live bytes of the C array \<open>buffer_\<close>; the
  bytes beyond are never read.
\<close>

record Sha256 =
  sha_state :: "u32 list"
  sha_bitLen :: u64
  sha_buffer :: bytes

definition Sha256_new :: Sha256 where
  "Sha256_new = \<lparr>sha_state = sha_init, sha_bitLen = 0, sha_buffer = []\<rparr>"

text \<open>
  The copy loop of \<open>update\<close>. A full buffer on entry would make the C++ loop spin
  (\<open>take\<close> is then 0); \<open>sha_wf\<close>, which the constructor establishes and every
  operation keeps, excludes it, and the model stops there.
\<close>

function sha_feed :: "u32 list \<Rightarrow> bytes \<Rightarrow> bytes \<Rightarrow> u32 list \<times> bytes" where
  "sha_feed st buf p =
     (if p = [] \<or> 64 \<le> length buf then (st, buf)
      else let tk = min (64 - length buf) (length p);
               buf' = buf @ take tk p;
               p' = drop tk p
           in if length buf' = 64 then sha_feed (sha_transform st buf') [] p'
              else sha_feed st buf' p')"
  by pat_completeness auto
termination
  by (relation "measure (\<lambda>(st, buf, p). length p)") auto

declare sha_feed.simps [simp del]

definition sha_update :: "Sha256 \<Rightarrow> bytes \<Rightarrow> Sha256" where
  "sha_update s data =
     (let r = sha_feed (sha_state s) (sha_buffer s) data
      in \<lparr>sha_state = fst r, sha_bitLen = sha_bitLen s + of_nat (length data) * 8, sha_buffer = snd r\<rparr>)"

definition sha_wf :: "Sha256 \<Rightarrow> bool" where
  "sha_wf s \<longleftrightarrow> length (sha_buffer s) < 64"

lemma length_sha_feed1:
  "length buf < 64 \<Longrightarrow>
   length (snd (sha_feed st buf [b])) = (if length buf = 63 then 0 else Suc (length buf))"
  by (auto simp: sha_feed.simps [of st buf "[b]"] sha_feed.simps [of _ _ "[]"] Let_def)

lemma pad_measure:
  fixes n :: nat
  shows "n \<noteq> 56 \<Longrightarrow> n < 64 \<Longrightarrow> (119 - n) mod 64 < (120 - n) mod 64"
proof (cases "n < 56")
  case True
  then have "119 - n = (55 - n) + 64" and "120 - n = (56 - n) + 64" by auto
  then have "(119 - n) mod 64 = 55 - n" and "(120 - n) mod 64 = 56 - n"
    by (simp_all only: mod_add_self2) auto
  then show ?thesis using True by simp
qed auto

text \<open>The padding loop of \<open>final\<close>: one zero byte at a time until 56 bytes are buffered.\<close>

function sha_zeros :: "Sha256 \<Rightarrow> Sha256" where
  "sha_zeros s =
     (if length (sha_buffer s) = 56 \<or> 64 \<le> length (sha_buffer s) then s
      else sha_zeros (sha_update s [0]))"
  by pat_completeness auto
termination
  by (relation "measure (\<lambda>s :: Sha256. (120 - length (sha_buffer s)) mod 64)")
    (auto simp: sha_update_def length_sha_feed1 Let_def pad_measure split: if_splits)

declare sha_zeros.simps [simp del]

definition sha_len_bytes :: "u64 \<Rightarrow> bytes" where
  "sha_len_bytes bits = map (\<lambda>i. ucast (drop_bit ((7 - i) * 8) bits AND 0xFF)) [0..<8]"

definition sha_output :: "u32 list \<Rightarrow> Digest" where
  "sha_output st = concat (map (\<lambda>x.
     [ucast (drop_bit 24 x AND 0xFF), ucast (drop_bit 16 x AND 0xFF),
      ucast (drop_bit 8 x AND 0xFF), ucast (x AND 0xFF)]) st)"

definition sha_final :: "Sha256 \<Rightarrow> Digest" where
  "sha_final s =
     (let bits = sha_bitLen s;
          s1 = sha_update s [0x80];
          s2 = sha_zeros s1;
          s3 = sha_update s2 (sha_len_bytes bits)
      in sha_output (sha_state s3))"

definition sha256 :: "bytes \<Rightarrow> Digest" where
  "sha256 data = sha_final (sha_update Sha256_new data)"

section \<open>The one-shot form\<close>

text \<open>The same compression function on the padded message, on the way to the standard.\<close>

function sha_blocks :: "u32 list \<Rightarrow> bytes \<Rightarrow> u32 list" where
  "sha_blocks st m =
     (if length m < 64 then st else sha_blocks (sha_transform st (take 64 m)) (drop 64 m))"
  by pat_completeness auto
termination
  by (relation "measure (\<lambda>(st, m). length m)") auto

declare sha_blocks.simps [simp del]

definition sha_rest :: "bytes \<Rightarrow> bytes" where
  "sha_rest m = drop (length m div 64 * 64) m"

definition sha_pad :: "bytes \<Rightarrow> bytes" where
  "sha_pad m = m @ [0x80] @ replicate ((119 - length m mod 64) mod 64) 0
     @ sha_len_bytes (of_nat (length m) * 8)"

definition sha_oneshot :: "bytes \<Rightarrow> Digest" where
  "sha_oneshot m = sha_output (sha_blocks sha_init (sha_pad m))"

lemma sha_rest_short: "length m < 64 \<Longrightarrow> sha_rest m = m"
  by (simp add: sha_rest_def)

lemma sha_rest_drop: "64 \<le> length m \<Longrightarrow> sha_rest (drop 64 m) = sha_rest m"
proof -
  assume "64 \<le> length m"
  then have "length m div 64 = Suc ((length m - 64) div 64)" by (simp add: le_div_geq)
  then show ?thesis by (simp add: sha_rest_def algebra_simps)
qed

lemma length_sha_rest: "length (sha_rest m) = length m mod 64"
  by (simp add: sha_rest_def minus_div_mult_eq_mod)

lemma sha_feed_blocks:
  "length buf < 64 \<Longrightarrow> sha_feed st buf p = (sha_blocks st (buf @ p), sha_rest (buf @ p))"
proof (induction st buf p rule: sha_feed.induct)
  case (1 st buf p)
  let ?tk = "min (64 - length buf) (length p)"
  let ?buf = "buf @ take ?tk p"
  show ?case
  proof (cases "p = []")
    case True
    then show ?thesis using "1.prems"
      by (simp add: sha_feed.simps [of st buf] sha_blocks.simps [of st buf] sha_rest_short)
  next
    case ne: False
    show ?thesis
    proof (cases "length ?buf = 64")
      case True
      then have tk: "?tk = 64 - length buf" by auto
      have "sha_feed st buf p = sha_feed (sha_transform st ?buf) [] (drop ?tk p)"
        using ne "1.prems" True by (simp add: sha_feed.simps [of st buf] Let_def)
      also have "\<dots> = (sha_blocks (sha_transform st ?buf) (drop ?tk p), sha_rest (drop ?tk p))"
        using "1.IH"(1) ne "1.prems" True by simp
      finally have "sha_feed st buf p = \<dots>" .
      moreover have "?buf = take 64 (buf @ p)" and "drop ?tk p = drop 64 (buf @ p)"
        using tk "1.prems" by simp_all
      moreover have "64 \<le> length (buf @ p)" using True by auto
      ultimately show ?thesis
        by (simp only: sha_blocks.simps [of st "buf @ p"] sha_rest_drop if_not_P not_less if_False)
    next
      case False
      then have all: "?tk = length p" and lt: "length buf + length p < 64" using "1.prems" by auto
      have "sha_feed st buf p = sha_feed st ?buf (drop ?tk p)"
        using ne lt all by (simp add: sha_feed.simps [of st buf p] Let_def)
      also have "\<dots> = (sha_blocks st (buf @ p), sha_rest (buf @ p))"
        using lt by (simp add: all sha_feed.simps [of st "buf @ p"] sha_rest_short
            sha_blocks.simps [of st "buf @ p"])
      finally show ?thesis .
    qed
  qed
qed

lemma sha_blocks_append: "sha_blocks st (m @ q) = sha_blocks (sha_blocks st m) (sha_rest m @ q)"
proof (induction st m rule: sha_blocks.induct)
  case (1 st m)
  show ?case
  proof (cases "length m < 64")
    case True
    then show ?thesis by (simp add: sha_rest_short sha_blocks.simps [of st m])
  next
    case False
    then have "sha_blocks st (m @ q) = sha_blocks (sha_transform st (take 64 m)) (drop 64 m @ q)"
      by (simp add: sha_blocks.simps [of st "m @ q"])
    then show ?thesis
      using "1.IH" False by (simp add: sha_rest_drop sha_blocks.simps [of st m])
  qed
qed

lemma sha_rest_append: "sha_rest (m @ q) = sha_rest (sha_rest m @ q)"
proof -
  define k where "k = length m div 64 * 64"
  have k: "k \<le> length m" by (simp add: k_def)
  have m: "m = take k m @ sha_rest m" by (simp add: sha_rest_def k_def)
  have "length (m @ q) = k + length (sha_rest m @ q)"
    using k by (simp add: sha_rest_def flip: k_def)
  moreover have "(k + j) div 64 * 64 = k + j div 64 * 64" for j
    by (simp add: k_def)
  ultimately have "sha_rest (m @ q) = drop (k + length (sha_rest m @ q) div 64 * 64) (m @ q)"
    by (simp only: sha_rest_def)
  also have "\<dots> = drop (k + length (sha_rest m @ q) div 64 * 64) (take k m @ (sha_rest m @ q))"
    using m by (metis append.assoc)
  finally show ?thesis
    using k by (simp add: sha_rest_def [of "sha_rest m @ q"])
qed

section \<open>Streaming equals one-shot\<close>

lemma sha_update_blocks:
  assumes "sha_wf s"
  shows "sha_update s d =
     \<lparr>sha_state = sha_blocks (sha_state s) (sha_buffer s @ d),
      sha_bitLen = sha_bitLen s + of_nat (length d) * 8,
      sha_buffer = sha_rest (sha_buffer s @ d)\<rparr>"
  using assms by (simp add: sha_update_def sha_wf_def sha_feed_blocks)

lemma sha_wf_new [simp]: "sha_wf Sha256_new"
  by (simp add: sha_wf_def Sha256_new_def)

lemma sha_wf_update [simp]: "sha_wf s \<Longrightarrow> sha_wf (sha_update s d)"
  by (simp add: sha_update_blocks) (simp add: sha_wf_def length_sha_rest)

lemma sha_update_Nil: "sha_wf s \<Longrightarrow> sha_update s [] = s"
  by (simp add: sha_update_blocks sha_wf_def sha_blocks.simps sha_rest_short)

lemma sha_update_append:
  assumes "sha_wf s"
  shows "sha_update (sha_update s a) b = sha_update s (a @ b)"
  using assms sha_wf_update [OF assms, of a]
    sha_blocks_append [of "sha_state s" "sha_buffer s @ a" b]
    sha_rest_append [of "sha_buffer s @ a" b]
  by (simp add: sha_update_blocks algebra_simps)

lemma length_buffer_update:
  "sha_wf s \<Longrightarrow>
   length (sha_buffer (sha_update s d)) = (length (sha_buffer s) + length d) mod 64"
  by (simp add: sha_update_blocks length_sha_rest)

lemma sha_zeros_replicate:
  "sha_wf s \<Longrightarrow>
   sha_zeros s = sha_update s (replicate ((120 - length (sha_buffer s)) mod 64) 0)"
proof (induction s rule: sha_zeros.induct)
  case (1 s)
  let ?n = "length (sha_buffer s)"
  have n: "?n < 64" using "1.prems" by (simp add: sha_wf_def)
  show ?case
  proof (cases "?n = 56")
    case True
    then show ?thesis using "1.prems" by (simp add: sha_zeros.simps [of s] sha_update_Nil)
  next
    case False
    have "length (sha_buffer (sha_update s [0])) = Suc ?n mod 64"
      using "1.prems" by (simp add: length_buffer_update)
    moreover have "(120 - ?n) mod 64 = Suc ((120 - Suc ?n mod 64) mod 64)"
      using n False by (cases "?n = 63") (auto simp: mod_if)
    ultimately show ?thesis
      using "1.IH" "1.prems" False n
      by (simp add: sha_zeros.simps [of s] sha_update_append)
  qed
qed

lemma sha_feed_input:
  "length (sha_buffer (sha_update Sha256_new m)) = length m mod 64"
  by (simp add: length_buffer_update) (simp add: Sha256_new_def)

lemma sha_final_update:
  "sha_final (sha_update Sha256_new m) = sha_oneshot m"
proof -
  let ?s = "sha_update Sha256_new m"
  have b: "sha_bitLen ?s = of_nat (length m) * 8"
    by (simp add: sha_update_def Sha256_new_def Let_def)
  have l: "length (sha_buffer (sha_update ?s [0x80])) = (length m + 1) mod 64"
    by (simp add: length_buffer_update sha_feed_input) (simp add: mod_Suc_eq)
  have "(120 - Suc (length m) mod 64) mod 64 = (119 - length m mod 64) mod (64::nat)"
    by (cases "length m mod 64 = 63") (simp_all add: mod_Suc)
  then have "sha_zeros (sha_update ?s [0x80]) =
      sha_update Sha256_new (m @ [0x80] @ replicate ((119 - length m mod 64) mod 64) 0)"
    using l by (simp add: sha_zeros_replicate sha_update_append)
  then have "sha_final ?s = sha_output (sha_state (sha_update Sha256_new (sha_pad m)))"
    by (simp add: sha_final_def b Let_def sha_update_append sha_pad_def)
  then show ?thesis
    by (simp add: sha_oneshot_def sha_update_blocks) (simp add: Sha256_new_def)
qed

lemma length_sha_transform [simp]: "length (sha_transform st b) = 8"
  by (simp add: sha_transform_def split: prod.splits)

lemma length_sha_blocks: "length st = 8 \<Longrightarrow> length (sha_blocks st m) = 8"
  by (induction st m rule: sha_blocks.induct) (simp add: sha_blocks.simps)

lemma length_sha_output: "length (sha_output st) = 4 * length st"
  by (induction st) (simp_all add: sha_output_def)

lemma length_sha256 [simp]: "length (sha256 m) = 32"
  by (simp add: sha256_def sha_final_update sha_oneshot_def length_sha_output
      length_sha_blocks sha_init_def)

section \<open>The program and the standard\<close>

lemma rotr_word_rotr: "0 < n \<Longrightarrow> n < 32 \<Longrightarrow> rotr x n = word_rotr n x"
proof (rule bit_word_eqI)
  fix i assume n: "0 < n" "n < 32" and "i < LENGTH(32)"
  then have i: "i < 32" by simp
  show "bit (rotr x n) i = bit (word_rotr n x) i"
  proof (cases "i + n < 32")
    case True
    then show ?thesis using i n by (auto simp: rotr_def bit_simps add.commute)
  next
    case False
    then have "(i + n) mod 32 = i + n - 32" using i n by (simp add: le_mod_geq)
    moreover have "i - (32 - n) = i + n - 32" "\<not> n + i < 32" using False n by simp_all
    ultimately show ?thesis using i n False by (auto simp: rotr_def bit_simps dest: bit_imp_le_length)
  qed
qed

lemma sigmas: "bsig0 x = fips_Sum0 x" "bsig1 x = fips_Sum1 x" "ssig0 x = fips_sig0 x" "ssig1 x = fips_sig1 x"
  by (simp_all add: bsig0_def bsig1_def ssig0_def ssig1_def fips_Sum0_def fips_Sum1_def fips_sig0_def fips_sig1_def rotr_word_rotr)

lemma constants: "sha_K = fips_K" "sha_init = fips_H0"
  by (simp_all add: sha_K_def sha_init_def fips_K_words fips_H0_words)

lemma load_word: "push_bit 24 (ucast a) OR push_bit 16 (ucast b) OR push_bit 8 (ucast c) OR ucast d = (of_nat (be_nat [a, b, c, d]) :: u32)"
proof -
  have "be_join [a, b, c, d] = (push_bit 24 (ucast a) OR push_bit 16 (ucast b) OR push_bit 8 (ucast c) OR ucast d :: u32)"
    by (simp add: be_join_def push_bit_or or.assoc)
  moreover have "of_nat (be_nat [a, b, c, d]) = (be_join [a, b, c, d] :: u32)"
    by (simp add: unat_be_join [of "[a, b, c, d]", where 'a = 32, symmetric])
  ultimately show ?thesis by simp
qed

lemma sha_load_words: "length block = 64 \<Longrightarrow> sha_load block = fips_words block"
proof -
  assume l: "length block = 64"
  have "take 4 (drop (4 * t) block) = [block ! (t * 4), block ! (t * 4 + 1), block ! (t * 4 + 2), block ! (t * 4 + 3)]" if "t < 16" for t
    using that l by (simp add: numeral_eq_Suc take_Suc_conv_app_nth mult.commute)
  then show ?thesis by (auto simp: sha_load_def fips_words_def load_word)
qed

lemma sha_expand_W:
  "16 \<le> n \<Longrightarrow> sha_expand k (map (fips_W M) [0..<n]) = map (fips_W M) [0..<n + k]"
proof (induction k arbitrary: n)
  case (Suc k)
  let ?w = "map (fips_W M) [0..<n]"
  have "fips_W M n = ssig1 (?w ! (n - 2)) + ?w ! (n - 7) + ssig0 (?w ! (n - 15)) + ?w ! (n - 16)"
    using Suc.prems by (simp add: fips_W.simps [of M n] sigmas)
  then show ?case using Suc.IH [of "Suc n"] Suc.prems by (simp add: Let_def)
qed simp

lemma sha_schedule_W: "length block = 64 \<Longrightarrow> sha_schedule block = map (fips_W (fips_words block)) [0..<64]"
proof -
  assume l: "length block = 64"
  have "fips_words block = map (fips_W (fips_words block)) [0..<16]"
    by (rule nth_equalityI) (simp_all add: fips_words_def fips_W.simps)
  then have "sha_load block = map (fips_W (fips_words block)) [0..<16]" using sha_load_words [OF l] by simp
  then show ?thesis using sha_expand_W [of 16 48 "fips_words block"] by (simp add: sha_schedule_def)
qed

lemma sha_round_step: "sha_round (k, w) = fips_round k w"
proof (rule ext)
  fix r show "sha_round (k, w) r = fips_round k w r"
    by (cases "(k, w, r)" rule: fips_round.cases) (simp add: sha_round_def sigmas fips_Ch_def fips_Maj_def)
qed

lemma sha_transform_compress:
  assumes "length st = 8" "length block = 64"
  shows "sha_transform st block = fips_compress st block"
proof -
  obtain a b c d e f g h where st: "st = [a, b, c, d, e, f, g, h]" using assms(1) by (cases "(st, block)" rule: fips_compress.cases) auto
  have l: "length fips_K = 64" by (simp add: fips_K_words)
  have "zip sha_K (sha_schedule block) = map (\<lambda>t. (fips_K ! t, fips_W (fips_words block) t)) [0..<64]"
    by (rule nth_equalityI) (simp_all add: constants l sha_schedule_W [OF assms(2)])
  then have "fold sha_round (zip sha_K (sha_schedule block)) = fold (\<lambda>t. fips_round (fips_K ! t) (fips_W (fips_words block) t)) [0..<64]"
    by (simp add: fold_map comp_def sha_round_step)
  then show ?thesis by (simp add: sha_transform_def st add.commute split: prod.splits)
qed

lemma sha_blocks_fold: "length st = 8 \<Longrightarrow> sha_blocks st p = foldl fips_compress st (fips_blocks p)"
proof (induction st p rule: sha_blocks.induct)
  case (1 st p)
  show ?case
  proof (cases "length p < 64")
    case True
    then show ?thesis by (simp add: sha_blocks.simps [of st p] fips_blocks_short)
  next
    case False
    then have "sha_transform st (take 64 p) = fips_compress st (take 64 p)" using "1.prems" by (intro sha_transform_compress) simp_all
    then have "sha_blocks (sha_transform st (take 64 p)) (drop 64 p) = foldl fips_compress (fips_compress st (take 64 p)) (fips_blocks (drop 64 p))"
      using "1.IH" False "1.prems" by (simp add: length_fips_compress)
    then show ?thesis using False by (simp add: sha_blocks.simps [of st p] fips_blocks_step)
  qed
qed

lemma sha_len_bytes_be: "sha_len_bytes (of_nat n * 8) = be_bytes 8 (8 * n)"
proof -
  have u: "[0..<8] = [0, 1, 2, 3, 4, 5, 6, 7 :: nat]" "rev [0..<8] = [7, 6, 5, 4, 3, 2, 1, 0 :: nat]" by code_simp+
  have "sha_len_bytes w = be_bytes 8 (unat w)" for w
    using byte_at [of _ w, symmetric] byte_at [of 0 w] by (simp add: sha_len_bytes_def be_bytes_map u mult.commute)
  moreover have "unat (of_nat n * 8 :: u64) = 8 * n mod 256 ^ 8" by (simp add: unat_word_ariths unat_of_nat mod_mult_right_eq mult.commute)
  moreover have "be_bytes 8 (8 * n mod 256 ^ 8) = be_bytes 8 (8 * n)"
    using be_bytes_be_nat [of "be_bytes 8 (8 * n)"] by (simp add: be_nat_be_bytes)
  ultimately show ?thesis by simp
qed

lemma sha_output_be: "sha_output st = concat (map (\<lambda>x. be_bytes 4 (unat x)) st)"
proof -
  have r: "rev [0..<4] = [3, 2, 1, 0 :: nat]" by code_simp
  have "[ucast (drop_bit 24 x AND 0xFF), ucast (drop_bit 16 x AND 0xFF), ucast (drop_bit 8 x AND 0xFF), ucast (x AND 0xFF)] = be_bytes 4 (unat x)" for x :: u32
    using byte_at [of 3 x] byte_at [of 2 x] byte_at [of 1 x] byte_at [of 0 x] by (simp add: be_bytes_map r)
  then show ?thesis by (simp add: sha_output_def)
qed

lemma sha_oneshot_fips: "sha_oneshot m = fips_sha256 m"
proof -
  have "sha_pad m = fips_pad m" by (simp add: sha_pad_def fips_pad_def fips_zeros_eq sha_len_bytes_be)
  moreover have "length fips_H0 = 8" by (simp add: fips_H0_words)
  ultimately show ?thesis by (simp add: sha_oneshot_def fips_sha256_def sha_output_be sha_blocks_fold constants)
qed

text \<open>
  C16: Sha256::hash, computed through the streaming context with its 64-byte buffer and its loops,
  returns for every message the digest that FIPS 180-4 defines, stated independently of the code:
  round constants and initial state as leading bits of fractional parts of cube and square roots
  of the first primes, rotations, message schedule, rounds, padding and big-endian byte orders of
  the standard. Beyond the standard's bound of 2^61 bytes the length field is taken modulo 2^64.
\<close>

theorem sha256_reference: "sha256 m = fips_sha256 m"
  by (simp add: sha256_def sha_final_update sha_oneshot_fips)

text \<open>
  The digest does not depend on how the input is cut into update calls: feeding a list of pieces
  one after the other and finishing is the hash of their concatenation.
\<close>

theorem sha_update_split:
  "sha_final (foldl sha_update Sha256_new pieces) = sha256 (concat pieces)"
proof -
  have "foldl sha_update Sha256_new pieces = sha_update Sha256_new (concat pieces)"
  proof (induction pieces rule: rev_induct)
    case (snoc p ps)
    then show ?case by (simp add: sha_update_append)
  qed (simp add: sha_update_Nil)
  then show ?thesis by (simp add: sha256_def)
qed

end
