(* ===== verification/CF_Identity.thy ===== *)
theory CF_Identity
  imports CF_Core
begin

text \<open>
  The typed identities of \<open>Core.hpp\<close>: \<open>TypedId<Tag>\<close> wraps an \<open>Id128\<close> under
  an empty tag type that keeps identities of different kinds apart, with the names of the
  kinds and the hash that unordered containers use. The components above are modelled on
  the wrapped \<open>Id128\<close>, which the lemmas here justify.
\<close>

section \<open>Kinds\<close>

datatype IdTag = CompilationRequestIdTag | CompilationPlanIdTag | CompilationAttemptIdTag | ArtifactIdTag
  | SourceIdentityTag | IRIdentityTag | LogicalOperationTag | WorkerBootIdTag

definition identityKindName :: "IdTag \<Rightarrow> string" where
  "identityKindName t = (case t of
      CompilationRequestIdTag \<Rightarrow> ''CompilationRequestId'' | CompilationPlanIdTag \<Rightarrow> ''CompilationPlanId''
    | CompilationAttemptIdTag \<Rightarrow> ''CompilationAttemptId'' | ArtifactIdTag \<Rightarrow> ''ArtifactId''
    | SourceIdentityTag \<Rightarrow> ''SourceIdentity'' | IRIdentityTag \<Rightarrow> ''IRIdentity''
    | LogicalOperationTag \<Rightarrow> ''LogicalOperation'' | WorkerBootIdTag \<Rightarrow> ''WorkerBootId'')"

lemma identityKindName_inj: "identityKindName s = identityKindName t \<longleftrightarrow> s = t"
  by (cases s; cases t) (simp_all add: identityKindName_def)

section \<open>Typed identities\<close>

text \<open>The tag is a type argument without values, as in the code.\<close>

datatype 'tag TypedId = TypedId (tid_raw: Id128)

definition tid_fromU64 :: "u64 \<Rightarrow> 'tag TypedId" where "tid_fromU64 v = TypedId (fromU64 v)"

definition tid_parse :: "string \<Rightarrow> 'tag TypedId option" where
  "tid_parse hex = (case id_parse hex of None \<Rightarrow> None | Some p \<Rightarrow> Some (TypedId p))"

definition tid_toHex :: "'tag TypedId \<Rightarrow> string" where "tid_toHex x = toHex (tid_raw x)"

definition tid_isZero :: "'tag TypedId \<Rightarrow> bool" where "tid_isZero x \<longleftrightarrow> isZero (tid_raw x)"

text \<open>The comparison operators make typed identities keys of ordered maps.\<close>

instantiation TypedId :: (type) linorder
begin

definition less_TypedId :: "'a TypedId \<Rightarrow> 'a TypedId \<Rightarrow> bool" where
  "less_TypedId a b \<longleftrightarrow> tid_raw a < tid_raw b"

definition less_eq_TypedId :: "'a TypedId \<Rightarrow> 'a TypedId \<Rightarrow> bool" where
  "less_eq_TypedId a b \<longleftrightarrow> tid_raw a \<le> tid_raw b"

instance
  by standard (auto simp: less_TypedId_def less_eq_TypedId_def intro: TypedId.expand)

end

lemma tid_text_roundtrip: "tid_parse (tid_toHex x) = Some x"
  by (cases x) (simp add: tid_parse_def tid_toHex_def)

lemma tid_parse_raw: "map_option tid_raw (tid_parse s) = id_parse s"
  by (simp add: tid_parse_def split: option.splits)

lemma tid_isZero_iff: "tid_isZero x \<longleftrightarrow> x = tid_fromU64 0"
  by (cases x; cases "tid_raw x") (auto simp: tid_isZero_def isZero_def tid_fromU64_def fromU64_def)

section \<open>Hashing\<close>

text \<open>The standard library's hash of a 64-bit integer is the argument \<open>h64\<close>; arithmetic on \<open>size_t\<close> wraps.\<close>

definition id_hash :: "(u64 \<Rightarrow> u64) \<Rightarrow> Id128 \<Rightarrow> u64" where
  "id_hash h64 v = (let h = h64 (hi v) in h XOR (h64 (lo v) + 0x9e3779b97f4a7c15 + push_bit 6 h + drop_bit 2 h))"

definition tid_hash :: "(u64 \<Rightarrow> u64) \<Rightarrow> 'tag TypedId \<Rightarrow> u64" where
  "tid_hash h64 v = id_hash h64 (tid_raw v)"

text \<open>
  Identities made from 64-bit numbers, which is how the runtime makes them, collide only
  where the library's own hash does.
\<close>

lemma xor_cancel: "(a :: 'a::len word) XOR b = a XOR c \<longleftrightarrow> b = c"
  by (metis xor.assoc xor.left_neutral xor_self_eq)

lemma id_hash_fromU64: "id_hash h64 (fromU64 v) = id_hash h64 (fromU64 w) \<longleftrightarrow> h64 v = h64 w"
  by (simp add: id_hash_def fromU64_def Let_def xor_cancel)

lemma tid_hash_inj:
  assumes "inj h64"
  shows "tid_hash h64 (tid_fromU64 v) = tid_hash h64 (tid_fromU64 w) \<longleftrightarrow> v = w"
  using assms by (simp add: tid_hash_def tid_fromU64_def id_hash_fromU64 inj_eq)

end
