(* ===== verification/CF_Canonical.thy ===== *)
theory CF_Canonical
  imports CF_Sha256
begin

text \<open>
  The canonical binary encoding of \<open>Canonical.hpp\<close> and \<open>Canonical.cpp\<close>: the
  big-endian writer, the bounded reader with its wrapping position arithmetic, and the
  tag-length-value records behind compilation keys. \<open>CanonicalWriter\<close> only ever
  appends, so each of its methods is modelled by the bytes it appends and a sequence of
  calls by their concatenation. The interfaces \<open>codec\<close> and \<open>strict_codec\<close>
  state what an encoder/decoder pair promises; the primitive readers are interpretations
  of them, and the record decoders of other components are built from their laws.
\<close>

section \<open>Writer\<close>

definition putU16BE :: "u16 \<Rightarrow> bytes" where
  "putU16BE v = [ucast (drop_bit 8 v AND 0xFF), ucast (v AND 0xFF)]"

definition putU32BE :: "u32 \<Rightarrow> bytes" where
  "putU32BE v =
     [ucast (drop_bit 24 v AND 0xFF), ucast (drop_bit 16 v AND 0xFF),
      ucast (drop_bit 8 v AND 0xFF), ucast (v AND 0xFF)]"

definition putU64BE :: "u64 \<Rightarrow> bytes" where
  "putU64BE v = map (\<lambda>i. ucast (drop_bit (i * 8) v AND 0xFF)) [7, 6, 5, 4, 3, 2, 1, 0]"

definition w_u8 :: "u8 \<Rightarrow> bytes" where
  "w_u8 v = [v]"

definition w_u128 :: "Id128 \<Rightarrow> bytes" where
  "w_u128 v = putU64BE (hi v) @ putU64BE (lo v)"

definition w_string :: "string \<Rightarrow> bytes" where
  "w_string s = putU64BE (of_nat (length s)) @ bytes_of s"

section \<open>Reader\<close>

text \<open>
  \<open>pos_ + n > data_.size()\<close> is unsigned 64-bit arithmetic: the sum wraps. A reader
  method returns \<open>Got\<close> the value and the advanced reader, \<open>Miss\<close> the reader it
  leaves behind when it returns false, or \<open>Throw\<close>, the \<open>std::length_error\<close>
  that \<open>std::string::assign\<close> raises for a count above \<open>max_size()\<close>.
\<close>

record creader =
  rdata :: bytes
  rpos :: nat

datatype 'a rres = Got 'a creader | Miss creader | Throw

type_synonym 'a reader = "creader \<Rightarrow> 'a rres"

definition reader_on :: "bytes \<Rightarrow> creader" where
  "reader_on d = \<lparr>rdata = d, rpos = 0\<rparr>"

definition hasRemaining :: "creader \<Rightarrow> bool" where
  "hasRemaining r \<longleftrightarrow> rpos r < length (rdata r)"

definition remaining :: "creader \<Rightarrow> nat" where
  "remaining r = length (rdata r) - rpos r"

text \<open>The bytes from \<open>current()\<close> on.\<close>

definition view :: "creader \<Rightarrow> bytes" where
  "view r = drop (rpos r) (rdata r)"

definition past_end :: "creader \<Rightarrow> nat \<Rightarrow> bool" where
  "past_end r n \<longleftrightarrow> length (rdata r) < (rpos r + n) mod 2 ^ 64"

definition skip_bytes :: "creader \<Rightarrow> nat \<Rightarrow> creader" where
  "skip_bytes r n = r\<lparr>rpos := (rpos r + n) mod 2 ^ 64\<rparr>"

definition rd_u8 :: "u8 reader" where
  "rd_u8 r = (if past_end r 1 then Miss r else Got (rdata r ! rpos r) (skip_bytes r 1))"

definition rd_u16 :: "u16 reader" where
  "rd_u16 r = (if past_end r 2 then Miss r
     else Got (push_bit 8 (ucast (rdata r ! rpos r)) OR ucast (rdata r ! (rpos r + 1)))
            (skip_bytes r 2))"

definition rd_u32 :: "u32 reader" where
  "rd_u32 r = (if past_end r 4 then Miss r
     else Got (push_bit 24 (ucast (rdata r ! rpos r)) OR
               push_bit 16 (ucast (rdata r ! (rpos r + 1))) OR
               push_bit 8 (ucast (rdata r ! (rpos r + 2))) OR
               ucast (rdata r ! (rpos r + 3)))
            (skip_bytes r 4))"

definition rd_u64 :: "u64 reader" where
  "rd_u64 r = (if past_end r 8 then Miss r
     else Got (foldl (\<lambda>out i. push_bit 8 out OR ucast (rdata r ! (rpos r + i))) 0 [0..<8])
            (skip_bytes r 8))"

text \<open>Running one read after the other, stopping at the first that fails.\<close>

definition rbind :: "'a rres \<Rightarrow> ('a \<Rightarrow> 'b reader) \<Rightarrow> 'b rres" where
  "rbind m f = (case m of Got x r \<Rightarrow> f x r | Miss r \<Rightarrow> Miss r | Throw \<Rightarrow> Throw)"

definition rd_u128 :: "Id128 reader" where
  "rd_u128 r = rbind (rd_u64 r) (\<lambda>h r1. rbind (rd_u64 r1) (\<lambda>l r2. Got (Id128 h l) r2))"

definition max_string :: nat where
  "max_string = 2 ^ 63 - 1"

text \<open>A \<open>float\<close> is its 32 bits, which \<open>memcpy\<close> moves.\<close>

definition w_f32 :: "u32 \<Rightarrow> bytes" where "w_f32 v = putU32BE v"

definition rd_f32 :: "u32 reader" where "rd_f32 r = rbind (rd_u32 r) Got"

definition rd_str :: "string reader" where
  "rd_str r = rbind (rd_u64 r) (\<lambda>len r1.
     if past_end r1 (unat len) then Miss r1
     else if max_string < unat len then Throw
     else Got (string_of (take (unat len) (view r1))) (skip_bytes r1 (unat len)))"

text \<open>\<open>std::string_view::substr\<close> clips the count to what is left.\<close>

definition rd_bytesBlob :: "bytes reader" where
  "rd_bytesBlob r = rbind (rd_u64 r) (\<lambda>len r1.
     if past_end r1 (unat len) then Miss r1
     else Got (take (unat len) (view r1)) (skip_bytes r1 (unat len)))"

definition rd_rawBlob :: "nat \<Rightarrow> bytes reader" where
  "rd_rawBlob n r = (if past_end r n then Miss r
     else Got (take n (view r)) (skip_bytes r n))"

definition rd_advance :: "nat \<Rightarrow> creader \<Rightarrow> creader" where
  "rd_advance n r = (if n \<le> remaining r then skip_bytes r n else r)"

text \<open>A counted loop of reads, as the record decoders have them.\<close>

fun read_n :: "'a reader \<Rightarrow> nat \<Rightarrow> 'a list reader" where
  "read_n rd 0 r = Got [] r"
| "read_n rd (Suc n) r = rbind (rd r) (\<lambda>x r1. rbind (read_n rd n r1) (\<lambda>xs r2. Got (x # xs) r2))"

section \<open>Key fields and canonical records\<close>

datatype KeyField = KeyField (keyFieldTag: u8)

abbreviation KF_LogicalOperation :: KeyField where "KF_LogicalOperation \<equiv> KeyField 1"
abbreviation KF_SourceIdentity :: KeyField where "KF_SourceIdentity \<equiv> KeyField 2"
abbreviation KF_SourceDigest :: KeyField where "KF_SourceDigest \<equiv> KeyField 3"
abbreviation KF_IRIdentity :: KeyField where "KF_IRIdentity \<equiv> KeyField 4"
abbreviation KF_IRDigest :: KeyField where "KF_IRDigest \<equiv> KeyField 5"
abbreviation KF_IRFormat :: KeyField where "KF_IRFormat \<equiv> KeyField 6"
abbreviation KF_Frontend :: KeyField where "KF_Frontend \<equiv> KeyField 7"
abbreviation KF_FrontendVersion :: KeyField where "KF_FrontendVersion \<equiv> KeyField 8"
abbreviation KF_Compiler :: KeyField where "KF_Compiler \<equiv> KeyField 9"
abbreviation KF_CompilerVersion :: KeyField where "KF_CompilerVersion \<equiv> KeyField 10"
abbreviation KF_Backend :: KeyField where "KF_Backend \<equiv> KeyField 11"
abbreviation KF_BackendVersion :: KeyField where "KF_BackendVersion \<equiv> KeyField 12"
abbreviation KF_CodeGenerator :: KeyField where "KF_CodeGenerator \<equiv> KeyField 13"
abbreviation KF_Optimizer :: KeyField where "KF_Optimizer \<equiv> KeyField 14"
abbreviation KF_OptimizerVersion :: KeyField where "KF_OptimizerVersion \<equiv> KeyField 15"
abbreviation KF_Linker :: KeyField where "KF_Linker \<equiv> KeyField 16"
abbreviation KF_LinkerVersion :: KeyField where "KF_LinkerVersion \<equiv> KeyField 17"
abbreviation KF_Runtime :: KeyField where "KF_Runtime \<equiv> KeyField 18"
abbreviation KF_RuntimeVersion :: KeyField where "KF_RuntimeVersion \<equiv> KeyField 19"
abbreviation KF_Driver :: KeyField where "KF_Driver \<equiv> KeyField 20"
abbreviation KF_DriverVersion :: KeyField where "KF_DriverVersion \<equiv> KeyField 21"
abbreviation KF_AcceleratorVendor :: KeyField where "KF_AcceleratorVendor \<equiv> KeyField 22"
abbreviation KF_AcceleratorFamily :: KeyField where "KF_AcceleratorFamily \<equiv> KeyField 23"
abbreviation KF_TargetArchitecture :: KeyField where "KF_TargetArchitecture \<equiv> KeyField 24"
abbreviation KF_ComputeCapability :: KeyField where "KF_ComputeCapability \<equiv> KeyField 25"
abbreviation KF_ISA :: KeyField where "KF_ISA \<equiv> KeyField 26"
abbreviation KF_ABI :: KeyField where "KF_ABI \<equiv> KeyField 27"
abbreviation KF_CallingConvention :: KeyField where "KF_CallingConvention \<equiv> KeyField 28"
abbreviation KF_KernelABI :: KeyField where "KF_KernelABI \<equiv> KeyField 29"
abbreviation KF_GraphABI :: KeyField where "KF_GraphABI \<equiv> KeyField 30"
abbreviation KF_OperatorRevision :: KeyField where "KF_OperatorRevision \<equiv> KeyField 31"
abbreviation KF_Datatype :: KeyField where "KF_Datatype \<equiv> KeyField 32"
abbreviation KF_Layout :: KeyField where "KF_Layout \<equiv> KeyField 33"
abbreviation KF_Rank :: KeyField where "KF_Rank \<equiv> KeyField 34"
abbreviation KF_StaticShape :: KeyField where "KF_StaticShape \<equiv> KeyField 35"
abbreviation KF_SymbolicShape :: KeyField where "KF_SymbolicShape \<equiv> KeyField 36"
abbreviation KF_Alignment :: KeyField where "KF_Alignment \<equiv> KeyField 37"
abbreviation KF_Quantization :: KeyField where "KF_Quantization \<equiv> KeyField 38"
abbreviation KF_Precision :: KeyField where "KF_Precision \<equiv> KeyField 39"
abbreviation KF_LaunchSpecialization :: KeyField where "KF_LaunchSpecialization \<equiv> KeyField 40"
abbreviation KF_ScalarConstants :: KeyField where "KF_ScalarConstants \<equiv> KeyField 41"
abbreviation KF_FeatureFlags :: KeyField where "KF_FeatureFlags \<equiv> KeyField 42"
abbreviation KF_OptimizationFlags :: KeyField where "KF_OptimizationFlags \<equiv> KeyField 43"
abbreviation KF_CodegenFlags :: KeyField where "KF_CodegenFlags \<equiv> KeyField 44"
abbreviation KF_DebugRelease :: KeyField where "KF_DebugRelease \<equiv> KeyField 45"
abbreviation KF_Determinism :: KeyField where "KF_Determinism \<equiv> KeyField 46"
abbreviation KF_Reproducibility :: KeyField where "KF_Reproducibility \<equiv> KeyField 47"
abbreviation KF_EnvFingerprint :: KeyField where "KF_EnvFingerprint \<equiv> KeyField 48"
abbreviation KF_DependencyIdentities :: KeyField where "KF_DependencyIdentities \<equiv> KeyField 49"
abbreviation KF_DependencyGenerations :: KeyField where "KF_DependencyGenerations \<equiv> KeyField 50"
abbreviation KF_ModelRevision :: KeyField where "KF_ModelRevision \<equiv> KeyField 51"
abbreviation KF_RuntimeCompatibilityGeneration :: KeyField where "KF_RuntimeCompatibilityGeneration \<equiv> KeyField 52"
abbreviation KF_CompilerPolicyGeneration :: KeyField where "KF_CompilerPolicyGeneration \<equiv> KeyField 53"
abbreviation KF_Namespace :: KeyField where "KF_Namespace \<equiv> KeyField 54"
abbreviation KF_Tenant :: KeyField where "KF_Tenant \<equiv> KeyField 55"
abbreviation KF_SourceContent :: KeyField where "KF_SourceContent \<equiv> KeyField 56"
abbreviation KF_IRContent :: KeyField where "KF_IRContent \<equiv> KeyField 57"

definition keyFieldNames :: "(KeyField \<times> string) list" where
  "keyFieldNames =
    [(KF_LogicalOperation, ''logical_operation''), (KF_SourceIdentity, ''source_identity''),
     (KF_SourceDigest, ''source_digest''), (KF_IRIdentity, ''ir_identity''),
     (KF_IRDigest, ''ir_digest''), (KF_IRFormat, ''ir_format''), (KF_Frontend, ''frontend''),
     (KF_FrontendVersion, ''frontend_version''), (KF_Compiler, ''compiler''),
     (KF_CompilerVersion, ''compiler_version''), (KF_Backend, ''backend''),
     (KF_BackendVersion, ''backend_version''), (KF_CodeGenerator, ''code_generator''),
     (KF_Optimizer, ''optimizer''), (KF_OptimizerVersion, ''optimizer_version''),
     (KF_Linker, ''linker''), (KF_LinkerVersion, ''linker_version''), (KF_Runtime, ''runtime''),
     (KF_RuntimeVersion, ''runtime_version''), (KF_Driver, ''driver''),
     (KF_DriverVersion, ''driver_version''), (KF_AcceleratorVendor, ''accelerator_vendor''),
     (KF_AcceleratorFamily, ''accelerator_family''),
     (KF_TargetArchitecture, ''target_architecture''),
     (KF_ComputeCapability, ''compute_capability''), (KF_ISA, ''isa''), (KF_ABI, ''abi''),
     (KF_CallingConvention, ''calling_convention''), (KF_KernelABI, ''kernel_abi''),
     (KF_GraphABI, ''graph_abi''), (KF_OperatorRevision, ''operator_revision''),
     (KF_Datatype, ''datatype''), (KF_Layout, ''layout''), (KF_Rank, ''rank''),
     (KF_StaticShape, ''static_shape''), (KF_SymbolicShape, ''symbolic_shape''),
     (KF_Alignment, ''alignment''), (KF_Quantization, ''quantization''),
     (KF_Precision, ''precision''), (KF_LaunchSpecialization, ''launch_specialization''),
     (KF_ScalarConstants, ''scalar_constants''), (KF_FeatureFlags, ''feature_flags''),
     (KF_OptimizationFlags, ''optimization_flags''), (KF_CodegenFlags, ''codegen_flags''),
     (KF_DebugRelease, ''debug_release''), (KF_Determinism, ''determinism''),
     (KF_Reproducibility, ''reproducibility''), (KF_EnvFingerprint, ''environment_fingerprint''),
     (KF_DependencyIdentities, ''dependency_identities''),
     (KF_DependencyGenerations, ''dependency_generations''),
     (KF_ModelRevision, ''model_revision''),
     (KF_RuntimeCompatibilityGeneration, ''runtime_compatibility_generation''),
     (KF_CompilerPolicyGeneration, ''compiler_policy_generation''),
     (KF_Namespace, ''namespace''), (KF_Tenant, ''tenant''),
     (KF_SourceContent, ''source_content''), (KF_IRContent, ''ir_content'')]"

definition keyFieldName :: "KeyField \<Rightarrow> string" where
  "keyFieldName f = (case map_of keyFieldNames f of Some s \<Rightarrow> s | None \<Rightarrow> ''unknown'')"

datatype KeyFieldEntry = KeyFieldEntry (ke_tag: u8) (ke_value: bytes)

definition kMaxKeyField :: u8 where
  "kMaxKeyField = keyFieldTag KF_IRContent"

definition valid_tag :: "u8 \<Rightarrow> bool" where
  "valid_tag t \<longleftrightarrow> \<not> (t = 0 \<or> t > kMaxKeyField)"

definition field_bytes :: "KeyFieldEntry \<Rightarrow> bytes" where
  "field_bytes f = w_u8 (ke_tag f) @ putU64BE (of_nat (length (ke_value f))) @ ke_value f"

text \<open>
  \<open>std::sort\<close> by tag. It is not stable, so for entries that share a tag the C++
  order is unspecified; the theorems speak of records with distinct tags, where the
  sorted list is unique.
\<close>

definition makeCanonicalFields :: "KeyFieldEntry list \<Rightarrow> bytes" where
  "makeCanonicalFields fs =
     (let sorted_fields = sort_key ke_tag fs
      in putU32BE (of_nat (length sorted_fields)) @
         concat (map field_bytes (filter (\<lambda>f. valid_tag (ke_tag f)) sorted_fields)))"

record ParseFieldsResult =
  pf_ok :: bool
  pf_fields :: "KeyFieldEntry list"
  pf_error :: string

definition pf_fail :: "string \<Rightarrow> ParseFieldsResult" where
  "pf_fail e = \<lparr>pf_ok = False, pf_fields = [], pf_error = e\<rparr>"

fun parse_fields_loop :: "nat \<Rightarrow> creader \<Rightarrow> KeyFieldEntry list \<Rightarrow> ParseFieldsResult" where
  "parse_fields_loop 0 rd out =
     (if hasRemaining rd then pf_fail ''trailing garbage after canonical record''
      else \<lparr>pf_ok = True, pf_fields = out, pf_error = []\<rparr>)"
| "parse_fields_loop (Suc n) rd out =
     (case rd_u8 rd of
        Got tag r1 \<Rightarrow>
          if tag = 0 \<or> tag > kMaxKeyField then pf_fail ''unknown field tag''
          else if \<exists>e \<in> set out. ke_tag e = tag then pf_fail ''duplicate field tag''
          else (case rd_u64 r1 of
            Got vlen r2 \<Rightarrow>
              if remaining r2 < unat vlen then pf_fail ''field value length exceeds available bytes''
              else parse_fields_loop n (rd_advance (unat vlen) r2)
                     (out @ [KeyFieldEntry tag (take (unat vlen) (view r2))])
          | _ \<Rightarrow> pf_fail ''truncated field length'')
      | _ \<Rightarrow> pf_fail ''truncated field tag'')"

definition parseKeyFields :: "bytes \<Rightarrow> ParseFieldsResult" where
  "parseKeyFields d =
     (case rd_u32 (reader_on d) of
        Got count r1 \<Rightarrow>
          if count > 4096 then pf_fail ''field count out of range''
          else parse_fields_loop (unat count) r1 []
      | _ \<Rightarrow> pf_fail ''truncated field count'')"

section \<open>Positions\<close>

definition small :: "bytes \<Rightarrow> bool" where
  "small d \<longleftrightarrow> length d < 2 ^ 63"

lemma small_few: "length d \<le> 1000 \<Longrightarrow> small d"
  by (simp add: small_def)

definition rwf :: "creader \<Rightarrow> bool" where
  "rwf r \<longleftrightarrow> rpos r \<le> length (rdata r) \<and> small (rdata r)"

definition reader_at :: "bytes \<Rightarrow> bytes \<Rightarrow> creader" where
  "reader_at pre rest = \<lparr>rdata = pre @ rest, rpos = length pre\<rparr>"

lemma reader_on_at: "reader_on d = reader_at [] d"
  by (simp add: reader_on_def reader_at_def)

lemma rwf_cases:
  assumes "rwf r"
  obtains pre rest where "r = reader_at pre rest" and "small (pre @ rest)" and "view r = rest"
proof
  show "r = reader_at (take (rpos r) (rdata r)) (view r)"
    using assms by (cases r) (simp add: reader_at_def view_def rwf_def)
  show "small (take (rpos r) (rdata r) @ view r)" using assms by (simp add: view_def rwf_def)
qed simp

lemma view_at [simp]: "view (reader_at pre rest) = rest"
  by (simp add: view_def reader_at_def)

lemma rdata_at [simp]: "rdata (reader_at pre rest) = pre @ rest"
  by (simp add: reader_at_def)

lemma rwf_at [simp]: "rwf (reader_at pre rest) \<longleftrightarrow> small (pre @ rest)"
  by (simp add: rwf_def reader_at_def)

lemma rwf_reader_on: "small d \<Longrightarrow> rwf (reader_on d) \<and> view (reader_on d) = d"
  by (simp add: reader_on_at)

lemma hasRemaining_at [simp]: "hasRemaining (reader_at pre rest) \<longleftrightarrow> rest \<noteq> []"
  by (simp add: hasRemaining_def reader_at_def)

lemma remaining_at [simp]: "remaining (reader_at pre rest) = length rest"
  by (simp add: remaining_def reader_at_def)

lemma past_end_at:
  assumes "small (pre @ rest)"
  shows "past_end (reader_at pre rest) n \<longleftrightarrow>
     (if length pre + n < 2 ^ 64 then length rest < n
      else length pre + length rest < (length pre + n) mod 2 ^ 64)"
  using assms by (auto simp: past_end_def reader_at_def small_def)

lemma past_end_at_small:
  "small (pre @ rest) \<Longrightarrow> n < 2 ^ 63 \<Longrightarrow>
   past_end (reader_at pre rest) n \<longleftrightarrow> length rest < n"
  by (simp add: past_end_at) (simp add: small_def)

lemma skip_bytes_at:
  assumes "small (pre @ rest)" and "n \<le> length rest"
  shows "skip_bytes (reader_at pre rest) n = reader_at (pre @ take n rest) (drop n rest)"
  using assms by (simp add: skip_bytes_def reader_at_def small_def)

lemma rd_advance_at:
  "small (pre @ rest) \<Longrightarrow> n \<le> length rest \<Longrightarrow>
   rd_advance n (reader_at pre rest) = reader_at (pre @ take n rest) (drop n rest)"
  by (simp add: rd_advance_def skip_bytes_at)

section \<open>Big-endian words\<close>

text \<open>The four fixed-width readers and writers are one reader and one writer of n bytes.\<close>

definition rd_word :: "nat \<Rightarrow> 'a::len word reader" where
  "rd_word n r = (if past_end r n then Miss r
     else Got (be_join (take n (view r))) (skip_bytes r n))"

lemma putU16BE_be: "putU16BE v = be_bytes 2 (unat v)"
  using byte_at [of 1 v] byte_at [of 0 v]
  by (simp add: putU16BE_def be_bytes_map numeral_2_eq_2)

lemma putU32BE_be: "putU32BE v = be_bytes 4 (unat v)"
proof -
  have "rev [0..<4] = [3, 2, 1, 0 :: nat]" by code_simp
  then show ?thesis
    using byte_at [of 3 v] byte_at [of 2 v] byte_at [of 1 v] byte_at [of 0 v]
    by (simp add: putU32BE_def be_bytes_map)
qed

lemma putU64BE_be: "putU64BE v = be_bytes 8 (unat v)"
proof -
  have "rev [0..<8] = [7, 6, 5, 4, 3, 2, 1, 0 :: nat]" by code_simp
  then have "be_bytes 8 (unat v) =
      map (\<lambda>i. ucast (drop_bit (8 * i) v AND 0xFF)) [7, 6, 5, 4, 3, 2, 1, 0]"
    by (simp only: be_bytes_map byte_at)
  then show ?thesis by (simp only: putU64BE_def mult.commute)
qed

lemma take_view_nth: "n \<le> length (view r) \<Longrightarrow> take n (view r) = map (\<lambda>i. rdata r ! (rpos r + i)) [0..<n]"
  by (intro nth_equalityI) (auto simp: view_def)

lemma rd_word_at:
  assumes "small (pre @ rest)" and "n < 2 ^ 63"
  shows "rd_word n (reader_at pre rest) =
     (if length rest < n then Miss (reader_at pre rest)
      else Got (be_join (take n rest)) (reader_at (pre @ take n rest) (drop n rest)))"
  using assms by (simp add: rd_word_def past_end_at_small skip_bytes_at)

lemma not_past_end:
  assumes "rwf r" and "\<not> past_end r n" and "n < 2 ^ 63"
  shows "n \<le> length (view r)"
  using assms by (auto elim!: rwf_cases simp: past_end_at_small)

lemma rd_u8_word: "rwf r \<Longrightarrow> rd_u8 r = rd_word 1 r"
proof (cases "past_end r 1")
  case False
  moreover assume "rwf r"
  ultimately have "take 1 (view r) = [rdata r ! rpos r]"
    using not_past_end [of r 1] by (simp add: take_view_nth)
  with False show ?thesis by (simp add: rd_u8_def rd_word_def be_join_def)
qed (simp add: rd_u8_def rd_word_def)

lemma upt_4: "[0..<4] = [0, 1, 2, 3 :: nat]"
  by code_simp

lemma rd_u16_word: "rwf r \<Longrightarrow> rd_u16 r = rd_word 2 r"
proof (cases "past_end r 2")
  case False
  moreover assume "rwf r"
  ultimately have "take 2 (view r) = [rdata r ! rpos r, rdata r ! (rpos r + 1)]"
    using not_past_end [of r 2] by (simp add: take_view_nth upt_conv_Cons)
  with False show ?thesis by (simp add: rd_u16_def rd_word_def be_join_def)
qed (simp add: rd_u16_def rd_word_def)

lemma rd_u32_word: "rwf r \<Longrightarrow> rd_u32 r = rd_word 4 r"
proof (cases "past_end r 4")
  case False
  moreover assume "rwf r"
  ultimately have "take 4 (view r) =
      [rdata r ! rpos r, rdata r ! (rpos r + 1), rdata r ! (rpos r + 2), rdata r ! (rpos r + 3)]"
    using not_past_end [of r 4] by (simp add: take_view_nth upt_4)
  with False show ?thesis
    by (simp add: rd_u32_def rd_word_def be_join_def push_bit_or or.assoc)
qed (simp add: rd_u32_def rd_word_def)

lemma rd_u64_word: "rwf r \<Longrightarrow> rd_u64 r = rd_word 8 r"
proof (cases "past_end r 8")
  case False
  moreover assume "rwf r"
  ultimately have "take 8 (view r) = map (\<lambda>i. rdata r ! (rpos r + i)) [0..<8]"
    using not_past_end [of r 8] by (simp add: take_view_nth)
  with False show ?thesis
    by (simp add: rd_u64_def rd_word_def be_join_def foldl_map del: upt_rec_numeral)
qed (simp add: rd_u64_def rd_word_def)

lemma be_join_be_bytes:
  assumes "8 * n = LENGTH('a::len)"
  shows "be_join (be_bytes n (unat (v :: 'a word))) = v"
proof -
  have "(256 :: nat) ^ n = 2 ^ LENGTH('a)"
    using assms power_mult [of "2 :: nat" 8 n] by simp
  then show ?thesis
    using assms unsigned_less [of v]
    by (intro unsigned_word_eqI [where 'a = nat]) (simp add: unat_be_join be_nat_be_bytes)
qed

lemma be_bytes_be_join:
  assumes "8 * length bs = LENGTH('a::len)"
  shows "be_bytes (length bs) (unat (be_join bs :: 'a word)) = bs"
  using assms by (simp add: unat_be_join be_bytes_be_nat)

section \<open>Encoder/decoder contracts\<close>

locale codec =
  fixes enc :: "'a \<Rightarrow> bytes"
    and dec :: "'a reader"
    and ok :: "'a \<Rightarrow> bool"
  assumes dec_enc: "ok x \<Longrightarrow> small (pre @ enc x @ rest) \<Longrightarrow>
      dec (reader_at pre (enc x @ rest)) = Got x (reader_at (pre @ enc x) rest)"
begin

lemma dec_whole: "ok x \<Longrightarrow> small (enc x) \<Longrightarrow> dec (reader_on (enc x)) = Got x (reader_at (enc x) [])"
  using dec_enc [of x "[]" "[]"] by (simp add: reader_on_at)

lemma dec_enc_end: "ok x \<Longrightarrow> small (pre @ enc x) \<Longrightarrow>
    dec (reader_at pre (enc x)) = Got x (reader_at (pre @ enc x) [])"
  using dec_enc [of x pre "[]"] by simp

lemma enc_prefix_free:
  assumes "ok x" and "ok y" and "small (enc x @ r)" and "enc x @ r = enc y @ s"
  shows "x = y \<and> r = s"
  using dec_enc [of x "[]" r] dec_enc [of y "[]" s] assms by (auto simp: reader_at_def)

lemma read_n_enc:
  "\<forall>x \<in> set xs. ok x \<Longrightarrow> small (pre @ concat (map enc xs) @ rest) \<Longrightarrow>
   read_n dec (length xs) (reader_at pre (concat (map enc xs) @ rest)) =
     Got xs (reader_at (pre @ concat (map enc xs)) rest)"
proof (induction xs arbitrary: pre)
  case (Cons x xs)
  then show ?case
    using dec_enc [of x pre "concat (map enc xs) @ rest"] Cons.IH [of "pre @ enc x"]
    by (simp add: rbind_def)
qed simp

end

locale strict_codec = codec +
  assumes dec_sound: "rwf r \<Longrightarrow> dec r = Got x r' \<Longrightarrow>
      ok x \<and> rwf r' \<and> rdata r' = rdata r \<and> view r = enc x @ view r'"
begin

lemma dec_D: "dec r = Got x r' \<Longrightarrow> rwf r \<Longrightarrow>
    ok x \<and> rwf r' \<and> rdata r' = rdata r \<and> view r = enc x @ view r'"
  by (rule dec_sound)

lemma dec_iff:
  assumes "small d"
  shows "dec (reader_on d) = Got x (reader_at d []) \<longleftrightarrow> ok x \<and> d = enc x"
  using dec_sound [of "reader_on d" x "reader_at d []"] dec_whole [of x] assms
  by (auto simp: reader_on_at)

lemma read_n_sound:
  "rwf r \<Longrightarrow> read_n dec n r = Got xs r' \<Longrightarrow>
   length xs = n \<and> (\<forall>x \<in> set xs. ok x) \<and> rwf r' \<and> rdata r' = rdata r \<and>
   view r = concat (map enc xs) @ view r'"
proof (induction n arbitrary: r xs)
  case (Suc n)
  then obtain x r1 ys where "dec r = Got x r1" and "read_n dec n r1 = Got ys r'" and "xs = x # ys"
    by (auto simp: rbind_def split: rres.splits)
  then show ?case using dec_sound [OF Suc.prems(1)] Suc.IH [of r1 ys] by auto
qed simp

end

section \<open>The primitive codecs\<close>

lemma word_dec_enc:
  assumes "8 * n = LENGTH('a::len)" and "n < 2 ^ 63" and "small (pre @ be_bytes n (unat v) @ rest)"
  shows "rd_word n (reader_at pre (be_bytes n (unat v) @ rest)) =
     Got (v :: 'a word) (reader_at (pre @ be_bytes n (unat v)) rest)"
  using assms by (simp add: rd_word_at be_join_be_bytes)

lemma word_dec_sound:
  assumes "8 * n = LENGTH('a::len)" and "n < 2 ^ 63" and "rwf r"
    and "rd_word n r = Got (x :: 'a word) r'"
  shows "rwf r' \<and> rdata r' = rdata r \<and> view r = be_bytes n (unat x) @ view r'"
proof -
  obtain pre rest where r: "r = reader_at pre rest" and s: "small (pre @ rest)"
    using rwf_cases [OF assms(3)] by blast
  from assms(4) have n: "n \<le> length rest" and x: "x = be_join (take n rest)"
    and r': "r' = reader_at (pre @ take n rest) (drop n rest)"
    by (auto simp: r rd_word_at [OF s assms(2)] split: if_splits)
  have "be_bytes n (unat x) = take n rest"
    using be_bytes_be_join [of "take n rest", where 'a = 'a] assms(1) n by (simp add: x)
  then show ?thesis using s by (simp add: r r')
qed

lemma w_u8_be: "w_u8 v = be_bytes 1 (unat v)"
  by (simp add: w_u8_def)

lemma rwf_reader_at: "small (pre @ rest) \<Longrightarrow> rwf (reader_at pre rest)"
  by simp

interpretation c_u8: strict_codec w_u8 rd_u8 "\<lambda>_. True"
proof unfold_locales
  fix x pre rest
  assume "small (pre @ w_u8 x @ rest)"
  then show "rd_u8 (reader_at pre (w_u8 x @ rest)) = Got x (reader_at (pre @ w_u8 x) rest)"
    using word_dec_enc [of 1 pre x rest] by (simp add: rd_u8_word w_u8_be)
next
  fix r x r'
  assume "rwf r" and "rd_u8 r = Got x r'"
  then show "True \<and> rwf r' \<and> rdata r' = rdata r \<and> view r = w_u8 x @ view r'"
    using word_dec_sound [of 1 r x r'] by (simp add: rd_u8_word w_u8_be)
qed

interpretation c_u16: strict_codec putU16BE rd_u16 "\<lambda>_. True"
proof unfold_locales
  fix x pre rest
  assume "small (pre @ putU16BE x @ rest)"
  then show "rd_u16 (reader_at pre (putU16BE x @ rest)) = Got x (reader_at (pre @ putU16BE x) rest)"
    using word_dec_enc [of 2 pre x rest] by (simp add: rd_u16_word putU16BE_be)
next
  fix r x r'
  assume "rwf r" and "rd_u16 r = Got x r'"
  then show "True \<and> rwf r' \<and> rdata r' = rdata r \<and> view r = putU16BE x @ view r'"
    using word_dec_sound [of 2 r x r'] by (simp add: rd_u16_word putU16BE_be)
qed

interpretation c_u32: strict_codec putU32BE rd_u32 "\<lambda>_. True"
proof unfold_locales
  fix x pre rest
  assume "small (pre @ putU32BE x @ rest)"
  then show "rd_u32 (reader_at pre (putU32BE x @ rest)) = Got x (reader_at (pre @ putU32BE x) rest)"
    using word_dec_enc [of 4 pre x rest] by (simp add: rd_u32_word putU32BE_be)
next
  fix r x r'
  assume "rwf r" and "rd_u32 r = Got x r'"
  then show "True \<and> rwf r' \<and> rdata r' = rdata r \<and> view r = putU32BE x @ view r'"
    using word_dec_sound [of 4 r x r'] by (simp add: rd_u32_word putU32BE_be)
qed

lemma rd_f32_u32: "rd_f32 = rd_u32"
  by (rule ext) (simp add: rd_f32_def rbind_def split: rres.splits)

interpretation c_f32: strict_codec w_f32 rd_f32 "\<lambda>_. True"
  using c_u32.strict_codec_axioms unfolding w_f32_def rd_f32_u32 .

interpretation c_u64: strict_codec putU64BE rd_u64 "\<lambda>_. True"
proof unfold_locales
  fix x pre rest
  assume "small (pre @ putU64BE x @ rest)"
  then show "rd_u64 (reader_at pre (putU64BE x @ rest)) = Got x (reader_at (pre @ putU64BE x) rest)"
    using word_dec_enc [of 8 pre x rest] by (simp add: rd_u64_word putU64BE_be)
next
  fix r x r'
  assume "rwf r" and "rd_u64 r = Got x r'"
  then show "True \<and> rwf r' \<and> rdata r' = rdata r \<and> view r = putU64BE x @ view r'"
    using word_dec_sound [of 8 r x r'] by (simp add: rd_u64_word putU64BE_be)
qed

lemma length_put [simp]:
  "length (w_u8 a) = 1" "length (putU16BE b) = 2" "length (putU32BE c) = 4"
  "length (putU64BE d) = 8" "length (w_u128 e) = 16"
  by (simp_all add: w_u8_be putU16BE_be putU32BE_be putU64BE_be w_u128_def)

text \<open>Sequencing in decoder proofs: a bind succeeds when both parts do.\<close>

lemma rbind_simps [simp]:
  "rbind (Got x r) f = f x r" "rbind (Miss r) f = Miss r" "rbind Throw f = Throw"
  by (simp_all add: rbind_def)

lemma rbind_Got: "rbind m f = Got y r' \<longleftrightarrow> (\<exists>x r. m = Got x r \<and> f x r = Got y r')"
  by (cases m) auto

interpretation c_u128: strict_codec w_u128 rd_u128 "\<lambda>_. True"
proof unfold_locales
  fix x pre rest
  assume "small (pre @ w_u128 x @ rest)"
  then show "rd_u128 (reader_at pre (w_u128 x @ rest)) = Got x (reader_at (pre @ w_u128 x) rest)"
    by (simp add: rd_u128_def w_u128_def c_u64.dec_enc)
next
  fix r x r'
  assume "rwf r" and "rd_u128 r = Got x r'"
  then show "True \<and> rwf r' \<and> rdata r' = rdata r \<and> view r = w_u128 x @ view r'"
    by (auto simp: rd_u128_def w_u128_def rbind_Got dest!: c_u64.dec_D)
qed

lemma small_length: "small d \<Longrightarrow> length d < 2 ^ 63"
  by (simp add: small_def)

lemma unat_length: "n < 2 ^ 63 \<Longrightarrow> unat (of_nat n :: u64) = n"
  by (simp add: unat_of_nat)

lemma of_nat_length_small:
  "small (a @ b @ x @ c) \<Longrightarrow> unat (of_nat (length x) :: u64) = length x \<and> length x < 2 ^ 63"
  using small_length [of "a @ b @ x @ c"] by (simp add: unat_length)

lemma rd_str_enc:
  assumes s: "small (pre @ w_string x @ rest)"
  shows "rd_str (reader_at pre (w_string x @ rest)) = Got x (reader_at (pre @ w_string x) rest)"
proof -
  let ?p = "pre @ putU64BE (of_nat (length x))"
  have n: "unat (of_nat (length x) :: u64) = length x" "length x < 2 ^ 63"
    using of_nat_length_small [of pre "putU64BE (of_nat (length x))" "bytes_of x" rest] s
    by (simp_all add: w_string_def)
  have "rd_u64 (reader_at pre (putU64BE (of_nat (length x)) @ bytes_of x @ rest)) =
      Got (of_nat (length x)) (reader_at ?p (bytes_of x @ rest))"
    using s by (intro c_u64.dec_enc) (simp_all add: w_string_def)
  moreover have sm: "small (?p @ bytes_of x @ rest)" using s by (simp add: w_string_def)
  ultimately show ?thesis
    using n past_end_at_small [OF sm n(2)] skip_bytes_at [OF sm, of "length x"]
    by (simp add: rd_str_def w_string_def max_string_def)
qed

lemma rd_str_sound:
  assumes r: "rwf r" and d: "rd_str r = Got x r'"
  shows "rwf r' \<and> rdata r' = rdata r \<and> view r = w_string x @ view r'"
proof -
  from d obtain len r1 where u: "rd_u64 r = Got len r1" and p: "\<not> past_end r1 (unat len)"
    and m: "unat len \<le> max_string" and x: "x = string_of (take (unat len) (view r1))"
    and r': "r' = skip_bytes r1 (unat len)"
    by (auto simp: rd_str_def rbind_Got split: if_splits)
  from c_u64.dec_sound [OF r u] have r1: "rwf r1" "rdata r1 = rdata r" "view r = putU64BE len @ view r1"
    by auto
  obtain pre rest where at: "r1 = reader_at pre rest" and sm: "small (pre @ rest)"
    using rwf_cases [OF r1(1)] by blast
  have "unat len < 2 ^ 63" using m by (simp add: max_string_def)
  then have l: "unat len \<le> length rest"
    using p past_end_at_small [OF sm] by (simp add: at)
  then have "w_string x = putU64BE len @ take (unat len) rest"
    by (simp add: w_string_def x at)
  then show ?thesis
    using l sm r1(2,3) by (simp add: r' at skip_bytes_at)
qed

interpretation c_str: strict_codec w_string rd_str "\<lambda>_. True"
  using rd_str_sound by unfold_locales (simp add: rd_str_enc, blast)

text \<open>
  \<open>rawBlob\<close> with a count that cannot wrap the position.
\<close>

lemma rd_raw_at:
  "small (pre @ rest) \<Longrightarrow> n < 2 ^ 63 \<Longrightarrow>
   rd_rawBlob n (reader_at pre rest) =
     (if length rest < n then Miss (reader_at pre rest)
      else Got (take n rest) (reader_at (pre @ take n rest) (drop n rest)))"
  by (simp add: rd_rawBlob_def past_end_at_small skip_bytes_at)

lemma rd_raw_enc:
  "length x = n \<Longrightarrow> n < 2 ^ 63 \<Longrightarrow> small (pre @ x @ rest) \<Longrightarrow>
   rd_rawBlob n (reader_at pre (x @ rest)) = Got x (reader_at (pre @ x) rest)"
  by (simp add: rd_raw_at)

lemma rd_raw_sound:
  "n < 2 ^ 63 \<Longrightarrow> rwf r \<Longrightarrow> rd_rawBlob n r = Got x r' \<Longrightarrow>
   length x = n \<and> rwf r' \<and> rdata r' = rdata r \<and> view r = x @ view r'"
  by (elim rwf_cases) (auto simp: rd_raw_at split: if_splits)

interpretation c_raw32: strict_codec "\<lambda>x. x" "rd_rawBlob 32" "\<lambda>x. length x = 32"
  by unfold_locales (simp add: rd_raw_enc, rule rd_raw_sound, simp_all)

text \<open>
  A length-prefixed blob: the writer side is spelled out by the callers. The decoder is
  not strict, because a length that wraps the position is clipped instead of refused.
\<close>

definition blob_bytes :: "bytes \<Rightarrow> bytes" where
  "blob_bytes x = putU64BE (of_nat (length x)) @ x"

interpretation c_blob: codec blob_bytes rd_bytesBlob "\<lambda>_. True"
proof unfold_locales
  fix x pre rest
  assume s: "small (pre @ blob_bytes x @ rest)"
  let ?p = "pre @ putU64BE (of_nat (length x))"
  have n: "unat (of_nat (length x) :: u64) = length x" "length x < 2 ^ 63"
    using of_nat_length_small [of pre "putU64BE (of_nat (length x))" x rest] s
    by (simp_all add: blob_bytes_def)
  have "rd_u64 (reader_at pre (putU64BE (of_nat (length x)) @ x @ rest)) =
      Got (of_nat (length x)) (reader_at ?p (x @ rest))"
    using s by (intro c_u64.dec_enc) (simp_all add: blob_bytes_def)
  moreover have sm: "small (?p @ x @ rest)" using s by (simp add: blob_bytes_def)
  ultimately show "rd_bytesBlob (reader_at pre (blob_bytes x @ rest)) =
      Got x (reader_at (pre @ blob_bytes x) rest)"
    using n past_end_at_small [OF sm n(2)] skip_bytes_at [OF sm, of "length x"]
    by (simp add: rd_bytesBlob_def blob_bytes_def)
qed

lemmas dec_enc_all [codec] =
  c_u8.dec_enc c_u16.dec_enc c_u32.dec_enc c_u64.dec_enc c_u128.dec_enc c_str.dec_enc
  c_raw32.dec_enc c_blob.dec_enc
  c_u8.dec_enc_end c_u16.dec_enc_end c_u32.dec_enc_end c_u64.dec_enc_end c_u128.dec_enc_end
  c_str.dec_enc_end c_raw32.dec_enc_end c_blob.dec_enc_end

lemmas dec_dests = c_u8.dec_D c_u16.dec_D c_u32.dec_D c_u64.dec_D c_u128.dec_D c_str.dec_D c_raw32.dec_D

section \<open>Canonical records\<close>

definition record_ok :: "KeyFieldEntry list \<Rightarrow> bool" where
  "record_ok fs \<longleftrightarrow> (\<forall>f \<in> set fs. valid_tag (ke_tag f)) \<and> distinct (map ke_tag fs)"

definition record_bytes :: "KeyFieldEntry list \<Rightarrow> bytes" where
  "record_bytes fs = putU32BE (of_nat (length fs)) @ concat (map field_bytes fs)"

lemma record_ok_length:
  assumes "record_ok fs"
  shows "length fs \<le> 256"
proof -
  have "length fs = card (set (map ke_tag fs))"
    using assms by (metis distinct_card length_map record_ok_def)
  also have "\<dots> \<le> card (UNIV :: u8 set)" by (intro card_mono) simp_all
  finally show ?thesis by (simp add: card_word)
qed

lemma parse_loop_forward:
  "record_ok (out @ fs) \<Longrightarrow> small (pre @ concat (map field_bytes fs)) \<Longrightarrow>
   parse_fields_loop (length fs) (reader_at pre (concat (map field_bytes fs))) out =
     \<lparr>pf_ok = True, pf_fields = out @ fs, pf_error = []\<rparr>"
proof (induction fs arbitrary: pre out)
  case (Cons f fs)
  let ?rest = "concat (map field_bytes fs)" and ?v = "ke_value f"
  have s: "small (pre @ w_u8 (ke_tag f) @ putU64BE (of_nat (length ?v)) @ ?v @ ?rest)"
    using Cons.prems(2) by (simp add: field_bytes_def [of f])
  have n: "unat (of_nat (length ?v) :: u64) = length ?v"
    using of_nat_length_small [of "pre @ w_u8 (ke_tag f)"] s by simp
  have sm: "small ((pre @ w_u8 (ke_tag f) @ putU64BE (of_nat (length ?v))) @ ?v @ ?rest)"
    using s by simp
  have "rd_advance (length ?v) (reader_at (pre @ w_u8 (ke_tag f) @ putU64BE (of_nat (length ?v))) (?v @ ?rest)) =
      reader_at (pre @ field_bytes f) ?rest"
    using rd_advance_at [OF sm, of "length ?v"] by (simp add: field_bytes_def)
  moreover have "valid_tag (ke_tag f)" using Cons.prems(1) by (simp add: record_ok_def)
  moreover have nodup: "(\<exists>e \<in> set out. ke_tag e = ke_tag f) = False"
    using Cons.prems(1) by (simp add: record_ok_def image_iff) metis
  moreover have "parse_fields_loop (length fs) (reader_at (pre @ field_bytes f) ?rest) (out @ [f]) =
      \<lparr>pf_ok = True, pf_fields = out @ f # fs, pf_error = []\<rparr>"
    using Cons.IH [of "out @ [f]" "pre @ field_bytes f"] Cons.prems by simp
  ultimately show ?case
    using s n nodup by (simp add: field_bytes_def [of f] codec valid_tag_def)
qed simp

lemma parse_loop_backward:
  "rwf rd \<Longrightarrow> pf_ok (parse_fields_loop n rd out) \<Longrightarrow> record_ok out \<Longrightarrow>
   \<exists>fs. length fs = n \<and> record_ok (out @ fs) \<and> view rd = concat (map field_bytes fs) \<and>
        parse_fields_loop n rd out = \<lparr>pf_ok = True, pf_fields = out @ fs, pf_error = []\<rparr>"
proof (induction n arbitrary: rd out)
  case 0
  then show ?case
    by (elim rwf_cases) (auto simp: pf_fail_def split: if_splits)
next
  case (Suc n)
  from Suc.prems(2) obtain tag r1 vlen r2 where
    t: "rd_u8 rd = Got tag r1" and ok: "valid_tag tag" and new: "\<forall>e \<in> set out. ke_tag e \<noteq> tag"
    and v: "rd_u64 r1 = Got vlen r2" and rem: "unat vlen \<le> remaining r2"
    by (auto simp: pf_fail_def valid_tag_def split: rres.splits if_splits)
  from c_u8.dec_sound [OF Suc.prems(1) t] have r1: "rwf r1" "view rd = w_u8 tag @ view r1" by auto
  from c_u64.dec_sound [OF r1(1) v] have r2: "rwf r2" "view r1 = putU64BE vlen @ view r2" by auto
  obtain pre rest where at: "r2 = reader_at pre rest" and sm: "small (pre @ rest)"
    using rwf_cases [OF r2(1)] by blast
  let ?f = "KeyFieldEntry tag (take (unat vlen) rest)"
  have adv: "rd_advance (unat vlen) r2 = reader_at (pre @ take (unat vlen) rest) (drop (unat vlen) rest)"
    using rem sm by (simp add: at rd_advance_at)
  have step: "parse_fields_loop (Suc n) rd out =
      parse_fields_loop n (reader_at (pre @ take (unat vlen) rest) (drop (unat vlen) rest)) (out @ [?f])"
    using t ok new v rem adv by (auto simp: valid_tag_def at)
  have "record_ok (out @ [?f])" using Suc.prems(3) ok new by (auto simp: record_ok_def)
  then obtain fs where fs: "length fs = n" "record_ok ((out @ [?f]) @ fs)"
      "drop (unat vlen) rest = concat (map field_bytes fs)"
      "parse_fields_loop (Suc n) rd out = \<lparr>pf_ok = True, pf_fields = (out @ [?f]) @ fs, pf_error = []\<rparr>"
    using Suc.IH [of "reader_at (pre @ take (unat vlen) rest) (drop (unat vlen) rest)" "out @ [?f]"]
      Suc.prems(2) sm step by auto
  have "field_bytes ?f = w_u8 tag @ putU64BE vlen @ take (unat vlen) rest"
    using rem by (simp add: field_bytes_def at)
  then have "view rd = concat (map field_bytes (?f # fs))"
    using r1(2) r2(2) fs(3) by (simp add: at) (metis append_take_drop_id)
  then show ?case using fs by (intro exI [of _ "?f # fs"]) auto
qed

lemma parse_record_bytes:
  assumes "record_ok fs" and "small (record_bytes fs)"
  shows "parseKeyFields (record_bytes fs) = \<lparr>pf_ok = True, pf_fields = fs, pf_error = []\<rparr>"
proof -
  have n: "length fs \<le> 256" by (rule record_ok_length [OF assms(1)])
  then have u: "unat (of_nat (length fs) :: u32) = length fs" by (simp add: unat_of_nat)
  then have "\<not> (of_nat (length fs) :: u32) > 4096"
    using n by (simp add: word_less_nat_alt)
  then show ?thesis
    using assms u parse_loop_forward [of "[]" fs "putU32BE (of_nat (length fs))"]
    by (simp add: parseKeyFields_def record_bytes_def reader_on_at codec)
qed

lemma parse_ok_record:
  assumes "small d" and "pf_ok (parseKeyFields d)"
  shows "\<exists>fs. record_ok fs \<and> d = record_bytes fs \<and>
     parseKeyFields d = \<lparr>pf_ok = True, pf_fields = fs, pf_error = []\<rparr>"
proof -
  from assms(2) obtain count r1 where
    c: "rd_u32 (reader_on d) = Got count r1" "\<not> count > 4096"
    by (auto simp: parseKeyFields_def pf_fail_def split: rres.splits if_splits)
  have d: "rwf r1" "d = putU32BE count @ view r1"
    using c_u32.dec_D [OF c(1)] assms(1) by (auto simp: reader_on_at)
  have "pf_ok (parse_fields_loop (unat count) r1 [])"
    using assms(2) c by (simp add: parseKeyFields_def)
  then obtain fs where "length fs = unat count" "record_ok fs" "view r1 = concat (map field_bytes fs)"
      "parse_fields_loop (unat count) r1 [] = \<lparr>pf_ok = True, pf_fields = fs, pf_error = []\<rparr>"
    using parse_loop_backward [OF d(1)] by (fastforce simp: record_ok_def)
  then show ?thesis
    using c d by (intro exI [of _ fs]) (simp add: parseKeyFields_def record_bytes_def)
qed

text \<open>
  parseKeyFields accepts exactly the canonical grammar: on any buffer shorter than 2^63 bytes it
  succeeds with fields fs precisely when the tags are valid and pairwise distinct and the buffer is
  the 32-bit count followed by tag, 64-bit length and value of each field, with nothing after it.
  Truncation, over-long lengths, unknown tags, duplicates and trailing bytes are therefore all
  refused, and nothing well formed is.
\<close>

theorem parse_fields_exact:
  assumes "small d"
  shows "parseKeyFields d = \<lparr>pf_ok = True, pf_fields = fs, pf_error = []\<rparr> \<longleftrightarrow>
     record_ok fs \<and> d = record_bytes fs"
proof
  assume p: "parseKeyFields d = \<lparr>pf_ok = True, pf_fields = fs, pf_error = []\<rparr>"
  then have "pf_ok (parseKeyFields d)" by simp
  then show "record_ok fs \<and> d = record_bytes fs"
    using parse_ok_record [OF assms] p by auto
next
  assume "record_ok fs \<and> d = record_bytes fs"
  then show "parseKeyFields d = \<lparr>pf_ok = True, pf_fields = fs, pf_error = []\<rparr>"
    using parse_record_bytes assms by blast
qed

lemma parse_fields_exact_witness:
  "small [0, 0, 0, 1, 7, 0, 0, 0, 0, 0, 0, 0, 1, 42] \<and>
   parseKeyFields [0, 0, 0, 1, 7, 0, 0, 0, 0, 0, 0, 0, 1, 42] =
     \<lparr>pf_ok = True, pf_fields = [KeyFieldEntry 7 [42]], pf_error = []\<rparr>"
proof -
  have s: "small [0, 0, 0, 1, 7, 0, 0, 0, 0, 0, 0, 0, 1, 42]" by (simp add: small_def)
  moreover have "record_ok [KeyFieldEntry 7 [42]] \<and>
      [0, 0, 0, 1, 7, 0, 0, 0, 0, 0, 0, 0, 1, 42] = record_bytes [KeyFieldEntry 7 [42]]"
    by code_simp
  ultimately show ?thesis using parse_fields_exact [OF s] by simp
qed

lemma record_ok_sort [simp]: "record_ok (sort_key ke_tag fs) \<longleftrightarrow> record_ok fs"
  by (simp add: record_ok_def) (metis distinct_map distinct_sort set_sort)

lemma make_record_bytes:
  assumes "record_ok fs"
  shows "makeCanonicalFields fs = record_bytes (sort_key ke_tag fs)"
proof -
  have "filter (\<lambda>f. valid_tag (ke_tag f)) (sort_key ke_tag fs) = sort_key ke_tag fs"
    using assms by (simp add: record_ok_def filter_id_conv)
  then show ?thesis by (simp add: makeCanonicalFields_def record_bytes_def)
qed

text \<open>
  Parsing what makeCanonicalFields wrote returns the same fields in tag order, for every list of
  fields with valid, distinct tags whose encoding is shorter than 2^63 bytes.
\<close>

theorem canonical_roundtrip:
  assumes "record_ok fs" and "small (makeCanonicalFields fs)"
  shows "parseKeyFields (makeCanonicalFields fs) =
     \<lparr>pf_ok = True, pf_fields = sort_key ke_tag fs, pf_error = []\<rparr>"
  using assms parse_record_bytes [of "sort_key ke_tag fs"] by (simp add: make_record_bytes)

lemma canonical_roundtrip_witness:
  "parseKeyFields (makeCanonicalFields [KeyFieldEntry 9 [1, 2], KeyFieldEntry 3 []]) =
     \<lparr>pf_ok = True, pf_fields = sort_key ke_tag [KeyFieldEntry 9 [1, 2], KeyFieldEntry 3 []], pf_error = []\<rparr>"
proof (rule canonical_roundtrip)
  show "record_ok [KeyFieldEntry 9 [1, 2], KeyFieldEntry 3 []]" by code_simp
  show "small (makeCanonicalFields [KeyFieldEntry 9 [1, 2], KeyFieldEntry 3 []])"
    by (rule small_few) code_simp
qed

lemma record_bytes_inject:
  "record_ok fs \<Longrightarrow> record_ok gs \<Longrightarrow> small (record_bytes fs) \<Longrightarrow>
   record_bytes fs = record_bytes gs \<Longrightarrow> fs = gs"
  by (metis ParseFieldsResult.select_convs(2) parse_record_bytes)

lemma sort_key_set_eq:
  assumes "set fs = set gs" and "distinct (map ke_tag fs)" and "distinct (map ke_tag gs)"
  shows "sort_key ke_tag fs = sort_key ke_tag gs"
proof (rule map_inj_on [of ke_tag])
  have t: "map ke_tag (sort_key ke_tag xs) = sorted_list_of_set (ke_tag ` set xs)"
    if "distinct (map ke_tag xs)" for xs
  proof (rule sorted_distinct_set_unique)
    show "distinct (map ke_tag (sort_key ke_tag xs))"
      using that by (metis distinct_map distinct_sort set_sort)
  qed simp_all
  show "map ke_tag (sort_key ke_tag fs) = map ke_tag (sort_key ke_tag gs)"
    using assms by (simp add: t)
  show "inj_on ke_tag (set (sort_key ke_tag fs) \<union> set (sort_key ke_tag gs))"
    using assms by (simp add: distinct_map)
qed

text \<open>
  The canonical bytes are a faithful, order-independent image of the field set: for two lists with
  valid, distinct tags, makeCanonicalFields gives the same bytes precisely when the lists hold the
  same fields, in whatever order they were added.
\<close>

theorem canonical_order_independent:
  assumes "record_ok fs" and "record_ok gs" and "small (makeCanonicalFields fs)"
  shows "makeCanonicalFields fs = makeCanonicalFields gs \<longleftrightarrow> set fs = set gs"
proof
  assume "makeCanonicalFields fs = makeCanonicalFields gs"
  then have "sort_key ke_tag fs = sort_key ke_tag gs"
    using assms by (auto simp: make_record_bytes intro!: record_bytes_inject)
  then show "set fs = set gs" by (metis set_sort)
next
  assume "set fs = set gs"
  then show "makeCanonicalFields fs = makeCanonicalFields gs"
    using sort_key_set_eq [of fs gs] assms(1,2) by (simp add: make_record_bytes record_ok_def)
qed

lemma canonical_order_independent_witness:
  "makeCanonicalFields [KeyFieldEntry 2 [5], KeyFieldEntry 1 [6]] =
   makeCanonicalFields [KeyFieldEntry 1 [6], KeyFieldEntry 2 [5]]"
proof -
  have "record_ok [KeyFieldEntry 2 [5], KeyFieldEntry 1 [6]]"
    "record_ok [KeyFieldEntry 1 [6], KeyFieldEntry 2 [5]]"
    by code_simp+
  moreover have "small (makeCanonicalFields [KeyFieldEntry 2 [5], KeyFieldEntry 1 [6]])"
    by (rule small_few) code_simp
  ultimately show ?thesis by (subst canonical_order_independent) auto
qed

lemma str_throw_iff:
  assumes "rwf r"
  shows "rd_str r = Throw \<longleftrightarrow>
     8 \<le> length (view r) \<and> 2 ^ 64 \<le> rpos r + 8 + be_nat (take 8 (view r))"
proof -
  obtain pre rest where at: "r = reader_at pre rest" and sm: "small (pre @ rest)"
    using rwf_cases [OF assms] by blast
  show ?thesis
  proof (cases "length rest < 8")
    case True
    then show ?thesis using sm by (simp add: rd_str_def rd_u64_word at rd_word_at)
  next
    case False
    define len where "len = (be_join (take 8 rest) :: u64)"
    define p where "p = pre @ take 8 rest"
    have l: "unat len = be_nat (take 8 rest)" "unat len < 2 ^ 64"
      using False unsigned_less [of len, where 'a = nat] by (simp_all add: len_def unat_be_join)
    have sm': "small (p @ drop 8 rest)" using sm by (simp add: p_def)
    have p: "length p = rpos r + 8" using False by (simp add: p_def at reader_at_def)
    have u: "rd_u64 r = Got len (reader_at p (drop 8 rest))"
      using False sm by (simp add: at rd_u64_word rd_word_at len_def p_def)
    have pl: "length p + length (drop 8 rest) < 2 ^ 63" using small_length [OF sm'] by simp
    have "rd_str r = Throw \<longleftrightarrow>
        \<not> past_end (reader_at p (drop 8 rest)) (unat len) \<and> max_string < unat len"
      by (simp add: rd_str_def u)
    also have "\<dots> \<longleftrightarrow> 2 ^ 64 \<le> length p + unat len"
    proof (cases "length p + unat len < 2 ^ 64")
      case True
      then show ?thesis
        using past_end_at [OF sm', of "unat len"] pl by (auto simp: max_string_def)
    next
      case False
      then have "(length p + unat len) mod 2 ^ 64 = length p + unat len - 2 ^ 64"
        using l(2) pl by (subst mod_if) (simp add: mod_if)
      then show ?thesis
        using past_end_at [OF sm', of "unat len"] False l(2) pl by (simp add: max_string_def)
    qed
    finally show ?thesis using False p l(1) by (simp add: at)
  qed
qed

text \<open>
  CanonicalReader::str does not reject every over-long length: with eight bytes left to hold the
  length, it lets std::length_error escape precisely when position plus length wraps around 2^64,
  because the wrapped sum passes the bounds check.
\<close>

theorem rd_str_throws:
  assumes "rwf r"
  shows "rd_str r = Throw \<longleftrightarrow>
     8 \<le> length (view r) \<and> 2 ^ 64 \<le> rpos r + 8 + be_nat (take 8 (view r))"
  using assms by (rule str_throw_iff)

lemma rd_str_throws_witness:
  "rd_str (reader_on [0xFF, 0xFF, 0xFF, 0xFF, 0xFF, 0xFF, 0xFF, 0xFF]) = Throw"
proof (subst rd_str_throws)
  show "rwf (reader_on [0xFF, 0xFF, 0xFF, 0xFF, 0xFF, 0xFF, 0xFF, 0xFF])"
    by (simp add: reader_on_at small_def)
qed (simp add: reader_on_def view_def be_nat_def)

end
