(* ===== verification/CF_Semantic.thy ===== *)
theory CF_Semantic
  imports CF_Canonical
begin

text \<open>
  The vocabulary enums of \<open>Semantic.hpp\<close> with the name functions of
  \<open>Semantic.cpp\<close>. The macro \<open>NAME_CASE(x)\<close> stringises the qualified
  enumerator, so the printed names carry the enum's name as a prefix; the
  \<open>...FromName\<close> tables do not.
\<close>

definition table_name :: "('e \<times> string) list \<Rightarrow> string \<Rightarrow> 'e \<Rightarrow> string" where
  "table_name cases dflt x = (case map_of cases x of Some s \<Rightarrow> s | None \<Rightarrow> dflt)"

definition LOOKUP :: "(string \<times> 'e) list \<Rightarrow> string \<Rightarrow> 'e option" where
  "LOOKUP arr s = map_option snd (find (\<lambda>p. s = fst p) arr)"

section \<open>Datatype\<close>

datatype Datatype = Datatype (datatype_value: u8)

abbreviation DT_None :: Datatype where "DT_None \<equiv> Datatype 0"
abbreviation DT_F32 :: Datatype where "DT_F32 \<equiv> Datatype 1"
abbreviation DT_F64 :: Datatype where "DT_F64 \<equiv> Datatype 2"
abbreviation DT_F16 :: Datatype where "DT_F16 \<equiv> Datatype 3"
abbreviation DT_BF16 :: Datatype where "DT_BF16 \<equiv> Datatype 4"
abbreviation DT_TF32 :: Datatype where "DT_TF32 \<equiv> Datatype 5"
abbreviation DT_I8 :: Datatype where "DT_I8 \<equiv> Datatype 6"
abbreviation DT_I16 :: Datatype where "DT_I16 \<equiv> Datatype 7"
abbreviation DT_I32 :: Datatype where "DT_I32 \<equiv> Datatype 8"
abbreviation DT_I64 :: Datatype where "DT_I64 \<equiv> Datatype 9"
abbreviation DT_U8 :: Datatype where "DT_U8 \<equiv> Datatype 10"
abbreviation DT_U16 :: Datatype where "DT_U16 \<equiv> Datatype 11"
abbreviation DT_U32 :: Datatype where "DT_U32 \<equiv> Datatype 12"
abbreviation DT_U64 :: Datatype where "DT_U64 \<equiv> Datatype 13"
abbreviation DT_Bool :: Datatype where "DT_Bool \<equiv> Datatype 14"
abbreviation DT_INT4 :: Datatype where "DT_INT4 \<equiv> Datatype 15"
abbreviation DT_UINT4 :: Datatype where "DT_UINT4 \<equiv> Datatype 16"
abbreviation DT_FP8_E4M3 :: Datatype where "DT_FP8_E4M3 \<equiv> Datatype 17"
abbreviation DT_FP8_E5M2 :: Datatype where "DT_FP8_E5M2 \<equiv> Datatype 18"
abbreviation DT_F8E5M2 :: Datatype where "DT_F8E5M2 \<equiv> Datatype 19"
abbreviation DT_F8E4M3 :: Datatype where "DT_F8E4M3 \<equiv> Datatype 20"

definition datatypeCases :: "(Datatype \<times> string) list" where
  "datatypeCases =
    [(DT_None, ''Datatype::None''), (DT_F32, ''Datatype::F32''), (DT_F64, ''Datatype::F64''),
     (DT_F16, ''Datatype::F16''), (DT_BF16, ''Datatype::BF16''), (DT_TF32, ''Datatype::TF32''),
     (DT_I8, ''Datatype::I8''), (DT_I16, ''Datatype::I16''), (DT_I32, ''Datatype::I32''),
     (DT_I64, ''Datatype::I64''), (DT_U8, ''Datatype::U8''), (DT_U16, ''Datatype::U16''),
     (DT_U32, ''Datatype::U32''), (DT_U64, ''Datatype::U64''), (DT_Bool, ''Datatype::Bool''),
     (DT_INT4, ''Datatype::INT4''), (DT_UINT4, ''Datatype::UINT4''),
     (DT_FP8_E4M3, ''Datatype::FP8_E4M3''), (DT_FP8_E5M2, ''Datatype::FP8_E5M2''),
     (DT_F8E5M2, ''Datatype::F8E5M2''), (DT_F8E4M3, ''Datatype::F8E4M3'')]"

definition datatypeName :: "Datatype \<Rightarrow> string" where
  "datatypeName = table_name datatypeCases ''None''"

definition datatypeTable :: "(string \<times> Datatype) list" where
  "datatypeTable =
    [(''None'', DT_None), (''F32'', DT_F32), (''F64'', DT_F64), (''F16'', DT_F16),
     (''BF16'', DT_BF16), (''TF32'', DT_TF32), (''I8'', DT_I8), (''I16'', DT_I16),
     (''I32'', DT_I32), (''I64'', DT_I64), (''U8'', DT_U8), (''U16'', DT_U16), (''U32'', DT_U32),
     (''U64'', DT_U64), (''Bool'', DT_Bool), (''INT4'', DT_INT4), (''UINT4'', DT_UINT4),
     (''FP8_E4M3'', DT_FP8_E4M3), (''FP8_E5M2'', DT_FP8_E5M2), (''F8E5M2'', DT_F8E5M2),
     (''F8E4M3'', DT_F8E4M3)]"

definition datatypeFromName :: "string \<Rightarrow> Datatype option" where
  "datatypeFromName = LOOKUP datatypeTable"

section \<open>Layout\<close>

datatype Layout = Layout (layout_value: u8)

abbreviation LO_None :: Layout where "LO_None \<equiv> Layout 0"
abbreviation LO_RowMajor :: Layout where "LO_RowMajor \<equiv> Layout 1"
abbreviation LO_ColMajor :: Layout where "LO_ColMajor \<equiv> Layout 2"
abbreviation LO_NCHW :: Layout where "LO_NCHW \<equiv> Layout 3"
abbreviation LO_NHWC :: Layout where "LO_NHWC \<equiv> Layout 4"
abbreviation LO_Blocked :: Layout where "LO_Blocked \<equiv> Layout 5"
abbreviation LO_Planar :: Layout where "LO_Planar \<equiv> Layout 6"
abbreviation LO_Interleaved :: Layout where "LO_Interleaved \<equiv> Layout 7"

definition layoutCases :: "(Layout \<times> string) list" where
  "layoutCases =
    [(LO_None, ''Layout::None''), (LO_RowMajor, ''Layout::RowMajor''),
     (LO_ColMajor, ''Layout::ColMajor''), (LO_NCHW, ''Layout::NCHW''),
     (LO_NHWC, ''Layout::NHWC''), (LO_Blocked, ''Layout::Blocked''),
     (LO_Planar, ''Layout::Planar''), (LO_Interleaved, ''Layout::Interleaved'')]"

definition layoutName :: "Layout \<Rightarrow> string" where
  "layoutName = table_name layoutCases ''None''"

definition layoutTable :: "(string \<times> Layout) list" where
  "layoutTable =
    [(''None'', LO_None), (''RowMajor'', LO_RowMajor), (''ColMajor'', LO_ColMajor),
     (''NCHW'', LO_NCHW), (''NHWC'', LO_NHWC), (''Blocked'', LO_Blocked),
     (''Planar'', LO_Planar), (''Interleaved'', LO_Interleaved)]"

definition layoutFromName :: "string \<Rightarrow> Layout option" where
  "layoutFromName = LOOKUP layoutTable"

section \<open>QuantizationMode\<close>

datatype QuantizationMode = QuantizationMode (quantization_value: u8)

abbreviation QM_None :: QuantizationMode where "QM_None \<equiv> QuantizationMode 0"
abbreviation QM_Int8 :: QuantizationMode where "QM_Int8 \<equiv> QuantizationMode 1"
abbreviation QM_Int4 :: QuantizationMode where "QM_Int4 \<equiv> QuantizationMode 2"
abbreviation QM_FP8 :: QuantizationMode where "QM_FP8 \<equiv> QuantizationMode 3"
abbreviation QM_DynamicInt :: QuantizationMode where "QM_DynamicInt \<equiv> QuantizationMode 4"
abbreviation QM_DynamicFP8 :: QuantizationMode where "QM_DynamicFP8 \<equiv> QuantizationMode 5"

definition quantizationCases :: "(QuantizationMode \<times> string) list" where
  "quantizationCases =
    [(QM_None, ''QuantizationMode::None''), (QM_Int8, ''QuantizationMode::Int8''),
     (QM_Int4, ''QuantizationMode::Int4''), (QM_FP8, ''QuantizationMode::FP8''),
     (QM_DynamicInt, ''QuantizationMode::DynamicInt''),
     (QM_DynamicFP8, ''QuantizationMode::DynamicFP8'')]"

definition quantizationName :: "QuantizationMode \<Rightarrow> string" where
  "quantizationName = table_name quantizationCases ''None''"

definition quantizationTable :: "(string \<times> QuantizationMode) list" where
  "quantizationTable =
    [(''None'', QM_None), (''Int8'', QM_Int8), (''Int4'', QM_Int4), (''FP8'', QM_FP8),
     (''DynamicInt'', QM_DynamicInt), (''DynamicFP8'', QM_DynamicFP8)]"

definition quantizationFromName :: "string \<Rightarrow> QuantizationMode option" where
  "quantizationFromName = LOOKUP quantizationTable"

section \<open>PrecisionMode\<close>

datatype PrecisionMode = PrecisionMode (precision_value: u8)

abbreviation PM_None :: PrecisionMode where "PM_None \<equiv> PrecisionMode 0"
abbreviation PM_Full :: PrecisionMode where "PM_Full \<equiv> PrecisionMode 1"
abbreviation PM_Reduced :: PrecisionMode where "PM_Reduced \<equiv> PrecisionMode 2"
abbreviation PM_TF32 :: PrecisionMode where "PM_TF32 \<equiv> PrecisionMode 3"
abbreviation PM_FP16 :: PrecisionMode where "PM_FP16 \<equiv> PrecisionMode 4"
abbreviation PM_BF16 :: PrecisionMode where "PM_BF16 \<equiv> PrecisionMode 5"
abbreviation PM_Mixed :: PrecisionMode where "PM_Mixed \<equiv> PrecisionMode 6"

definition precisionCases :: "(PrecisionMode \<times> string) list" where
  "precisionCases =
    [(PM_None, ''PrecisionMode::None''), (PM_Full, ''PrecisionMode::Full''),
     (PM_Reduced, ''PrecisionMode::Reduced''), (PM_TF32, ''PrecisionMode::TF32''),
     (PM_FP16, ''PrecisionMode::FP16''), (PM_BF16, ''PrecisionMode::BF16''),
     (PM_Mixed, ''PrecisionMode::Mixed'')]"

definition precisionName :: "PrecisionMode \<Rightarrow> string" where
  "precisionName = table_name precisionCases ''None''"

definition precisionTable :: "(string \<times> PrecisionMode) list" where
  "precisionTable =
    [(''None'', PM_None), (''Full'', PM_Full), (''Reduced'', PM_Reduced), (''TF32'', PM_TF32),
     (''FP16'', PM_FP16), (''BF16'', PM_BF16), (''Mixed'', PM_Mixed)]"

definition precisionFromName :: "string \<Rightarrow> PrecisionMode option" where
  "precisionFromName = LOOKUP precisionTable"

section \<open>DeterminismMode\<close>

datatype DeterminismMode = DeterminismMode (determinism_value: u8)

abbreviation DM_Unspecified :: DeterminismMode where "DM_Unspecified \<equiv> DeterminismMode 0"
abbreviation DM_Deterministic :: DeterminismMode where "DM_Deterministic \<equiv> DeterminismMode 1"
abbreviation DM_Stochastic :: DeterminismMode where "DM_Stochastic \<equiv> DeterminismMode 2"

definition determinismCases :: "(DeterminismMode \<times> string) list" where
  "determinismCases =
    [(DM_Unspecified, ''DeterminismMode::Unspecified''),
     (DM_Deterministic, ''DeterminismMode::Deterministic''),
     (DM_Stochastic, ''DeterminismMode::Stochastic'')]"

definition determinismName :: "DeterminismMode \<Rightarrow> string" where
  "determinismName = table_name determinismCases ''Unspecified''"

definition determinismTable :: "(string \<times> DeterminismMode) list" where
  "determinismTable =
    [(''Unspecified'', DM_Unspecified), (''Deterministic'', DM_Deterministic),
     (''Stochastic'', DM_Stochastic)]"

definition determinismFromName :: "string \<Rightarrow> DeterminismMode option" where
  "determinismFromName = LOOKUP determinismTable"

section \<open>ReproducibilityMode\<close>

datatype ReproducibilityMode = ReproducibilityMode (reproducibility_value: u8)

abbreviation RM_Unspecified :: ReproducibilityMode where "RM_Unspecified \<equiv> ReproducibilityMode 0"
abbreviation RM_BestEffort :: ReproducibilityMode where "RM_BestEffort \<equiv> ReproducibilityMode 1"
abbreviation RM_Strict :: ReproducibilityMode where "RM_Strict \<equiv> ReproducibilityMode 2"

definition reproducibilityCases :: "(ReproducibilityMode \<times> string) list" where
  "reproducibilityCases =
    [(RM_Unspecified, ''ReproducibilityMode::Unspecified''),
     (RM_BestEffort, ''ReproducibilityMode::BestEffort''),
     (RM_Strict, ''ReproducibilityMode::Strict'')]"

definition reproducibilityName :: "ReproducibilityMode \<Rightarrow> string" where
  "reproducibilityName = table_name reproducibilityCases ''Unspecified''"

definition reproducibilityTable :: "(string \<times> ReproducibilityMode) list" where
  "reproducibilityTable =
    [(''Unspecified'', RM_Unspecified), (''BestEffort'', RM_BestEffort), (''Strict'', RM_Strict)]"

definition reproducibilityFromName :: "string \<Rightarrow> ReproducibilityMode option" where
  "reproducibilityFromName = LOOKUP reproducibilityTable"

section \<open>DebugReleaseMode\<close>

datatype DebugReleaseMode = DebugReleaseMode (debugRelease_value: u8)

abbreviation DR_Debug :: DebugReleaseMode where "DR_Debug \<equiv> DebugReleaseMode 0"
abbreviation DR_Release :: DebugReleaseMode where "DR_Release \<equiv> DebugReleaseMode 1"
abbreviation DR_RelWithDebInfo :: DebugReleaseMode where "DR_RelWithDebInfo \<equiv> DebugReleaseMode 2"
abbreviation DR_MinSizeRel :: DebugReleaseMode where "DR_MinSizeRel \<equiv> DebugReleaseMode 3"

definition debugReleaseCases :: "(DebugReleaseMode \<times> string) list" where
  "debugReleaseCases =
    [(DR_Debug, ''DebugReleaseMode::Debug''), (DR_Release, ''DebugReleaseMode::Release''),
     (DR_RelWithDebInfo, ''DebugReleaseMode::RelWithDebInfo''),
     (DR_MinSizeRel, ''DebugReleaseMode::MinSizeRel'')]"

definition debugReleaseName :: "DebugReleaseMode \<Rightarrow> string" where
  "debugReleaseName = table_name debugReleaseCases ''Release''"

definition debugReleaseTable :: "(string \<times> DebugReleaseMode) list" where
  "debugReleaseTable =
    [(''Debug'', DR_Debug), (''Release'', DR_Release), (''RelWithDebInfo'', DR_RelWithDebInfo),
     (''MinSizeRel'', DR_MinSizeRel)]"

definition debugReleaseFromName :: "string \<Rightarrow> DebugReleaseMode option" where
  "debugReleaseFromName = LOOKUP debugReleaseTable"

section \<open>AcceleratorVendor\<close>

datatype AcceleratorVendor = AcceleratorVendor (vendor_value: u8)

abbreviation AV_Unknown :: AcceleratorVendor where "AV_Unknown \<equiv> AcceleratorVendor 0"
abbreviation AV_Nvidia :: AcceleratorVendor where "AV_Nvidia \<equiv> AcceleratorVendor 1"
abbreviation AV_AMD :: AcceleratorVendor where "AV_AMD \<equiv> AcceleratorVendor 2"
abbreviation AV_Intel :: AcceleratorVendor where "AV_Intel \<equiv> AcceleratorVendor 3"
abbreviation AV_CPU :: AcceleratorVendor where "AV_CPU \<equiv> AcceleratorVendor 4"
abbreviation AV_Custom :: AcceleratorVendor where "AV_Custom \<equiv> AcceleratorVendor 5"

definition vendorCases :: "(AcceleratorVendor \<times> string) list" where
  "vendorCases =
    [(AV_Unknown, ''AcceleratorVendor::Unknown''), (AV_Nvidia, ''AcceleratorVendor::Nvidia''),
     (AV_AMD, ''AcceleratorVendor::AMD''), (AV_Intel, ''AcceleratorVendor::Intel''),
     (AV_CPU, ''AcceleratorVendor::CPU''), (AV_Custom, ''AcceleratorVendor::Custom'')]"

definition vendorName :: "AcceleratorVendor \<Rightarrow> string" where
  "vendorName = table_name vendorCases ''Unknown''"

definition vendorTable :: "(string \<times> AcceleratorVendor) list" where
  "vendorTable =
    [(''Unknown'', AV_Unknown), (''Nvidia'', AV_Nvidia), (''AMD'', AV_AMD),
     (''Intel'', AV_Intel), (''CPU'', AV_CPU), (''Custom'', AV_Custom)]"

definition vendorFromName :: "string \<Rightarrow> AcceleratorVendor option" where
  "vendorFromName = LOOKUP vendorTable"

section \<open>AcceleratorFamily\<close>

datatype AcceleratorFamily = AcceleratorFamily (family_value: u8)

abbreviation AF_Unknown :: AcceleratorFamily where "AF_Unknown \<equiv> AcceleratorFamily 0"
abbreviation AF_NvidiaCUDA :: AcceleratorFamily where "AF_NvidiaCUDA \<equiv> AcceleratorFamily 1"
abbreviation AF_NvidiaBlackwell :: AcceleratorFamily where "AF_NvidiaBlackwell \<equiv> AcceleratorFamily 2"
abbreviation AF_NvidiaHopper :: AcceleratorFamily where "AF_NvidiaHopper \<equiv> AcceleratorFamily 3"
abbreviation AF_NvidiaAmpere :: AcceleratorFamily where "AF_NvidiaAmpere \<equiv> AcceleratorFamily 4"
abbreviation AF_AMD_HIP :: AcceleratorFamily where "AF_AMD_HIP \<equiv> AcceleratorFamily 5"
abbreviation AF_IntelOneAPI :: AcceleratorFamily where "AF_IntelOneAPI \<equiv> AcceleratorFamily 6"
abbreviation AF_X86_64 :: AcceleratorFamily where "AF_X86_64 \<equiv> AcceleratorFamily 7"
abbreviation AF_Arm64 :: AcceleratorFamily where "AF_Arm64 \<equiv> AcceleratorFamily 8"
abbreviation AF_Generic :: AcceleratorFamily where "AF_Generic \<equiv> AcceleratorFamily 9"

definition familyCases :: "(AcceleratorFamily \<times> string) list" where
  "familyCases =
    [(AF_Unknown, ''AcceleratorFamily::Unknown''),
     (AF_NvidiaCUDA, ''AcceleratorFamily::NvidiaCUDA''),
     (AF_NvidiaBlackwell, ''AcceleratorFamily::NvidiaBlackwell''),
     (AF_NvidiaHopper, ''AcceleratorFamily::NvidiaHopper''),
     (AF_NvidiaAmpere, ''AcceleratorFamily::NvidiaAmpere''),
     (AF_AMD_HIP, ''AcceleratorFamily::AMD_HIP''),
     (AF_IntelOneAPI, ''AcceleratorFamily::IntelOneAPI''),
     (AF_X86_64, ''AcceleratorFamily::X86_64''), (AF_Arm64, ''AcceleratorFamily::Arm64''),
     (AF_Generic, ''AcceleratorFamily::Generic'')]"

definition familyName :: "AcceleratorFamily \<Rightarrow> string" where
  "familyName = table_name familyCases ''Unknown''"

definition familyTable :: "(string \<times> AcceleratorFamily) list" where
  "familyTable =
    [(''Unknown'', AF_Unknown), (''NvidiaCUDA'', AF_NvidiaCUDA),
     (''NvidiaBlackwell'', AF_NvidiaBlackwell), (''NvidiaHopper'', AF_NvidiaHopper),
     (''NvidiaAmpere'', AF_NvidiaAmpere), (''AMD_HIP'', AF_AMD_HIP),
     (''IntelOneAPI'', AF_IntelOneAPI), (''X86_64'', AF_X86_64), (''Arm64'', AF_Arm64),
     (''Generic'', AF_Generic)]"

definition familyFromName :: "string \<Rightarrow> AcceleratorFamily option" where
  "familyFromName = LOOKUP familyTable"

section \<open>Names do not read back\<close>

text \<open>All enumerators of an enum with \<open>n\<close> members.\<close>

definition enumerators :: "(u8 \<Rightarrow> 'e) \<Rightarrow> nat \<Rightarrow> 'e list" where
  "enumerators mk n = map (\<lambda>i. mk (of_nat i)) [0..<n]"

lemma datatype_names_lost:
  "map (\<lambda>e. datatypeFromName (datatypeName e)) (enumerators Datatype 21) = replicate 21 None"
  by code_simp

lemma layout_names_lost:
  "map (\<lambda>e. layoutFromName (layoutName e)) (enumerators Layout 8) = replicate 8 None"
  by code_simp

lemma quantization_names_lost:
  "map (\<lambda>e. quantizationFromName (quantizationName e)) (enumerators QuantizationMode 6) = replicate 6 None"
  by code_simp

lemma precision_names_lost:
  "map (\<lambda>e. precisionFromName (precisionName e)) (enumerators PrecisionMode 7) = replicate 7 None"
  by code_simp

lemma determinism_names_lost:
  "map (\<lambda>e. determinismFromName (determinismName e)) (enumerators DeterminismMode 3) = replicate 3 None"
  by code_simp

lemma reproducibility_names_lost:
  "map (\<lambda>e. reproducibilityFromName (reproducibilityName e)) (enumerators ReproducibilityMode 3) = replicate 3 None"
  by code_simp

lemma debugRelease_names_lost:
  "map (\<lambda>e. debugReleaseFromName (debugReleaseName e)) (enumerators DebugReleaseMode 4) = replicate 4 None"
  by code_simp

lemma vendor_names_lost:
  "map (\<lambda>e. vendorFromName (vendorName e)) (enumerators AcceleratorVendor 6) = replicate 6 None"
  by code_simp

lemma family_names_lost:
  "map (\<lambda>e. familyFromName (familyName e)) (enumerators AcceleratorFamily 10) = replicate 10 None"
  by code_simp

text \<open>
  None of the nine vocabulary enums survives a print/read round trip: for every enumerator, the
  ...FromName function rejects what the ...Name function prints, because the printed name is
  qualified (Datatype::F32) and the table entries are not (F32).
\<close>

theorem semantic_names_lost:
  "map (\<lambda>e. datatypeFromName (datatypeName e)) (enumerators Datatype 21) = replicate 21 None \<and>
   map (\<lambda>e. layoutFromName (layoutName e)) (enumerators Layout 8) = replicate 8 None \<and>
   map (\<lambda>e. quantizationFromName (quantizationName e)) (enumerators QuantizationMode 6) = replicate 6 None \<and>
   map (\<lambda>e. precisionFromName (precisionName e)) (enumerators PrecisionMode 7) = replicate 7 None \<and>
   map (\<lambda>e. determinismFromName (determinismName e)) (enumerators DeterminismMode 3) = replicate 3 None \<and>
   map (\<lambda>e. reproducibilityFromName (reproducibilityName e)) (enumerators ReproducibilityMode 3) = replicate 3 None \<and>
   map (\<lambda>e. debugReleaseFromName (debugReleaseName e)) (enumerators DebugReleaseMode 4) = replicate 4 None \<and>
   map (\<lambda>e. vendorFromName (vendorName e)) (enumerators AcceleratorVendor 6) = replicate 6 None \<and>
   map (\<lambda>e. familyFromName (familyName e)) (enumerators AcceleratorFamily 10) = replicate 10 None"
  by (simp only: datatype_names_lost layout_names_lost quantization_names_lost precision_names_lost determinism_names_lost reproducibility_names_lost
      debugRelease_names_lost vendor_names_lost family_names_lost simp_thms)

text \<open>The tables themselves name every enumerator, in order.\<close>

lemma semantic_tables_complete:
  "map (datatypeFromName \<circ> fst) datatypeTable = map Some (enumerators Datatype 21) \<and>
   map (layoutFromName \<circ> fst) layoutTable = map Some (enumerators Layout 8) \<and>
   map (quantizationFromName \<circ> fst) quantizationTable = map Some (enumerators QuantizationMode 6) \<and>
   map (precisionFromName \<circ> fst) precisionTable = map Some (enumerators PrecisionMode 7) \<and>
   map (determinismFromName \<circ> fst) determinismTable = map Some (enumerators DeterminismMode 3) \<and>
   map (reproducibilityFromName \<circ> fst) reproducibilityTable = map Some (enumerators ReproducibilityMode 3) \<and>
   map (debugReleaseFromName \<circ> fst) debugReleaseTable = map Some (enumerators DebugReleaseMode 4) \<and>
   map (vendorFromName \<circ> fst) vendorTable = map Some (enumerators AcceleratorVendor 6) \<and>
   map (familyFromName \<circ> fst) familyTable = map Some (enumerators AcceleratorFamily 10)"
  by (intro conjI; code_simp)

end
