(* ===== verification/CF_Lifecycle.thy ===== *)
theory CF_Lifecycle
  imports CF_Semantic
begin

text \<open>
  The guarded lifecycle of \<open>Lifecycle.hpp\<close> and \<open>Lifecycle.cpp\<close>: states, names,
  the legal edges and the guarded holder. The properties are about paths of legal edges,
  by rule induction on the reachability relation of the edge predicate.
\<close>

section \<open>Named enumerations\<close>

text \<open>What a name function and its reader promise each other.\<close>

locale named_enum =
  fixes nm :: "'e \<Rightarrow> string"
    and from_nm :: "string \<Rightarrow> 'e option"
  assumes from_nm: "from_nm (nm x) = Some x"
    and nm_from: "from_nm s = Some x \<Longrightarrow> nm x = s"
begin

lemma nm_inject: "nm x = nm y \<longleftrightarrow> x = y"
  by (metis from_nm option.inject)

lemma from_nm_iff: "from_nm s = Some x \<longleftrightarrow> s = nm x"
  using from_nm nm_from by blast

lemma from_nm_None: "from_nm s = None \<longleftrightarrow> (\<forall>x. s \<noteq> nm x)"
  by (metis from_nm_iff not_Some_eq)

end

lemma LOOKUP_Cons:
  "LOOKUP ((n, e) # arr) s = (if s = n then Some e else LOOKUP arr s)"
  by (simp add: LOOKUP_def)

lemma LOOKUP_Nil: "LOOKUP [] s = None"
  by (simp add: LOOKUP_def)

lemma LOOKUP_in: "LOOKUP arr s = Some e \<Longrightarrow> (s, e) \<in> set arr"
  by (induction arr) (auto simp: LOOKUP_def split: if_splits)

section \<open>States\<close>

datatype State =
    St_Submitted | St_Planning | St_Planned | St_Queued | St_Preparing | St_Compiling
      | St_Optimizing | St_Linking | St_Validating | St_Valid | St_Persisting | St_Persisted
      | St_Deployable | St_Deploying | St_Deployed | St_InUse | St_Superseded
      | St_InvalidationPending | St_Invalidated | St_Corrupt | St_Failed | St_Cancelled
      | St_Retired | St_Terminal

definition stateName :: "State \<Rightarrow> string" where
  "stateName x = (case x of
      St_Submitted \<Rightarrow> ''Submitted''
    | St_Planning \<Rightarrow> ''Planning''
    | St_Planned \<Rightarrow> ''Planned''
    | St_Queued \<Rightarrow> ''Queued''
    | St_Preparing \<Rightarrow> ''Preparing''
    | St_Compiling \<Rightarrow> ''Compiling''
    | St_Optimizing \<Rightarrow> ''Optimizing''
    | St_Linking \<Rightarrow> ''Linking''
    | St_Validating \<Rightarrow> ''Validating''
    | St_Valid \<Rightarrow> ''Valid''
    | St_Persisting \<Rightarrow> ''Persisting''
    | St_Persisted \<Rightarrow> ''Persisted''
    | St_Deployable \<Rightarrow> ''Deployable''
    | St_Deploying \<Rightarrow> ''Deploying''
    | St_Deployed \<Rightarrow> ''Deployed''
    | St_InUse \<Rightarrow> ''InUse''
    | St_Superseded \<Rightarrow> ''Superseded''
    | St_InvalidationPending \<Rightarrow> ''InvalidationPending''
    | St_Invalidated \<Rightarrow> ''Invalidated''
    | St_Corrupt \<Rightarrow> ''Corrupt''
    | St_Failed \<Rightarrow> ''Failed''
    | St_Cancelled \<Rightarrow> ''Cancelled''
    | St_Retired \<Rightarrow> ''Retired''
    | St_Terminal \<Rightarrow> ''Terminal'')"

definition stateTable :: "(string \<times> State) list" where
  "stateTable =
    [(''Submitted'', St_Submitted), (''Planning'', St_Planning), (''Planned'', St_Planned),
     (''Queued'', St_Queued), (''Preparing'', St_Preparing), (''Compiling'', St_Compiling),
     (''Optimizing'', St_Optimizing), (''Linking'', St_Linking), (''Validating'', St_Validating),
     (''Valid'', St_Valid), (''Persisting'', St_Persisting), (''Persisted'', St_Persisted),
     (''Deployable'', St_Deployable), (''Deploying'', St_Deploying), (''Deployed'', St_Deployed),
     (''InUse'', St_InUse), (''Superseded'', St_Superseded),
     (''InvalidationPending'', St_InvalidationPending), (''Invalidated'', St_Invalidated),
     (''Corrupt'', St_Corrupt), (''Failed'', St_Failed), (''Cancelled'', St_Cancelled),
     (''Retired'', St_Retired), (''Terminal'', St_Terminal)]"

definition stateFromName :: "string \<Rightarrow> State option" where
  "stateFromName = LOOKUP stateTable"

definition isTerminal :: "State \<Rightarrow> bool" where
  "isTerminal s = (case s of
      St_Invalidated \<Rightarrow> True | St_Corrupt \<Rightarrow> True | St_Failed \<Rightarrow> True
    | St_Cancelled \<Rightarrow> True | St_Retired \<Rightarrow> True | St_Terminal \<Rightarrow> True
    | _ \<Rightarrow> False)"

definition isActiveOrValid :: "State \<Rightarrow> bool" where
  "isActiveOrValid s = (case s of
      St_Valid \<Rightarrow> True | St_Persisted \<Rightarrow> True | St_Deployable \<Rightarrow> True
    | St_Deployed \<Rightarrow> True | St_InUse \<Rightarrow> True
    | _ \<Rightarrow> False)"

definition canTransition :: "State \<Rightarrow> State \<Rightarrow> bool" where
  "canTransition from to =
     (if isTerminal from then False
      else case from of
          St_Submitted \<Rightarrow>
            to = St_Planning \<or> to = St_Failed \<or> to = St_Cancelled
        | St_Planning \<Rightarrow>
            to = St_Planned \<or> to = St_Failed \<or> to = St_Cancelled
        | St_Planned \<Rightarrow>
            to = St_Queued \<or> to = St_Failed \<or> to = St_Cancelled
        | St_Queued \<Rightarrow>
            to = St_Preparing \<or> to = St_Cancelled
        | St_Preparing \<Rightarrow>
            to = St_Compiling \<or> to = St_Failed \<or> to = St_Cancelled
        | St_Compiling \<Rightarrow>
            to = St_Optimizing \<or> to = St_Linking \<or> to = St_Validating
              \<or> to = St_Failed \<or> to = St_Cancelled
        | St_Optimizing \<Rightarrow>
            to = St_Linking \<or> to = St_Validating \<or> to = St_Failed \<or> to = St_Cancelled
        | St_Linking \<Rightarrow>
            to = St_Validating \<or> to = St_Failed \<or> to = St_Cancelled
        | St_Validating \<Rightarrow>
            to = St_Valid \<or> to = St_Persisting \<or> to = St_Failed \<or> to = St_Corrupt
        | St_Valid \<Rightarrow>
            to = St_Persisting \<or> to = St_Persisted \<or> to = St_Deployable
              \<or> to = St_Deployed \<or> to = St_InUse \<or> to = St_Superseded
              \<or> to = St_InvalidationPending
        | St_Persisting \<Rightarrow>
            to = St_Persisted \<or> to = St_Deployable \<or> to = St_Failed \<or> to = St_InvalidationPending
        | St_Persisted \<Rightarrow>
            to = St_Deployable \<or> to = St_Deployed \<or> to = St_InUse
              \<or> to = St_Superseded \<or> to = St_InvalidationPending
        | St_Deployable \<Rightarrow>
            to = St_Deploying \<or> to = St_Deployed \<or> to = St_InUse
              \<or> to = St_Superseded \<or> to = St_InvalidationPending
        | St_Deploying \<Rightarrow>
            to = St_Deployed \<or> to = St_InUse \<or> to = St_Failed \<or> to = St_InvalidationPending
        | St_Deployed \<Rightarrow>
            to = St_InUse \<or> to = St_Superseded \<or> to = St_InvalidationPending
        | St_InUse \<Rightarrow>
            to = St_Deployed \<or> to = St_Superseded \<or> to = St_InvalidationPending
        | St_Superseded \<Rightarrow>
            to = St_InvalidationPending \<or> to = St_Retired
        | St_InvalidationPending \<Rightarrow>
            to = St_Invalidated \<or> to = St_Retired
        | _ \<Rightarrow> False)"

definition illegal_text :: "State \<Rightarrow> State \<Rightarrow> string" where
  "illegal_text from to =
     stateName from @ '' -> '' @ stateName to @ '' is not a legal lifecycle transition''"

definition transition :: "State \<Rightarrow> State \<Rightarrow> State result" where
  "transition from to =
     (if \<not> canTransition from to then Err ErrInvalidStateTransition (illegal_text from to) else Ok to)"

text \<open>The holder \<open>Lifecycle\<close>: its state, each method one section under its mutex.\<close>

record Lifecycle =
  lc_state :: State

definition lc_to :: "State \<Rightarrow> Lifecycle \<Rightarrow> unit result \<times> Lifecycle" where
  "lc_to nxt lc =
     (if \<not> canTransition (lc_state lc) nxt
      then (Err ErrInvalidStateTransition (illegal_text (lc_state lc) nxt), lc)
      else (Ok (), lc\<lparr>lc_state := nxt\<rparr>))"

definition lc_assertCan :: "State \<Rightarrow> Lifecycle \<Rightarrow> unit result" where
  "lc_assertCan nxt lc =
     (if \<not> canTransition (lc_state lc) nxt
      then Err ErrInvalidStateTransition (illegal_text (lc_state lc) nxt)
      else Ok ())"

section \<open>Names\<close>

lemma stateFromName_stateName: "stateFromName (stateName s) = Some s"
  by (induct s; code_simp)

lemma stateName_table: "\<forall>(n, s) \<in> set stateTable. stateName s = n"
  by code_simp

interpretation state_names: named_enum stateName stateFromName
proof unfold_locales
  show "stateFromName (stateName x) = Some x" for x by (rule stateFromName_stateName)
  show "stateName x = s" if "stateFromName s = Some x" for s x
    using that LOOKUP_in [of stateTable s x] stateName_table by (auto simp: stateFromName_def)
qed

text \<open>
  Lifecycle state names read back exactly: stateFromName returns a state precisely for the name
  stateName prints for it, and refuses every other string.
\<close>

theorem state_name_exact: "stateFromName n = Some s \<longleftrightarrow> n = stateName s"
  by (rule state_names.from_nm_iff)

section \<open>Paths\<close>

inductive lc_path :: "State \<Rightarrow> State \<Rightarrow> bool" where
  path_refl: "lc_path s s"
| path_step: "lc_path s t \<Longrightarrow> canTransition t u \<Longrightarrow> lc_path s u"

lemma lc_path_edge: "canTransition s t \<Longrightarrow> lc_path s t"
  by (auto intro: lc_path.intros)

lemma lc_path_closed:
  assumes "lc_path s t" and "P s" and "\<And>t u. P t \<Longrightarrow> canTransition t u \<Longrightarrow> P u"
  shows "P t"
  using assms(1,2) by (induction rule: lc_path.induct) (auto intro: assms(3))

text \<open>States from which no edge leads back to an eligible artifact.\<close>

definition withdrawn :: "State \<Rightarrow> bool" where
  "withdrawn s \<longleftrightarrow> isTerminal s \<or> s = St_Superseded \<or> s = St_InvalidationPending"

lemma withdrawn_closed: "withdrawn t \<Longrightarrow> canTransition t u \<Longrightarrow> withdrawn u"
  by (cases t) (auto simp: withdrawn_def canTransition_def isTerminal_def)

lemma withdrawn_not_active: "withdrawn t \<Longrightarrow> \<not> isActiveOrValid t"
  by (cases t) (simp_all add: withdrawn_def isTerminal_def isActiveOrValid_def)

text \<open>
  C13: A withdrawn artifact never regains eligibility: along every sequence of legal transitions that
  starts in a terminal state, in Superseded or in InvalidationPending, no state is valid,
  persisted, deployable, deployed or in use, and a terminal state is never left at all.
\<close>

theorem lifecycle_no_regain:
  assumes "withdrawn s" and "lc_path s t"
  shows "\<not> isActiveOrValid t \<and> (isTerminal s \<longrightarrow> t = s)"
proof
  show "\<not> isActiveOrValid t"
    using lc_path_closed [OF assms(2), of withdrawn] assms(1) withdrawn_closed withdrawn_not_active
    by blast
  have "t = s \<or> lc_path s t \<and> \<not> isTerminal s"
    using assms(2) by (induction rule: lc_path.induct) (auto simp: canTransition_def intro: lc_path.intros)
  then show "isTerminal s \<longrightarrow> t = s" by blast
qed

lemma lifecycle_no_regain_witness: "\<not> isActiveOrValid St_Invalidated"
proof -
  have "canTransition St_Superseded St_InvalidationPending" "canTransition St_InvalidationPending St_Invalidated"
    by code_simp+
  then have "lc_path St_Superseded St_Invalidated" by (blast intro: lc_path.intros)
  moreover have "withdrawn St_Superseded" by code_simp
  ultimately show ?thesis using lifecycle_no_regain by blast
qed

text \<open>Paths that never enter one given state.\<close>

inductive lc_path_avoiding :: "State \<Rightarrow> State \<Rightarrow> State \<Rightarrow> bool" where
  avoid_refl: "lc_path_avoiding v s s"
| avoid_step: "lc_path_avoiding v s t \<Longrightarrow> canTransition t u \<Longrightarrow> u \<noteq> v \<Longrightarrow> lc_path_avoiding v s u"

definition before_validation :: "State \<Rightarrow> bool" where
  "before_validation s \<longleftrightarrow> s \<in> {St_Submitted, St_Planning, St_Planned, St_Queued, St_Preparing,
     St_Compiling, St_Optimizing, St_Linking, St_Failed, St_Cancelled}"

lemma before_validation_step:
  "before_validation t \<Longrightarrow> canTransition t u \<Longrightarrow> u \<noteq> St_Validating \<Longrightarrow> before_validation u"
  by (cases t) (auto simp: before_validation_def canTransition_def isTerminal_def)

text \<open>
  Nothing becomes eligible without validation: a sequence of legal transitions from Submitted that
  never enters Validating never reaches a valid, persisted, deployable, deployed or in-use state.
\<close>

theorem lifecycle_validation_first:
  assumes "lc_path_avoiding St_Validating St_Submitted t"
  shows "\<not> isActiveOrValid t"
proof -
  have "lc_path_avoiding v s t \<Longrightarrow> v = St_Validating \<Longrightarrow> before_validation s \<Longrightarrow> before_validation t"
    for v s t
    by (induction rule: lc_path_avoiding.induct) (auto intro: before_validation_step)
  then have "before_validation t"
    using assms by (simp add: before_validation_def)
  then show ?thesis by (auto simp: before_validation_def isActiveOrValid_def)
qed

lemma lifecycle_validation_first_witness: "\<not> isActiveOrValid St_Planned"
proof (rule lifecycle_validation_first)
  have "canTransition St_Submitted St_Planning" "canTransition St_Planning St_Planned" by code_simp+
  then show "lc_path_avoiding St_Validating St_Submitted St_Planned"
    by (blast intro: lc_path_avoiding.intros)
qed

text \<open>Distance to a terminal state, the route a stuck artifact can always take.\<close>

definition exit_of :: "State \<Rightarrow> State" where
  "exit_of s = (case s of
      St_Submitted \<Rightarrow> St_Failed | St_Planning \<Rightarrow> St_Failed | St_Planned \<Rightarrow> St_Failed
    | St_Queued \<Rightarrow> St_Cancelled | St_Preparing \<Rightarrow> St_Failed | St_Compiling \<Rightarrow> St_Failed
    | St_Optimizing \<Rightarrow> St_Failed | St_Linking \<Rightarrow> St_Failed | St_Validating \<Rightarrow> St_Failed
    | St_Superseded \<Rightarrow> St_Retired | St_InvalidationPending \<Rightarrow> St_Invalidated
    | _ \<Rightarrow> St_InvalidationPending)"

lemma exit_step: "isTerminal s \<or> canTransition s (exit_of s)"
  by (cases s) (simp_all add: canTransition_def isTerminal_def exit_of_def)

lemma exit_twice: "isTerminal s \<or> isTerminal (exit_of s) \<or> isTerminal (exit_of (exit_of s))"
  by (cases s) (simp_all add: isTerminal_def exit_of_def)

text \<open>
  No state of the lifecycle is a trap: from every state some terminal state is reached by at most
  two legal transitions.
\<close>

theorem lifecycle_can_finish:
  "\<exists>t u. (t = s \<or> canTransition s t) \<and> (u = t \<or> canTransition t u) \<and> isTerminal u"
  using exit_step [of s] exit_step [of "exit_of s"] exit_twice [of s] by blast

section \<open>The guarded holder\<close>

definition lc_run :: "State list \<Rightarrow> Lifecycle \<Rightarrow> Lifecycle" where
  "lc_run reqs lc = fold (\<lambda>s l. snd (lc_to s l)) reqs lc"

text \<open>
  Whatever transitions are requested of a Lifecycle object, in whatever order, its state has moved
  along legal edges only; a refused request is an InvalidStateTransition error that leaves the
  object unchanged, and assertCan predicts exactly which requests are refused.
\<close>

theorem lifecycle_holder_path:
  "lc_path (lc_state lc) (lc_state (lc_run reqs lc)) \<and>
   (\<forall>s l. fst (lc_to s l) = lc_assertCan s l \<and>
     (snd (lc_to s l) = (if canTransition (lc_state l) s then l\<lparr>lc_state := s\<rparr> else l)) \<and>
     (result_ok (lc_assertCan s l) \<longleftrightarrow> canTransition (lc_state l) s))"
proof
  show "lc_path (lc_state lc) (lc_state (lc_run reqs lc))"
  proof (induction reqs rule: rev_induct)
    case Nil
    then show ?case by (simp add: lc_run_def path_refl)
  next
    case (snoc s reqs)
    then show ?case by (auto simp: lc_run_def lc_to_def intro: path_step)
  qed
qed (simp add: lc_to_def lc_assertCan_def)

end
