(* ===== verification/CF_Key.thy ===== *)
theory CF_Key
  imports CF_Semantic
begin

text \<open>
  The typed compilation key of \<open>Key.hpp\<close> and \<open>Key.cpp\<close>: value encoders and
  decoders, the tag-sorted field vector behind the setters, the getters, digest, equality
  and ordering, the explanation text and decoding from canonical bytes. The field vector
  is an interpretation of the map interface, so every law of a finite map holds of it.
\<close>

section \<open>Value encodings\<close>

definition encId :: "Id128 \<Rightarrow> bytes" where
  "encId v = w_u128 v"

definition encDigest :: "Digest \<Rightarrow> bytes" where
  "encDigest v = v"

definition encString :: "string \<Rightarrow> bytes" where
  "encString v = w_string v"

definition encU8 :: "u8 \<Rightarrow> bytes" where
  "encU8 v = w_u8 v"

definition encU64 :: "u64 \<Rightarrow> bytes" where
  "encU64 v = putU64BE v"

definition encShape :: "i64 list \<Rightarrow> bytes" where
  "encShape s = putU32BE (of_nat (length s)) @ concat (map putU64BE s)"

definition encIds :: "Id128 list \<Rightarrow> bytes" where
  "encIds ids = putU32BE (of_nat (length ids)) @ concat (map w_u128 ids)"

definition encU64s :: "u64 list \<Rightarrow> bytes" where
  "encU64s vs = putU32BE (of_nat (length vs)) @ concat (map putU64BE vs)"

text \<open>
  Every decoder returns true only when it consumed its whole input. None of the readers
  used here throws: \<open>bytesBlob\<close> clips instead.
\<close>

definition consumed_all :: "bytes \<Rightarrow> 'a rres \<Rightarrow> 'a option" where
  "consumed_all s m = (case m of Got x r \<Rightarrow> if rpos r = length s then Some x else None | _ \<Rightarrow> None)"

definition decBytes :: "bytes \<Rightarrow> string option" where
  "decBytes s = map_option string_of (consumed_all s (rd_bytesBlob (reader_on s)))"

definition decU64 :: "bytes \<Rightarrow> u64 option" where
  "decU64 s = consumed_all s (rd_u64 (reader_on s))"

definition decU8 :: "bytes \<Rightarrow> u8 option" where
  "decU8 s = consumed_all s (rd_u8 (reader_on s))"

definition decU128 :: "bytes \<Rightarrow> Id128 option" where
  "decU128 s = consumed_all s (rd_u128 (reader_on s))"

definition decShape :: "bytes \<Rightarrow> i64 list option" where
  "decShape s = consumed_all s (rbind (rd_u32 (reader_on s)) (\<lambda>n r. read_n rd_u64 (unat n) r))"

section \<open>The key and its fields\<close>

type_synonym CompilationKey = "KeyFieldEntry list"

definition findField :: "KeyField \<Rightarrow> CompilationKey \<Rightarrow> KeyFieldEntry option" where
  "findField f k = find (\<lambda>e. ke_tag e = keyFieldTag f) k"

text \<open>
  \<open>put\<close> erases the tag and inserts at \<open>lower_bound\<close>. On a tag-sorted vector, which
  is all that the setters ever produce, the binary search finds the first entry whose tag
  is not below the new one.
\<close>

definition key_erase :: "KeyField \<Rightarrow> CompilationKey \<Rightarrow> CompilationKey" where
  "key_erase f k = filter (\<lambda>e. ke_tag e \<noteq> keyFieldTag f) k"

definition key_put :: "bytes \<Rightarrow> KeyField \<Rightarrow> CompilationKey \<Rightarrow> CompilationKey" where
  "key_put v f k =
     (let t = keyFieldTag f;
          fs = key_erase f k;
          e = KeyFieldEntry t v
      in takeWhile (\<lambda>a. ke_tag a < t) fs @ [e] @ dropWhile (\<lambda>a. ke_tag a < t) fs)"

definition setId :: "KeyField \<Rightarrow> Id128 \<Rightarrow> CompilationKey \<Rightarrow> CompilationKey" where
  "setId f v = key_put (encId v) f"

definition setDigest :: "KeyField \<Rightarrow> Digest \<Rightarrow> CompilationKey \<Rightarrow> CompilationKey" where
  "setDigest f v = key_put (encDigest v) f"

definition setString :: "KeyField \<Rightarrow> string \<Rightarrow> CompilationKey \<Rightarrow> CompilationKey" where
  "setString f v = key_put (encString v) f"

definition setU8 :: "KeyField \<Rightarrow> u8 \<Rightarrow> CompilationKey \<Rightarrow> CompilationKey" where
  "setU8 f v = key_put (encU8 v) f"

definition setU64 :: "KeyField \<Rightarrow> u64 \<Rightarrow> CompilationKey \<Rightarrow> CompilationKey" where
  "setU64 f v = key_put (encU64 v) f"

definition setShape :: "KeyField \<Rightarrow> i64 list \<Rightarrow> CompilationKey \<Rightarrow> CompilationKey" where
  "setShape f s = key_put (encShape s) f"

definition setIds :: "KeyField \<Rightarrow> Id128 list \<Rightarrow> CompilationKey \<Rightarrow> CompilationKey" where
  "setIds f ids = key_put (encIds ids) f"

definition setU64s :: "KeyField \<Rightarrow> u64 list \<Rightarrow> CompilationKey \<Rightarrow> CompilationKey" where
  "setU64s f vs = key_put (encU64s vs) f"

definition get_with :: "(bytes \<Rightarrow> 'a option) \<Rightarrow> KeyField \<Rightarrow> CompilationKey \<Rightarrow> 'a option" where
  "get_with d f k = (case findField f k of None \<Rightarrow> None | Some e \<Rightarrow> d (ke_value e))"

definition key_has :: "KeyField \<Rightarrow> CompilationKey \<Rightarrow> bool" where
  "key_has f k \<longleftrightarrow> findField f k \<noteq> None"

definition getU8 :: "KeyField \<Rightarrow> CompilationKey \<Rightarrow> u8 option" where
  "getU8 = get_with decU8"

definition getU64 :: "KeyField \<Rightarrow> CompilationKey \<Rightarrow> u64 option" where
  "getU64 = get_with decU64"

definition getString :: "KeyField \<Rightarrow> CompilationKey \<Rightarrow> string option" where
  "getString = get_with decBytes"

definition getDigest :: "KeyField \<Rightarrow> CompilationKey \<Rightarrow> Digest option" where
  "getDigest = get_with (\<lambda>v. case rd_bytesBlob (reader_on v) of
     Got s _ \<Rightarrow> if length s \<noteq> 32 then None else Some s
   | _ \<Rightarrow> None)"

definition getShape :: "KeyField \<Rightarrow> CompilationKey \<Rightarrow> i64 list option" where
  "getShape = get_with decShape"

definition getU128 :: "KeyField \<Rightarrow> CompilationKey \<Rightarrow> Id128 option" where
  "getU128 = get_with decU128"

section \<open>Typed setters and getters\<close>

definition key_logicalOperation :: "Id128 \<Rightarrow> CompilationKey \<Rightarrow> CompilationKey" where
  "key_logicalOperation v = setId KF_LogicalOperation v"

definition key_sourceIdentity :: "Id128 \<Rightarrow> CompilationKey \<Rightarrow> CompilationKey" where
  "key_sourceIdentity v = setId KF_SourceIdentity v"

definition key_sourceDigest :: "Digest \<Rightarrow> CompilationKey \<Rightarrow> CompilationKey" where
  "key_sourceDigest v = setDigest KF_SourceDigest v"

definition key_sourceContent :: "string \<Rightarrow> CompilationKey \<Rightarrow> CompilationKey" where
  "key_sourceContent v = setString KF_SourceContent v"

definition key_irIdentity :: "Id128 \<Rightarrow> CompilationKey \<Rightarrow> CompilationKey" where
  "key_irIdentity v = setId KF_IRIdentity v"

definition key_irDigest :: "Digest \<Rightarrow> CompilationKey \<Rightarrow> CompilationKey" where
  "key_irDigest v = setDigest KF_IRDigest v"

definition key_irContent :: "string \<Rightarrow> CompilationKey \<Rightarrow> CompilationKey" where
  "key_irContent v = setString KF_IRContent v"

definition key_irFormat :: "string \<Rightarrow> CompilationKey \<Rightarrow> CompilationKey" where
  "key_irFormat v = setString KF_IRFormat v"

definition key_frontend :: "string \<Rightarrow> CompilationKey \<Rightarrow> CompilationKey" where
  "key_frontend v = setString KF_Frontend v"

definition key_frontendVersion :: "string \<Rightarrow> CompilationKey \<Rightarrow> CompilationKey" where
  "key_frontendVersion v = setString KF_FrontendVersion v"

definition key_compiler :: "string \<Rightarrow> CompilationKey \<Rightarrow> CompilationKey" where
  "key_compiler v = setString KF_Compiler v"

definition key_compilerVersion :: "string \<Rightarrow> CompilationKey \<Rightarrow> CompilationKey" where
  "key_compilerVersion v = setString KF_CompilerVersion v"

definition key_backend :: "string \<Rightarrow> CompilationKey \<Rightarrow> CompilationKey" where
  "key_backend v = setString KF_Backend v"

definition key_backendVersion :: "string \<Rightarrow> CompilationKey \<Rightarrow> CompilationKey" where
  "key_backendVersion v = setString KF_BackendVersion v"

definition key_codeGenerator :: "string \<Rightarrow> CompilationKey \<Rightarrow> CompilationKey" where
  "key_codeGenerator v = setString KF_CodeGenerator v"

definition key_optimizer :: "string \<Rightarrow> CompilationKey \<Rightarrow> CompilationKey" where
  "key_optimizer v = setString KF_Optimizer v"

definition key_optimizerVersion :: "string \<Rightarrow> CompilationKey \<Rightarrow> CompilationKey" where
  "key_optimizerVersion v = setString KF_OptimizerVersion v"

definition key_linker :: "string \<Rightarrow> CompilationKey \<Rightarrow> CompilationKey" where
  "key_linker v = setString KF_Linker v"

definition key_linkerVersion :: "string \<Rightarrow> CompilationKey \<Rightarrow> CompilationKey" where
  "key_linkerVersion v = setString KF_LinkerVersion v"

definition key_runtime :: "string \<Rightarrow> CompilationKey \<Rightarrow> CompilationKey" where
  "key_runtime v = setString KF_Runtime v"

definition key_runtimeVersion :: "string \<Rightarrow> CompilationKey \<Rightarrow> CompilationKey" where
  "key_runtimeVersion v = setString KF_RuntimeVersion v"

definition key_driver :: "string \<Rightarrow> CompilationKey \<Rightarrow> CompilationKey" where
  "key_driver v = setString KF_Driver v"

definition key_driverVersion :: "string \<Rightarrow> CompilationKey \<Rightarrow> CompilationKey" where
  "key_driverVersion v = setString KF_DriverVersion v"

definition key_acceleratorVendor :: "AcceleratorVendor \<Rightarrow> CompilationKey \<Rightarrow> CompilationKey" where
  "key_acceleratorVendor v = setU8 KF_AcceleratorVendor (vendor_value v)"

definition key_acceleratorFamily :: "AcceleratorFamily \<Rightarrow> CompilationKey \<Rightarrow> CompilationKey" where
  "key_acceleratorFamily v = setU8 KF_AcceleratorFamily (family_value v)"

definition key_targetArchitecture :: "string \<Rightarrow> CompilationKey \<Rightarrow> CompilationKey" where
  "key_targetArchitecture v = setString KF_TargetArchitecture v"

definition key_computeCapability :: "string \<Rightarrow> CompilationKey \<Rightarrow> CompilationKey" where
  "key_computeCapability v = setString KF_ComputeCapability v"

definition key_isa :: "string \<Rightarrow> CompilationKey \<Rightarrow> CompilationKey" where
  "key_isa v = setString KF_ISA v"

definition key_abi :: "string \<Rightarrow> CompilationKey \<Rightarrow> CompilationKey" where
  "key_abi v = setString KF_ABI v"

definition key_callingConvention :: "string \<Rightarrow> CompilationKey \<Rightarrow> CompilationKey" where
  "key_callingConvention v = setString KF_CallingConvention v"

definition key_kernelABI :: "string \<Rightarrow> CompilationKey \<Rightarrow> CompilationKey" where
  "key_kernelABI v = setString KF_KernelABI v"

definition key_graphABI :: "string \<Rightarrow> CompilationKey \<Rightarrow> CompilationKey" where
  "key_graphABI v = setString KF_GraphABI v"

definition key_operatorRevision :: "string \<Rightarrow> CompilationKey \<Rightarrow> CompilationKey" where
  "key_operatorRevision v = setString KF_OperatorRevision v"

definition key_datatype :: "Datatype \<Rightarrow> CompilationKey \<Rightarrow> CompilationKey" where
  "key_datatype v = setU8 KF_Datatype (datatype_value v)"

definition key_layout :: "Layout \<Rightarrow> CompilationKey \<Rightarrow> CompilationKey" where
  "key_layout v = setU8 KF_Layout (layout_value v)"

definition key_rank :: "u64 \<Rightarrow> CompilationKey \<Rightarrow> CompilationKey" where
  "key_rank v = setU64 KF_Rank v"

definition key_staticShape :: "i64 list \<Rightarrow> CompilationKey \<Rightarrow> CompilationKey" where
  "key_staticShape v = setShape KF_StaticShape v"

definition key_symbolicShape :: "string \<Rightarrow> CompilationKey \<Rightarrow> CompilationKey" where
  "key_symbolicShape v = setString KF_SymbolicShape v"

definition key_alignment :: "u64 \<Rightarrow> CompilationKey \<Rightarrow> CompilationKey" where
  "key_alignment v = setU64 KF_Alignment v"

definition key_quantization :: "QuantizationMode \<Rightarrow> CompilationKey \<Rightarrow> CompilationKey" where
  "key_quantization v = setU8 KF_Quantization (quantization_value v)"

definition key_precision :: "PrecisionMode \<Rightarrow> CompilationKey \<Rightarrow> CompilationKey" where
  "key_precision v = setU8 KF_Precision (precision_value v)"

definition key_launchSpecialization :: "string \<Rightarrow> CompilationKey \<Rightarrow> CompilationKey" where
  "key_launchSpecialization v = setString KF_LaunchSpecialization v"

definition key_scalarConstants :: "string \<Rightarrow> CompilationKey \<Rightarrow> CompilationKey" where
  "key_scalarConstants v = setString KF_ScalarConstants v"

definition key_featureFlags :: "string \<Rightarrow> CompilationKey \<Rightarrow> CompilationKey" where
  "key_featureFlags v = setString KF_FeatureFlags v"

definition key_optimizationFlags :: "string \<Rightarrow> CompilationKey \<Rightarrow> CompilationKey" where
  "key_optimizationFlags v = setString KF_OptimizationFlags v"

definition key_codegenFlags :: "string \<Rightarrow> CompilationKey \<Rightarrow> CompilationKey" where
  "key_codegenFlags v = setString KF_CodegenFlags v"

definition key_debugRelease :: "DebugReleaseMode \<Rightarrow> CompilationKey \<Rightarrow> CompilationKey" where
  "key_debugRelease v = setU8 KF_DebugRelease (debugRelease_value v)"

definition key_determinism :: "DeterminismMode \<Rightarrow> CompilationKey \<Rightarrow> CompilationKey" where
  "key_determinism v = setU8 KF_Determinism (determinism_value v)"

definition key_reproducibility :: "ReproducibilityMode \<Rightarrow> CompilationKey \<Rightarrow> CompilationKey" where
  "key_reproducibility v = setU8 KF_Reproducibility (reproducibility_value v)"

definition key_environmentFingerprint :: "string \<Rightarrow> CompilationKey \<Rightarrow> CompilationKey" where
  "key_environmentFingerprint v = setString KF_EnvFingerprint v"

definition key_dependencyIdentities :: "Id128 list \<Rightarrow> CompilationKey \<Rightarrow> CompilationKey" where
  "key_dependencyIdentities v = setIds KF_DependencyIdentities v"

definition key_dependencyGenerations :: "u64 list \<Rightarrow> CompilationKey \<Rightarrow> CompilationKey" where
  "key_dependencyGenerations v = setU64s KF_DependencyGenerations v"

definition key_modelRevision :: "string \<Rightarrow> CompilationKey \<Rightarrow> CompilationKey" where
  "key_modelRevision v = setString KF_ModelRevision v"

definition key_runtimeCompatibilityGeneration :: "u64 \<Rightarrow> CompilationKey \<Rightarrow> CompilationKey" where
  "key_runtimeCompatibilityGeneration v = setU64 KF_RuntimeCompatibilityGeneration v"

definition key_compilerPolicyGeneration :: "u64 \<Rightarrow> CompilationKey \<Rightarrow> CompilationKey" where
  "key_compilerPolicyGeneration v = setU64 KF_CompilerPolicyGeneration v"

definition key_namespaceName :: "string \<Rightarrow> CompilationKey \<Rightarrow> CompilationKey" where
  "key_namespaceName v = setString KF_Namespace v"

definition key_tenant :: "string \<Rightarrow> CompilationKey \<Rightarrow> CompilationKey" where
  "key_tenant v = setString KF_Tenant v"


definition get_logicalOperation :: "CompilationKey \<Rightarrow> Id128 option" where
  "get_logicalOperation = getU128 KF_LogicalOperation"

definition get_sourceIdentity :: "CompilationKey \<Rightarrow> Id128 option" where
  "get_sourceIdentity = getU128 KF_SourceIdentity"

definition get_sourceDigest :: "CompilationKey \<Rightarrow> Digest option" where
  "get_sourceDigest = getDigest KF_SourceDigest"

definition get_irIdentity :: "CompilationKey \<Rightarrow> Id128 option" where
  "get_irIdentity = getU128 KF_IRIdentity"

definition get_irDigest :: "CompilationKey \<Rightarrow> Digest option" where
  "get_irDigest = getDigest KF_IRDigest"

definition get_rank :: "CompilationKey \<Rightarrow> u64 option" where
  "get_rank = getU64 KF_Rank"

definition get_staticShape :: "CompilationKey \<Rightarrow> (i64 list) option" where
  "get_staticShape = getShape KF_StaticShape"

definition get_acceleratorVendor :: "CompilationKey \<Rightarrow> AcceleratorVendor option" where
  "get_acceleratorVendor k = map_option AcceleratorVendor (getU8 KF_AcceleratorVendor k)"

definition get_acceleratorFamily :: "CompilationKey \<Rightarrow> AcceleratorFamily option" where
  "get_acceleratorFamily k = map_option AcceleratorFamily (getU8 KF_AcceleratorFamily k)"

definition get_datatype :: "CompilationKey \<Rightarrow> Datatype option" where
  "get_datatype k = map_option Datatype (getU8 KF_Datatype k)"

definition get_layout :: "CompilationKey \<Rightarrow> Layout option" where
  "get_layout k = map_option Layout (getU8 KF_Layout k)"

definition get_quantization :: "CompilationKey \<Rightarrow> QuantizationMode option" where
  "get_quantization k = map_option QuantizationMode (getU8 KF_Quantization k)"

definition get_precision :: "CompilationKey \<Rightarrow> PrecisionMode option" where
  "get_precision k = map_option PrecisionMode (getU8 KF_Precision k)"

definition get_determinism :: "CompilationKey \<Rightarrow> DeterminismMode option" where
  "get_determinism k = map_option DeterminismMode (getU8 KF_Determinism k)"

definition get_reproducibility :: "CompilationKey \<Rightarrow> ReproducibilityMode option" where
  "get_reproducibility k = map_option ReproducibilityMode (getU8 KF_Reproducibility k)"


section \<open>Digest, equality, ordering\<close>

definition key_digest :: "CompilationKey \<Rightarrow> Digest" where
  "key_digest k = sha256 (makeCanonicalFields k)"

definition key_toHex :: "CompilationKey \<Rightarrow> string" where
  "key_toHex k = digestToHex (key_digest k)"

definition key_hash :: "CompilationKey \<Rightarrow> u64" where
  "key_hash k = foldl (\<lambda>h b. h * 131 + ucast b) 0 (key_digest k)"

definition key_eq :: "CompilationKey \<Rightarrow> CompilationKey \<Rightarrow> bool" where
  "key_eq k k' \<longleftrightarrow> length k = length k' \<and>
     (\<forall>e \<in> set k. case findField (KeyField (ke_tag e)) k' of
        None \<Rightarrow> False | Some e' \<Rightarrow> ke_value e' = ke_value e)"

fun lexicographical_compare :: "('a \<Rightarrow> 'a \<Rightarrow> bool) \<Rightarrow> 'a list \<Rightarrow> 'a list \<Rightarrow> bool" where
  "lexicographical_compare lt xs [] = False"
| "lexicographical_compare lt [] (y # ys) = True"
| "lexicographical_compare lt (x # xs) (y # ys) =
     (if lt x y then True else if lt y x then False else lexicographical_compare lt xs ys)"

definition entry_less :: "KeyFieldEntry \<Rightarrow> KeyFieldEntry \<Rightarrow> bool" where
  "entry_less a b = (if ke_tag a \<noteq> ke_tag b then ke_tag a < ke_tag b
     else lexicographical_compare (<) (ke_value a) (ke_value b))"

definition key_less :: "CompilationKey \<Rightarrow> CompilationKey \<Rightarrow> bool" where
  "key_less k k' = lexicographical_compare entry_less k k'"

definition fromCanonicalBytes :: "bytes \<Rightarrow> CompilationKey option" where
  "fromCanonicalBytes d =
     (let parsed = parseKeyFields d in if \<not> pf_ok parsed then None else Some (pf_fields parsed))"

section \<open>Explanation\<close>

text \<open>Decimal text of an integer, as \<open>std::to_string\<close> and \<open>operator<<\<close> print it.\<close>

function dec_pos :: "int \<Rightarrow> string" where
  "dec_pos n = (if n < 10 then [char_of (48 + nat n)] else dec_pos (n div 10) @ [char_of (48 + nat (n mod 10))])"
  by pat_completeness auto
termination by (relation "measure nat") auto

declare dec_pos.simps [simp del]

definition dec_int :: "int \<Rightarrow> string" where
  "dec_int i = (if i < 0 then ''-'' @ dec_pos (- i) else dec_pos i)"

text \<open>
  The enumerations are shown by name; a 64-bit value is converted to the enum's 8-bit
  underlying type first, as the \<open>static_cast\<close> does.
\<close>

definition renderEnum :: "KeyField \<Rightarrow> u8 \<Rightarrow> string \<Rightarrow> string" where
  "renderEnum f v dflt =
     (if f = KF_Datatype then datatypeName (Datatype v)
      else if f = KF_Layout then layoutName (Layout v)
      else if f = KF_Quantization then quantizationName (QuantizationMode v)
      else if f = KF_Precision then precisionName (PrecisionMode v)
      else if f = KF_Determinism then determinismName (DeterminismMode v)
      else if f = KF_Reproducibility then reproducibilityName (ReproducibilityMode v)
      else if f = KF_AcceleratorVendor then vendorName (AcceleratorVendor v)
      else if f = KF_AcceleratorFamily then familyName (AcceleratorFamily v)
      else if f = KF_DebugRelease then debugReleaseName (DebugReleaseMode v)
      else dflt)"

fun join_with :: "string \<Rightarrow> string list \<Rightarrow> string" where
  "join_with sep [] = []"
| "join_with sep [x] = x"
| "join_with sep (x # y # xs) = x @ sep @ join_with sep (y # xs)"

definition renderValue :: "KeyField \<Rightarrow> bytes \<Rightarrow> string" where
  "renderValue f v =
     (case decBytes v of Some str \<Rightarrow> str
      | None \<Rightarrow> (case decU64 v of Some u \<Rightarrow> renderEnum f (ucast u) (dec_int (uint u))
      | None \<Rightarrow> (case decU8 v of Some u \<Rightarrow> renderEnum f u (dec_int (uint u))
      | None \<Rightarrow> (case decU128 v of Some i \<Rightarrow> toHex i
      | None \<Rightarrow> if length v = 32 then ''0x'' @ bytesToHex v
                else (case decShape v of
                    Some sh \<Rightarrow> ''['' @ join_with '','' (map (\<lambda>x. dec_int (sint x)) sh) @ '']''
                  | None \<Rightarrow> ''0x'' @ bytesToHex v)))))"

record FieldExplain =
  fe_name :: string
  fe_present :: bool
  fe_value :: string

definition key_explain :: "CompilationKey \<Rightarrow> FieldExplain list" where
  "key_explain k = sort_key fe_name (map (\<lambda>e.
     \<lparr>fe_name = keyFieldName (KeyField (ke_tag e)), fe_present = True,
      fe_value = renderValue (KeyField (ke_tag e)) (ke_value e)\<rparr>) k)"

definition newline :: string where
  "newline = [char_of (10 :: nat)]"

definition explainText :: "CompilationKey \<Rightarrow> string" where
  "explainText k =
     ''CompilationKey('' @ key_toHex k @ '')'' @ newline @
     concat (map (\<lambda>e. ''  '' @ (if fe_present e then ''present'' else ''absent'') @ '' '' @ fe_name e @
        (if fe_present e then '' = '' @ fe_value e else []) @ newline) (key_explain k))"

section \<open>The field vector is a map\<close>

definition key_wf :: "CompilationKey \<Rightarrow> bool" where
  "key_wf k \<longleftrightarrow> sorted_wrt (<) (map ke_tag k)"

definition field_value :: "CompilationKey \<Rightarrow> KeyField \<Rightarrow> bytes option" where
  "field_value k f = map_option ke_value (findField f k)"

definition key_smap :: "CompilationKey \<Rightarrow> (u8, bytes) smap" where
  "key_smap k = map (\<lambda>e. (ke_tag e, ke_value e)) k"

lemma key_smap_inject: "key_smap k = key_smap k' \<longleftrightarrow> k = k'"
  by (auto simp: key_smap_def inj_map_eq_map inj_def KeyFieldEntry.expand)

lemma key_wf_smap: "key_wf k \<longleftrightarrow> smap_inv (key_smap k)"
  by (simp add: key_wf_def smap_inv_def key_smap_def o_def)

lemma field_value_smap: "field_value k f = map_of (key_smap k) (keyFieldTag f)"
  by (induction k) (auto simp: field_value_def findField_def key_smap_def)

lemma key_erase_smap: "key_smap (key_erase f k) = smap_del (keyFieldTag f) (key_smap k)"
  by (induction k) (auto simp: key_erase_def smap_del_def key_smap_def)

lemma insert_smap:
  "sorted_wrt (<) (map ke_tag fs) \<Longrightarrow> t \<notin> ke_tag ` set fs \<Longrightarrow>
   key_smap (takeWhile (\<lambda>a. ke_tag a < t) fs @ [KeyFieldEntry t v] @ dropWhile (\<lambda>a. ke_tag a < t) fs) =
     smap_put t v (key_smap fs)"
  by (induction fs) (auto simp: key_smap_def)

lemma smap_put_del: "smap_inv m \<Longrightarrow> smap_put k v (smap_del k m) = smap_put k v m"
  by (rule smap.ext) simp_all

text \<open>\<open>put\<close> on the vector is \<open>insert_or_assign\<close> on the ordered map it represents.\<close>

lemma key_put_smap:
  assumes "key_wf k"
  shows "key_smap (key_put v f k) = smap_put (keyFieldTag f) v (key_smap k)"
proof -
  have "key_wf (key_erase f k)"
    using assms by (simp add: key_wf_smap key_erase_smap)
  moreover have "keyFieldTag f \<notin> ke_tag ` set (key_erase f k)"
    by (auto simp: key_erase_def)
  ultimately have "key_smap (key_put v f k) = smap_put (keyFieldTag f) v (key_smap (key_erase f k))"
    using insert_smap [of "key_erase f k"] by (simp add: key_put_def key_wf_def Let_def)
  then show ?thesis
    using assms by (simp add: key_erase_smap key_wf_smap smap_put_del)
qed

lemma key_wf_put [simp]: "key_wf k \<Longrightarrow> key_wf (key_put v f k)"
  by (simp add: key_wf_smap key_put_smap)

lemma find_filter_neq: "g \<noteq> f \<Longrightarrow> findField g (key_erase f k) = findField g k"
  by (induction k) (auto simp: findField_def key_erase_def KeyField.expand)

lemma find_append: "find P (xs @ ys) = (case find P xs of None \<Rightarrow> find P ys | Some x \<Rightarrow> Some x)"
  by (induction xs) auto

lemma KeyField_neq_tag: "keyFieldTag f = keyFieldTag g \<longleftrightarrow> f = g"
  by (cases f; cases g) simp

lemma findField_put:
  "findField g (key_put v f k) =
     (if g = f then Some (KeyFieldEntry (keyFieldTag f) v) else findField g k)"
proof (cases "g = f")
  case True
  have "find (\<lambda>e. ke_tag e = keyFieldTag f) (takeWhile (\<lambda>a. ke_tag a < keyFieldTag f) (key_erase f k)) = None"
    by (auto simp: find_None_iff key_erase_def dest: set_takeWhileD)
  then show ?thesis
    using True by (simp add: findField_def key_put_def Let_def find_append)
next
  case False
  then have t: "keyFieldTag f \<noteq> keyFieldTag g" by (auto simp: KeyField_neq_tag)
  let ?P = "\<lambda>e. ke_tag e = keyFieldTag g" and ?Q = "\<lambda>a. ke_tag a < keyFieldTag f"
  have "find ?P (key_erase f k) =
      (case find ?P (takeWhile ?Q (key_erase f k)) of
         None \<Rightarrow> find ?P (dropWhile ?Q (key_erase f k)) | Some x \<Rightarrow> Some x)"
    by (metis find_append takeWhile_dropWhile_id)
  then show ?thesis
    using False t find_filter_neq [OF False, of k]
    by (cases "find ?P k"; cases "find ?P (takeWhile ?Q (key_erase f k))")
      (simp_all add: findField_def key_put_def Let_def find_append)
qed

lemma key_ext:
  assumes "key_wf k" and "key_wf k'" and "\<And>f. field_value k f = field_value k' f"
  shows "k = k'"
proof -
  have "map_of (key_smap k) t = map_of (key_smap k') t" for t
    using assms(3) [of "KeyField t"] by (simp add: field_value_smap)
  then have "key_smap k = key_smap k'"
    using assms(1,2) by (intro smap.ext) (simp_all add: key_wf_smap)
  then show ?thesis by (simp add: key_smap_inject)
qed

interpretation key_map: ordered_map field_value "\<lambda>f v k. key_put v f k" key_erase key_wf "[]"
proof unfold_locales
  show "field_value (key_put v f m) f' = (if f' = f then Some v else field_value m f')" for v f f' m
    by (simp add: field_value_def findField_put)
  show "field_value (key_erase f m) f' = (if f' = f then None else field_value m f')" for f f' m
    by (simp add: field_value_smap key_erase_smap KeyField_neq_tag)
  show "key_wf (key_erase f m)" if "key_wf m" for f m
    using that by (simp add: key_wf_smap key_erase_smap)
  show "key_wf []" by (simp add: key_wf_def)
qed (auto simp: field_value_def findField_def intro: key_ext)

lemma get_with_value: "get_with d f k = Option.bind (field_value k f) d"
  by (cases "findField f k") (simp_all add: get_with_def field_value_def)

lemmas setter_defs =
  key_logicalOperation_def key_sourceIdentity_def key_sourceDigest_def key_sourceContent_def
  key_irIdentity_def key_irDigest_def key_irContent_def key_irFormat_def
  key_frontend_def key_frontendVersion_def key_compiler_def key_compilerVersion_def
  key_backend_def key_backendVersion_def key_codeGenerator_def key_optimizer_def
  key_optimizerVersion_def key_linker_def key_linkerVersion_def key_runtime_def
  key_runtimeVersion_def key_driver_def key_driverVersion_def key_acceleratorVendor_def
  key_acceleratorFamily_def key_targetArchitecture_def key_computeCapability_def key_isa_def
  key_abi_def key_callingConvention_def key_kernelABI_def key_graphABI_def
  key_operatorRevision_def key_datatype_def key_layout_def key_rank_def
  key_staticShape_def key_symbolicShape_def key_alignment_def key_quantization_def
  key_precision_def key_launchSpecialization_def key_scalarConstants_def key_featureFlags_def
  key_optimizationFlags_def key_codegenFlags_def key_debugRelease_def key_determinism_def
  key_reproducibility_def key_environmentFingerprint_def key_dependencyIdentities_def key_dependencyGenerations_def
  key_modelRevision_def key_runtimeCompatibilityGeneration_def key_compilerPolicyGeneration_def key_namespaceName_def
  key_tenant_def

lemmas set_defs = setId_def setDigest_def setString_def setU8_def setU64_def setShape_def
  setIds_def setU64s_def
lemmas get_defs = getU8_def getU64_def getString_def getDigest_def getShape_def getU128_def

section \<open>Setters and getters\<close>

lemma consumed_all_at [simp]:
  "consumed_all s (Got x (reader_at pre rest)) = (if length pre = length s then Some x else None)"
  by (simp add: consumed_all_def reader_at_def)

lemma dec_enc_values:
  "decU8 (encU8 a) = Some a"
  "decU64 (encU64 b) = Some b"
  "decU128 (encId c) = Some c"
  by (simp_all add: decU8_def decU64_def decU128_def encU8_def encU64_def encId_def
      c_u8.dec_whole c_u64.dec_whole c_u128.dec_whole small_few)

lemma w_string_blob: "w_string s = blob_bytes (bytes_of s)"
  by (simp add: w_string_def blob_bytes_def)

lemma small_blob: "length x < 2 ^ 62 \<Longrightarrow> small (blob_bytes x)"
  by (simp add: small_def blob_bytes_def)

lemma decBytes_encString: "length s < 2 ^ 62 \<Longrightarrow> decBytes (encString s) = Some s"
  by (simp add: decBytes_def encString_def w_string_blob c_blob.dec_whole small_blob)

lemma length_concat_u64: "length (concat (map putU64BE s)) = 8 * length s"
  by (induction s) simp_all

lemma decShape_encShape:
  assumes "length s < 2 ^ 32"
  shows "decShape (encShape s) = Some s"
proof -
  have sm: "small (putU32BE (of_nat (length s)) @ concat (map putU64BE s))"
    using assms by (simp add: small_def length_concat_u64)
  have "unat (of_nat (length s) :: u32) = length s"
    using assms by (simp add: unat_of_nat)
  then show ?thesis
    using sm c_u64.read_n_enc [of s "putU32BE (of_nat (length s))" "[]"]
    by (simp add: decShape_def encShape_def reader_on_at codec)
qed

lemma field_value_put: "field_value (key_put v f k) g = (if g = f then Some v else field_value k g)"
  by (rule key_map.get_put)

text \<open>
  C11: A key setter is read back by its getter, for each value type: 8-bit and 64-bit integers,
  identities, strings shorter than 2^62 bytes and shapes of fewer than 2^32 dimensions; and setting
  one field leaves every other field of the key as it was.
\<close>

theorem key_set_get:
  assumes "length s < 2 ^ 62" and "length sh < 2 ^ 32" and "g \<noteq> f"
  shows "getU8 f (setU8 f a k) = Some a \<and>
     getU64 f (setU64 f b k) = Some b \<and>
     getU128 f (setId f c k) = Some c \<and>
     getString f (setString f s k) = Some s \<and>
     getShape f (setShape f sh k) = Some sh \<and>
     findField g (key_put v f k) = findField g k"
  using assms decBytes_encString [of s] decShape_encShape [of sh]
  by (simp add: set_defs get_defs get_with_value field_value_put dec_enc_values findField_put)

lemma key_set_get_witness:
  "getString KF_Compiler (setString KF_Compiler ''nvrtc'' (setU64 KF_Rank 2 [])) = Some ''nvrtc'' \<and>
   getShape KF_StaticShape (setShape KF_StaticShape [4, 4] []) = Some [4, 4]"
proof -
  have n: "KF_Rank \<noteq> KF_Compiler" and m: "KF_Rank \<noteq> KF_StaticShape" by simp_all
  show ?thesis
    using key_set_get [OF _ _ n, of "''nvrtc''" "[]"] key_set_get [OF _ _ m, of "[]" "[4, 4]"]
    by simp
qed

lemma blob_size_bound:
  assumes "small s" and "rd_bytesBlob (reader_on s) = Got b r"
  shows "length b + 8 \<le> length s"
proof -
  from assms(2) obtain len r1 where u: "rd_u64 (reader_on s) = Got len r1" and b: "b = take (unat len) (view r1)"
    by (auto simp: rd_bytesBlob_def rbind_Got split: if_splits)
  have "s = putU64BE len @ view r1"
    using c_u64.dec_D [OF u] assms(1) by (auto simp: reader_on_at)
  then have "length s = 8 + length (view r1)" by (metis length_append length_put(4))
  then show ?thesis by (simp add: b)
qed

text \<open>
  getDigest never returns what setDigest stored: the setter writes the 32 raw bytes, the getter
  expects a length-prefixed blob of 32 bytes, and no 32-byte buffer holds one, not even when the
  first eight bytes wrap the reader's position. sourceDigest() and irDigest() are always absent.
\<close>

theorem get_digest_never:
  assumes "length d = 32"
  shows "getDigest f (setDigest f d k) = None"
  using assms blob_size_bound [of d] small_few [of d]
  by (fastforce simp: getDigest_def setDigest_def encDigest_def get_with_value field_value_put
      split: rres.splits)

lemma get_digest_never_witness: "get_sourceDigest (key_sourceDigest zeroDigest []) = None"
  unfolding get_sourceDigest_def key_sourceDigest_def
  by (rule get_digest_never) (simp add: zeroDigest_def)

section \<open>Equality, ordering and canonical bytes\<close>

lemma key_wf_record: "key_wf k \<Longrightarrow> distinct (map ke_tag k)"
  by (simp add: key_wf_def strict_sorted_iff)

lemma key_wf_sort: "key_wf k \<Longrightarrow> sort_key ke_tag k = k"
  by (intro sort_key_id_if_sorted) (simp add: key_wf_def strict_sorted_iff)

lemma findField_in:
  "distinct (map ke_tag k) \<Longrightarrow> findField (KeyField t) k = Some e \<longleftrightarrow> e \<in> set k \<and> ke_tag e = t"
  by (induction k) (auto simp: findField_def)

lemma key_eq_set:
  assumes "distinct (map ke_tag k)" and "distinct (map ke_tag k')"
  shows "key_eq k k' \<longleftrightarrow> set k = set k'"
proof
  assume eq: "key_eq k k'"
  have "set k \<subseteq> set k'"
  proof
    fix e assume "e \<in> set k"
    then obtain e' where "findField (KeyField (ke_tag e)) k' = Some e'" "ke_value e' = ke_value e"
      using eq by (fastforce simp: key_eq_def split: option.splits)
    then have "e' \<in> set k'" "e' = e"
      using findField_in [OF assms(2)] by (auto intro: KeyFieldEntry.expand)
    then show "e \<in> set k'" by simp
  qed
  moreover have "card (set k) = card (set k')"
    using eq assms by (simp add: key_eq_def distinct_card distinct_map)
  ultimately show "set k = set k'" by (intro card_subset_eq) simp_all
next
  assume s: "set k = set k'"
  then have "length k = length k'" using assms by (metis distinct_card distinct_map)
  moreover have "findField (KeyField (ke_tag e)) k' = Some e" if "e \<in> set k" for e
    using that s findField_in [OF assms(2)] by simp
  ultimately show "key_eq k k'" by (simp add: key_eq_def)
qed

text \<open>
  C12: Key equality is equality of the canonical bytes: for keys with valid, distinct tags, whether built
  by setters or decoded, operator== holds precisely when makeCanonicalFields, the input of the
  digest, agrees; equal keys therefore have equal digests, and unequal keys hash different inputs.
\<close>

theorem key_eq_canonical:
  assumes "record_ok k" and "record_ok k'" and "small (makeCanonicalFields k)"
  shows "(key_eq k k' \<longleftrightarrow> makeCanonicalFields k = makeCanonicalFields k') \<and>
     (key_eq k k' \<longrightarrow> key_digest k = key_digest k')"
proof -
  have "makeCanonicalFields k = makeCanonicalFields k' \<longleftrightarrow> set k = set k'"
  proof
    assume "makeCanonicalFields k = makeCanonicalFields k'"
    then have "sort_key ke_tag k = sort_key ke_tag k'"
      using assms by (auto simp: make_record_bytes intro!: record_bytes_inject)
    then show "set k = set k'" by (metis set_sort)
  next
    assume "set k = set k'"
    then show "makeCanonicalFields k = makeCanonicalFields k'"
      using sort_key_set_eq [of k k'] assms(1,2) by (simp add: make_record_bytes record_ok_def)
  qed
  then show ?thesis
    using key_eq_set [of k k'] assms(1,2) by (auto simp: record_ok_def key_digest_def)
qed

lemma key_eq_canonical_witness:
  "key_eq [KeyFieldEntry 2 [5], KeyFieldEntry 1 [6]] [KeyFieldEntry 1 [6], KeyFieldEntry 2 [5]] \<and>
   makeCanonicalFields [KeyFieldEntry 2 [5], KeyFieldEntry 1 [6]] =
   makeCanonicalFields [KeyFieldEntry 1 [6], KeyFieldEntry 2 [5]]"
proof -
  have "record_ok [KeyFieldEntry 2 [5], KeyFieldEntry 1 [6]]"
    "record_ok [KeyFieldEntry 1 [6], KeyFieldEntry 2 [5]]"
    "key_eq [KeyFieldEntry 2 [5], KeyFieldEntry 1 [6]] [KeyFieldEntry 1 [6], KeyFieldEntry 2 [5]]"
    by code_simp+
  moreover have "small (makeCanonicalFields [KeyFieldEntry 2 [5], KeyFieldEntry 1 [6]])"
    by (rule small_few) code_simp
  ultimately show ?thesis using key_eq_canonical by blast
qed

lemma key_bytes_back:
  assumes "key_wf k" and "\<forall>e \<in> set k. valid_tag (ke_tag e)" and "small (makeCanonicalFields k)"
  shows "fromCanonicalBytes (makeCanonicalFields k) = Some k"
proof -
  have "record_ok k" using assms(1,2) by (simp add: record_ok_def key_wf_record)
  then show ?thesis
    using assms(1,3) parse_record_bytes [of k]
    by (simp add: fromCanonicalBytes_def make_record_bytes key_wf_sort)
qed

text \<open>
  A key kept sorted by its setters, with valid tags, is restored exactly by fromCanonicalBytes from
  its canonical bytes.
\<close>

theorem key_canonical_roundtrip:
  assumes "key_wf k" and "\<forall>e \<in> set k. valid_tag (ke_tag e)" and "small (makeCanonicalFields k)"
  shows "fromCanonicalBytes (makeCanonicalFields k) = Some k"
  using assms by (rule key_bytes_back)

lemma key_canonical_roundtrip_witness:
  "fromCanonicalBytes (makeCanonicalFields (setU8 KF_Datatype 1 (setU64 KF_Rank 2 []))) =
     Some (setU8 KF_Datatype 1 (setU64 KF_Rank 2 []))"
proof (rule key_canonical_roundtrip)
  show "key_wf (setU8 KF_Datatype 1 (setU64 KF_Rank 2 []))" by code_simp
  show "\<forall>e \<in> set (setU8 KF_Datatype 1 (setU64 KF_Rank 2 [])). valid_tag (ke_tag e)" by code_simp
  show "small (makeCanonicalFields (setU8 KF_Datatype 1 (setU64 KF_Rank 2 [])))"
    by (rule small_few) code_simp
qed

lemma lexcmp_less: "lexicographical_compare (<) xs ys \<longleftrightarrow> xs < (ys :: 'a::linorder list)"
  by (induction "(<) :: 'a \<Rightarrow> 'a \<Rightarrow> bool" xs ys rule: lexicographical_compare.induct) auto

instantiation KeyFieldEntry :: linorder
begin

definition less_KeyFieldEntry :: "KeyFieldEntry \<Rightarrow> KeyFieldEntry \<Rightarrow> bool" where
  "less_KeyFieldEntry = entry_less"

definition less_eq_KeyFieldEntry :: "KeyFieldEntry \<Rightarrow> KeyFieldEntry \<Rightarrow> bool" where
  "less_eq_KeyFieldEntry a b \<longleftrightarrow> entry_less a b \<or> a = b"

instance
  by standard
    (auto simp: less_KeyFieldEntry_def less_eq_KeyFieldEntry_def entry_less_def lexcmp_less
      split: if_splits intro: KeyFieldEntry.expand)

end

lemma key_less_iff: "key_less k k' \<longleftrightarrow> k < k'"
  by (simp add: key_less_def lexcmp_less flip: less_KeyFieldEntry_def)

text \<open>
  On keys kept sorted by the setters, operator< is a strict total order that agrees with
  operator==: of two keys exactly one of k < k', k == k', k' < k holds, and < is transitive, as the
  std::map instances keyed by compilation keys require.
\<close>

theorem key_order_total:
  assumes "key_wf k" and "key_wf k'"
  shows "(key_eq k k' \<longleftrightarrow> \<not> key_less k k' \<and> \<not> key_less k' k) \<and>
     \<not> (key_less k k' \<and> key_less k' k) \<and>
     (key_less k k' \<and> key_less k' k'' \<longrightarrow> key_less k k'')"
proof -
  have "set k = set k' \<longleftrightarrow> k = k'"
  proof
    assume "set k = set k'"
    then have "sort_key ke_tag k = sort_key ke_tag k'"
      using assms by (intro sort_key_set_eq) (simp_all add: key_wf_record)
    then show "k = k'" using assms by (simp add: key_wf_sort)
  qed simp
  then have "key_eq k k' \<longleftrightarrow> k = k'"
    using key_eq_set [of k k'] assms by (simp add: key_wf_record)
  then show ?thesis by (auto simp: key_less_iff)
qed

lemma key_order_total_witness:
  "key_wf (setU64 KF_Rank 2 []) \<and> key_wf (setU64 KF_Rank 3 []) \<and>
   \<not> key_eq (setU64 KF_Rank 2 []) (setU64 KF_Rank 3 [])"
proof -
  have "key_wf (setU64 KF_Rank 2 [])" "key_wf (setU64 KF_Rank 3 [])"
    "key_less (setU64 KF_Rank 2 []) (setU64 KF_Rank 3 [])"
    by code_simp+
  then show ?thesis using key_order_total [of "setU64 KF_Rank 2 []" "setU64 KF_Rank 3 []"] by blast
qed

text \<open>
  Keys decoded from bytes need not be sorted: parseKeyFields accepts fields in any tag order and
  fromCanonicalBytes keeps it, so there are two accepted buffers whose keys are equal under
  operator== (with equal digests) and yet ordered by operator<.
\<close>

theorem decoded_keys_disagree:
  "\<exists>b1 b2 k1 k2. fromCanonicalBytes b1 = Some k1 \<and> fromCanonicalBytes b2 = Some k2 \<and>
     key_eq k1 k2 \<and> key_digest k1 = key_digest k2 \<and> key_less k1 k2"
proof -
  let ?k1 = "[KeyFieldEntry 1 [6], KeyFieldEntry 2 [5]]"
  let ?k2 = "[KeyFieldEntry 2 [5], KeyFieldEntry 1 [6]]"
  have "record_ok ?k1" "record_ok ?k2" "key_eq ?k1 ?k2" "key_less ?k1 ?k2"
    "makeCanonicalFields ?k1 = makeCanonicalFields ?k2" by code_simp+
  moreover have "small (record_bytes ?k1)" "small (record_bytes ?k2)"
    by (rule small_few, code_simp)+
  ultimately show ?thesis
    by (intro exI [of _ "record_bytes ?k1"] exI [of _ "record_bytes ?k2"] exI [of _ ?k1]
        exI [of _ ?k2]) (simp add: fromCanonicalBytes_def parse_record_bytes key_digest_def)
qed

end
