(* ===== verification/CF_Json.thy ===== *)
theory CF_Json
  imports Complex_Main CF_Key CF_Lifecycle
begin

text \<open>
  The JSON values of \<open>Json.hpp\<close> with the printer and the recursive-descent parser of
  \<open>Json.cpp\<close>. Numbers are IEEE binary64 values: a finite double is its rational
  value (the sign of zero is not observable here), conversions round to nearest, ties to
  even, and a conversion to an integer type that C++ leaves undefined is \<open>None\<close>.
\<close>

section \<open>Binary64\<close>

datatype dbl = Fin rat | Inf bool

definition round_half_even :: "rat \<Rightarrow> int" where
  "round_half_even x =
     (let f = \<lfloor>x\<rfloor>; r = x - of_int f
      in if r < 1 / 2 then f else if 1 / 2 < r then f + 1 else if even f then f else f + 1)"

function bit_count :: "int \<Rightarrow> int" where
  "bit_count n = (if n \<le> 0 then 0 else bit_count (n div 2) + 1)"
  by pat_completeness auto
termination by (relation "measure nat") auto

declare bit_count.simps [simp del]

text \<open>The exponent of the last mantissa bit of a positive value: 53 bits, or subnormal.\<close>

definition dbl_exp :: "rat \<Rightarrow> int" where
  "dbl_exp x =
     (let (n, d) = quotient_of x;
          e = max (- 1074) (bit_count n - bit_count d - 53)
      in if 2 ^ 53 \<le> x / 2 powi e then e + 1 else e)"

definition round_pos :: "rat \<Rightarrow> rat" where
  "round_pos x = (let e = dbl_exp x in of_int (round_half_even (x / 2 powi e)) * 2 powi e)"

definition round_double :: "rat \<Rightarrow> dbl" where
  "round_double x =
     (if x = 0 then Fin 0
      else let y = round_pos \<bar>x\<bar>
           in if 2 ^ 1024 \<le> y then Inf (x < 0) else Fin (if x < 0 then - y else y))"

definition double_of_int :: "int \<Rightarrow> dbl" where
  "double_of_int n = round_double (of_int n)"

definition trunc :: "rat \<Rightarrow> int" where
  "trunc x = (if x < 0 then \<lceil>x\<rceil> else \<lfloor>x\<rfloor>)"

definition to_i64 :: "dbl \<Rightarrow> i64 option" where
  "to_i64 d = (case d of
     Fin x \<Rightarrow> if - (2 ^ 63) \<le> trunc x \<and> trunc x < 2 ^ 63 then Some (of_int (trunc x)) else None
   | Inf _ \<Rightarrow> None)"

definition to_u64 :: "dbl \<Rightarrow> u64 option" where
  "to_u64 d = (case d of
     Fin x \<Rightarrow> if 0 \<le> trunc x \<and> trunc x < 2 ^ 64 then Some (of_int (trunc x)) else None
   | Inf _ \<Rightarrow> None)"

section \<open>Values\<close>

datatype Json = JNull | JBool bool | JNum dbl | JStr string | JArr "Json list"
  | JObj "(string \<times> Json) list"

definition json_integer :: "i64 \<Rightarrow> Json" where
  "json_integer n = JNum (double_of_int (sint n))"

definition isNull :: "Json \<Rightarrow> bool" where "isNull j \<longleftrightarrow> (case j of JNull \<Rightarrow> True | _ \<Rightarrow> False)"

definition isBool :: "Json \<Rightarrow> bool" where "isBool j \<longleftrightarrow> (case j of JBool _ \<Rightarrow> True | _ \<Rightarrow> False)"

definition isNumber :: "Json \<Rightarrow> bool" where "isNumber j \<longleftrightarrow> (case j of JNum _ \<Rightarrow> True | _ \<Rightarrow> False)"

definition isString :: "Json \<Rightarrow> bool" where "isString j \<longleftrightarrow> (case j of JStr _ \<Rightarrow> True | _ \<Rightarrow> False)"

definition isArray :: "Json \<Rightarrow> bool" where "isArray j \<longleftrightarrow> (case j of JArr _ \<Rightarrow> True | _ \<Rightarrow> False)"

definition isObject :: "Json \<Rightarrow> bool" where "isObject j \<longleftrightarrow> (case j of JObj _ \<Rightarrow> True | _ \<Rightarrow> False)"

definition asBool :: "Json \<Rightarrow> bool" where
  "asBool j = (case j of JBool b \<Rightarrow> b | _ \<Rightarrow> False)"

definition asNumber :: "Json \<Rightarrow> dbl" where
  "asNumber j = (case j of JNum d \<Rightarrow> d | _ \<Rightarrow> Fin 0)"

definition asString :: "Json \<Rightarrow> string" where
  "asString j = (case j of JStr s \<Rightarrow> s | _ \<Rightarrow> [])"

definition asArrayPtr :: "Json \<Rightarrow> Json list option" where
  "asArrayPtr j = (case j of JArr a \<Rightarrow> Some a | _ \<Rightarrow> None)"

definition asObjectPtr :: "Json \<Rightarrow> (string, Json) smap option" where
  "asObjectPtr j = (case j of JObj m \<Rightarrow> Some m | _ \<Rightarrow> None)"

definition json_set :: "string \<Rightarrow> Json \<Rightarrow> Json \<Rightarrow> Json" where
  "json_set key v j = JObj (smap_put key v (case j of JObj m \<Rightarrow> m | _ \<Rightarrow> []))"

definition json_get :: "string \<Rightarrow> Json \<Rightarrow> Json option" where
  "json_get key j = (case asObjectPtr j of None \<Rightarrow> None | Some m \<Rightarrow> map_of m key)"

text \<open>A braced initialiser of \<open>std::map\<close>: the first of two equal keys stays.\<close>

definition json_object :: "(string \<times> Json) list \<Rightarrow> Json" where
  "json_object kvs = JObj (foldr (\<lambda>(k, v). smap_put k v) kvs [])"

section \<open>Printing\<close>

definition c_quote :: char where "c_quote = char_of (34 :: nat)"
definition c_backslash :: char where "c_backslash = char_of (92 :: nat)"

definition hex4 :: "nat \<Rightarrow> string" where
  "hex4 n = [hexChar (n div 4096 mod 16), hexChar (n div 256 mod 16), hexChar (n div 16 mod 16),
     hexChar (n mod 16)]"

definition escape_char :: "char \<Rightarrow> string" where
  "escape_char ch =
     (let uc = (of_char ch :: nat) in
      if ch = c_quote then [c_backslash, c_quote]
      else if ch = c_backslash then [c_backslash, c_backslash]
      else if uc < 0x20 then c_backslash # CHR ''u'' # hex4 uc
      else [ch])"

definition escapeTo :: "string \<Rightarrow> string" where
  "escapeTo s = [c_quote] @ concat (map escape_char s) @ [c_quote]"

text \<open>
  \<open>os << d\<close> with the default precision: six significant digits, fixed notation for
  decimal exponents from -4 to 5, trailing zeros dropped.
\<close>

fun dec_exp_small :: "nat \<Rightarrow> rat \<Rightarrow> int" where
  "dec_exp_small 0 a = 0"
| "dec_exp_small (Suc fuel) a = (if 1 \<le> a then 0 else dec_exp_small fuel (a * 10) - 1)"

definition dec_exp :: "rat \<Rightarrow> int" where
  "dec_exp a = (if 1 \<le> a then int (length (dec_pos \<lfloor>a\<rfloor>)) - 1 else dec_exp_small 330 a)"

definition strip_zeros :: "string \<Rightarrow> string" where
  "strip_zeros ds = rev (dropWhile (\<lambda>c. c = CHR ''0'') (rev ds))"

definition with_point :: "string \<Rightarrow> string \<Rightarrow> string" where
  "with_point i f = (let f' = strip_zeros f in if f' = [] then i else i @ ''.'' @ f')"

definition pad2 :: "string \<Rightarrow> string" where
  "pad2 s = (if length s < 2 then CHR ''0'' # s else s)"

definition fmt_g :: "rat \<Rightarrow> string" where
  "fmt_g x =
     (let a = \<bar>x\<bar>;
          X0 = dec_exp a;
          m0 = round_half_even (a / 10 powi (X0 - 5));
          X = (if m0 = 1000000 then X0 + 1 else X0);
          ds = dec_pos (if m0 = 1000000 then 100000 else m0);
          sgn = (if x < 0 then ''-'' else [])
      in if X < - 4 \<or> 6 \<le> X
         then sgn @ with_point (take 1 ds) (drop 1 ds) @ ''e'' @ (if X < 0 then ''-'' else ''+'') @
                pad2 (dec_pos \<bar>X\<bar>)
         else if 0 \<le> X then sgn @ with_point (take (nat X + 1) ds) (drop (nat X + 1) ds)
         else sgn @ with_point ''0'' (replicate (nat (- X - 1)) (CHR ''0'') @ ds))"

definition dump_number :: "dbl \<Rightarrow> string option" where
  "dump_number d = (case to_i64 d of
     None \<Rightarrow> None
   | Some n \<Rightarrow> if double_of_int (sint n) = d then Some (dec_int (sint n))
              else (case d of Fin x \<Rightarrow> Some (fmt_g x) | Inf _ \<Rightarrow> None))"

definition commas :: "string list \<Rightarrow> string" where
  "commas xs = join_with '','' xs"

fun dumpTo :: "Json \<Rightarrow> string option" where
  "dumpTo JNull = Some ''null''"
| "dumpTo (JBool b) = Some (if b then ''true'' else ''false'')"
| "dumpTo (JNum d) = dump_number d"
| "dumpTo (JStr s) = Some (escapeTo s)"
| "dumpTo (JArr a) = map_option (\<lambda>ts. ''['' @ commas ts @ '']'') (those (map dumpTo a))"
| "dumpTo (JObj m) = map_option (\<lambda>ts. ''{'' @ commas ts @ ''}'')
     (those (map (\<lambda>kv. map_option (\<lambda>t. escapeTo (fst kv) @ '':'' @ t) (dumpTo (snd kv))) m))"

definition json_dump :: "Json \<Rightarrow> string option" where
  "json_dump j = dumpTo j"

definition json_dumpPretty :: "Json \<Rightarrow> string option" where
  "json_dumpPretty j = dumpTo j"

section \<open>Parsing\<close>

text \<open>
  The parser's text from \<open>i_\<close> on. \<open>fail_\<close> is sticky and makes \<open>Json::parse\<close>
  return nothing, so a failing sub-parser ends the run here.
\<close>

definition is_ws :: "char \<Rightarrow> bool" where
  "is_ws c \<longleftrightarrow> of_char c \<in> {32, 9, 13, 10 :: nat}"

definition skipWs :: "string \<Rightarrow> string" where
  "skipWs s = dropWhile is_ws s"

text \<open>\<open>std::strtoul\<close> in base 16: spaces, a sign, an optional 0x, then digits.\<close>

definition hex_value :: "string \<Rightarrow> nat" where
  "hex_value ds = foldl (\<lambda>a c. a * 16 + nat (hexVal c)) 0 ds"

definition strtoul16 :: "string \<Rightarrow> u64" where
  "strtoul16 s =
     (let s1 = dropWhile (\<lambda>c. of_char c = (32 :: nat) \<or> (9 \<le> (of_char c :: nat) \<and> of_char c \<le> (13 :: nat))) s;
          neg = (case s1 of c # _ \<Rightarrow> c = CHR ''-'' | [] \<Rightarrow> False);
          s2 = (case s1 of c # cs \<Rightarrow> if c = CHR ''-'' \<or> c = CHR ''+'' then cs else s1 | [] \<Rightarrow> []);
          s3 = (case s2 of z # x # h # cs \<Rightarrow>
                  if z = CHR ''0'' \<and> (x = CHR ''x'' \<or> x = CHR ''X'') \<and> 0 \<le> hexVal h then h # cs else s2
                | _ \<Rightarrow> s2);
          v = of_nat (hex_value (takeWhile (\<lambda>c. 0 \<le> hexVal c) s3))
      in if neg then - v else v)"

definition simple_escape :: "char \<Rightarrow> char option" where
  "simple_escape e =
     (if e = c_quote then Some c_quote
      else if e = c_backslash then Some c_backslash
      else if e = CHR ''/'' then Some (CHR ''/'')
      else if e = CHR ''b'' then Some (char_of (8 :: nat))
      else if e = CHR ''f'' then Some (char_of (12 :: nat))
      else if e = CHR ''n'' then Some (char_of (10 :: nat))
      else if e = CHR ''r'' then Some (char_of (13 :: nat))
      else if e = CHR ''t'' then Some (char_of (9 :: nat))
      else None)"

definition cons_fst :: "char \<Rightarrow> (string \<times> string) option \<Rightarrow> (string \<times> string) option" where
  "cons_fst c m = map_option (\<lambda>(out, r). (c # out, r)) m"

lemma cons_fst_cong [fundef_cong]: "c = c' \<Longrightarrow> m = m' \<Longrightarrow> cons_fst c m = cons_fst c' m'"
  by simp

function parse_string :: "string \<Rightarrow> (string \<times> string) option" where
  "parse_string [] = None"
| "parse_string (c # cs) =
     (if c = c_quote then Some ([], cs)
      else if c = c_backslash then
        (case cs of
           [] \<Rightarrow> None
         | e # cs' \<Rightarrow>
             (case simple_escape e of
                Some ch \<Rightarrow> cons_fst ch (parse_string cs')
              | None \<Rightarrow>
                  if e = CHR ''u'' then
                    if length cs' < 4 then None
                    else cons_fst (char_of_byte (ucast (strtoul16 (take 4 cs')))) (parse_string (drop 4 cs'))
                  else None))
      else cons_fst c (parse_string cs))"
  by pat_completeness auto
termination by (relation "measure length") auto

text \<open>\<open>std::strtod\<close> on the characters \<open>parseNumber\<close> collects.\<close>

definition is_digit :: "char \<Rightarrow> bool" where
  "is_digit c \<longleftrightarrow> 48 \<le> (of_char c :: nat) \<and> (of_char c :: nat) \<le> 57"

definition digits_value :: "string \<Rightarrow> int" where
  "digits_value ds = foldl (\<lambda>a c. a * 10 + (int (of_char c) - 48)) 0 ds"

definition strtod_exp :: "string \<Rightarrow> int" where
  "strtod_exp s = (case s of
     e # cs \<Rightarrow>
       if e = CHR ''e'' \<or> e = CHR ''E'' then
         let (neg, ds) = (case cs of c # cs' \<Rightarrow> if c = CHR ''-'' then (True, cs')
                                         else if c = CHR ''+'' then (False, cs') else (False, cs)
                          | [] \<Rightarrow> (False, []));
             n = digits_value (takeWhile is_digit ds)
         in if neg then - n else n
       else 0
   | [] \<Rightarrow> 0)"

definition strtod :: "string \<Rightarrow> dbl option" where
  "strtod s =
     (let neg = (case s of c # _ \<Rightarrow> c = CHR ''-'' | [] \<Rightarrow> False);
          s1 = (if neg then tl s else s);
          ip = takeWhile is_digit s1;
          r1 = dropWhile is_digit s1;
          fp = (case r1 of c # cs \<Rightarrow> if c = CHR ''.'' then takeWhile is_digit cs else [] | [] \<Rightarrow> []);
          r2 = (case r1 of c # cs \<Rightarrow> if c = CHR ''.'' then dropWhile is_digit cs else r1 | [] \<Rightarrow> []);
          v = (of_int (digits_value (ip @ fp)) :: rat) * 10 powi (strtod_exp r2 - int (length fp))
      in if ip = [] \<and> fp = [] then None else Some (round_double (if neg then - v else v)))"

definition is_number_char :: "char \<Rightarrow> bool" where
  "is_number_char c \<longleftrightarrow> is_digit c \<or> c \<in> {CHR ''.'', CHR ''e'', CHR ''E'', CHR ''+'', CHR ''-''}"

definition parseNumber :: "string \<Rightarrow> (Json \<times> string) option" where
  "parseNumber s = map_option (\<lambda>d. (JNum d, dropWhile is_number_char s)) (strtod (takeWhile is_number_char s))"

definition parseBool :: "string \<Rightarrow> (Json \<times> string) option" where
  "parseBool s =
     (if take 4 s = ''true'' then Some (JBool True, drop 4 s)
      else if take 5 s = ''false'' then Some (JBool False, drop 5 s) else None)"

definition parseNull :: "string \<Rightarrow> (Json \<times> string) option" where
  "parseNull s = (if take 4 s = ''null'' then Some (JNull, drop 4 s) else None)"

lemma length_skipWs: "length (skipWs s) \<le> length s"
  by (simp add: skipWs_def length_dropWhile_le)

lemma parse_string_shorter: "parse_string s = Some (out, r) \<Longrightarrow> length r < length s"
  by (induction s arbitrary: out r rule: parse_string.induct)
    (fastforce simp: cons_fst_def split: if_splits list.splits option.splits)+

text \<open>
  The three mutually recursive methods. The comparison of lengths in the two loops never
  fails (\<open>parse_value_shorter\<close> below); it makes the recursion visibly terminating.
\<close>

function (sequential) parse_value :: "string \<Rightarrow> (Json \<times> string) option"
  and parse_members :: "(string, Json) smap \<Rightarrow> string \<Rightarrow> (Json \<times> string) option"
  and parse_elements :: "Json list \<Rightarrow> string \<Rightarrow> (Json \<times> string) option"
where
  "parse_value s =
     (case skipWs s of
        [] \<Rightarrow> None
      | c # cs \<Rightarrow>
          if c = CHR ''{'' then
            (case skipWs cs of
               d # r \<Rightarrow> if d = CHR ''}'' then Some (JObj [], r) else parse_members [] (d # r)
             | [] \<Rightarrow> None)
          else if c = CHR ''['' then
            (case skipWs cs of
               d # r \<Rightarrow> if d = CHR '']'' then Some (JArr [], r) else parse_elements [] (d # r)
             | [] \<Rightarrow> None)
          else if c = c_quote then map_option (\<lambda>(out, r). (JStr out, r)) (parse_string cs)
          else if c = CHR ''t'' \<or> c = CHR ''f'' then parseBool (c # cs)
          else if c = CHR ''n'' then parseNull (c # cs)
          else if c = CHR ''-'' \<or> is_digit c then parseNumber (c # cs)
          else None)"
| "parse_members m s =
     (case skipWs s of
        [] \<Rightarrow> None
      | q # cs \<Rightarrow>
          if q \<noteq> c_quote then None
          else (case parse_string cs of
            None \<Rightarrow> None
          | Some (key, r) \<Rightarrow>
              (case skipWs r of
                 [] \<Rightarrow> None
               | col # r1 \<Rightarrow>
                   if col \<noteq> CHR '':'' then None
                   else if length r1 < length s then
                     (case parse_value r1 of
                        None \<Rightarrow> None
                      | Some (v, r2) \<Rightarrow>
                          (case skipWs r2 of
                             [] \<Rightarrow> None
                           | d # r3 \<Rightarrow>
                               if d = CHR ''}'' then Some (JObj (smap_put key v m), r3)
                               else if d \<noteq> CHR '','' then None
                               else if length r3 < length s then parse_members (smap_put key v m) r3
                               else None))
                   else None)))"
| "parse_elements a s =
     (case parse_value s of
        None \<Rightarrow> None
      | Some (v, r2) \<Rightarrow>
          (case skipWs r2 of
             [] \<Rightarrow> None
           | d # r3 \<Rightarrow>
               if d = CHR '']'' then Some (JArr (a @ [v]), r3)
               else if d \<noteq> CHR '','' then None
               else if length r3 < length s then parse_elements (a @ [v]) r3
               else None))"
  by pat_completeness auto
termination
proof (relation "measures [\<lambda>x. case x of Inl s \<Rightarrow> length s | Inr (Inl (m, s)) \<Rightarrow> length s
    | Inr (Inr (a, s)) \<Rightarrow> length s, \<lambda>x. case x of Inr (Inr _) \<Rightarrow> 1 | _ \<Rightarrow> 0]", goal_cases)
  case (2 s c cs d r)
  then have "length (skipWs s) = Suc (length cs)" "length (skipWs cs) = Suc (length r)" by simp_all
  then show ?case using length_skipWs [of s] length_skipWs [of cs] by simp
next
  case (3 s c cs d r)
  then have "length (skipWs s) = Suc (length cs)" "length (skipWs cs) = Suc (length r)" by simp_all
  then show ?case using length_skipWs [of s] length_skipWs [of cs] by simp
qed auto

declare parse_value.simps [simp del] parse_members.simps [simp del] parse_elements.simps [simp del]

definition json_parse :: "string \<Rightarrow> Json option" where
  "json_parse text = (case parse_value text of
     None \<Rightarrow> None
   | Some (j, r) \<Rightarrow> if skipWs r \<noteq> [] then None else Some j)"

section \<open>Exact integers\<close>

lemma bit_count_le: "0 \<le> m \<Longrightarrow> m < 2 ^ k \<Longrightarrow> bit_count m \<le> int k"
proof (induction k arbitrary: m)
  case 0
  then show ?case by (simp add: bit_count.simps)
next
  case (Suc k)
  show ?case
  proof (cases "m = 0")
    case True
    then show ?thesis by (simp add: bit_count.simps)
  next
    case False
    then have "bit_count m = bit_count (m div 2) + 1" using Suc.prems by (subst bit_count.simps) simp
    moreover have "m div 2 < 2 ^ k" using Suc.prems by simp
    ultimately show ?thesis using Suc.IH [of "m div 2"] Suc.prems by simp
  qed
qed

lemma dbl_exp_int_le: "0 < m \<Longrightarrow> m < 2 ^ 53 \<Longrightarrow> dbl_exp (of_int m) \<le> 0"
proof -
  assume m: "0 < m" "m < 2 ^ 53"
  have "bit_count 1 = 1" by (simp add: bit_count.simps)
  moreover have "bit_count m \<le> 53" using bit_count_le [of m 53] m by simp
  ultimately have "max (- 1074) (bit_count m - bit_count 1 - 53) \<le> - 1" by simp
  then show ?thesis
    by (auto simp: dbl_exp_def quotient_of_int Let_def)
qed

lemma round_half_even_int [simp]: "round_half_even (of_int n) = n"
  by (simp add: round_half_even_def Let_def)

lemma round_pos_int:
  assumes "0 < m" and "m < 2 ^ 53"
  shows "round_pos (of_int m) = of_int m"
proof -
  define k where "k = nat (- dbl_exp (of_int m))"
  have e: "dbl_exp (of_int m) = - int k" using dbl_exp_int_le [OF assms] by (simp add: k_def)
  have "(of_int m :: rat) / 2 powi (- int k) = of_int (m * 2 ^ k)"
    by (simp add: power_int_minus field_simps)
  then have "round_pos (of_int m) = of_int (m * 2 ^ k) * 2 powi (- int k)"
    by (simp only: round_pos_def Let_def e round_half_even_int)
  then show ?thesis by (simp add: power_int_minus field_simps)
qed

lemma double_of_int_exact:
  assumes "\<bar>n\<bar> < 2 ^ 53"
  shows "double_of_int n = Fin (of_int n)"
proof (cases "n = 0")
  case False
  then have "round_pos (of_int \<bar>n\<bar>) = of_int \<bar>n\<bar>" using assms by (intro round_pos_int) auto
  moreover have "(of_int \<bar>n\<bar> :: rat) < 2 ^ 1024"
  proof -
    have "\<bar>n\<bar> < 2 ^ 1024" using assms power_strict_increasing [of 53 1024 "2 :: int"] by linarith
    then have "(of_int \<bar>n\<bar> :: rat) < of_int (2 ^ 1024)" by (simp only: of_int_less_iff)
    then show ?thesis by simp
  qed
  ultimately show ?thesis
    using False by (auto simp: double_of_int_def round_double_def Let_def)
qed (simp add: double_of_int_def round_double_def)

lemma to_i64_int: "\<bar>n\<bar> < 2 ^ 63 \<Longrightarrow> to_i64 (Fin (of_int n)) = Some (of_int n)"
  by (auto simp: to_i64_def trunc_def)

lemma to_u64_int: "0 \<le> n \<Longrightarrow> n < 2 ^ 64 \<Longrightarrow> to_u64 (Fin (of_int n)) = Some (of_int n)"
  by (auto simp: to_u64_def trunc_def)

lemma sint_of_int64: "\<bar>n\<bar> < 2 ^ 63 \<Longrightarrow> sint (of_int n :: i64) = n"
  by (simp add: signed_of_int signed_take_bit_int_eq_self)

lemma dump_number_int:
  assumes "\<bar>n\<bar> < 2 ^ 53"
  shows "dump_number (Fin (of_int n)) = Some (dec_int n)"
  using assms by (simp add: dump_number_def to_i64_int sint_of_int64 double_of_int_exact)

lemma digits_dec_pos: "0 \<le> n \<Longrightarrow> list_all is_digit (dec_pos n)"
proof (induction n rule: dec_pos.induct)
  case (1 n)
  have "is_digit (char_of (48 + k :: nat))" if "k < 10" for k
    using that by (simp add: is_digit_def of_char_of)
  moreover have "nat (n mod 10) < 10" by simp
  ultimately show ?case using 1 by (simp add: dec_pos.simps [of n])
qed

lemma digits_value_dec_pos: "0 \<le> n \<Longrightarrow> digits_value (dec_pos n) = n"
proof (induction n rule: dec_pos.induct)
  case (1 n)
  have d: "int (of_char (char_of (48 + k :: nat))) - 48 = int k" if "k < 10" for k
    using that by (simp add: of_char_of)
  show ?case
  proof (cases "n < 10")
    case True
    then show ?thesis using 1 d [of "nat n"] by (simp add: dec_pos.simps [of n] digits_value_def)
  next
    case False
    then show ?thesis
      using 1 d [of "nat (n mod 10)"]
      by (simp add: dec_pos.simps [of n] digits_value_def)
  qed
qed

lemma dec_pos_ne: "dec_pos n \<noteq> []"
  by (subst dec_pos.simps) simp

lemma digit_not_minus: "is_digit c \<Longrightarrow> c \<noteq> CHR ''-''"
  by (auto simp: is_digit_def)

lemma strtod_digits:
  assumes "list_all is_digit ds" and "ds \<noteq> []"
  shows "strtod ds = Some (round_double (of_int (digits_value ds)))"
    and "strtod (CHR ''-'' # ds) = Some (round_double (- of_int (digits_value ds)))"
proof -
  have t: "takeWhile is_digit ds = ds" "dropWhile is_digit ds = []"
    using assms(1) by (auto simp: list_all_iff)
  have "hd ds \<noteq> CHR ''-''" using assms by (cases ds) (auto dest: digit_not_minus)
  then have n: "(case ds of c # _ \<Rightarrow> c = CHR ''-'' | [] \<Rightarrow> False) = False"
    using assms(2) by (cases ds) auto
  show "strtod ds = Some (round_double (of_int (digits_value ds)))"
    using assms(2) by (simp add: strtod_def Let_def n t strtod_exp_def)
  show "strtod (CHR ''-'' # ds) = Some (round_double (- of_int (digits_value ds)))"
    using assms(2) by (simp add: strtod_def Let_def t strtod_exp_def)
qed

lemma strtod_dec_int: "strtod (dec_int n) = Some (double_of_int n)"
  using strtod_digits [of "dec_pos \<bar>n\<bar>"] digits_dec_pos [of "\<bar>n\<bar>"] digits_value_dec_pos [of "\<bar>n\<bar>"]
    dec_pos_ne [of "\<bar>n\<bar>"]
  by (auto simp: dec_int_def double_of_int_def)

definition number_end :: "string \<Rightarrow> bool" where
  "number_end r \<longleftrightarrow> r = [] \<or> \<not> is_number_char (hd r)"

lemma parseNumber_dec_int:
  assumes "number_end r"
  shows "parseNumber (dec_int n @ r) = Some (JNum (double_of_int n), r)"
proof -
  have "list_all is_number_char (dec_int n)"
    using digits_dec_pos [of "\<bar>n\<bar>"]
    by (auto simp: dec_int_def is_number_char_def list_all_iff)
  then have all: "\<And>c. c \<in> set (dec_int n) \<Longrightarrow> is_number_char c" by (simp add: list_all_iff)
  have "takeWhile is_number_char r = []" "dropWhile is_number_char r = r"
    using assms by (cases r; simp add: number_end_def)+
  then show ?thesis
    using all by (simp add: parseNumber_def takeWhile_append2 dropWhile_append2 strtod_dec_int)
qed

section \<open>Strings\<close>

lemma strtoul16_hex4:
  assumes "n < 32"
  shows "strtoul16 (hex4 n) = of_nat n"
proof -
  have z: "hexChar 0 = CHR ''0''" by code_simp
  have h: "hex4 n = [CHR ''0'', CHR ''0'', hexChar (n div 16), hexChar (n mod 16)]"
    using assms by (simp add: hex4_def z)
  have v: "hexVal (hexChar (n div 16)) = int (n div 16)" "hexVal (hexChar (n mod 16)) = int (n mod 16)"
    using assms by simp_all
  moreover have "hexVal (CHR ''0'') = 0" by code_simp
  moreover have "n div 16 * 16 + n mod 16 = n" by simp
  ultimately show ?thesis
    unfolding h strtoul16_def Let_def by (simp add: hex_value_def del: of_nat_add)
qed

lemma control_char:
  assumes "(of_char ch :: nat) < 32"
  shows "char_of_byte (ucast (strtoul16 (hex4 (of_char ch)))) = ch"
proof -
  have "strtoul16 (hex4 (of_char ch)) = of_nat (of_char ch)"
    using assms by (rule strtoul16_hex4)
  moreover have "unat (ucast (of_nat (of_char ch) :: u64) :: u8) = of_char ch"
    using assms by (simp add: unsigned_ucast_eq unsigned_of_nat take_bit_nat_eq_self)
  ultimately show ?thesis by (simp add: char_of_byte_def)
qed

lemma length_hex4 [simp]: "length (hex4 n) = 4"
  by (simp add: hex4_def)

lemma quote_not_backslash: "c_backslash \<noteq> c_quote"
  by code_simp

lemma quote_code: "c_quote = CHR 0x22"
  by code_simp

lemma u_escape: "simple_escape (CHR ''u'') = None"
  by code_simp

lemma simple_escapes: "simple_escape c_quote = Some c_quote" "simple_escape c_backslash = Some c_backslash"
  by code_simp+

lemma parse_string_escape:
  "parse_string (escape_char ch @ r) = cons_fst ch (parse_string r)"
  using quote_not_backslash control_char [of ch]
  by (simp add: escape_char_def Let_def simple_escapes u_escape)

lemma parse_string_escapes:
  "parse_string (concat (map escape_char s) @ c_quote # r) = Some (s, r)"
  by (induction s) (simp_all add: parse_string_escape cons_fst_def)

section \<open>Round trip\<close>

text \<open>
  The values the round trip covers: integers below 2^53 in absolute value (those a
  double holds exactly) and objects whose members are in map order.
\<close>

definition exact_int :: "dbl \<Rightarrow> bool" where
  "exact_int d \<longleftrightarrow> (\<exists>n. d = Fin (of_int n) \<and> \<bar>n\<bar> < 2 ^ 53)"

fun json_ok :: "Json \<Rightarrow> bool" where
  "json_ok (JNum d) = exact_int d"
| "json_ok (JArr a) = list_all json_ok a"
| "json_ok (JObj m) = (smap_inv m \<and> list_all (\<lambda>kv. json_ok (snd kv)) m)"
| "json_ok _ = True"

definition head_ok :: "string \<Rightarrow> bool" where
  "head_ok t \<longleftrightarrow> t \<noteq> [] \<and> \<not> is_ws (hd t) \<and> hd t \<noteq> CHR '']'' \<and> hd t \<noteq> CHR ''}''"

lemma skipWs_head: "t \<noteq> [] \<Longrightarrow> \<not> is_ws (hd t) \<Longrightarrow> skipWs (t @ r) = t @ r"
  by (cases t) (simp_all add: skipWs_def)

lemma head_ok_skip: "head_ok t \<Longrightarrow> skipWs (t @ r) = t @ r"
  by (simp add: head_ok_def skipWs_head)

lemma escapeTo_head: "head_ok (escapeTo s)"
proof -
  have "\<not> is_ws c_quote \<and> c_quote \<noteq> CHR '']'' \<and> c_quote \<noteq> CHR ''}''" by code_simp
  then show ?thesis by (simp add: head_ok_def escapeTo_def)
qed

lemma dec_int_head: "head_ok (dec_int n)" "hd (dec_int n) = CHR ''-'' \<or> is_digit (hd (dec_int n))"
proof -
  have d: "is_digit (hd (dec_pos k)) \<and> dec_pos k \<noteq> []" if "0 \<le> k" for k
    using digits_dec_pos [OF that] dec_pos_ne [of k] by (cases "dec_pos k") auto
  have ok: "\<not> is_ws c \<and> c \<noteq> CHR '']'' \<and> c \<noteq> CHR ''}''" if "is_digit c" for c
    using that by (auto simp: is_digit_def is_ws_def)
  have m: "\<not> is_ws (CHR ''-'')" by code_simp
  show "head_ok (dec_int n)"
    using d [of n] d [of "- n"] ok m by (auto simp: dec_int_def head_ok_def)
  show "hd (dec_int n) = CHR ''-'' \<or> is_digit (hd (dec_int n))"
    using d [of n] by (auto simp: dec_int_def)
qed

lemma dump_head: "json_ok j \<Longrightarrow> dumpTo j = Some t \<Longrightarrow> head_ok t"
proof (cases j)
  case (JNum d)
  assume "json_ok j" "dumpTo j = Some t"
  with JNum show ?thesis by (auto simp: exact_int_def dump_number_int dec_int_head)
next
  case (JBool b)
  assume "dumpTo j = Some t"
  with JBool show ?thesis by (cases b) (auto simp: head_ok_def is_ws_def)
next
  case (JStr s)
  assume "dumpTo j = Some t"
  with JStr show ?thesis by (auto simp: escapeTo_head)
qed (auto simp: head_ok_def is_ws_def)

lemma dump_total: "json_ok j \<Longrightarrow> \<exists>t. dumpTo j = Some t"
proof (induction j)
  case (JNum d)
  then show ?case by (auto simp: exact_int_def dump_number_int)
next
  case (JArr a)
  then have "\<exists>ts. those (map dumpTo a) = Some ts"
    by (induction a) (force simp: list_all_iff)+
  then show ?case by auto
next
  case (JObj m)
  then have "list_all (\<lambda>kv. \<exists>t. dumpTo (snd kv) = Some t) m"
    by (auto simp: list_all_iff)
  then have "\<exists>ts. those (map (\<lambda>kv. map_option (\<lambda>t. escapeTo (fst kv) @ '':'' @ t) (dumpTo (snd kv))) m) = Some ts"
    by (induction m) auto
  then show ?case by auto
qed simp_all

lemma commas_Cons: "commas (t # ts) = t @ (if ts = [] then [] else CHR '','' # commas ts)"
  by (cases ts) (simp_all add: commas_def)

definition parses :: "Json \<Rightarrow> bool" where
  "parses j \<longleftrightarrow> (\<forall>t r. dumpTo j = Some t \<longrightarrow> number_end r \<longrightarrow> parse_value (t @ r) = Some (j, r))"

lemma number_end_punct:
  "number_end (CHR '','' # r)" "number_end (CHR '']'' # r)" "number_end (CHR ''}'' # r)" "number_end []"
  by (simp_all add: number_end_def is_number_char_def is_digit_def)

lemma skipWs_punct:
  "skipWs (CHR '','' # r) = CHR '','' # r" "skipWs (CHR '']'' # r) = CHR '']'' # r"
  "skipWs (CHR ''}'' # r) = CHR ''}'' # r" "skipWs (CHR '':'' # r) = CHR '':'' # r"
  by (simp_all add: skipWs_def is_ws_def)

lemma parse_elements_dump:
  "\<forall>j \<in> set js. json_ok j \<and> parses j \<Longrightarrow> js \<noteq> [] \<Longrightarrow> those (map dumpTo js) = Some ts \<Longrightarrow>
   parse_elements a (commas ts @ CHR '']'' # r) = Some (JArr (a @ js), r)"
proof (induction js arbitrary: a ts)
  case (Cons j js)
  then obtain t ts' where t: "dumpTo j = Some t" "those (map dumpTo js) = Some ts'" "ts = t # ts'"
    by (auto split: option.splits)
  have hd: "head_ok t" using dump_head t(1) Cons.prems(1) by auto
  have p: "parse_value (t @ q) = Some (j, q)" if "number_end q" for q
    using Cons.prems(1) t(1) that by (auto simp: parses_def)
  show ?case
  proof (cases js)
    case Nil
    then show ?thesis
      using t p [of "CHR '']'' # r"]
      by (simp add: parse_elements.simps commas_def number_end_punct skipWs_punct)
  next
    case (Cons j' js')
    then have "ts' \<noteq> []" using t(2) by (auto split: option.splits)
    then show ?thesis
      using t p [of "CHR '','' # commas ts' @ CHR '']'' # r"] Cons.IH [of ts' "a @ [j]"] Cons.prems Cons
      by (simp add: parse_elements.simps [of a] commas_Cons number_end_punct skipWs_punct)
  qed
qed simp

definition member_text :: "string \<times> Json \<Rightarrow> string option" where
  "member_text kv = map_option (\<lambda>t. escapeTo (fst kv) @ '':'' @ t) (dumpTo (snd kv))"

lemma parse_members_dump:
  "\<forall>kv \<in> set m. json_ok (snd kv) \<and> parses (snd kv) \<Longrightarrow> m \<noteq> [] \<Longrightarrow> those (map member_text m) = Some ts \<Longrightarrow>
   parse_members o0 (commas ts @ CHR ''}'' # r) = Some (JObj (fold (\<lambda>(k, v). smap_put k v) m o0), r)"
proof (induction m arbitrary: o0 ts)
  case (Cons kv m)
  obtain k v where kv: "kv = (k, v)" by fastforce
  then obtain t ts' where t: "dumpTo v = Some t" "those (map member_text m) = Some ts'"
      "ts = (escapeTo k @ '':'' @ t) # ts'"
    using Cons.prems(3) by (auto simp: member_text_def [of "(k, v)"] split: option.splits)
  have p: "parse_value (t @ q) = Some (v, q)" if "number_end q" for q
    using Cons.prems(1) t(1) that by (auto simp: parses_def kv)
  have q: "skipWs (c_quote # s) = c_quote # s" for s
    using escapeTo_head by (simp add: head_ok_def escapeTo_def skipWs_def)
  let ?e = "concat (map escape_char k)"
  show ?case
  proof (cases m)
    case Nil
    then show ?thesis
      using t p [of "CHR ''}'' # r"] q [of "?e @ c_quote # '':'' @ t @ CHR ''}'' # r"]
      by (simp add: parse_members.simps [of o0] commas_def number_end_punct skipWs_punct escapeTo_def
          parse_string_escapes kv)
  next
    case (Cons kv' m')
    then have "ts' \<noteq> []" using t(2) by (auto split: option.splits)
    then show ?thesis
      using t p [of "CHR '','' # commas ts' @ CHR ''}'' # r"] Cons.IH [of ts' "smap_put k v o0"] Cons.prems Cons
        q [of "?e @ c_quote # '':'' @ t @ CHR '','' # commas ts' @ CHR ''}'' # r"]
      by (simp add: parse_members.simps [of o0] commas_Cons number_end_punct skipWs_punct escapeTo_def
          parse_string_escapes kv)
  qed
qed simp

lemma fold_smap_rebuild:
  "smap_inv m \<Longrightarrow> fold (\<lambda>(k, v). smap_put k v) m [] = m"
proof (rule smap.ext)
  assume m: "smap_inv m"
  then have d: "distinct (map fst m)" by (simp add: smap_inv_def strict_sorted_iff)
  then have "map_of (rev m) = map_of m"
    by (intro map_of_inject_set [THEN iffD2]) (simp_all add: rev_map flip: rev_map)
  then show "map_of (fold (\<lambda>(k, v). smap_put k v) m []) k = map_of m k" for k
    using smap.get_fold_put [of m "[]" k] by (simp split: option.splits)
  show "smap_inv (fold (\<lambda>(k, v). smap_put k v) m [])" by (rule smap.inv_fold_put) simp
qed

lemma dump_JObj: "dumpTo (JObj m) = map_option (\<lambda>ts. ''{'' @ commas ts @ ''}'') (those (map member_text m))"
  by (simp add: member_text_def [abs_def])

lemma commas_head: "ts \<noteq> [] \<Longrightarrow> head_ok (hd ts) \<Longrightarrow> head_ok (commas ts)"
  by (cases ts) (auto simp: commas_Cons head_ok_def)

lemma those_hd: "those (map f xs) = Some ts \<Longrightarrow> xs \<noteq> [] \<Longrightarrow> ts \<noteq> [] \<and> f (hd xs) = Some (hd ts)"
  by (cases xs) (auto split: option.splits)

lemma parse_string_value: "parse_value (escapeTo s @ r) = Some (JStr s, r)"
proof -
  have "c_quote \<noteq> CHR ''{'' \<and> c_quote \<noteq> CHR ''[''" by code_simp
  then show ?thesis
    using head_ok_skip [OF escapeTo_head, of s r]
    by (simp add: parse_value.simps escapeTo_def parse_string_escapes)
qed

lemma parse_number_value:
  "number_end r \<Longrightarrow> parse_value (dec_int n @ r) = Some (JNum (double_of_int n), r)"
proof -
  assume r: "number_end r"
  obtain c cs where c: "dec_int n = c # cs" "c = CHR ''-'' \<or> is_digit c"
    using dec_int_head [of n] by (cases "dec_int n") (auto simp: head_ok_def)
  then have "c \<noteq> CHR ''{'' \<and> c \<noteq> CHR ''['' \<and> c \<noteq> c_quote \<and> c \<noteq> CHR ''t'' \<and> c \<noteq> CHR ''f'' \<and> c \<noteq> CHR ''n''"
    by (auto simp: is_digit_def quote_code)
  then show ?thesis
    using parseNumber_dec_int [OF r, of n] head_ok_skip [OF dec_int_head(1), of n r] c
    by (simp add: parse_value.simps [of "c # cs @ r"])
qed

lemma parse_array_value:
  assumes "\<forall>j \<in> set js. json_ok j \<and> parses j" and "those (map dumpTo js) = Some ts"
  shows "parse_value (''['' @ commas ts @ '']'' @ r) = Some (JArr js, r)"
proof (cases "js = []")
  case True
  then show ?thesis using assms(2) by (simp add: parse_value.simps commas_def skipWs_def is_ws_def)
next
  case False
  then have h: "head_ok (commas ts)"
    using those_hd [OF assms(2) False] assms(1) dump_head [of "hd js" "hd ts"] False
    by (intro commas_head) auto
  then obtain d q where d: "commas ts = d # q" "d \<noteq> CHR '']''"
    by (cases "commas ts") (auto simp: head_ok_def)
  have "skipWs (CHR ''['' # s) = CHR ''['' # s" for s by (simp add: skipWs_def is_ws_def)
  then show ?thesis
    using parse_elements_dump [OF assms(1) False assms(2), of "[]" r] head_ok_skip [OF h, of "CHR '']'' # r"] d
    by (simp add: parse_value.simps [of "CHR ''['' # _"])
qed

lemma parse_object_value:
  assumes "\<forall>kv \<in> set m. json_ok (snd kv) \<and> parses (snd kv)" and "those (map member_text m) = Some ts"
    and "smap_inv m"
  shows "parse_value (''{'' @ commas ts @ ''}'' @ r) = Some (JObj m, r)"
proof (cases "m = []")
  case True
  then show ?thesis using assms(2) by (simp add: parse_value.simps commas_def skipWs_def is_ws_def)
next
  case False
  have "ts \<noteq> [] \<and> (\<exists>k t. hd ts = escapeTo k @ '':'' @ t)"
    using those_hd [OF assms(2) False] by (auto simp: member_text_def) (metis append_Cons append_Nil)
  then have h: "head_ok (commas ts)"
    using escapeTo_head by (intro commas_head) (auto simp: head_ok_def escapeTo_def)
  then obtain d q where d: "commas ts = d # q" "d \<noteq> CHR ''}''"
    by (cases "commas ts") (auto simp: head_ok_def)
  have "skipWs (CHR ''{'' # s) = CHR ''{'' # s" for s by (simp add: skipWs_def is_ws_def)
  then show ?thesis
    using parse_members_dump [OF assms(1) False assms(2), of "[]" r] head_ok_skip [OF h, of "CHR ''}'' # r"] d
      fold_smap_rebuild [OF assms(3)]
    by (simp add: parse_value.simps [of "CHR ''{'' # _"])
qed

lemma json_ok_parses: "json_ok j \<Longrightarrow> parses j"
proof (induction j)
  case JNull
  have "parse_value (''null'' @ r) = Some (JNull, r)" for r
    by (simp add: parse_value.simps skipWs_def is_ws_def parseNull_def quote_code)
  then show ?case by (simp add: parses_def)
next
  case (JBool b)
  have "parse_value (''true'' @ r) = Some (JBool True, r)" "parse_value (''false'' @ r) = Some (JBool False, r)" for r
    by (simp_all add: parse_value.simps skipWs_def is_ws_def parseBool_def quote_code)
  then show ?case by (cases b) (simp_all add: parses_def)
next
  case (JNum d)
  then show ?case
    by (auto simp: exact_int_def parses_def dump_number_int parse_number_value double_of_int_exact)
next
  case (JStr s)
  then show ?case by (simp add: parses_def parse_string_value)
next
  case (JArr a)
  then have "\<forall>j \<in> set a. json_ok j \<and> parses j" by (auto simp: list_all_iff)
  then show ?case using parse_array_value [of a] by (auto simp: parses_def)
next
  case (JObj m)
  then have "\<forall>kv \<in> set m. json_ok (snd kv) \<and> parses (snd kv)" "smap_inv m"
    by (auto simp: list_all_iff)
  then show ?case using parse_object_value [of m] by (auto simp: parses_def dump_JObj simp del: dumpTo.simps)
qed

text \<open>
  C37: JSON text is lossless for the values the fabric writes: for every value whose numbers are integers
  below 2^53 in absolute value and whose objects are maps, dump produces a text and parse reads
  exactly that value back, with any bytes in strings (quotes, backslashes, control and non-ASCII
  characters) preserved.
\<close>

theorem json_roundtrip:
  assumes "json_ok j"
  shows "\<exists>t. json_dump j = Some t \<and> json_parse t = Some j"
proof -
  obtain t where t: "dumpTo j = Some t" using dump_total [OF assms] by blast
  then have "parse_value (t @ []) = Some (j, [])"
    using json_ok_parses [OF assms] number_end_punct(4) unfolding parses_def by blast
  then show ?thesis using t by (simp add: json_dump_def json_parse_def skipWs_def)
qed

lemma json_roundtrip_witness:
  "\<exists>t. json_dump (JObj [(''a'', JArr [JNum (Fin (of_int 7)), JNull]), (''b'', JStr [c_quote, CHR ''x''])]) = Some t \<and>
     json_parse t = Some (JObj [(''a'', JArr [JNum (Fin (of_int 7)), JNull]), (''b'', JStr [c_quote, CHR ''x''])])"
proof (rule json_roundtrip)
  have "smap_inv [(''a'', JArr [JNum (Fin (of_int 7)), JNull]), (''b'', JStr [c_quote, CHR ''x''])]"
    by (simp add: smap_inv_def)
  then show "json_ok (JObj [(''a'', JArr [JNum (Fin (of_int 7)), JNull]), (''b'', JStr [c_quote, CHR ''x''])])"
    by (auto simp: exact_int_def intro: exI [of _ 7])
qed

text \<open>The length tests of the two loops are redundant: what is left gets shorter.\<close>

lemma skipWs_Cons: "skipWs s = c # cs \<Longrightarrow> length cs < length s"
  using length_skipWs [of s] by simp

lemma parse_leaf_shorter:
  "parseBool (c # cs) = Some (j, r) \<Longrightarrow> length r \<le> length cs"
  "parseNull (c # cs) = Some (j, r) \<Longrightarrow> length r \<le> length cs"
  "is_number_char c \<Longrightarrow> parseNumber (c # cs) = Some (j, r) \<Longrightarrow> length r \<le> length cs"
  by (auto simp: parseBool_def parseNull_def parseNumber_def length_dropWhile_le split: if_splits)

lemma parse_value_shorter:
  shows "parse_value s = Some (j, r) \<Longrightarrow> length r < length s"
    and "parse_members m s' = Some (j', r') \<Longrightarrow> length r' < length s'"
    and "parse_elements a s'' = Some (j'', r'') \<Longrightarrow> length r'' < length s''"
proof (induction s and m s' and a s'' arbitrary: j r and j' r' and j'' r''
    rule: parse_value_parse_members_parse_elements.induct)
  case (1 s)
  show ?case
  proof (cases "skipWs s")
    case Nil
    then show ?thesis using "1.prems" by (simp add: parse_value.simps [of s])
  next
    case (Cons c cs)
    note less = skipWs_Cons [OF Cons]
    have n: "c = CHR ''-'' \<or> is_digit c \<Longrightarrow> is_number_char c" by (auto simp: is_number_char_def)
    have "length r \<le> length cs"
      using "1.prems" "1.IH"(1) [OF Cons] "1.IH"(2) [OF Cons] Cons n
        parse_leaf_shorter [of c cs j r] skipWs_Cons [of cs] length_skipWs [of cs]
      by (auto simp: parse_value.simps [of s] split: list.splits if_splits
          dest!: parse_string_shorter) fastforce+
    then show ?thesis using less by simp
  qed
next
  case (2 m s)
  from "2.prems" obtain q cs key r0 r1 v r2 d r3 where
    a: "skipWs s = q # cs" "q = c_quote" "parse_string cs = Some (key, r0)" "skipWs r0 = CHR '':'' # r1"
      "length r1 < length s" "parse_value r1 = Some (v, r2)" "skipWs r2 = d # r3"
    and d: "r' = r3 \<or> length r3 < length s \<and> d = CHR '','' \<and> parse_members (smap_put key v m) r3 = Some (j', r')"
    by (auto simp: parse_members.simps [of m s] split: list.splits if_splits option.splits)
  have "length r2 < length r1" using "2.IH"(1) a by simp
  then have "length r3 < length s" using skipWs_Cons [OF a(7)] a(5) by simp
  then show ?case using d "2.IH"(2) a by fastforce
next
  case (3 a s)
  from "3.prems" obtain v r2 d r3 where
    a: "parse_value s = Some (v, r2)" "skipWs r2 = d # r3"
    and d: "r'' = r3 \<or> length r3 < length s \<and> d = CHR '','' \<and> parse_elements (a @ [v]) r3 = Some (j'', r'')"
    by (auto simp: parse_elements.simps [of a s] split: list.splits if_splits option.splits)
  have "length r2 < length s" using "3.IH"(1) a by simp
  then have "length r3 < length s" using skipWs_Cons [OF a(2)] by simp
  then show ?case using d "3.IH"(2) a by fastforce
qed

end
