(* ===== verification/CF_Descriptor.thy ===== *)
theory CF_Descriptor
  imports CF_Json
begin

text \<open>
  The typed descriptors of \<open>Descriptor.hpp\<close> and their JSON form from
  \<open>Descriptor.cpp\<close>. \<open>toJson\<close> is the sequence of \<open>set\<close> calls of the source.
  \<open>fromJson\<close> starts from a default-constructed descriptor and never rejects; its
  result here is \<open>None\<close> only where a number is outside the range of the integer
  type it is cast to, which C++ leaves undefined.
\<close>

section \<open>Member access\<close>

type_synonym i32 = "32 word"

definition json_sets :: "(string \<times> Json) list \<Rightarrow> Json" where
  "json_sets kvs = fold (\<lambda>(k, v). json_set k v) kvs (JObj [])"

definition JSTR :: "Json \<Rightarrow> string \<Rightarrow> string" where
  "JSTR j k = (case json_get k j of Some (JStr s) \<Rightarrow> s | _ \<Rightarrow> [])"

definition JBOOL :: "Json \<Rightarrow> string \<Rightarrow> bool" where
  "JBOOL j k = (case json_get k j of Some (JBool b) \<Rightarrow> b | _ \<Rightarrow> False)"

definition JNUM :: "Json \<Rightarrow> string \<Rightarrow> u64 option" where
  "JNUM j k = (case json_get k j of Some (JNum d) \<Rightarrow> to_u64 d | _ \<Rightarrow> Some 0)"

definition JNUMI :: "Json \<Rightarrow> string \<Rightarrow> i64 option" where
  "JNUMI j k = (case json_get k j of Some (JNum d) \<Rightarrow> to_i64 d | _ \<Rightarrow> Some 0)"

definition jarray :: "Json \<Rightarrow> string \<Rightarrow> Json list" where
  "jarray j k = (case json_get k j of None \<Rightarrow> [] | Some a \<Rightarrow> (case asArrayPtr a of None \<Rightarrow> [] | Some es \<Rightarrow> es))"

definition jsub :: "(Json \<Rightarrow> 'a option) \<Rightarrow> 'a \<Rightarrow> Json option \<Rightarrow> 'a option" where
  "jsub from dflt m = (case m of None \<Rightarrow> Some dflt | Some t \<Rightarrow> from t)"

definition or_else :: "'a option \<Rightarrow> 'a \<Rightarrow> 'a" where
  "or_else m d = (case m of Some x \<Rightarrow> x | None \<Rightarrow> d)"

section \<open>Formats and stages\<close>

datatype ArtifactFormat =
    FMT_Unknown | FMT_Executable | FMT_Object | FMT_StaticLibrary | FMT_SharedLibrary | FMT_PTX
      | FMT_CUBIN | FMT_Fatbinary | FMT_Bytecode | FMT_IR | FMT_Source | FMT_Graph
      | FMT_KernelImage | FMT_Operational

definition artifactFormatName :: "ArtifactFormat \<Rightarrow> string" where
  "artifactFormatName x = (case x of
      FMT_Unknown \<Rightarrow> ''Unknown''
    | FMT_Executable \<Rightarrow> ''Executable''
    | FMT_Object \<Rightarrow> ''Object''
    | FMT_StaticLibrary \<Rightarrow> ''StaticLibrary''
    | FMT_SharedLibrary \<Rightarrow> ''SharedLibrary''
    | FMT_PTX \<Rightarrow> ''PTX''
    | FMT_CUBIN \<Rightarrow> ''CUBIN''
    | FMT_Fatbinary \<Rightarrow> ''Fatbinary''
    | FMT_Bytecode \<Rightarrow> ''Bytecode''
    | FMT_IR \<Rightarrow> ''IR''
    | FMT_Source \<Rightarrow> ''Source''
    | FMT_Graph \<Rightarrow> ''Graph''
    | FMT_KernelImage \<Rightarrow> ''KernelImage''
    | FMT_Operational \<Rightarrow> ''Operational'')"

definition artifactFormatTable :: "(string \<times> ArtifactFormat) list" where
  "artifactFormatTable =
    [(''Unknown'', FMT_Unknown), (''Executable'', FMT_Executable), (''Object'', FMT_Object),
     (''StaticLibrary'', FMT_StaticLibrary), (''SharedLibrary'', FMT_SharedLibrary),
     (''PTX'', FMT_PTX), (''CUBIN'', FMT_CUBIN), (''Fatbinary'', FMT_Fatbinary),
     (''Bytecode'', FMT_Bytecode), (''IR'', FMT_IR), (''Source'', FMT_Source),
     (''Graph'', FMT_Graph), (''KernelImage'', FMT_KernelImage),
     (''Operational'', FMT_Operational)]"

definition artifactFormatFromName :: "string \<Rightarrow> ArtifactFormat option" where
  "artifactFormatFromName = LOOKUP artifactFormatTable"

lemma artifactFormatName_table: "\<forall>(n, s) \<in> set artifactFormatTable. artifactFormatName s = n"
  by code_simp

interpretation artifactFormat_names: named_enum artifactFormatName artifactFormatFromName
proof unfold_locales
  show "artifactFormatFromName (artifactFormatName x) = Some x" for x by (induct x; code_simp)
  show "artifactFormatName x = s" if "artifactFormatFromName s = Some x" for s x
    using that LOOKUP_in [of artifactFormatTable s x] artifactFormatName_table by (auto simp: artifactFormatFromName_def)
qed

datatype StageKind =
    SK_Normalize | SK_Lower | SK_Optimize | SK_Codegen | SK_Assemble | SK_Link | SK_Validate
      | SK_Persist | SK_Deploy | SK_Skip | SK_NotApplicable

definition stageKindName :: "StageKind \<Rightarrow> string" where
  "stageKindName x = (case x of
      SK_Normalize \<Rightarrow> ''normalize''
    | SK_Lower \<Rightarrow> ''lower''
    | SK_Optimize \<Rightarrow> ''optimize''
    | SK_Codegen \<Rightarrow> ''codegen''
    | SK_Assemble \<Rightarrow> ''assemble''
    | SK_Link \<Rightarrow> ''link''
    | SK_Validate \<Rightarrow> ''validate''
    | SK_Persist \<Rightarrow> ''persist''
    | SK_Deploy \<Rightarrow> ''deploy''
    | SK_Skip \<Rightarrow> ''skip''
    | SK_NotApplicable \<Rightarrow> ''not-applicable'')"

definition stageKindTable :: "(string \<times> StageKind) list" where
  "stageKindTable =
    [(''normalize'', SK_Normalize), (''lower'', SK_Lower), (''optimize'', SK_Optimize),
     (''codegen'', SK_Codegen), (''assemble'', SK_Assemble), (''link'', SK_Link),
     (''validate'', SK_Validate), (''persist'', SK_Persist), (''deploy'', SK_Deploy),
     (''skip'', SK_Skip), (''not-applicable'', SK_NotApplicable)]"

definition stageKindFromName :: "string \<Rightarrow> StageKind option" where
  "stageKindFromName = LOOKUP stageKindTable"

lemma stageKindName_table: "\<forall>(n, s) \<in> set stageKindTable. stageKindName s = n"
  by code_simp

interpretation stageKind_names: named_enum stageKindName stageKindFromName
proof unfold_locales
  show "stageKindFromName (stageKindName x) = Some x" for x by (induct x; code_simp)
  show "stageKindName x = s" if "stageKindFromName s = Some x" for s x
    using that LOOKUP_in [of stageKindTable s x] stageKindName_table by (auto simp: stageKindFromName_def)
qed

section \<open>TargetDescriptor\<close>

record TargetDescriptor =
  td_vendor :: AcceleratorVendor
  td_family :: AcceleratorFamily
  td_architecture :: string
  td_computeCapability :: string
  td_isa :: string
  td_abi :: string
  td_callingConvention :: string
  td_kernelABI :: string
  td_graphABI :: string
  td_deviceName :: string
  td_deviceCount :: u32
  td_deviceMemoryBytes :: u64
  td_driverVersion :: string
  td_runtimeVersion :: string

definition td_default :: TargetDescriptor where
  "td_default = \<lparr>
     td_vendor = AV_Unknown, td_family = AF_Unknown, td_architecture = [],
     td_computeCapability = [], td_isa = [], td_abi = [], td_callingConvention = [],
     td_kernelABI = [], td_graphABI = [], td_deviceName = [], td_deviceCount = 0,
     td_deviceMemoryBytes = 0, td_driverVersion = [], td_runtimeVersion = []\<rparr>"

definition td_toJson :: "TargetDescriptor \<Rightarrow> Json" where
  "td_toJson td = json_sets
    [(''vendor'', JStr (vendorName (td_vendor td))),
     (''family'', JStr (familyName (td_family td))),
     (''architecture'', JStr (td_architecture td)),
     (''compute_capability'', JStr (td_computeCapability td)), (''isa'', JStr (td_isa td)),
     (''abi'', JStr (td_abi td)), (''calling_convention'', JStr (td_callingConvention td)),
     (''kernel_abi'', JStr (td_kernelABI td)), (''graph_abi'', JStr (td_graphABI td)),
     (''device_name'', JStr (td_deviceName td)),
     (''device_count'', JNum (double_of_int (uint (td_deviceCount td)))),
     (''device_memory_bytes'', JNum (double_of_int (uint (td_deviceMemoryBytes td)))),
     (''driver_version'', JStr (td_driverVersion td)),
     (''runtime_version'', JStr (td_runtimeVersion td))]"

definition td_fromJson :: "Json \<Rightarrow> TargetDescriptor option" where
  "td_fromJson j =
    Option.bind (JNUM j ''device_count'') (\<lambda>deviceCount'.
    Option.bind (JNUM j ''device_memory_bytes'') (\<lambda>deviceMemoryBytes'.
    Some \<lparr>td_vendor = or_else (vendorFromName (JSTR j ''vendor'')) AV_Unknown,
      td_family = or_else (familyFromName (JSTR j ''family'')) AF_Unknown,
      td_architecture = JSTR j ''architecture'',
      td_computeCapability = JSTR j ''compute_capability'', td_isa = JSTR j ''isa'',
      td_abi = JSTR j ''abi'', td_callingConvention = JSTR j ''calling_convention'',
      td_kernelABI = JSTR j ''kernel_abi'', td_graphABI = JSTR j ''graph_abi'',
      td_deviceName = JSTR j ''device_name'', td_deviceCount = ucast deviceCount',
      td_deviceMemoryBytes = deviceMemoryBytes', td_driverVersion = JSTR j ''driver_version'',
      td_runtimeVersion = JSTR j ''runtime_version''\<rparr>))"

section \<open>CompilerDescriptor\<close>

record CompilerDescriptor =
  cd_id :: string
  cd_version :: string
  cd_vendor :: string
  cd_backendType :: string

definition cd_default :: CompilerDescriptor where
  "cd_default = \<lparr>
     cd_id = [], cd_version = [], cd_vendor = [], cd_backendType = []\<rparr>"

definition cd_toJson :: "CompilerDescriptor \<Rightarrow> Json" where
  "cd_toJson cd = json_sets
    [(''id'', JStr (cd_id cd)), (''version'', JStr (cd_version cd)),
     (''vendor'', JStr (cd_vendor cd)), (''backend_type'', JStr (cd_backendType cd))]"

definition cd_fromJson :: "Json \<Rightarrow> CompilerDescriptor option" where
  "cd_fromJson j =
    Some \<lparr>cd_id = JSTR j ''id'', cd_version = JSTR j ''version'', cd_vendor = JSTR j ''vendor'',
      cd_backendType = JSTR j ''backend_type''\<rparr>"

section \<open>ToolchainDescriptor\<close>

record ToolchainDescriptor =
  tcd_msvcPresent :: bool
  tcd_msvc :: CompilerDescriptor
  tcd_nvccPresent :: bool
  tcd_nvcc :: CompilerDescriptor
  tcd_nvrtcPresent :: bool
  tcd_nvrtcVersion :: string
  tcd_cudaDriverPresent :: bool
  tcd_cudaDriverVersion :: string
  tcd_cmakePresent :: bool
  tcd_cmakeVersion :: string
  tcd_ninjaPresent :: bool
  tcd_ninjaVersion :: string
  tcd_windowsSdkPresent :: bool
  tcd_windowsSdkVersion :: string
  tcd_cudaToolkitPresent :: bool
  tcd_cudaToolkitPath :: string

definition tcd_default :: ToolchainDescriptor where
  "tcd_default = \<lparr>
     tcd_msvcPresent = False, tcd_msvc = cd_default, tcd_nvccPresent = False,
     tcd_nvcc = cd_default, tcd_nvrtcPresent = False, tcd_nvrtcVersion = [],
     tcd_cudaDriverPresent = False, tcd_cudaDriverVersion = [], tcd_cmakePresent = False,
     tcd_cmakeVersion = [], tcd_ninjaPresent = False, tcd_ninjaVersion = [],
     tcd_windowsSdkPresent = False, tcd_windowsSdkVersion = [], tcd_cudaToolkitPresent = False,
     tcd_cudaToolkitPath = []\<rparr>"

definition tcd_toJson :: "ToolchainDescriptor \<Rightarrow> Json" where
  "tcd_toJson tcd = json_sets
    [(''msvc_present'', JBool (tcd_msvcPresent tcd)), (''msvc'', cd_toJson (tcd_msvc tcd)),
     (''nvcc_present'', JBool (tcd_nvccPresent tcd)), (''nvcc'', cd_toJson (tcd_nvcc tcd)),
     (''nvrtc_present'', JBool (tcd_nvrtcPresent tcd)),
     (''nvrtc_version'', JStr (tcd_nvrtcVersion tcd)),
     (''cuda_driver_present'', JBool (tcd_cudaDriverPresent tcd)),
     (''cuda_driver_version'', JStr (tcd_cudaDriverVersion tcd)),
     (''cmake_present'', JBool (tcd_cmakePresent tcd)),
     (''cmake_version'', JStr (tcd_cmakeVersion tcd)),
     (''ninja_present'', JBool (tcd_ninjaPresent tcd)),
     (''ninja_version'', JStr (tcd_ninjaVersion tcd)),
     (''windows_sdk_present'', JBool (tcd_windowsSdkPresent tcd)),
     (''windows_sdk_version'', JStr (tcd_windowsSdkVersion tcd)),
     (''cuda_toolkit_present'', JBool (tcd_cudaToolkitPresent tcd)),
     (''cuda_toolkit_path'', JStr (tcd_cudaToolkitPath tcd))]"

definition tcd_fromJson :: "Json \<Rightarrow> ToolchainDescriptor option" where
  "tcd_fromJson j =
    Option.bind (jsub cd_fromJson cd_default (json_get ''msvc'' j)) (\<lambda>msvc'.
    Option.bind (jsub cd_fromJson cd_default (json_get ''nvcc'' j)) (\<lambda>nvcc'.
    Some \<lparr>tcd_msvcPresent = JBOOL j ''msvc_present'', tcd_msvc = msvc',
      tcd_nvccPresent = JBOOL j ''nvcc_present'', tcd_nvcc = nvcc',
      tcd_nvrtcPresent = JBOOL j ''nvrtc_present'', tcd_nvrtcVersion = JSTR j ''nvrtc_version'',
      tcd_cudaDriverPresent = JBOOL j ''cuda_driver_present'',
      tcd_cudaDriverVersion = JSTR j ''cuda_driver_version'',
      tcd_cmakePresent = JBOOL j ''cmake_present'', tcd_cmakeVersion = JSTR j ''cmake_version'',
      tcd_ninjaPresent = JBOOL j ''ninja_present'', tcd_ninjaVersion = JSTR j ''ninja_version'',
      tcd_windowsSdkPresent = JBOOL j ''windows_sdk_present'',
      tcd_windowsSdkVersion = JSTR j ''windows_sdk_version'',
      tcd_cudaToolkitPresent = JBOOL j ''cuda_toolkit_present'',
      tcd_cudaToolkitPath = JSTR j ''cuda_toolkit_path''\<rparr>))"

section \<open>BackendDescriptor\<close>

record BackendDescriptor =
  bd_id :: string
  bd_name :: string
  bd_compilerId :: string
  bd_compilerVersion :: string
  bd_codeGenerator :: string
  bd_optimizer :: string
  bd_linker :: string
  bd_runtime :: string
  bd_targetArchitecture :: string
  bd_supportsNVRTC :: bool
  bd_supportsOffline :: bool
  bd_isSyntheticCPU :: bool
  bd_supportedDatatypes :: "string list"
  bd_supportedLayouts :: "string list"
  bd_featureFlags :: "string list"
  bd_capabilityDescriptor :: string

definition bd_default :: BackendDescriptor where
  "bd_default = \<lparr>
     bd_id = [], bd_name = [], bd_compilerId = [], bd_compilerVersion = [],
     bd_codeGenerator = [], bd_optimizer = [], bd_linker = [], bd_runtime = [],
     bd_targetArchitecture = [], bd_supportsNVRTC = False, bd_supportsOffline = False,
     bd_isSyntheticCPU = False, bd_supportedDatatypes = [], bd_supportedLayouts = [],
     bd_featureFlags = [], bd_capabilityDescriptor = []\<rparr>"

definition bd_toJson :: "BackendDescriptor \<Rightarrow> Json" where
  "bd_toJson bd = json_sets
    [(''id'', JStr (bd_id bd)), (''name'', JStr (bd_name bd)),
     (''compiler_id'', JStr (bd_compilerId bd)),
     (''compiler_version'', JStr (bd_compilerVersion bd)),
     (''code_generator'', JStr (bd_codeGenerator bd)), (''optimizer'', JStr (bd_optimizer bd)),
     (''linker'', JStr (bd_linker bd)), (''runtime'', JStr (bd_runtime bd)),
     (''target_architecture'', JStr (bd_targetArchitecture bd)),
     (''supports_nvrtc'', JBool (bd_supportsNVRTC bd)),
     (''supports_offline'', JBool (bd_supportsOffline bd)),
     (''synthetic_cpu'', JBool (bd_isSyntheticCPU bd)),
     (''supported_datatypes'', JArr (map (\<lambda>e. JStr e) (bd_supportedDatatypes bd))),
     (''supported_layouts'', JArr (map (\<lambda>e. JStr e) (bd_supportedLayouts bd))),
     (''feature_flags'', JArr (map (\<lambda>e. JStr e) (bd_featureFlags bd))),
     (''capability_descriptor'', JStr (bd_capabilityDescriptor bd))]"

definition bd_fromJson :: "Json \<Rightarrow> BackendDescriptor option" where
  "bd_fromJson j =
    Some \<lparr>bd_id = JSTR j ''id'', bd_name = JSTR j ''name'', bd_compilerId = JSTR j ''compiler_id'',
      bd_compilerVersion = JSTR j ''compiler_version'',
      bd_codeGenerator = JSTR j ''code_generator'', bd_optimizer = JSTR j ''optimizer'',
      bd_linker = JSTR j ''linker'', bd_runtime = JSTR j ''runtime'',
      bd_targetArchitecture = JSTR j ''target_architecture'',
      bd_supportsNVRTC = JBOOL j ''supports_nvrtc'',
      bd_supportsOffline = JBOOL j ''supports_offline'',
      bd_isSyntheticCPU = JBOOL j ''synthetic_cpu'',
      bd_supportedDatatypes = map asString (jarray j ''supported_datatypes''),
      bd_supportedLayouts = map asString (jarray j ''supported_layouts''),
      bd_featureFlags = map asString (jarray j ''feature_flags''),
      bd_capabilityDescriptor = JSTR j ''capability_descriptor''\<rparr>"

section \<open>SourceDescriptor\<close>

record SourceDescriptor =
  sd_identity :: Id128
  sd_digest :: Digest
  sd_language :: string
  sd_format :: string
  sd_byteSize :: u64
  sd_frontend :: string

definition sd_default :: SourceDescriptor where
  "sd_default = \<lparr>
     sd_identity = Id128 0 0, sd_digest = zeroDigest, sd_language = [], sd_format = [],
     sd_byteSize = 0, sd_frontend = []\<rparr>"

definition sd_toJson :: "SourceDescriptor \<Rightarrow> Json" where
  "sd_toJson sd = json_sets
    [(''identity'', JStr (toHex (sd_identity sd))),
     (''digest'', JStr (digestToHex (sd_digest sd))), (''language'', JStr (sd_language sd)),
     (''format'', JStr (sd_format sd)),
     (''byte_size'', JNum (double_of_int (uint (sd_byteSize sd)))),
     (''frontend'', JStr (sd_frontend sd))]"

definition sd_fromJson :: "Json \<Rightarrow> SourceDescriptor option" where
  "sd_fromJson j =
    Option.bind (JNUM j ''byte_size'') (\<lambda>byteSize'.
    Some \<lparr>sd_identity = or_else (id_parse (JSTR j ''identity'')) (Id128 0 0),
      sd_digest = or_else (digestFromHex (JSTR j ''digest'')) zeroDigest,
      sd_language = JSTR j ''language'', sd_format = JSTR j ''format'', sd_byteSize = byteSize',
      sd_frontend = JSTR j ''frontend''\<rparr>)"

section \<open>IRDescriptor\<close>

record IRDescriptor =
  ird_identity :: Id128
  ird_digest :: Digest
  ird_format :: string
  ird_byteSize :: u64
  ird_rank :: u64
  ird_datatype :: Datatype
  ird_layout :: Layout
  ird_staticShape :: "i64 list"
  ird_symbolicShape :: string

definition ird_default :: IRDescriptor where
  "ird_default = \<lparr>
     ird_identity = Id128 0 0, ird_digest = zeroDigest, ird_format = [], ird_byteSize = 0,
     ird_rank = 0, ird_datatype = DT_None, ird_layout = LO_None, ird_staticShape = [],
     ird_symbolicShape = []\<rparr>"

definition ird_toJson :: "IRDescriptor \<Rightarrow> Json" where
  "ird_toJson ird = json_sets
    [(''identity'', JStr (toHex (ird_identity ird))),
     (''digest'', JStr (digestToHex (ird_digest ird))), (''format'', JStr (ird_format ird)),
     (''byte_size'', JNum (double_of_int (uint (ird_byteSize ird)))),
     (''rank'', JNum (double_of_int (uint (ird_rank ird)))),
     (''datatype'', JStr (datatypeName (ird_datatype ird))),
     (''layout'', JStr (layoutName (ird_layout ird))),
     (''static_shape'', JArr (map (\<lambda>e. JNum (double_of_int (sint e))) (ird_staticShape ird))),
     (''symbolic_shape'', JStr (ird_symbolicShape ird))]"

definition ird_fromJson :: "Json \<Rightarrow> IRDescriptor option" where
  "ird_fromJson j =
    Option.bind (JNUM j ''byte_size'') (\<lambda>byteSize'.
    Option.bind (JNUM j ''rank'') (\<lambda>rank'.
    Option.bind (those (map (\<lambda>e. to_i64 (asNumber e)) (jarray j ''static_shape''))) (\<lambda>staticShape'.
    Some \<lparr>ird_identity = or_else (id_parse (JSTR j ''identity'')) (Id128 0 0),
      ird_digest = or_else (digestFromHex (JSTR j ''digest'')) zeroDigest,
      ird_format = JSTR j ''format'', ird_byteSize = byteSize', ird_rank = rank',
      ird_datatype = or_else (datatypeFromName (JSTR j ''datatype'')) DT_None,
      ird_layout = or_else (layoutFromName (JSTR j ''layout'')) LO_None,
      ird_staticShape = staticShape', ird_symbolicShape = JSTR j ''symbolic_shape''\<rparr>)))"

section \<open>SpecializationDescriptor\<close>

record SpecializationDescriptor =
  spd_shape :: "i64 list"
  spd_datatype :: Datatype
  spd_layout :: Layout
  spd_quantization :: QuantizationMode
  spd_precision :: PrecisionMode
  spd_scalarConstants :: string
  spd_launchSpecialization :: string
  spd_featureFlags :: string
  spd_architecture :: string
  spd_modelRev :: string

definition spd_default :: SpecializationDescriptor where
  "spd_default = \<lparr>
     spd_shape = [], spd_datatype = DT_None, spd_layout = LO_None, spd_quantization = QM_None,
     spd_precision = PM_None, spd_scalarConstants = [], spd_launchSpecialization = [],
     spd_featureFlags = [], spd_architecture = [], spd_modelRev = []\<rparr>"

definition spd_toJson :: "SpecializationDescriptor \<Rightarrow> Json" where
  "spd_toJson spd = json_sets
    [(''shape'', JArr (map (\<lambda>e. JNum (double_of_int (sint e))) (spd_shape spd))),
     (''datatype'', JStr (datatypeName (spd_datatype spd))),
     (''layout'', JStr (layoutName (spd_layout spd))),
     (''quantization'', JStr (quantizationName (spd_quantization spd))),
     (''precision'', JStr (precisionName (spd_precision spd))),
     (''scalar_constants'', JStr (spd_scalarConstants spd)),
     (''launch_specialization'', JStr (spd_launchSpecialization spd)),
     (''feature_flags'', JStr (spd_featureFlags spd)),
     (''architecture'', JStr (spd_architecture spd)), (''model_rev'', JStr (spd_modelRev spd))]"

definition spd_fromJson :: "Json \<Rightarrow> SpecializationDescriptor option" where
  "spd_fromJson j =
    Option.bind (those (map (\<lambda>e. to_i64 (asNumber e)) (jarray j ''shape''))) (\<lambda>shape'.
    Some \<lparr>spd_shape = shape',
      spd_datatype = or_else (datatypeFromName (JSTR j ''datatype'')) DT_None,
      spd_layout = or_else (layoutFromName (JSTR j ''layout'')) LO_None,
      spd_quantization = or_else (quantizationFromName (JSTR j ''quantization'')) QM_None,
      spd_precision = or_else (precisionFromName (JSTR j ''precision'')) PM_None,
      spd_scalarConstants = JSTR j ''scalar_constants'',
      spd_launchSpecialization = JSTR j ''launch_specialization'',
      spd_featureFlags = JSTR j ''feature_flags'', spd_architecture = JSTR j ''architecture'',
      spd_modelRev = JSTR j ''model_rev''\<rparr>)"

section \<open>StageOutcome\<close>

record StageOutcome =
  so_kind :: StageKind
  so_ran :: bool
  so_succeeded :: bool
  so_durationMs :: i64
  so_message :: string

definition so_default :: StageOutcome where
  "so_default = \<lparr>
     so_kind = SK_Skip, so_ran = False, so_succeeded = True, so_durationMs = 0, so_message = []\<rparr>"

definition so_toJson :: "StageOutcome \<Rightarrow> Json" where
  "so_toJson so = json_sets
    [(''kind'', JStr (stageKindName (so_kind so))), (''ran'', JBool (so_ran so)),
     (''succeeded'', JBool (so_succeeded so)),
     (''duration_ms'', JNum (double_of_int (sint (so_durationMs so)))),
     (''message'', JStr (so_message so))]"

section \<open>ValidationDescriptor\<close>

record ValidationDescriptor =
  vd_executed :: bool
  vd_passed :: bool
  vd_method :: string
  vd_durationMs :: i64
  vd_message :: string
  vd_contentDigestOk :: bool
  vd_formatOk :: bool
  vd_architectureOk :: bool
  vd_abiOk :: bool
  vd_dependencyOk :: bool
  vd_metadataConsistent :: bool
  vd_loadable :: bool
  vd_executionSmoke :: bool
  vd_referenceComparison :: bool

definition vd_default :: ValidationDescriptor where
  "vd_default = \<lparr>
     vd_executed = False, vd_passed = False, vd_method = [], vd_durationMs = 0, vd_message = [],
     vd_contentDigestOk = False, vd_formatOk = False, vd_architectureOk = False,
     vd_abiOk = False, vd_dependencyOk = False, vd_metadataConsistent = False,
     vd_loadable = False, vd_executionSmoke = False, vd_referenceComparison = False\<rparr>"

definition vd_toJson :: "ValidationDescriptor \<Rightarrow> Json" where
  "vd_toJson vd = json_sets
    [(''executed'', JBool (vd_executed vd)), (''passed'', JBool (vd_passed vd)),
     (''method'', JStr (vd_method vd)),
     (''duration_ms'', JNum (double_of_int (sint (vd_durationMs vd)))),
     (''message'', JStr (vd_message vd)), (''content_digest_ok'', JBool (vd_contentDigestOk vd)),
     (''format_ok'', JBool (vd_formatOk vd)),
     (''architecture_ok'', JBool (vd_architectureOk vd)), (''abi_ok'', JBool (vd_abiOk vd)),
     (''dependency_ok'', JBool (vd_dependencyOk vd)),
     (''metadata_consistent'', JBool (vd_metadataConsistent vd)),
     (''loadable'', JBool (vd_loadable vd)), (''execution_smoke'', JBool (vd_executionSmoke vd)),
     (''reference_comparison'', JBool (vd_referenceComparison vd))]"

definition vd_fromJson :: "Json \<Rightarrow> ValidationDescriptor option" where
  "vd_fromJson j =
    Option.bind (JNUM j ''duration_ms'') (\<lambda>durationMs'.
    Some \<lparr>vd_executed = JBOOL j ''executed'', vd_passed = JBOOL j ''passed'',
      vd_method = JSTR j ''method'', vd_durationMs = durationMs',
      vd_message = JSTR j ''message'', vd_contentDigestOk = JBOOL j ''content_digest_ok'',
      vd_formatOk = JBOOL j ''format_ok'', vd_architectureOk = JBOOL j ''architecture_ok'',
      vd_abiOk = JBOOL j ''abi_ok'', vd_dependencyOk = JBOOL j ''dependency_ok'',
      vd_metadataConsistent = JBOOL j ''metadata_consistent'',
      vd_loadable = JBOOL j ''loadable'', vd_executionSmoke = JBOOL j ''execution_smoke'',
      vd_referenceComparison = JBOOL j ''reference_comparison''\<rparr>)"

section \<open>DeploymentDescriptor\<close>

record DeploymentDescriptor =
  dd_deployable :: bool
  dd_method :: string
  dd_runtimeCompatible :: bool
  dd_architectureValidated :: bool
  dd_generationValidated :: bool
  dd_lastLoadDurationMs :: i64
  dd_lastLoadAt :: i64
  dd_moduleResident :: bool
  dd_activeLeases :: u64

definition dd_default :: DeploymentDescriptor where
  "dd_default = \<lparr>
     dd_deployable = False, dd_method = [], dd_runtimeCompatible = False,
     dd_architectureValidated = False, dd_generationValidated = False, dd_lastLoadDurationMs = 0,
     dd_lastLoadAt = 0, dd_moduleResident = False, dd_activeLeases = 0\<rparr>"

definition dd_toJson :: "DeploymentDescriptor \<Rightarrow> Json" where
  "dd_toJson dd = json_sets
    [(''deployable'', JBool (dd_deployable dd)), (''method'', JStr (dd_method dd)),
     (''runtime_compatible'', JBool (dd_runtimeCompatible dd)),
     (''architecture_validated'', JBool (dd_architectureValidated dd)),
     (''generation_validated'', JBool (dd_generationValidated dd)),
     (''last_load_duration_ms'', JNum (double_of_int (sint (dd_lastLoadDurationMs dd)))),
     (''last_load_at'', JNum (double_of_int (sint (dd_lastLoadAt dd)))),
     (''module_resident'', JBool (dd_moduleResident dd)),
     (''active_leases'', JNum (double_of_int (uint (dd_activeLeases dd))))]"

definition dd_fromJson :: "Json \<Rightarrow> DeploymentDescriptor option" where
  "dd_fromJson j =
    Option.bind (JNUM j ''last_load_duration_ms'') (\<lambda>lastLoadDurationMs'.
    Option.bind (JNUM j ''last_load_at'') (\<lambda>lastLoadAt'.
    Option.bind (JNUM j ''active_leases'') (\<lambda>activeLeases'.
    Some \<lparr>dd_deployable = JBOOL j ''deployable'', dd_method = JSTR j ''method'',
      dd_runtimeCompatible = JBOOL j ''runtime_compatible'',
      dd_architectureValidated = JBOOL j ''architecture_validated'',
      dd_generationValidated = JBOOL j ''generation_validated'',
      dd_lastLoadDurationMs = lastLoadDurationMs', dd_lastLoadAt = lastLoadAt',
      dd_moduleResident = JBOOL j ''module_resident'', dd_activeLeases = activeLeases'\<rparr>)))"

section \<open>ProvenanceDescriptor\<close>

record ProvenanceDescriptor =
  pd_requestId :: Id128
  pd_planId :: Id128
  pd_attemptId :: Id128
  pd_sourceDigest :: Digest
  pd_irDigest :: Digest
  pd_toolchainFingerprint :: string
  pd_environmentFingerprint :: string
  pd_reproducibility :: ReproducibilityMode
  pd_deterministic :: bool
  pd_compileDurationMs :: i64
  pd_optimizeDurationMs :: i64
  pd_analyzeDurationMs :: i64
  pd_validateDurationMs :: i64
  pd_linkDurationMs :: i64
  pd_deployDurationMs :: i64
  pd_createdAt :: i64

definition pd_default :: ProvenanceDescriptor where
  "pd_default = \<lparr>
     pd_requestId = Id128 0 0, pd_planId = Id128 0 0, pd_attemptId = Id128 0 0,
     pd_sourceDigest = zeroDigest, pd_irDigest = zeroDigest, pd_toolchainFingerprint = [],
     pd_environmentFingerprint = [], pd_reproducibility = RM_Unspecified,
     pd_deterministic = False, pd_compileDurationMs = 0, pd_optimizeDurationMs = 0,
     pd_analyzeDurationMs = 0, pd_validateDurationMs = 0, pd_linkDurationMs = 0,
     pd_deployDurationMs = 0, pd_createdAt = 0\<rparr>"

definition pd_toJson :: "ProvenanceDescriptor \<Rightarrow> Json" where
  "pd_toJson pd = json_sets
    [(''request_id'', JStr (toHex (pd_requestId pd))),
     (''plan_id'', JStr (toHex (pd_planId pd))),
     (''attempt_id'', JStr (toHex (pd_attemptId pd))),
     (''source_digest'', JStr (digestToHex (pd_sourceDigest pd))),
     (''ir_digest'', JStr (digestToHex (pd_irDigest pd))),
     (''toolchain_fingerprint'', JStr (pd_toolchainFingerprint pd)),
     (''environment_fingerprint'', JStr (pd_environmentFingerprint pd)),
     (''reproducibility'', JStr (reproducibilityName (pd_reproducibility pd))),
     (''deterministic'', JBool (pd_deterministic pd)),
     (''compile_duration_ms'', JNum (double_of_int (sint (pd_compileDurationMs pd)))),
     (''optimize_duration_ms'', JNum (double_of_int (sint (pd_optimizeDurationMs pd)))),
     (''analyze_duration_ms'', JNum (double_of_int (sint (pd_analyzeDurationMs pd)))),
     (''validate_duration_ms'', JNum (double_of_int (sint (pd_validateDurationMs pd)))),
     (''link_duration_ms'', JNum (double_of_int (sint (pd_linkDurationMs pd)))),
     (''deploy_duration_ms'', JNum (double_of_int (sint (pd_deployDurationMs pd)))),
     (''created_at'', JNum (double_of_int (sint (pd_createdAt pd))))]"

definition pd_fromJson :: "Json \<Rightarrow> ProvenanceDescriptor option" where
  "pd_fromJson j =
    Option.bind (JNUM j ''compile_duration_ms'') (\<lambda>compileDurationMs'.
    Option.bind (JNUM j ''optimize_duration_ms'') (\<lambda>optimizeDurationMs'.
    Option.bind (JNUM j ''analyze_duration_ms'') (\<lambda>analyzeDurationMs'.
    Option.bind (JNUM j ''validate_duration_ms'') (\<lambda>validateDurationMs'.
    Option.bind (JNUM j ''link_duration_ms'') (\<lambda>linkDurationMs'.
    Option.bind (JNUM j ''deploy_duration_ms'') (\<lambda>deployDurationMs'.
    Option.bind (JNUM j ''created_at'') (\<lambda>createdAt'.
    Some \<lparr>pd_requestId = or_else (id_parse (JSTR j ''request_id'')) (Id128 0 0),
      pd_planId = or_else (id_parse (JSTR j ''plan_id'')) (Id128 0 0),
      pd_attemptId = or_else (id_parse (JSTR j ''attempt_id'')) (Id128 0 0),
      pd_sourceDigest = or_else (digestFromHex (JSTR j ''source_digest'')) zeroDigest,
      pd_irDigest = or_else (digestFromHex (JSTR j ''ir_digest'')) zeroDigest,
      pd_toolchainFingerprint = JSTR j ''toolchain_fingerprint'',
      pd_environmentFingerprint = JSTR j ''environment_fingerprint'',
      pd_reproducibility = or_else (reproducibilityFromName (JSTR j ''reproducibility'')) RM_Unspecified,
      pd_deterministic = JBOOL j ''deterministic'', pd_compileDurationMs = compileDurationMs',
      pd_optimizeDurationMs = optimizeDurationMs', pd_analyzeDurationMs = analyzeDurationMs',
      pd_validateDurationMs = validateDurationMs', pd_linkDurationMs = linkDurationMs',
      pd_deployDurationMs = deployDurationMs', pd_createdAt = createdAt'\<rparr>)))))))"

section \<open>ArtifactDescriptor\<close>

record ArtifactDescriptor =
  ad_id :: Id128
  ad_generation :: u64
  ad_format :: ArtifactFormat
  ad_contentDigest :: Digest
  ad_byteSize :: u64
  ad_keyDigest :: Digest
  ad_state :: string
  ad_target :: TargetDescriptor
  ad_compiler :: CompilerDescriptor
  ad_backend :: BackendDescriptor
  ad_specialization :: SpecializationDescriptor
  ad_validation :: ValidationDescriptor
  ad_deployment :: DeploymentDescriptor
  ad_provenance :: ProvenanceDescriptor
  ad_namespaceName :: string
  ad_tenant :: string
  ad_createdAt :: i64
  ad_lastAccess :: i64
  ad_reuseCount :: u64

definition ad_default :: ArtifactDescriptor where
  "ad_default = \<lparr>
     ad_id = Id128 0 0, ad_generation = 0, ad_format = FMT_Unknown,
     ad_contentDigest = zeroDigest, ad_byteSize = 0, ad_keyDigest = zeroDigest, ad_state = [],
     ad_target = td_default, ad_compiler = cd_default, ad_backend = bd_default,
     ad_specialization = spd_default, ad_validation = vd_default, ad_deployment = dd_default,
     ad_provenance = pd_default, ad_namespaceName = [], ad_tenant = [], ad_createdAt = 0,
     ad_lastAccess = 0, ad_reuseCount = 0\<rparr>"

definition ad_toJson :: "ArtifactDescriptor \<Rightarrow> Json" where
  "ad_toJson ad = json_sets
    [(''id'', JStr (toHex (ad_id ad))),
     (''generation'', JNum (double_of_int (uint (ad_generation ad)))),
     (''format'', JStr (artifactFormatName (ad_format ad))),
     (''content_digest'', JStr (digestToHex (ad_contentDigest ad))),
     (''byte_size'', JNum (double_of_int (uint (ad_byteSize ad)))),
     (''key_digest'', JStr (digestToHex (ad_keyDigest ad))), (''state'', JStr (ad_state ad)),
     (''target'', td_toJson (ad_target ad)), (''compiler'', cd_toJson (ad_compiler ad)),
     (''backend'', bd_toJson (ad_backend ad)),
     (''specialization'', spd_toJson (ad_specialization ad)),
     (''validation'', vd_toJson (ad_validation ad)),
     (''deployment'', dd_toJson (ad_deployment ad)),
     (''provenance'', pd_toJson (ad_provenance ad)), (''namespace'', JStr (ad_namespaceName ad)),
     (''tenant'', JStr (ad_tenant ad)),
     (''created_at'', JNum (double_of_int (sint (ad_createdAt ad)))),
     (''last_access'', JNum (double_of_int (sint (ad_lastAccess ad)))),
     (''reuse_count'', JNum (double_of_int (uint (ad_reuseCount ad))))]"

definition ad_fromJson :: "Json \<Rightarrow> ArtifactDescriptor option" where
  "ad_fromJson j =
    Option.bind (JNUM j ''generation'') (\<lambda>generation'.
    Option.bind (JNUM j ''byte_size'') (\<lambda>byteSize'.
    Option.bind (jsub td_fromJson td_default (json_get ''target'' j)) (\<lambda>target'.
    Option.bind (jsub cd_fromJson cd_default (json_get ''compiler'' j)) (\<lambda>compiler'.
    Option.bind (jsub bd_fromJson bd_default (json_get ''backend'' j)) (\<lambda>backend'.
    Option.bind (jsub spd_fromJson spd_default (json_get ''specialization'' j)) (\<lambda>specialization'.
    Option.bind (jsub vd_fromJson vd_default (json_get ''validation'' j)) (\<lambda>validation'.
    Option.bind (jsub dd_fromJson dd_default (json_get ''deployment'' j)) (\<lambda>deployment'.
    Option.bind (jsub pd_fromJson pd_default (json_get ''provenance'' j)) (\<lambda>provenance'.
    Option.bind (JNUM j ''created_at'') (\<lambda>createdAt'.
    Option.bind (JNUM j ''last_access'') (\<lambda>lastAccess'.
    Option.bind (JNUM j ''reuse_count'') (\<lambda>reuseCount'.
    Some \<lparr>ad_id = or_else (id_parse (JSTR j ''id'')) (Id128 0 0), ad_generation = generation',
      ad_format = or_else (artifactFormatFromName (JSTR j ''format'')) FMT_Unknown,
      ad_contentDigest = or_else (digestFromHex (JSTR j ''content_digest'')) zeroDigest,
      ad_byteSize = byteSize',
      ad_keyDigest = or_else (digestFromHex (JSTR j ''key_digest'')) zeroDigest,
      ad_state = JSTR j ''state'', ad_target = target', ad_compiler = compiler',
      ad_backend = backend', ad_specialization = specialization', ad_validation = validation',
      ad_deployment = deployment', ad_provenance = provenance',
      ad_namespaceName = JSTR j ''namespace'', ad_tenant = JSTR j ''tenant'',
      ad_createdAt = createdAt', ad_lastAccess = lastAccess', ad_reuseCount = reuseCount'\<rparr>))))))))))))"

section \<open>Reading back what was written\<close>

text \<open>
  What a \<open>toJson\<close>/\<open>fromJson\<close> pair promises: on values that satisfy \<open>ok\<close>
  the text form exists and reads back to \<open>kept x\<close>, the part of the value that
  survives.
\<close>

locale json_codec =
  fixes toJ :: "'a \<Rightarrow> Json"
    and fromJ :: "Json \<Rightarrow> 'a option"
    and kept :: "'a \<Rightarrow> 'a"
    and ok :: "'a \<Rightarrow> bool"
  assumes from_to: "ok x \<Longrightarrow> fromJ (toJ x) = Some (kept x)"
    and to_ok: "ok x \<Longrightarrow> json_ok (toJ x)"
begin

lemma text_roundtrip:
  assumes "ok x"
  shows "\<exists>t j. json_dump (toJ x) = Some t \<and> json_parse t = Some j \<and> fromJ j = Some (kept x)"
proof -
  have j: "json_ok (toJ x)" by (rule to_ok [OF assms])
  obtain t where t: "dumpTo (toJ x) = Some t" using dump_total [OF j] by blast
  then have "parse_value (t @ []) = Some (toJ x, [])"
    using json_ok_parses [OF j] number_end_punct(4) unfolding parses_def by blast
  then show ?thesis
    using t from_to [OF assms] by (simp add: json_dump_def json_parse_def skipWs_def)
qed

end

lemma json_set_JObj: "json_set k v (JObj m) = JObj (smap_put k v m)"
  by (simp add: json_set_def)

lemma json_sets_fold: "json_sets kvs = JObj (fold (\<lambda>(k, v). smap_put k v) kvs [])"
proof -
  have "fold (\<lambda>(k, v). json_set k v) kvs (JObj m) = JObj (fold (\<lambda>(k, v). smap_put k v) kvs m)" for m
    by (induction kvs arbitrary: m) (auto simp: json_set_JObj)
  then show ?thesis by (simp add: json_sets_def)
qed

lemma json_get_sets [codec]: "json_get k (json_sets kvs) = map_of (rev kvs) k"
  using smap.get_fold_put [of kvs "[]" k]
  by (simp add: json_sets_fold json_get_def asObjectPtr_def split: option.splits)

lemma set_smap_put_sub: "set (smap_put k v m) \<subseteq> insert (k, v) (set m)"
  by (induction k v m rule: smap_put.induct) auto

lemma set_fold_smap: "set (fold (\<lambda>(k, v). smap_put k v) kvs m) \<subseteq> set kvs \<union> set m"
proof (induction kvs arbitrary: m)
  case (Cons kv kvs)
  then show ?case using set_smap_put_sub [of "fst kv" "snd kv" m] by (cases kv) fastforce
qed simp

lemma json_ok_sets: "list_all (\<lambda>kv. json_ok (snd kv)) kvs \<Longrightarrow> json_ok (json_sets kvs)"
  using set_fold_smap [of kvs "[]"] smap.inv_fold_put [of "[]" kvs]
  by (auto simp: json_sets_fold list_all_iff)

lemma exact_double: "\<bar>n\<bar> < 2 ^ 53 \<Longrightarrow> exact_int (double_of_int n)"
  by (auto simp: exact_int_def double_of_int_exact)

definition num_ok :: "'a::len word \<Rightarrow> bool" where
  "num_ok x \<longleftrightarrow> uint x < 2 ^ 53"

lemma uint_nonneg_sint: "num_ok (x :: i64) \<Longrightarrow> sint x = uint x"
proof -
  assume "num_ok x"
  then have "- (2 ^ 63) \<le> uint x" and "uint x < 2 ^ 63"
    using order_trans [OF _ uint_nonnegative [of x], of "- (2 ^ 63)"] by (simp_all add: num_ok_def)
  then show ?thesis by (simp add: sint_uint signed_take_bit_int_eq_self)
qed

lemma double_uint:
  assumes "uint (x :: 'a::len word) < 2 ^ 53"
  shows "to_u64 (double_of_int (uint x)) = Some (of_int (uint x))"
  unfolding double_of_int_exact [of "uint x", unfolded abs_of_nonneg [OF uint_nonnegative], OF assms]
  using assms uint_nonnegative [of x] by (intro to_u64_int) simp_all

lemma num_u64: "num_ok (x :: u64) \<Longrightarrow> to_u64 (double_of_int (uint x)) = Some x"
  by (simp add: num_ok_def double_uint)

lemma uint_u32: "uint (x :: u32) < 2 ^ 32"
  using uint_bounded [of x] by simp

lemma num_u32: "to_u64 (double_of_int (uint (x :: u32))) = Some (ucast x)"
  using uint_u32 [of x] by (simp add: double_uint)

lemma num_i64: "num_ok x \<Longrightarrow> to_u64 (double_of_int (sint (x :: i64))) = Some x"
  by (simp add: uint_nonneg_sint num_u64)

lemma num_i64_signed:
  assumes "\<bar>sint x\<bar> < 2 ^ 53"
  shows "to_i64 (double_of_int (sint (x :: i64))) = Some x"
proof -
  have "to_i64 (Fin (of_int (sint x))) = Some (of_int (sint x))" using assms by (intro to_i64_int) simp
  then show ?thesis unfolding double_of_int_exact [OF assms] by simp
qed

lemma exact_u64 [simp]: "num_ok (x :: u64) \<Longrightarrow> exact_int (double_of_int (uint x))"
  by (rule exact_double) (simp add: num_ok_def)

lemma exact_u32 [simp]: "exact_int (double_of_int (uint (x :: u32)))"
  using uint_u32 [of x] by (intro exact_double) simp

lemma exact_i64 [simp]: "num_ok x \<Longrightarrow> exact_int (double_of_int (sint (x :: i64)))"
  by (simp add: uint_nonneg_sint)

lemma ucast_u32_u64 [simp]: "ucast (ucast (x :: u32) :: u64) = x"
  by (rule bit_word_eqI) (auto simp: bit_simps)

lemma those_Some: "those (map Some xs) = Some xs"
  by (induction xs) simp_all

lemma those_i64:
  "\<forall>x \<in> set xs. \<bar>sint (x :: i64)\<bar> < 2 ^ 53 \<Longrightarrow>
   those (map (\<lambda>x. to_i64 (double_of_int (sint x))) xs) = Some xs"
  by (induction xs) (simp_all add: num_i64_signed)

lemma those_u64:
  "\<forall>x \<in> set xs. num_ok (x :: u64) \<Longrightarrow>
   those (map (\<lambda>x. to_u64 (double_of_int (uint x))) xs) = Some xs"
  by (induction xs) (simp_all add: num_u64)

lemma map_filter_Some: "List.map_filter (\<lambda>x. Some x) xs = xs"
  by (induction xs) (simp_all add: List.map_filter_simps)

lemma or_else_simps [simp]: "or_else (Some x) d = x" "or_else None d = d"
  by (simp_all add: or_else_def)

text \<open>A vocabulary enum always comes back as the default of its field.\<close>

lemma table_name_in: "table_name cases d x \<in> insert d (snd ` set cases)"
  by (auto simp: table_name_def split: option.splits dest: map_of_SomeD intro: rev_image_eqI)

lemma or_else_default:
  assumes "\<forall>s \<in> insert d (snd ` set cases). or_else (LOOKUP tab s) e = e"
  shows "or_else (LOOKUP tab (table_name cases d x)) e = e"
  using assms table_name_in [of cases d x] by blast

lemma vendor_lost: "or_else (vendorFromName (vendorName x)) AV_Unknown = AV_Unknown"
  unfolding vendorFromName_def vendorName_def by (rule or_else_default) code_simp

lemma family_lost: "or_else (familyFromName (familyName x)) AF_Unknown = AF_Unknown"
  unfolding familyFromName_def familyName_def by (rule or_else_default) code_simp

lemma datatype_lost: "or_else (datatypeFromName (datatypeName x)) DT_None = DT_None"
  unfolding datatypeFromName_def datatypeName_def by (rule or_else_default) code_simp

lemma layout_lost: "or_else (layoutFromName (layoutName x)) LO_None = LO_None"
  unfolding layoutFromName_def layoutName_def by (rule or_else_default) code_simp

lemma quantization_lost: "or_else (quantizationFromName (quantizationName x)) QM_None = QM_None"
  unfolding quantizationFromName_def quantizationName_def by (rule or_else_default) code_simp

lemma precision_lost: "or_else (precisionFromName (precisionName x)) PM_None = PM_None"
  unfolding precisionFromName_def precisionName_def by (rule or_else_default) code_simp

lemma debugRelease_lost: "or_else (debugReleaseFromName (debugReleaseName x)) DR_Release = DR_Release"
  unfolding debugReleaseFromName_def debugReleaseName_def by (rule or_else_default) code_simp

lemma determinism_lost: "or_else (determinismFromName (determinismName x)) DM_Unspecified = DM_Unspecified"
  unfolding determinismFromName_def determinismName_def by (rule or_else_default) code_simp

lemma reproducibility_lost: "or_else (reproducibilityFromName (reproducibilityName x)) RM_Unspecified = RM_Unspecified"
  unfolding reproducibilityFromName_def reproducibilityName_def by (rule or_else_default) code_simp

lemmas enum_lost = vendor_lost family_lost datatype_lost layout_lost quantization_lost precision_lost debugRelease_lost determinism_lost reproducibility_lost

lemmas json_reads = json_get_sets JSTR_def JBOOL_def JNUM_def JNUMI_def jarray_def jsub_def asArrayPtr_def
  asNumber_def asString_def num_u64 num_u32 num_i64 those_i64 those_u64 those_Some map_filter_Some
  enum_lost o_def artifactFormat_names.from_nm stageKind_names.from_nm

definition td_ok :: "TargetDescriptor \<Rightarrow> bool" where
  "td_ok x \<longleftrightarrow> num_ok (td_deviceMemoryBytes x)"

definition td_kept :: "TargetDescriptor \<Rightarrow> TargetDescriptor" where
  "td_kept x = x\<lparr>td_vendor := AV_Unknown, td_family := AF_Unknown\<rparr>"

lemma td_from_to: "td_ok x \<Longrightarrow> td_fromJson (td_toJson x) = Some (td_kept x)"
  by (cases x) (simp add: td_fromJson_def td_toJson_def td_ok_def td_kept_def json_reads)

lemma td_to_ok: "td_ok x \<Longrightarrow> json_ok (td_toJson x)"
  unfolding td_toJson_def by (rule json_ok_sets) (simp add: td_ok_def list_all_iff exact_double)

interpretation tdj: json_codec td_toJson td_fromJson td_kept td_ok
  by unfold_locales (simp_all add: td_from_to td_to_ok)

definition cd_ok :: "CompilerDescriptor \<Rightarrow> bool" where
  "cd_ok x \<longleftrightarrow> True"

definition cd_kept :: "CompilerDescriptor \<Rightarrow> CompilerDescriptor" where
  "cd_kept x = x"

lemma cd_from_to: "cd_ok x \<Longrightarrow> cd_fromJson (cd_toJson x) = Some (cd_kept x)"
  by (cases x) (simp add: cd_fromJson_def cd_toJson_def cd_ok_def cd_kept_def json_reads)

lemma cd_to_ok: "cd_ok x \<Longrightarrow> json_ok (cd_toJson x)"
  unfolding cd_toJson_def by (rule json_ok_sets) (simp add: cd_ok_def list_all_iff exact_double)

interpretation cdj: json_codec cd_toJson cd_fromJson cd_kept cd_ok
  by unfold_locales (simp_all add: cd_from_to cd_to_ok)

definition tcd_ok :: "ToolchainDescriptor \<Rightarrow> bool" where
  "tcd_ok x \<longleftrightarrow> cd_ok (tcd_msvc x) \<and> cd_ok (tcd_nvcc x)"

definition tcd_kept :: "ToolchainDescriptor \<Rightarrow> ToolchainDescriptor" where
  "tcd_kept x = x\<lparr>tcd_msvc := cd_kept (tcd_msvc x), tcd_nvcc := cd_kept (tcd_nvcc x)\<rparr>"

lemma tcd_from_to: "tcd_ok x \<Longrightarrow> tcd_fromJson (tcd_toJson x) = Some (tcd_kept x)"
  by (cases x) (simp add: tcd_fromJson_def tcd_toJson_def tcd_ok_def tcd_kept_def json_reads cd_from_to)

lemma tcd_to_ok: "tcd_ok x \<Longrightarrow> json_ok (tcd_toJson x)"
  unfolding tcd_toJson_def by (rule json_ok_sets) (simp add: tcd_ok_def list_all_iff exact_double cd_to_ok)

interpretation tcdj: json_codec tcd_toJson tcd_fromJson tcd_kept tcd_ok
  by unfold_locales (simp_all add: tcd_from_to tcd_to_ok)

definition bd_ok :: "BackendDescriptor \<Rightarrow> bool" where
  "bd_ok x \<longleftrightarrow> True"

definition bd_kept :: "BackendDescriptor \<Rightarrow> BackendDescriptor" where
  "bd_kept x = x"

lemma bd_from_to: "bd_ok x \<Longrightarrow> bd_fromJson (bd_toJson x) = Some (bd_kept x)"
  by (cases x) (simp add: bd_fromJson_def bd_toJson_def bd_ok_def bd_kept_def json_reads)

lemma bd_to_ok: "bd_ok x \<Longrightarrow> json_ok (bd_toJson x)"
  unfolding bd_toJson_def by (rule json_ok_sets) (simp add: bd_ok_def list_all_iff exact_double)

interpretation bdj: json_codec bd_toJson bd_fromJson bd_kept bd_ok
  by unfold_locales (simp_all add: bd_from_to bd_to_ok)

definition sd_ok :: "SourceDescriptor \<Rightarrow> bool" where
  "sd_ok x \<longleftrightarrow> length (sd_digest x) = 32 \<and> num_ok (sd_byteSize x)"

definition sd_kept :: "SourceDescriptor \<Rightarrow> SourceDescriptor" where
  "sd_kept x = x"

lemma sd_from_to: "sd_ok x \<Longrightarrow> sd_fromJson (sd_toJson x) = Some (sd_kept x)"
  by (cases x) (simp add: sd_fromJson_def sd_toJson_def sd_ok_def sd_kept_def json_reads)

lemma sd_to_ok: "sd_ok x \<Longrightarrow> json_ok (sd_toJson x)"
  unfolding sd_toJson_def by (rule json_ok_sets) (simp add: sd_ok_def list_all_iff exact_double)

interpretation sdj: json_codec sd_toJson sd_fromJson sd_kept sd_ok
  by unfold_locales (simp_all add: sd_from_to sd_to_ok)

definition ird_ok :: "IRDescriptor \<Rightarrow> bool" where
  "ird_ok x \<longleftrightarrow> length (ird_digest x) = 32 \<and> num_ok (ird_byteSize x) \<and> num_ok (ird_rank x)
       \<and> (\<forall>e \<in> set (ird_staticShape x). \<bar>sint e\<bar> < 2 ^ 53)"

definition ird_kept :: "IRDescriptor \<Rightarrow> IRDescriptor" where
  "ird_kept x = x\<lparr>ird_datatype := DT_None, ird_layout := LO_None\<rparr>"

lemma ird_from_to: "ird_ok x \<Longrightarrow> ird_fromJson (ird_toJson x) = Some (ird_kept x)"
  by (cases x) (simp add: ird_fromJson_def ird_toJson_def ird_ok_def ird_kept_def json_reads)

lemma ird_to_ok: "ird_ok x \<Longrightarrow> json_ok (ird_toJson x)"
  unfolding ird_toJson_def by (rule json_ok_sets) (simp add: ird_ok_def list_all_iff exact_double)

interpretation irdj: json_codec ird_toJson ird_fromJson ird_kept ird_ok
  by unfold_locales (simp_all add: ird_from_to ird_to_ok)

definition spd_ok :: "SpecializationDescriptor \<Rightarrow> bool" where
  "spd_ok x \<longleftrightarrow> (\<forall>e \<in> set (spd_shape x). \<bar>sint e\<bar> < 2 ^ 53)"

definition spd_kept :: "SpecializationDescriptor \<Rightarrow> SpecializationDescriptor" where
  "spd_kept x = x\<lparr>spd_datatype := DT_None, spd_layout := LO_None, spd_quantization := QM_None,
     spd_precision := PM_None\<rparr>"

lemma spd_from_to: "spd_ok x \<Longrightarrow> spd_fromJson (spd_toJson x) = Some (spd_kept x)"
  by (cases x) (simp add: spd_fromJson_def spd_toJson_def spd_ok_def spd_kept_def json_reads)

lemma spd_to_ok: "spd_ok x \<Longrightarrow> json_ok (spd_toJson x)"
  unfolding spd_toJson_def by (rule json_ok_sets) (simp add: spd_ok_def list_all_iff exact_double)

interpretation spdj: json_codec spd_toJson spd_fromJson spd_kept spd_ok
  by unfold_locales (simp_all add: spd_from_to spd_to_ok)

definition vd_ok :: "ValidationDescriptor \<Rightarrow> bool" where
  "vd_ok x \<longleftrightarrow> num_ok (vd_durationMs x)"

definition vd_kept :: "ValidationDescriptor \<Rightarrow> ValidationDescriptor" where
  "vd_kept x = x"

lemma vd_from_to: "vd_ok x \<Longrightarrow> vd_fromJson (vd_toJson x) = Some (vd_kept x)"
  by (cases x) (simp add: vd_fromJson_def vd_toJson_def vd_ok_def vd_kept_def json_reads)

lemma vd_to_ok: "vd_ok x \<Longrightarrow> json_ok (vd_toJson x)"
  unfolding vd_toJson_def by (rule json_ok_sets) (simp add: vd_ok_def list_all_iff exact_double)

interpretation vdj: json_codec vd_toJson vd_fromJson vd_kept vd_ok
  by unfold_locales (simp_all add: vd_from_to vd_to_ok)

definition dd_ok :: "DeploymentDescriptor \<Rightarrow> bool" where
  "dd_ok x \<longleftrightarrow> num_ok (dd_lastLoadDurationMs x) \<and> num_ok (dd_lastLoadAt x)
       \<and> num_ok (dd_activeLeases x)"

definition dd_kept :: "DeploymentDescriptor \<Rightarrow> DeploymentDescriptor" where
  "dd_kept x = x"

lemma dd_from_to: "dd_ok x \<Longrightarrow> dd_fromJson (dd_toJson x) = Some (dd_kept x)"
  by (cases x) (simp add: dd_fromJson_def dd_toJson_def dd_ok_def dd_kept_def json_reads)

lemma dd_to_ok: "dd_ok x \<Longrightarrow> json_ok (dd_toJson x)"
  unfolding dd_toJson_def by (rule json_ok_sets) (simp add: dd_ok_def list_all_iff exact_double)

interpretation ddj: json_codec dd_toJson dd_fromJson dd_kept dd_ok
  by unfold_locales (simp_all add: dd_from_to dd_to_ok)

definition pd_ok :: "ProvenanceDescriptor \<Rightarrow> bool" where
  "pd_ok x \<longleftrightarrow> length (pd_sourceDigest x) = 32 \<and> length (pd_irDigest x) = 32
       \<and> num_ok (pd_compileDurationMs x) \<and> num_ok (pd_optimizeDurationMs x)
       \<and> num_ok (pd_analyzeDurationMs x) \<and> num_ok (pd_validateDurationMs x)
       \<and> num_ok (pd_linkDurationMs x) \<and> num_ok (pd_deployDurationMs x)
       \<and> num_ok (pd_createdAt x)"

definition pd_kept :: "ProvenanceDescriptor \<Rightarrow> ProvenanceDescriptor" where
  "pd_kept x = x\<lparr>pd_reproducibility := RM_Unspecified\<rparr>"

lemma pd_from_to: "pd_ok x \<Longrightarrow> pd_fromJson (pd_toJson x) = Some (pd_kept x)"
  by (cases x) (simp add: pd_fromJson_def pd_toJson_def pd_ok_def pd_kept_def json_reads)

lemma pd_to_ok: "pd_ok x \<Longrightarrow> json_ok (pd_toJson x)"
  unfolding pd_toJson_def by (rule json_ok_sets) (simp add: pd_ok_def list_all_iff exact_double)

interpretation pdj: json_codec pd_toJson pd_fromJson pd_kept pd_ok
  by unfold_locales (simp_all add: pd_from_to pd_to_ok)

definition ad_ok :: "ArtifactDescriptor \<Rightarrow> bool" where
  "ad_ok x \<longleftrightarrow> num_ok (ad_generation x) \<and> length (ad_contentDigest x) = 32
       \<and> num_ok (ad_byteSize x) \<and> length (ad_keyDigest x) = 32
       \<and> td_ok (ad_target x) \<and> cd_ok (ad_compiler x) \<and> bd_ok (ad_backend x)
       \<and> spd_ok (ad_specialization x) \<and> vd_ok (ad_validation x)
       \<and> dd_ok (ad_deployment x) \<and> pd_ok (ad_provenance x)
       \<and> num_ok (ad_createdAt x) \<and> num_ok (ad_lastAccess x)
       \<and> num_ok (ad_reuseCount x)"

definition ad_kept :: "ArtifactDescriptor \<Rightarrow> ArtifactDescriptor" where
  "ad_kept x = x\<lparr>ad_target := td_kept (ad_target x), ad_compiler := cd_kept (ad_compiler x),
     ad_backend := bd_kept (ad_backend x), ad_specialization := spd_kept (ad_specialization x),
     ad_validation := vd_kept (ad_validation x), ad_deployment := dd_kept (ad_deployment x),
     ad_provenance := pd_kept (ad_provenance x)\<rparr>"

lemma ad_from_to: "ad_ok x \<Longrightarrow> ad_fromJson (ad_toJson x) = Some (ad_kept x)"
  by (cases x) (simp add: ad_fromJson_def ad_toJson_def ad_ok_def ad_kept_def json_reads td_from_to cd_from_to bd_from_to spd_from_to vd_from_to dd_from_to pd_from_to)

lemma ad_to_ok: "ad_ok x \<Longrightarrow> json_ok (ad_toJson x)"
  unfolding ad_toJson_def by (rule json_ok_sets) (simp add: ad_ok_def list_all_iff exact_double td_to_ok cd_to_ok bd_to_ok spd_to_ok vd_to_ok dd_to_ok pd_to_ok)

interpretation adj: json_codec ad_toJson ad_fromJson ad_kept ad_ok
  by unfold_locales (simp_all add: ad_from_to ad_to_ok)


text \<open>
  C38: An artifact descriptor survives its JSON text up to the vocabulary enums: when its numbers are
  below 2^53 and its digests have 32 bytes, toJson prints, parse and fromJson succeed, and the
  result is the descriptor with target vendor and family, specialization datatype, layout,
  quantization and precision, and provenance reproducibility reset to their defaults; every other
  member, nested ones included, is unchanged.
\<close>

theorem artifact_json_roundtrip:
  assumes "ad_ok a"
  shows "\<exists>t j. json_dump (ad_toJson a) = Some t \<and> json_parse t = Some j \<and> ad_fromJson j = Some
     (a\<lparr>ad_target := (ad_target a)\<lparr>td_vendor := AV_Unknown, td_family := AF_Unknown\<rparr>,
        ad_specialization := (ad_specialization a)\<lparr>spd_datatype := DT_None, spd_layout := LO_None,
          spd_quantization := QM_None, spd_precision := PM_None\<rparr>,
        ad_provenance := (ad_provenance a)\<lparr>pd_reproducibility := RM_Unspecified\<rparr>\<rparr>)"
proof -
  have "ad_kept a = a\<lparr>ad_target := (ad_target a)\<lparr>td_vendor := AV_Unknown, td_family := AF_Unknown\<rparr>,
        ad_specialization := (ad_specialization a)\<lparr>spd_datatype := DT_None, spd_layout := LO_None,
          spd_quantization := QM_None, spd_precision := PM_None\<rparr>,
        ad_provenance := (ad_provenance a)\<lparr>pd_reproducibility := RM_Unspecified\<rparr>\<rparr>"
    by (simp add: ad_kept_def td_kept_def spd_kept_def pd_kept_def cd_kept_def bd_kept_def vd_kept_def
        dd_kept_def)
  then show ?thesis using adj.text_roundtrip [OF assms] by simp
qed

lemma artifact_json_roundtrip_witness:
  "\<exists>t j. json_dump (ad_toJson (ad_default\<lparr>ad_state := ''Deployable'', ad_generation := 7\<rparr>)) = Some t \<and>
     json_parse t = Some j \<and>
     (\<exists>b. ad_fromJson j = Some b \<and> ad_state b = ''Deployable'' \<and> ad_generation b = 7)"
proof -
  have "ad_ok (ad_default\<lparr>ad_state := ''Deployable'', ad_generation := 7\<rparr>)"
    by (simp add: ad_ok_def ad_default_def td_ok_def td_default_def cd_ok_def bd_ok_def spd_ok_def
        spd_default_def vd_ok_def vd_default_def dd_ok_def dd_default_def pd_ok_def pd_default_def
        num_ok_def zeroDigest_def)
  from artifact_json_roundtrip [OF this] show ?thesis by auto
qed

end
