(* ===== verification/CF_Request.thy ===== *)
theory CF_Request
  imports CF_Descriptor
begin

text \<open>
  Requests, plans, results and leases of \<open>Request.hpp\<close>, their JSON form, and
  \<open>buildCompilationKey\<close> from \<open>Request.cpp\<close>, the function that turns a request
  under a resolved toolchain into the typed key that identifies its artifact.
\<close>

section \<open>Helpers\<close>

definition toStrArray :: "string list \<Rightarrow> Json" where
  "toStrArray v = JArr (map JStr v)"

definition fromStrArray :: "Json \<Rightarrow> string list" where
  "fromStrArray j = (case asArrayPtr j of None \<Rightarrow> [] | Some a \<Rightarrow> map asString a)"

definition idFor :: "Digest \<Rightarrow> Id128" where
  "idFor d = fold (\<lambda>i v. Id128 (push_bit 8 (hi v) OR ucast (d ! i)) (push_bit 8 (lo v) OR ucast (d ! (i + 16))))
     [0..<16] (Id128 0 0)"

section \<open>CompilationRequest\<close>

record CompilationRequest =
  rq_requestId :: Id128
  rq_logicalOperation :: Id128
  rq_source :: string
  rq_sourceDigest :: Digest
  rq_sourceLanguage :: string
  rq_irDigest :: Digest
  rq_irFormat :: string
  rq_datatype :: Datatype
  rq_layout :: Layout
  rq_rank :: u64
  rq_staticShape :: "i64 list"
  rq_symbolicShape :: string
  rq_alignment :: u64
  rq_quantization :: QuantizationMode
  rq_precision :: PrecisionMode
  rq_scalarConstants :: string
  rq_launchSpecialization :: string
  rq_targetArchitecture :: string
  rq_computeCapability :: string
  rq_isa :: string
  rq_abi :: string
  rq_kernelABI :: string
  rq_backend :: string
  rq_compilerId :: string
  rq_frontend :: string
  rq_featureFlags :: string
  rq_optimizationFlags :: string
  rq_codegenFlags :: string
  rq_debugRelease :: DebugReleaseMode
  rq_determinism :: DeterminismMode
  rq_reproducibility :: ReproducibilityMode
  rq_dependencyIdentities :: "Id128 list"
  rq_dependencyGenerations :: "u64 list"
  rq_modelRevision :: string
  rq_namespaceName :: string
  rq_tenant :: string
  rq_autotune :: bool
  rq_autotuneCandidates :: i32
  rq_autotuneSeed :: u64
  rq_optimizeLevel :: i32
  rq_blockSize :: i32
  rq_unrollFactor :: i32
  rq_offlinePreferred :: bool

definition rq_default :: CompilationRequest where
  "rq_default = \<lparr>
     rq_requestId = Id128 0 0, rq_logicalOperation = Id128 0 0, rq_source = [],
     rq_sourceDigest = zeroDigest, rq_sourceLanguage = [], rq_irDigest = zeroDigest,
     rq_irFormat = [], rq_datatype = DT_None, rq_layout = LO_None, rq_rank = 0,
     rq_staticShape = [], rq_symbolicShape = [], rq_alignment = 0, rq_quantization = QM_None,
     rq_precision = PM_None, rq_scalarConstants = [], rq_launchSpecialization = [],
     rq_targetArchitecture = [], rq_computeCapability = [], rq_isa = [], rq_abi = [],
     rq_kernelABI = [], rq_backend = [], rq_compilerId = [], rq_frontend = [],
     rq_featureFlags = [], rq_optimizationFlags = [], rq_codegenFlags = [],
     rq_debugRelease = DR_Release, rq_determinism = DM_Unspecified,
     rq_reproducibility = RM_Unspecified, rq_dependencyIdentities = [],
     rq_dependencyGenerations = [], rq_modelRevision = [], rq_namespaceName = [], rq_tenant = [],
     rq_autotune = False, rq_autotuneCandidates = 1, rq_autotuneSeed = 0, rq_optimizeLevel = 1,
     rq_blockSize = 0, rq_unrollFactor = 0, rq_offlinePreferred = False\<rparr>"

definition rq_toJson :: "CompilationRequest \<Rightarrow> Json" where
  "rq_toJson rq = json_sets
    [(''request_id'', JStr (toHex (rq_requestId rq))),
     (''logical_operation'', JStr (toHex (rq_logicalOperation rq))),
     (''source'', JStr (rq_source rq)),
     (''source_digest'', JStr (digestToHex (rq_sourceDigest rq))),
     (''source_language'', JStr (rq_sourceLanguage rq)),
     (''ir_digest'', JStr (digestToHex (rq_irDigest rq))),
     (''ir_format'', JStr (rq_irFormat rq)),
     (''datatype'', JStr (datatypeName (rq_datatype rq))),
     (''layout'', JStr (layoutName (rq_layout rq))),
     (''rank'', JNum (double_of_int (uint (rq_rank rq)))),
     (''static_shape'', JArr (map (\<lambda>e. JNum (double_of_int (sint e))) (rq_staticShape rq))),
     (''symbolic_shape'', JStr (rq_symbolicShape rq)),
     (''alignment'', JNum (double_of_int (uint (rq_alignment rq)))),
     (''quantization'', JStr (quantizationName (rq_quantization rq))),
     (''precision'', JStr (precisionName (rq_precision rq))),
     (''scalar_constants'', JStr (rq_scalarConstants rq)),
     (''launch_specialization'', JStr (rq_launchSpecialization rq)),
     (''target_architecture'', JStr (rq_targetArchitecture rq)),
     (''compute_capability'', JStr (rq_computeCapability rq)), (''isa'', JStr (rq_isa rq)),
     (''abi'', JStr (rq_abi rq)), (''kernel_abi'', JStr (rq_kernelABI rq)),
     (''backend'', JStr (rq_backend rq)), (''compiler_id'', JStr (rq_compilerId rq)),
     (''frontend'', JStr (rq_frontend rq)), (''feature_flags'', JStr (rq_featureFlags rq)),
     (''optimization_flags'', JStr (rq_optimizationFlags rq)),
     (''codegen_flags'', JStr (rq_codegenFlags rq)),
     (''debug_release'', JStr (debugReleaseName (rq_debugRelease rq))),
     (''determinism'', JStr (determinismName (rq_determinism rq))),
     (''reproducibility'', JStr (reproducibilityName (rq_reproducibility rq))),
     (''dependency_identities'', JArr (map (\<lambda>e. JStr (toHex e)) (rq_dependencyIdentities rq))),
     (''dependency_generations'', JArr (map (\<lambda>e. JNum (double_of_int (uint e))) (rq_dependencyGenerations rq))),
     (''model_revision'', JStr (rq_modelRevision rq)),
     (''namespace'', JStr (rq_namespaceName rq)), (''tenant'', JStr (rq_tenant rq)),
     (''autotune'', JBool (rq_autotune rq)),
     (''autotune_candidates'', JNum (double_of_int (sint (rq_autotuneCandidates rq)))),
     (''autotune_seed'', JNum (double_of_int (uint (rq_autotuneSeed rq)))),
     (''block_size'', JNum (double_of_int (sint (rq_blockSize rq)))),
     (''unroll_factor'', JNum (double_of_int (sint (rq_unrollFactor rq)))),
     (''offline_preferred'', JBool (rq_offlinePreferred rq)),
     (''optimize_level'', JNum (double_of_int (sint (rq_optimizeLevel rq))))]"

definition rq_fromJson :: "Json \<Rightarrow> CompilationRequest option" where
  "rq_fromJson j =
    Option.bind (JNUM j ''rank'') (\<lambda>rank'.
    Option.bind (those (map (\<lambda>e. to_i64 (asNumber e)) (jarray j ''static_shape''))) (\<lambda>staticShape'.
    Option.bind (JNUM j ''alignment'') (\<lambda>alignment'.
    Option.bind (those (map (\<lambda>e. to_u64 (asNumber e)) (jarray j ''dependency_generations''))) (\<lambda>dependencyGenerations'.
    Option.bind (JNUM j ''autotune_candidates'') (\<lambda>autotuneCandidates'.
    Option.bind (JNUM j ''autotune_seed'') (\<lambda>autotuneSeed'.
    Option.bind (JNUM j ''block_size'') (\<lambda>blockSize'.
    Option.bind (JNUM j ''unroll_factor'') (\<lambda>unrollFactor'.
    Option.bind (JNUM j ''optimize_level'') (\<lambda>optimizeLevel'.
    Some \<lparr>rq_requestId = or_else (id_parse (JSTR j ''request_id'')) (Id128 0 0),
      rq_logicalOperation = or_else (id_parse (JSTR j ''logical_operation'')) (Id128 0 0),
      rq_source = JSTR j ''source'',
      rq_sourceDigest = or_else (digestFromHex (JSTR j ''source_digest'')) zeroDigest,
      rq_sourceLanguage = JSTR j ''source_language'',
      rq_irDigest = or_else (digestFromHex (JSTR j ''ir_digest'')) zeroDigest,
      rq_irFormat = JSTR j ''ir_format'',
      rq_datatype = or_else (datatypeFromName (JSTR j ''datatype'')) DT_None,
      rq_layout = or_else (layoutFromName (JSTR j ''layout'')) LO_None, rq_rank = rank',
      rq_staticShape = staticShape', rq_symbolicShape = JSTR j ''symbolic_shape'',
      rq_alignment = alignment',
      rq_quantization = or_else (quantizationFromName (JSTR j ''quantization'')) QM_None,
      rq_precision = or_else (precisionFromName (JSTR j ''precision'')) PM_None,
      rq_scalarConstants = JSTR j ''scalar_constants'',
      rq_launchSpecialization = JSTR j ''launch_specialization'',
      rq_targetArchitecture = JSTR j ''target_architecture'',
      rq_computeCapability = JSTR j ''compute_capability'', rq_isa = JSTR j ''isa'',
      rq_abi = JSTR j ''abi'', rq_kernelABI = JSTR j ''kernel_abi'',
      rq_backend = JSTR j ''backend'', rq_compilerId = JSTR j ''compiler_id'',
      rq_frontend = JSTR j ''frontend'', rq_featureFlags = JSTR j ''feature_flags'',
      rq_optimizationFlags = JSTR j ''optimization_flags'',
      rq_codegenFlags = JSTR j ''codegen_flags'',
      rq_debugRelease = or_else (debugReleaseFromName (JSTR j ''debug_release'')) DR_Release,
      rq_determinism = or_else (determinismFromName (JSTR j ''determinism'')) DM_Unspecified,
      rq_reproducibility = or_else (reproducibilityFromName (JSTR j ''reproducibility'')) RM_Unspecified,
      rq_dependencyIdentities = List.map_filter (\<lambda>e. id_parse (asString e)) (jarray j ''dependency_identities''),
      rq_dependencyGenerations = dependencyGenerations',
      rq_modelRevision = JSTR j ''model_revision'', rq_namespaceName = JSTR j ''namespace'',
      rq_tenant = JSTR j ''tenant'', rq_autotune = JBOOL j ''autotune'',
      rq_autotuneCandidates = ucast autotuneCandidates', rq_autotuneSeed = autotuneSeed',
      rq_optimizeLevel = (if sint (ucast optimizeLevel' :: i32) \<le> 0 then 1 else ucast optimizeLevel'),
      rq_blockSize = ucast blockSize', rq_unrollFactor = ucast unrollFactor',
      rq_offlinePreferred = JBOOL j ''offline_preferred''\<rparr>)))))))))"

section \<open>CompilationPlan\<close>

record CompilationPlan =
  pl_planId :: Id128
  pl_request :: CompilationRequest
  pl_reason :: string
  pl_frontend :: string
  pl_compiler :: string
  pl_backend :: string
  pl_optimizer :: string
  pl_linker :: string
  pl_runtime :: string
  pl_target :: TargetDescriptor
  pl_specializationStrategy :: string
  pl_expectedFormat :: ArtifactFormat
  pl_dependencyIdentities :: "Id128 list"
  pl_dependencyGenerations :: "u64 list"
  pl_stages :: "StageKind list"
  pl_requiredToolchainCapabilities :: "string list"
  pl_expectedValidationMethod :: string
  pl_expectedDeploymentMethod :: string
  pl_reproducibility :: ReproducibilityMode
  pl_cachePolicy :: string
  pl_createdAt :: i64

definition pl_default :: CompilationPlan where
  "pl_default = \<lparr>
     pl_planId = Id128 0 0, pl_request = rq_default, pl_reason = [], pl_frontend = [],
     pl_compiler = [], pl_backend = [], pl_optimizer = [], pl_linker = [], pl_runtime = [],
     pl_target = td_default, pl_specializationStrategy = [], pl_expectedFormat = FMT_Unknown,
     pl_dependencyIdentities = [], pl_dependencyGenerations = [], pl_stages = [],
     pl_requiredToolchainCapabilities = [], pl_expectedValidationMethod = [],
     pl_expectedDeploymentMethod = [], pl_reproducibility = RM_Unspecified, pl_cachePolicy = [],
     pl_createdAt = 0\<rparr>"

definition pl_toJson :: "CompilationPlan \<Rightarrow> Json" where
  "pl_toJson pl = json_sets
    [(''plan_id'', JStr (toHex (pl_planId pl))), (''request'', rq_toJson (pl_request pl)),
     (''reason'', JStr (pl_reason pl)), (''frontend'', JStr (pl_frontend pl)),
     (''compiler'', JStr (pl_compiler pl)), (''backend'', JStr (pl_backend pl)),
     (''optimizer'', JStr (pl_optimizer pl)), (''linker'', JStr (pl_linker pl)),
     (''runtime'', JStr (pl_runtime pl)), (''target'', td_toJson (pl_target pl)),
     (''specialization_strategy'', JStr (pl_specializationStrategy pl)),
     (''expected_format'', JStr (artifactFormatName (pl_expectedFormat pl))),
     (''dependency_identities'', JArr (map (\<lambda>e. JStr (toHex e)) (pl_dependencyIdentities pl))),
     (''dependency_generations'', JArr (map (\<lambda>e. JNum (double_of_int (uint e))) (pl_dependencyGenerations pl))),
     (''stages'', JArr (map (\<lambda>e. JStr (stageKindName e)) (pl_stages pl))),
     (''required_capabilities'', toStrArray (pl_requiredToolchainCapabilities pl)),
     (''expected_validation_method'', JStr (pl_expectedValidationMethod pl)),
     (''expected_deployment_method'', JStr (pl_expectedDeploymentMethod pl)),
     (''reproducibility'', JStr (reproducibilityName (pl_reproducibility pl))),
     (''cache_policy'', JStr (pl_cachePolicy pl)),
     (''created_at'', JNum (double_of_int (sint (pl_createdAt pl))))]"

definition pl_fromJson :: "Json \<Rightarrow> CompilationPlan option" where
  "pl_fromJson j =
    Option.bind (jsub rq_fromJson rq_default (json_get ''request'' j)) (\<lambda>request'.
    Option.bind (jsub td_fromJson td_default (json_get ''target'' j)) (\<lambda>target'.
    Option.bind (those (map (\<lambda>e. to_u64 (asNumber e)) (jarray j ''dependency_generations''))) (\<lambda>dependencyGenerations'.
    Option.bind (JNUMI j ''created_at'') (\<lambda>createdAt'.
    Some \<lparr>pl_planId = or_else (id_parse (JSTR j ''plan_id'')) (Id128 0 0), pl_request = request',
      pl_reason = JSTR j ''reason'', pl_frontend = JSTR j ''frontend'',
      pl_compiler = JSTR j ''compiler'', pl_backend = JSTR j ''backend'',
      pl_optimizer = JSTR j ''optimizer'', pl_linker = JSTR j ''linker'',
      pl_runtime = JSTR j ''runtime'', pl_target = target',
      pl_specializationStrategy = JSTR j ''specialization_strategy'',
      pl_expectedFormat = or_else (artifactFormatFromName (JSTR j ''expected_format'')) FMT_Unknown,
      pl_dependencyIdentities = List.map_filter (\<lambda>e. id_parse (asString e)) (jarray j ''dependency_identities''),
      pl_dependencyGenerations = dependencyGenerations',
      pl_stages = List.map_filter (\<lambda>e. stageKindFromName (asString e)) (jarray j ''stages''),
      pl_requiredToolchainCapabilities = (case json_get ''required_capabilities'' j of None \<Rightarrow> [] | Some a \<Rightarrow> fromStrArray a),
      pl_expectedValidationMethod = JSTR j ''expected_validation_method'',
      pl_expectedDeploymentMethod = JSTR j ''expected_deployment_method'',
      pl_reproducibility = or_else (reproducibilityFromName (JSTR j ''reproducibility'')) RM_Unspecified,
      pl_cachePolicy = JSTR j ''cache_policy'', pl_createdAt = createdAt'\<rparr>))))"

section \<open>StageResult\<close>

record StageResult =
  sr_kind :: StageKind
  sr_ran :: bool
  sr_succeeded :: bool
  sr_durationMs :: i64
  sr_message :: string
  sr_output :: "u8 list"

definition sr_default :: StageResult where
  "sr_default = \<lparr>
     sr_kind = SK_Skip, sr_ran = False, sr_succeeded = True, sr_durationMs = 0, sr_message = [],
     sr_output = []\<rparr>"

section \<open>AutotuneCandidate\<close>

record AutotuneCandidate =
  ac_variantId :: string
  ac_flags :: Json
  ac_validated :: bool
  ac_perfMs :: dbl
  ac_artifactId :: Id128
  ac_reason :: string

definition ac_default :: AutotuneCandidate where
  "ac_default = \<lparr>
     ac_variantId = [], ac_flags = JNull, ac_validated = False, ac_perfMs = Fin 0,
     ac_artifactId = Id128 0 0, ac_reason = []\<rparr>"

definition ac_toJson :: "AutotuneCandidate \<Rightarrow> Json" where
  "ac_toJson ac = json_sets
    [(''variant_id'', JStr (ac_variantId ac)), (''flags'', ac_flags ac),
     (''validated'', JBool (ac_validated ac)), (''perf_ms'', JNum (ac_perfMs ac)),
     (''artifact_id'', JStr (toHex (ac_artifactId ac))), (''reason'', JStr (ac_reason ac))]"

section \<open>CompilationResult\<close>

record CompilationResult =
  rs_requestId :: Id128
  rs_planId :: Id128
  rs_attemptId :: Id128
  rs_artifactId :: Id128
  rs_generation :: u64
  rs_key :: CompilationKey
  rs_keyDigest :: Digest
  rs_artifact :: ArtifactDescriptor
  rs_artifactBytes :: "u8 list"
  rs_stages :: "StageResult list"
  rs_reused :: bool
  rs_validated :: bool
  rs_deployable :: bool
  rs_referenceMatched :: bool
  rs_compatibilityDecision :: string
  rs_error :: ErrorCode
  rs_errorMessage :: string
  rs_compileMs :: i64
  rs_totalMs :: i64
  rs_backendUsed :: string
  rs_autotuned :: bool
  rs_autotuneWinner :: string
  rs_autotuneCandidates :: "AutotuneCandidate list"

definition rs_default :: CompilationResult where
  "rs_default = \<lparr>
     rs_requestId = Id128 0 0, rs_planId = Id128 0 0, rs_attemptId = Id128 0 0,
     rs_artifactId = Id128 0 0, rs_generation = 0, rs_key = [], rs_keyDigest = zeroDigest,
     rs_artifact = ad_default, rs_artifactBytes = [], rs_stages = [], rs_reused = False,
     rs_validated = False, rs_deployable = False, rs_referenceMatched = False,
     rs_compatibilityDecision = [], rs_error = ErrOk, rs_errorMessage = [], rs_compileMs = 0,
     rs_totalMs = 0, rs_backendUsed = [], rs_autotuned = False, rs_autotuneWinner = [],
     rs_autotuneCandidates = []\<rparr>"

definition rs_toJson :: "CompilationResult \<Rightarrow> Json" where
  "rs_toJson rs = json_sets
    [(''request_id'', JStr (toHex (rs_requestId rs))),
     (''plan_id'', JStr (toHex (rs_planId rs))),
     (''attempt_id'', JStr (toHex (rs_attemptId rs))),
     (''artifact_id'', JStr (toHex (rs_artifactId rs))),
     (''generation'', JNum (double_of_int (uint (rs_generation rs)))),
     (''key'', JStr (key_toHex (rs_key rs))), (''artifact'', ad_toJson (rs_artifact rs)),
     (''reused'', JBool (rs_reused rs)), (''validated'', JBool (rs_validated rs)),
     (''deployable'', JBool (rs_deployable rs)),
     (''reference_matched'', JBool (rs_referenceMatched rs)),
     (''compatibility_decision'', JStr (rs_compatibilityDecision rs)),
     (''error'', JStr (errorCodeName (rs_error rs))),
     (''error_message'', JStr (rs_errorMessage rs)),
     (''compile_ms'', JNum (double_of_int (sint (rs_compileMs rs)))),
     (''total_ms'', JNum (double_of_int (sint (rs_totalMs rs)))),
     (''backend_used'', JStr (rs_backendUsed rs)), (''autotuned'', JBool (rs_autotuned rs)),
     (''autotune_winner'', JStr (rs_autotuneWinner rs)),
     (''autotune_candidates'', JArr (map ac_toJson (rs_autotuneCandidates rs)))]"

section \<open>CompilationReservation\<close>

record CompilationReservation =
  rv_attemptId :: Id128
  rv_requestId :: Id128
  rv_key :: CompilationKey
  rv_active :: bool
  rv_owner :: bool
  rv_waiters :: i32

definition rv_default :: CompilationReservation where
  "rv_default = \<lparr>
     rv_attemptId = Id128 0 0, rv_requestId = Id128 0 0, rv_key = [], rv_active = False,
     rv_owner = False, rv_waiters = 0\<rparr>"

section \<open>KeyToolchainContext\<close>

record KeyToolchainContext =
  tc_frontend :: string
  tc_frontendVersion :: string
  tc_compiler :: string
  tc_compilerVersion :: string
  tc_backend :: string
  tc_backendVersion :: string
  tc_codeGenerator :: string
  tc_codeGeneratorVersion :: string
  tc_optimizer :: string
  tc_optimizerVersion :: string
  tc_linker :: string
  tc_linkerVersion :: string
  tc_runtime :: string
  tc_runtimeVersion :: string
  tc_driver :: string
  tc_driverVersion :: string
  tc_environmentFingerprint :: string
  tc_runtimeCompatGeneration :: u64
  tc_compilerPolicyGeneration :: u64
  tc_toolchainGeneration :: u64

definition tc_default :: KeyToolchainContext where
  "tc_default = \<lparr>
     tc_frontend = [], tc_frontendVersion = [], tc_compiler = [], tc_compilerVersion = [],
     tc_backend = [], tc_backendVersion = [], tc_codeGenerator = [],
     tc_codeGeneratorVersion = [], tc_optimizer = [], tc_optimizerVersion = [], tc_linker = [],
     tc_linkerVersion = [], tc_runtime = [], tc_runtimeVersion = [], tc_driver = [],
     tc_driverVersion = [], tc_environmentFingerprint = [], tc_runtimeCompatGeneration = 0,
     tc_compilerPolicyGeneration = 0, tc_toolchainGeneration = 0\<rparr>"

section \<open>The compilation key\<close>

text \<open>The calls on the key, in the order of the source; \<open>id\<close> is a condition not taken.\<close>

definition key_steps :: "CompilationRequest \<Rightarrow> CompilationPlan \<Rightarrow> KeyToolchainContext \<Rightarrow> (CompilationKey \<Rightarrow> CompilationKey) list" where
  "key_steps r p t =
     (let arch = (if td_architecture (pl_target p) \<noteq> [] then td_architecture (pl_target p) else rq_targetArchitecture r);
          cc = (if td_computeCapability (pl_target p) \<noteq> [] then td_computeCapability (pl_target p) else rq_computeCapability r);
          isa = (if td_isa (pl_target p) \<noteq> [] then td_isa (pl_target p) else rq_isa r);
          abi = (if td_abi (pl_target p) \<noteq> [] then td_abi (pl_target p) else rq_abi r)
      in [key_logicalOperation (rq_logicalOperation r),
          key_sourceIdentity (idFor (rq_sourceDigest r)),
          key_sourceDigest (rq_sourceDigest r),
          key_sourceContent (rq_source r),
          if rq_irDigest r \<noteq> zeroDigest then key_irDigest (rq_irDigest r) \<circ> key_irIdentity (idFor (rq_irDigest r)) else id,
          if rq_irFormat r \<noteq> [] then key_irFormat (rq_irFormat r) else id,
          if tc_frontend t \<noteq> [] then key_frontend (tc_frontend t) else id,
          if tc_frontendVersion t \<noteq> [] then key_frontendVersion (tc_frontendVersion t) else id,
          if tc_compiler t \<noteq> [] then key_compiler (tc_compiler t) else id,
          if tc_compilerVersion t \<noteq> [] then key_compilerVersion (tc_compilerVersion t) else id,
          if tc_backend t \<noteq> [] then key_backend (tc_backend t) else id,
          if tc_backendVersion t \<noteq> [] then key_backendVersion (tc_backendVersion t) else id,
          if tc_codeGenerator t \<noteq> [] then key_codeGenerator (tc_codeGenerator t) else id,
          if tc_optimizer t \<noteq> [] then key_optimizer (tc_optimizer t) else id,
          if tc_optimizerVersion t \<noteq> [] then key_optimizerVersion (tc_optimizerVersion t) else id,
          if tc_linker t \<noteq> [] then key_linker (tc_linker t) else id,
          if tc_linkerVersion t \<noteq> [] then key_linkerVersion (tc_linkerVersion t) else id,
          if tc_runtime t \<noteq> [] then key_runtime (tc_runtime t) else id,
          if tc_runtimeVersion t \<noteq> [] then key_runtimeVersion (tc_runtimeVersion t) else id,
          if tc_driver t \<noteq> [] then key_driver (tc_driver t) else id,
          if tc_driverVersion t \<noteq> [] then key_driverVersion (tc_driverVersion t) else id,
          key_acceleratorVendor (td_vendor (pl_target p)),
          key_acceleratorFamily (td_family (pl_target p)),
          if arch \<noteq> [] then key_targetArchitecture arch else id,
          if cc \<noteq> [] then key_computeCapability cc else id,
          if isa \<noteq> [] then key_isa isa else id,
          if abi \<noteq> [] then key_abi abi else id,
          if rq_kernelABI r \<noteq> [] then key_kernelABI (rq_kernelABI r) else id,
          if td_kernelABI (pl_target p) \<noteq> [] then key_kernelABI (td_kernelABI (pl_target p)) else id,
          if td_graphABI (pl_target p) \<noteq> [] then key_graphABI (td_graphABI (pl_target p)) else id,
          if rq_datatype r \<noteq> DT_None then key_datatype (rq_datatype r) else key_datatype (rq_datatype (pl_request p)),
          if rq_layout r \<noteq> LO_None then key_layout (rq_layout r) else key_layout (rq_layout (pl_request p)),
          if rq_rank r \<noteq> 0 then key_rank (rq_rank r) else key_rank (rq_rank (pl_request p)),
          if rq_staticShape r \<noteq> [] then key_staticShape (rq_staticShape r) else key_staticShape (rq_staticShape (pl_request p)),
          if rq_symbolicShape r \<noteq> [] then key_symbolicShape (rq_symbolicShape r) else id,
          if rq_alignment r \<noteq> 0 then key_alignment (rq_alignment r) else key_alignment (rq_alignment (pl_request p)),
          if rq_quantization r \<noteq> QM_None then key_quantization (rq_quantization r) else id,
          if rq_precision r \<noteq> PM_None then key_precision (rq_precision r) else id,
          if rq_launchSpecialization r \<noteq> [] then key_launchSpecialization (rq_launchSpecialization r) else id,
          if rq_scalarConstants r \<noteq> [] then key_scalarConstants (rq_scalarConstants r) else id,
          if rq_featureFlags r \<noteq> [] then key_featureFlags (rq_featureFlags r) else id,
          if rq_optimizationFlags r \<noteq> [] then key_optimizationFlags (rq_optimizationFlags r) else id,
          if rq_codegenFlags r \<noteq> [] then key_codegenFlags (rq_codegenFlags r) else id,
          key_debugRelease (rq_debugRelease r),
          if rq_determinism r \<noteq> DM_Unspecified then key_determinism (rq_determinism r) else id,
          if rq_reproducibility r \<noteq> RM_Unspecified then key_reproducibility (rq_reproducibility r) else id,
          if tc_environmentFingerprint t \<noteq> [] then key_environmentFingerprint (tc_environmentFingerprint t) else id,
          if rq_dependencyIdentities r \<noteq> [] then key_dependencyIdentities (rq_dependencyIdentities r) else id,
          if rq_dependencyGenerations r \<noteq> [] then key_dependencyGenerations (rq_dependencyGenerations r) else id,
          if rq_modelRevision r \<noteq> [] then key_modelRevision (rq_modelRevision r) else id,
          key_runtimeCompatibilityGeneration (tc_runtimeCompatGeneration t),
          key_compilerPolicyGeneration (tc_compilerPolicyGeneration t),
          if rq_namespaceName r \<noteq> [] then key_namespaceName (rq_namespaceName r) else id,
          if rq_tenant r \<noteq> [] then key_tenant (rq_tenant r) else id])"

definition buildCompilationKey :: "CompilationRequest \<Rightarrow> CompilationPlan \<Rightarrow> KeyToolchainContext \<Rightarrow> CompilationKey" where
  "buildCompilationKey r p t = fold (\<lambda>f k. f k) (key_steps r p t) []"

record CompilationLease =
  ls_artifactId :: "Id128 option"
  ls_generation :: u64

section \<open>What the key depends on\<close>

text \<open>The same calls as a list of field assignments.\<close>

definition key_chunks :: "CompilationRequest \<Rightarrow> CompilationPlan \<Rightarrow> KeyToolchainContext \<Rightarrow> (KeyField \<times> bytes) list list" where
  "key_chunks r p t =
     (let arch = (if td_architecture (pl_target p) \<noteq> [] then td_architecture (pl_target p) else rq_targetArchitecture r);
          cc = (if td_computeCapability (pl_target p) \<noteq> [] then td_computeCapability (pl_target p) else rq_computeCapability r);
          isa = (if td_isa (pl_target p) \<noteq> [] then td_isa (pl_target p) else rq_isa r);
          abi = (if td_abi (pl_target p) \<noteq> [] then td_abi (pl_target p) else rq_abi r)
      in [[(KF_LogicalOperation, encId (rq_logicalOperation r))],
          [(KF_SourceIdentity, encId (idFor (rq_sourceDigest r)))],
          [(KF_SourceDigest, encDigest (rq_sourceDigest r))],
          [(KF_SourceContent, encString (rq_source r))],
          if rq_irDigest r \<noteq> zeroDigest then [(KF_IRIdentity, encId (idFor (rq_irDigest r))), (KF_IRDigest, encDigest (rq_irDigest r))] else [],
          if rq_irFormat r \<noteq> [] then [(KF_IRFormat, encString (rq_irFormat r))] else [],
          if tc_frontend t \<noteq> [] then [(KF_Frontend, encString (tc_frontend t))] else [],
          if tc_frontendVersion t \<noteq> [] then [(KF_FrontendVersion, encString (tc_frontendVersion t))] else [],
          if tc_compiler t \<noteq> [] then [(KF_Compiler, encString (tc_compiler t))] else [],
          if tc_compilerVersion t \<noteq> [] then [(KF_CompilerVersion, encString (tc_compilerVersion t))] else [],
          if tc_backend t \<noteq> [] then [(KF_Backend, encString (tc_backend t))] else [],
          if tc_backendVersion t \<noteq> [] then [(KF_BackendVersion, encString (tc_backendVersion t))] else [],
          if tc_codeGenerator t \<noteq> [] then [(KF_CodeGenerator, encString (tc_codeGenerator t))] else [],
          if tc_optimizer t \<noteq> [] then [(KF_Optimizer, encString (tc_optimizer t))] else [],
          if tc_optimizerVersion t \<noteq> [] then [(KF_OptimizerVersion, encString (tc_optimizerVersion t))] else [],
          if tc_linker t \<noteq> [] then [(KF_Linker, encString (tc_linker t))] else [],
          if tc_linkerVersion t \<noteq> [] then [(KF_LinkerVersion, encString (tc_linkerVersion t))] else [],
          if tc_runtime t \<noteq> [] then [(KF_Runtime, encString (tc_runtime t))] else [],
          if tc_runtimeVersion t \<noteq> [] then [(KF_RuntimeVersion, encString (tc_runtimeVersion t))] else [],
          if tc_driver t \<noteq> [] then [(KF_Driver, encString (tc_driver t))] else [],
          if tc_driverVersion t \<noteq> [] then [(KF_DriverVersion, encString (tc_driverVersion t))] else [],
          [(KF_AcceleratorVendor, encU8 (vendor_value (td_vendor (pl_target p))))],
          [(KF_AcceleratorFamily, encU8 (family_value (td_family (pl_target p))))],
          if arch \<noteq> [] then [(KF_TargetArchitecture, encString arch)] else [],
          if cc \<noteq> [] then [(KF_ComputeCapability, encString cc)] else [],
          if isa \<noteq> [] then [(KF_ISA, encString isa)] else [],
          if abi \<noteq> [] then [(KF_ABI, encString abi)] else [],
          if rq_kernelABI r \<noteq> [] then [(KF_KernelABI, encString (rq_kernelABI r))] else [],
          if td_kernelABI (pl_target p) \<noteq> [] then [(KF_KernelABI, encString (td_kernelABI (pl_target p)))] else [],
          if td_graphABI (pl_target p) \<noteq> [] then [(KF_GraphABI, encString (td_graphABI (pl_target p)))] else [],
          if rq_datatype r \<noteq> DT_None then [(KF_Datatype, encU8 (datatype_value (rq_datatype r)))] else [(KF_Datatype, encU8 (datatype_value (rq_datatype (pl_request p))))],
          if rq_layout r \<noteq> LO_None then [(KF_Layout, encU8 (layout_value (rq_layout r)))] else [(KF_Layout, encU8 (layout_value (rq_layout (pl_request p))))],
          if rq_rank r \<noteq> 0 then [(KF_Rank, encU64 (rq_rank r))] else [(KF_Rank, encU64 (rq_rank (pl_request p)))],
          if rq_staticShape r \<noteq> [] then [(KF_StaticShape, encShape (rq_staticShape r))] else [(KF_StaticShape, encShape (rq_staticShape (pl_request p)))],
          if rq_symbolicShape r \<noteq> [] then [(KF_SymbolicShape, encString (rq_symbolicShape r))] else [],
          if rq_alignment r \<noteq> 0 then [(KF_Alignment, encU64 (rq_alignment r))] else [(KF_Alignment, encU64 (rq_alignment (pl_request p)))],
          if rq_quantization r \<noteq> QM_None then [(KF_Quantization, encU8 (quantization_value (rq_quantization r)))] else [],
          if rq_precision r \<noteq> PM_None then [(KF_Precision, encU8 (precision_value (rq_precision r)))] else [],
          if rq_launchSpecialization r \<noteq> [] then [(KF_LaunchSpecialization, encString (rq_launchSpecialization r))] else [],
          if rq_scalarConstants r \<noteq> [] then [(KF_ScalarConstants, encString (rq_scalarConstants r))] else [],
          if rq_featureFlags r \<noteq> [] then [(KF_FeatureFlags, encString (rq_featureFlags r))] else [],
          if rq_optimizationFlags r \<noteq> [] then [(KF_OptimizationFlags, encString (rq_optimizationFlags r))] else [],
          if rq_codegenFlags r \<noteq> [] then [(KF_CodegenFlags, encString (rq_codegenFlags r))] else [],
          [(KF_DebugRelease, encU8 (debugRelease_value (rq_debugRelease r)))],
          if rq_determinism r \<noteq> DM_Unspecified then [(KF_Determinism, encU8 (determinism_value (rq_determinism r)))] else [],
          if rq_reproducibility r \<noteq> RM_Unspecified then [(KF_Reproducibility, encU8 (reproducibility_value (rq_reproducibility r)))] else [],
          if tc_environmentFingerprint t \<noteq> [] then [(KF_EnvFingerprint, encString (tc_environmentFingerprint t))] else [],
          if rq_dependencyIdentities r \<noteq> [] then [(KF_DependencyIdentities, encIds (rq_dependencyIdentities r))] else [],
          if rq_dependencyGenerations r \<noteq> [] then [(KF_DependencyGenerations, encU64s (rq_dependencyGenerations r))] else [],
          if rq_modelRevision r \<noteq> [] then [(KF_ModelRevision, encString (rq_modelRevision r))] else [],
          [(KF_RuntimeCompatibilityGeneration, encU64 (tc_runtimeCompatGeneration t))],
          [(KF_CompilerPolicyGeneration, encU64 (tc_compilerPolicyGeneration t))],
          if rq_namespaceName r \<noteq> [] then [(KF_Namespace, encString (rq_namespaceName r))] else [],
          if rq_tenant r \<noteq> [] then [(KF_Tenant, encString (rq_tenant r))] else []])"

definition put_all :: "(KeyField \<times> bytes) list \<Rightarrow> CompilationKey \<Rightarrow> CompilationKey" where
  "put_all es k = fold (\<lambda>(f, v) k. key_put v f k) es k"

lemma put_all_if: "(if c then put_all a else put_all b) = put_all (if c then a else b)"
  by simp

lemma put_all_Nil: "id = put_all []"
  by (simp add: put_all_def fun_eq_iff)

lemma put_all_two: "put_all b \<circ> put_all a = put_all (a @ b)"
  by (simp add: put_all_def fun_eq_iff)

lemma put_all_one: "key_put v f = put_all [(f, v)]"
  by (simp add: put_all_def fun_eq_iff)

lemma key_steps_chunks: "key_steps r p t = map put_all (key_chunks r p t)"
  unfolding key_steps_def key_chunks_def Let_def list.map setter_defs set_defs put_all_one put_all_Nil
    put_all_two put_all_if append_Cons append_Nil by (rule refl)

lemma build_put_all: "buildCompilationKey r p t = put_all (concat (key_chunks r p t)) []"
proof -
  have "fold (\<lambda>f k. f k) (map put_all cs) k = put_all (concat cs) k" for cs k
    by (induction cs arbitrary: k) (simp_all add: put_all_def)
  then show ?thesis by (simp add: buildCompilationKey_def key_steps_chunks)
qed

lemma key_wf_build: "key_wf (buildCompilationKey r p t)"
  using key_map.inv_fold_put [of "[]" "concat (key_chunks r p t)"]
  by (simp add: build_put_all put_all_def key_map.inv_emp)

lemma field_value_build: "field_value (buildCompilationKey r p t) f = map_of (rev (concat (key_chunks r p t))) f"
  using key_map.get_fold_put [of "concat (key_chunks r p t)" "[]" f]
  by (simp add: build_put_all put_all_def key_map.get_emp split: option.splits)

text \<open>
  What each field of the key is made of: every field occurs once, with the
  value it gets, or \<open>None\<close> when the call is not made. \<open>or_default\<close> is the
  choice between a value and its fallback.
\<close>

definition or_default :: "'a \<Rightarrow> 'a \<Rightarrow> 'a \<Rightarrow> 'a" where
  "or_default d a b = (if a \<noteq> d then a else b)"

definition unless :: "'a \<Rightarrow> ('a \<Rightarrow> bytes) \<Rightarrow> 'a \<Rightarrow> bytes option" where
  "unless d enc x = (if x \<noteq> d then Some (enc x) else None)"

definition key_inputs :: "CompilationRequest \<Rightarrow> CompilationPlan \<Rightarrow> KeyToolchainContext \<Rightarrow> (KeyField \<times> bytes option) list" where
  "key_inputs r p t =
     [(KF_LogicalOperation, Some (encId (rq_logicalOperation r))),
      (KF_SourceIdentity, Some (encId (idFor (rq_sourceDigest r)))),
      (KF_SourceDigest, Some (encDigest (rq_sourceDigest r))),
      (KF_SourceContent, Some (encString (rq_source r))),
      (KF_IRIdentity, unless zeroDigest (\<lambda>d. encId (idFor d)) (rq_irDigest r)),
      (KF_IRDigest, unless zeroDigest encDigest (rq_irDigest r)),
      (KF_IRFormat, unless [] encString (rq_irFormat r)),
      (KF_Frontend, unless [] encString (tc_frontend t)),
      (KF_FrontendVersion, unless [] encString (tc_frontendVersion t)),
      (KF_Compiler, unless [] encString (tc_compiler t)),
      (KF_CompilerVersion, unless [] encString (tc_compilerVersion t)),
      (KF_Backend, unless [] encString (tc_backend t)),
      (KF_BackendVersion, unless [] encString (tc_backendVersion t)),
      (KF_CodeGenerator, unless [] encString (tc_codeGenerator t)),
      (KF_Optimizer, unless [] encString (tc_optimizer t)),
      (KF_OptimizerVersion, unless [] encString (tc_optimizerVersion t)),
      (KF_Linker, unless [] encString (tc_linker t)),
      (KF_LinkerVersion, unless [] encString (tc_linkerVersion t)),
      (KF_Runtime, unless [] encString (tc_runtime t)),
      (KF_RuntimeVersion, unless [] encString (tc_runtimeVersion t)),
      (KF_Driver, unless [] encString (tc_driver t)),
      (KF_DriverVersion, unless [] encString (tc_driverVersion t)),
      (KF_AcceleratorVendor, Some (encU8 (vendor_value (td_vendor (pl_target p))))),
      (KF_AcceleratorFamily, Some (encU8 (family_value (td_family (pl_target p))))),
      (KF_TargetArchitecture, unless [] encString (or_default [] (td_architecture (pl_target p)) (rq_targetArchitecture r))),
      (KF_ComputeCapability, unless [] encString (or_default [] (td_computeCapability (pl_target p)) (rq_computeCapability r))),
      (KF_ISA, unless [] encString (or_default [] (td_isa (pl_target p)) (rq_isa r))),
      (KF_ABI, unless [] encString (or_default [] (td_abi (pl_target p)) (rq_abi r))),
      (KF_KernelABI, unless [] encString (or_default [] (td_kernelABI (pl_target p)) (rq_kernelABI r))),
      (KF_GraphABI, unless [] encString (td_graphABI (pl_target p))),
      (KF_Datatype, Some (encU8 (datatype_value (or_default DT_None (rq_datatype r) (rq_datatype (pl_request p)))))),
      (KF_Layout, Some (encU8 (layout_value (or_default LO_None (rq_layout r) (rq_layout (pl_request p)))))),
      (KF_Rank, Some (encU64 (or_default 0 (rq_rank r) (rq_rank (pl_request p))))),
      (KF_StaticShape, Some (encShape (or_default [] (rq_staticShape r) (rq_staticShape (pl_request p))))),
      (KF_SymbolicShape, unless [] encString (rq_symbolicShape r)),
      (KF_Alignment, Some (encU64 (or_default 0 (rq_alignment r) (rq_alignment (pl_request p))))),
      (KF_Quantization, unless QM_None (\<lambda>x. encU8 (quantization_value x)) (rq_quantization r)),
      (KF_Precision, unless PM_None (\<lambda>x. encU8 (precision_value x)) (rq_precision r)),
      (KF_LaunchSpecialization, unless [] encString (rq_launchSpecialization r)),
      (KF_ScalarConstants, unless [] encString (rq_scalarConstants r)),
      (KF_FeatureFlags, unless [] encString (rq_featureFlags r)),
      (KF_OptimizationFlags, unless [] encString (rq_optimizationFlags r)),
      (KF_CodegenFlags, unless [] encString (rq_codegenFlags r)),
      (KF_DebugRelease, Some (encU8 (debugRelease_value (rq_debugRelease r)))),
      (KF_Determinism, unless DM_Unspecified (\<lambda>x. encU8 (determinism_value x)) (rq_determinism r)),
      (KF_Reproducibility, unless RM_Unspecified (\<lambda>x. encU8 (reproducibility_value x)) (rq_reproducibility r)),
      (KF_EnvFingerprint, unless [] encString (tc_environmentFingerprint t)),
      (KF_DependencyIdentities, unless [] encIds (rq_dependencyIdentities r)),
      (KF_DependencyGenerations, unless [] encU64s (rq_dependencyGenerations r)),
      (KF_ModelRevision, unless [] encString (rq_modelRevision r)),
      (KF_RuntimeCompatibilityGeneration, Some (encU64 (tc_runtimeCompatGeneration t))),
      (KF_CompilerPolicyGeneration, Some (encU64 (tc_compilerPolicyGeneration t))),
      (KF_Namespace, unless [] encString (rq_namespaceName r)),
      (KF_Tenant, unless [] encString (rq_tenant r))]"

fun last_of :: "(KeyField \<times> bytes) list list \<Rightarrow> KeyField \<Rightarrow> bytes option" where
  "last_of [] f = None"
| "last_of (c # cs) f = (case last_of cs f of Some v \<Rightarrow> Some v | None \<Rightarrow> map_of (rev c) f)"

lemma last_of_concat: "map_of (rev (concat cs)) f = last_of cs f"
  by (induction cs) (auto simp: map_add_def split: option.splits)

definition matches :: "(KeyField \<times> bytes) list list \<Rightarrow> (KeyField \<times> bytes option) list \<Rightarrow> bool" where
  "matches cs es \<longleftrightarrow> (\<forall>f. last_of cs f = Option.bind (map_of es f) (\<lambda>v. v))"

lemma matches_none: "matches cs es \<Longrightarrow> g \<notin> fst ` set es \<Longrightarrow> last_of cs g = None"
proof -
  assume "matches cs es" "g \<notin> fst ` set es"
  moreover then have "map_of es g = None" by (simp add: map_of_eq_None_iff)
  ultimately show ?thesis by (simp add: matches_def)
qed

lemma matches_Nil: "matches [] []"
  by (simp add: matches_def)

lemma matches_one:
  assumes "matches cs es" "g \<notin> fst ` set es"
  shows "matches ([(g, v)] # cs) ((g, Some v) # es)"
  using assms matches_none [OF assms] by (auto simp: matches_def split: option.splits)

lemma matches_if:
  assumes "matches cs es" "g \<notin> fst ` set es"
  shows "matches ((if b then [(g, v)] else []) # cs) ((g, if b then Some v else None) # es)"
  using assms matches_none [OF assms] by (auto simp: matches_def split: option.splits)

lemma matches_else:
  assumes "matches cs es" "g \<notin> fst ` set es" "u = (if b then v else w)"
  shows "matches ((if b then [(g, v)] else [(g, w)]) # cs) ((g, Some u) # es)"
  using assms matches_none [OF assms(1,2)] by (auto simp: matches_def split: option.splits)

lemma matches_two:
  assumes "matches cs es" "g \<notin> fst ` set es" "h \<notin> insert g (fst ` set es)"
  shows "matches ((if b then [(g, v), (h, w)] else []) # cs)
           ((g, if b then Some v else None) # (h, if b then Some w else None) # es)"
  using assms matches_none [OF assms(1,2)] matches_none [OF assms(1), of h]
  by (auto simp: matches_def split: option.splits)

lemma matches_over:
  assumes "matches cs es" "g \<notin> fst ` set es" "u = (if c then Some w else if b then Some v else None)"
  shows "matches ((if b then [(g, v)] else []) # (if c then [(g, w)] else []) # cs) ((g, u) # es)"
  using assms matches_none [OF assms(1,2)] by (auto simp: matches_def split: option.splits)

lemmas matches_rules = matches_two matches_over matches_if matches_else matches_one matches_Nil

lemma matches_key: "matches (key_chunks r p t) (key_inputs r p t)"
  unfolding key_chunks_def key_inputs_def Let_def unless_def or_default_def
  by (rule matches_rules | (simp split del: if_split; fail) | (simp; fail))+

lemma field_value_inputs: "field_value (buildCompilationKey r p t) f = Option.bind (map_of (key_inputs r p t) f) (\<lambda>v. v)"
  using matches_key [of r p t] by (simp add: field_value_build last_of_concat matches_def)

lemma inputs_fields: "map fst (key_inputs r p t) = map fst (key_inputs r' p' t')" "distinct (map fst (key_inputs r p t))"
  by (simp_all add: key_inputs_def)

lemma same_fields_eq:
  assumes "distinct (map fst xs)" "map fst xs = map fst ys" "\<forall>f. Option.bind (map_of xs f) (\<lambda>v. v) = Option.bind (map_of ys f) (\<lambda>v. v)"
  shows "xs = ys"
proof (rule nth_equalityI)
  show len: "length xs = length ys" using assms(2) by (metis length_map)
  fix i assume i: "i < length xs"
  have f: "fst (xs ! i) = fst (ys ! i)" using assms(2) i len by (metis nth_map)
  have "map_of xs (fst (xs ! i)) = Some (snd (xs ! i))" "map_of ys (fst (ys ! i)) = Some (snd (ys ! i))"
    using assms(1,2) i len by (simp_all add: map_of_eq_Some_iff)
  then show "xs ! i = ys ! i" using assms(3) f by (metis bind.bind_lunit prod.collapse)
qed

lemma build_inputs_iff: "buildCompilationKey r p t = buildCompilationKey r' p' t' \<longleftrightarrow> key_inputs r p t = key_inputs r' p' t'"
proof
  assume "buildCompilationKey r p t = buildCompilationKey r' p' t'"
  then have "\<forall>f. Option.bind (map_of (key_inputs r p t) f) (\<lambda>v. v) = Option.bind (map_of (key_inputs r' p' t') f) (\<lambda>v. v)"
    by (metis field_value_inputs)
  then show "key_inputs r p t = key_inputs r' p' t'" by (rule same_fields_eq [OF inputs_fields(2) inputs_fields(1)])
next
  assume "key_inputs r p t = key_inputs r' p' t'"
  then have "field_value (buildCompilationKey r p t) = field_value (buildCompilationKey r' p' t')"
    by (simp add: field_value_inputs fun_eq_iff)
  then show "buildCompilationKey r p t = buildCompilationKey r' p' t'"
    by (intro key_map.ext key_wf_build) simp
qed

lemma concat_same_block_inject:
  assumes len: "\<And>x. length (f x) = n" and "0 < n" "inj f"
  shows "concat (map f xs) = concat (map f ys) \<longleftrightarrow> xs = ys"
proof
  have ne: "f x \<noteq> []" for x using len [of x] assms(2) by auto
  show "concat (map f xs) = concat (map f ys) \<Longrightarrow> xs = ys"
  proof (induction xs arbitrary: ys)
    case Nil
    then show ?case using ne by (cases ys) auto
  next
    case (Cons x xs)
    then obtain y zs where ys: "ys = y # zs" using ne by (cases ys) auto
    then have "f x = f y \<and> concat (map f xs) = concat (map f zs)"
      using Cons.prems ys by (simp add: len append_eq_append_conv)
    then show ?case using Cons.IH assms(3) ys by (auto simp: inj_eq)
  qed
qed simp

lemma block_inj:
  "inj putU64BE" "inj w_u128"
  by (auto intro!: injI simp: small_def dest: c_u64.enc_prefix_free [where r = "[]" and s = "[]", simplified]
      c_u128.enc_prefix_free [where r = "[]" and s = "[]", simplified])

lemmas block_concat =
  concat_same_block_inject [of putU64BE 8, OF _ _ block_inj(1), simplified]
  concat_same_block_inject [of w_u128 16, OF _ _ block_inj(2), simplified]

lemma enc_inj:
  "inj encString" "inj encU64" "inj encId" "inj encDigest" "inj encShape" "inj encIds" "inj encU64s" "inj encU8"
  by (auto intro!: injI simp: encString_def w_string_def encU8_def w_u8_def encU64_def encId_def encDigest_def
      encShape_def encIds_def encU64s_def block_concat inj_eq block_inj)

lemma enum_inj:
  "inj vendor_value" "inj family_value" "inj datatype_value" "inj layout_value" "inj quantization_value"
  "inj precision_value" "inj debugRelease_value" "inj determinism_value" "inj reproducibility_value"
  by (auto intro!: injI intro: AcceleratorVendor.expand AcceleratorFamily.expand Datatype.expand Layout.expand
      QuantizationMode.expand PrecisionMode.expand DebugReleaseMode.expand DeterminismMode.expand ReproducibilityMode.expand)

lemma unless_eq: "inj enc \<Longrightarrow> unless d enc x = unless d enc y \<longleftrightarrow> x = y"
  by (auto simp: unless_def inj_eq)

text \<open>When two requests agree on everything the key is made of.\<close>

definition same_inputs where
  "same_inputs r p t r' p' t' \<longleftrightarrow>
     rq_logicalOperation r = rq_logicalOperation r' \<and>
     rq_sourceDigest r = rq_sourceDigest r' \<and>
     rq_source r = rq_source r' \<and>
     rq_irDigest r = rq_irDigest r' \<and>
     rq_irFormat r = rq_irFormat r' \<and>
     tc_frontend t = tc_frontend t' \<and>
     tc_frontendVersion t = tc_frontendVersion t' \<and>
     tc_compiler t = tc_compiler t' \<and>
     tc_compilerVersion t = tc_compilerVersion t' \<and>
     tc_backend t = tc_backend t' \<and>
     tc_backendVersion t = tc_backendVersion t' \<and>
     tc_codeGenerator t = tc_codeGenerator t' \<and>
     tc_optimizer t = tc_optimizer t' \<and>
     tc_optimizerVersion t = tc_optimizerVersion t' \<and>
     tc_linker t = tc_linker t' \<and>
     tc_linkerVersion t = tc_linkerVersion t' \<and>
     tc_runtime t = tc_runtime t' \<and>
     tc_runtimeVersion t = tc_runtimeVersion t' \<and>
     tc_driver t = tc_driver t' \<and>
     tc_driverVersion t = tc_driverVersion t' \<and>
     td_vendor (pl_target p) = td_vendor (pl_target p') \<and>
     td_family (pl_target p) = td_family (pl_target p') \<and>
     or_default [] (td_architecture (pl_target p)) (rq_targetArchitecture r) = or_default [] (td_architecture (pl_target p')) (rq_targetArchitecture r') \<and>
     or_default [] (td_computeCapability (pl_target p)) (rq_computeCapability r) = or_default [] (td_computeCapability (pl_target p')) (rq_computeCapability r') \<and>
     or_default [] (td_isa (pl_target p)) (rq_isa r) = or_default [] (td_isa (pl_target p')) (rq_isa r') \<and>
     or_default [] (td_abi (pl_target p)) (rq_abi r) = or_default [] (td_abi (pl_target p')) (rq_abi r') \<and>
     or_default [] (td_kernelABI (pl_target p)) (rq_kernelABI r) = or_default [] (td_kernelABI (pl_target p')) (rq_kernelABI r') \<and>
     td_graphABI (pl_target p) = td_graphABI (pl_target p') \<and>
     or_default DT_None (rq_datatype r) (rq_datatype (pl_request p)) = or_default DT_None (rq_datatype r') (rq_datatype (pl_request p')) \<and>
     or_default LO_None (rq_layout r) (rq_layout (pl_request p)) = or_default LO_None (rq_layout r') (rq_layout (pl_request p')) \<and>
     or_default 0 (rq_rank r) (rq_rank (pl_request p)) = or_default 0 (rq_rank r') (rq_rank (pl_request p')) \<and>
     or_default [] (rq_staticShape r) (rq_staticShape (pl_request p)) = or_default [] (rq_staticShape r') (rq_staticShape (pl_request p')) \<and>
     rq_symbolicShape r = rq_symbolicShape r' \<and>
     or_default 0 (rq_alignment r) (rq_alignment (pl_request p)) = or_default 0 (rq_alignment r') (rq_alignment (pl_request p')) \<and>
     rq_quantization r = rq_quantization r' \<and>
     rq_precision r = rq_precision r' \<and>
     rq_launchSpecialization r = rq_launchSpecialization r' \<and>
     rq_scalarConstants r = rq_scalarConstants r' \<and>
     rq_featureFlags r = rq_featureFlags r' \<and>
     rq_optimizationFlags r = rq_optimizationFlags r' \<and>
     rq_codegenFlags r = rq_codegenFlags r' \<and>
     rq_debugRelease r = rq_debugRelease r' \<and>
     rq_determinism r = rq_determinism r' \<and>
     rq_reproducibility r = rq_reproducibility r' \<and>
     tc_environmentFingerprint t = tc_environmentFingerprint t' \<and>
     rq_dependencyIdentities r = rq_dependencyIdentities r' \<and>
     rq_dependencyGenerations r = rq_dependencyGenerations r' \<and>
     rq_modelRevision r = rq_modelRevision r' \<and>
     tc_runtimeCompatGeneration t = tc_runtimeCompatGeneration t' \<and>
     tc_compilerPolicyGeneration t = tc_compilerPolicyGeneration t' \<and>
     rq_namespaceName r = rq_namespaceName r' \<and>
     rq_tenant r = rq_tenant r'"

lemma unless_comp: "unless d (\<lambda>x. f (g x)) a = unless d (\<lambda>x. f (g x)) b \<longleftrightarrow> a = b" if "inj f" "inj g"
  using that by (auto simp: unless_def inj_eq)

lemma inputs_iff: "key_inputs r p t = key_inputs r' p' t' \<longleftrightarrow> same_inputs r p t r' p' t'"
  unfolding key_inputs_def same_inputs_def
  apply (simp add: unless_eq unless_comp enc_inj enum_inj inj_eq)
  apply (rule iffI; (elim conjE, intro conjI; (assumption | simp)))
  done

text \<open>
  C10: Two requests, under their plans and toolchains, get the same compilation key exactly
  when they agree on every input the key is built from: operation, source and IR
  content, compiler, linker, runtime and driver versions, target, shapes, data types,
  flags, modes, dependency identities and generations, environment, namespace and
  tenant (after each fallback of the source). No two different inputs share a key.
\<close>

theorem key_identifies: "buildCompilationKey r p t = buildCompilationKey r' p' t' \<longleftrightarrow> same_inputs r p t r' p' t'"
  by (simp add: build_inputs_iff inputs_iff)

text \<open>
  Parts of the request that no field of the key holds, although the back ends
  read them: \<open>blockSize\<close> is printed into the CUDA source (\<open>Cuda.cpp\<close>),
  \<open>offlinePreferred\<close> chooses the offline compiler and the output format, and
  \<open>autotuneSeed\<close> drives the generated variants (\<open>CpuBackend.cpp\<close>).
\<close>

text \<open>
  The block size, the unroll factor, the optimisation level, the source language, the
  autotuning options, the offline preference and the requested backend and compiler of
  a request do not change its key, although the back ends compile different code for
  them, and neither do the code generator version and the toolchain generation.
\<close>

theorem key_ignores:
  "buildCompilationKey (r\<lparr>rq_blockSize := b, rq_unrollFactor := u, rq_optimizeLevel := l, rq_sourceLanguage := g,
       rq_autotune := a, rq_autotuneCandidates := c, rq_autotuneSeed := s, rq_offlinePreferred := o',
       rq_backend := k, rq_compilerId := i, rq_frontend := f\<rparr>) p
     (t\<lparr>tc_codeGeneratorVersion := v, tc_toolchainGeneration := n\<rparr>) = buildCompilationKey r p t"
  by (simp add: build_inputs_iff key_inputs_def)

section \<open>JSON\<close>

lemma sint_i32: "- 2147483648 \<le> sint (x :: i32)" "sint x < 2147483648"
  using sint_range_size [of x] by (simp_all add: word_size)

lemma exact_i32 [simp]: "exact_int (double_of_int (sint (x :: i32)))"
  using sint_i32 [of x] by (intro exact_double) (simp add: abs_less_iff)

lemma to_u64_nonneg:
  assumes "0 \<le> n" "n < 2 ^ 53"
  shows "to_u64 (double_of_int n) = Some (of_int n)"
  using assms double_of_int_exact [of n] by (simp add: to_u64_def trunc_def)

lemma num_i32: "0 \<le> sint (x :: i32) \<Longrightarrow> to_u64 (double_of_int (sint x)) = Some (scast x)"
  using to_u64_nonneg [of "sint x"] sint_i32 [of x] by simp

lemma ucast_sint_i32 [simp]: "ucast (scast (x :: i32) :: u64) = x"
  by (rule bit_word_eqI) (auto simp: bit_simps)

lemma num_i64_to: "num_ok (x :: i64) \<Longrightarrow> to_i64 (double_of_int (sint x)) = Some x"
  using uint_nonneg_sint [of x] by (intro num_i64_signed) (simp add: num_ok_def)

lemma map_filter_map: "List.map_filter f (map g xs) = List.map_filter (\<lambda>x. f (g x)) xs"
  by (induction xs) (simp_all add: List.map_filter_simps split: option.splits)

lemma strArray: "fromStrArray (toStrArray v) = v"
  by (induction v) (simp_all add: fromStrArray_def toStrArray_def asArrayPtr_def asString_def)

lemma json_ok_strArray: "json_ok (toStrArray v)"
  by (simp add: toStrArray_def list_all_iff)

lemmas request_reads = num_i64_to num_i32 map_filter_map strArray json_ok_strArray

definition rq_ok :: "CompilationRequest \<Rightarrow> bool" where
  "rq_ok x \<longleftrightarrow> length (rq_sourceDigest x) = 32 \<and> length (rq_irDigest x) = 32
       \<and> num_ok (rq_rank x)
       \<and> (\<forall>e \<in> set (rq_staticShape x). \<bar>sint e\<bar> < 2 ^ 53)
       \<and> num_ok (rq_alignment x)
       \<and> (\<forall>e \<in> set (rq_dependencyGenerations x). num_ok e)
       \<and> 0 \<le> sint (rq_autotuneCandidates x) \<and> num_ok (rq_autotuneSeed x)
       \<and> 0 \<le> sint (rq_optimizeLevel x) \<and> 0 \<le> sint (rq_blockSize x)
       \<and> 0 \<le> sint (rq_unrollFactor x)"

definition rq_kept :: "CompilationRequest \<Rightarrow> CompilationRequest" where
  "rq_kept x = x\<lparr>rq_optimizeLevel := (if sint (rq_optimizeLevel x) \<le> 0 then 1 else rq_optimizeLevel x), rq_datatype := DT_None, rq_layout := LO_None, rq_quantization := QM_None,
     rq_precision := PM_None, rq_debugRelease := DR_Release, rq_determinism := DM_Unspecified,
     rq_reproducibility := RM_Unspecified\<rparr>"

lemma rq_from_to: "rq_ok x \<Longrightarrow> rq_fromJson (rq_toJson x) = Some (rq_kept x)"
  by (cases x) (simp add: rq_fromJson_def rq_toJson_def rq_ok_def rq_kept_def json_reads request_reads)

lemma rq_to_ok: "rq_ok x \<Longrightarrow> json_ok (rq_toJson x)"
  unfolding rq_toJson_def by (rule json_ok_sets) (simp add: rq_ok_def list_all_iff exact_double request_reads)

interpretation rqj: json_codec rq_toJson rq_fromJson rq_kept rq_ok
  by unfold_locales (simp_all add: rq_from_to rq_to_ok)

definition pl_ok :: "CompilationPlan \<Rightarrow> bool" where
  "pl_ok x \<longleftrightarrow> rq_ok (pl_request x) \<and> td_ok (pl_target x)
       \<and> (\<forall>e \<in> set (pl_dependencyGenerations x). num_ok e)
       \<and> num_ok (pl_createdAt x)"

definition pl_kept :: "CompilationPlan \<Rightarrow> CompilationPlan" where
  "pl_kept x = x\<lparr>pl_request := rq_kept (pl_request x), pl_target := td_kept (pl_target x),
     pl_reproducibility := RM_Unspecified\<rparr>"

lemma pl_from_to: "pl_ok x \<Longrightarrow> pl_fromJson (pl_toJson x) = Some (pl_kept x)"
  by (cases x) (simp add: pl_fromJson_def pl_toJson_def pl_ok_def pl_kept_def json_reads request_reads rq_from_to td_from_to)

lemma pl_to_ok: "pl_ok x \<Longrightarrow> json_ok (pl_toJson x)"
  unfolding pl_toJson_def by (rule json_ok_sets) (simp add: pl_ok_def list_all_iff exact_double request_reads rq_to_ok td_to_ok)

interpretation plj: json_codec pl_toJson pl_fromJson pl_kept pl_ok
  by unfold_locales (simp_all add: pl_from_to pl_to_ok)


text \<open>
  A compilation request survives its JSON text up to its vocabulary enums and its
  optimisation level: when its numbers are below 2^53 (its 32-bit counts non-negative)
  and its digests have 32 bytes, the text of toJson parses, fromJson accepts it, and the
  result is the request with datatype, layout, quantization, precision, debug/release,
  determinism and reproducibility back at their defaults and a level of 0 raised to 1.
\<close>

theorem request_json_roundtrip:
  assumes "rq_ok r"
  shows "\<exists>t j. json_dump (rq_toJson r) = Some t \<and> json_parse t = Some j \<and> rq_fromJson j = Some
     (r\<lparr>rq_optimizeLevel := (if rq_optimizeLevel r = 0 then 1 else rq_optimizeLevel r),
        rq_datatype := DT_None, rq_layout := LO_None, rq_quantization := QM_None, rq_precision := PM_None,
        rq_debugRelease := DR_Release, rq_determinism := DM_Unspecified, rq_reproducibility := RM_Unspecified\<rparr>)"
proof -
  have "sint (rq_optimizeLevel r) \<le> 0 \<longleftrightarrow> rq_optimizeLevel r = 0"
    using assms by (auto simp: rq_ok_def signed_eq_0_iff)
  then show ?thesis using rqj.text_roundtrip [OF assms] by (simp add: rq_kept_def)
qed

lemma request_json_roundtrip_witness:
  "\<exists>t j. json_dump (rq_toJson (rq_default\<lparr>rq_datatype := DT_F32, rq_rank := 2\<rparr>)) = Some t \<and>
     json_parse t = Some j \<and> (\<exists>b. rq_fromJson j = Some b \<and> rq_datatype b = DT_None \<and> rq_rank b = 2)"
proof -
  have "rq_ok (rq_default\<lparr>rq_datatype := DT_F32, rq_rank := 2\<rparr>)"
    by (simp add: rq_ok_def rq_default_def num_ok_def zeroDigest_def)
  from request_json_roundtrip [OF this] show ?thesis by auto
qed
end
