(* ===== verification/CF_Compatibility.thy ===== *)
theory CF_Compatibility
  imports CF_Request
begin

text \<open>
  The compatibility decision engine of \<open>Compatibility.hpp\<close> and \<open>Compatibility.cpp\<close>:
  which differences between the key of an artifact and the key of a request there are,
  what they mean, and whether the artifact may be reused.
\<close>

section \<open>Outcomes and reasons\<close>

datatype CompatibilityOutcome =
    CO_ExactReusable | CO_ReusableWithRuntimeValidation | CO_ReusableAcrossEquivalentTarget
      | CO_RecompileRequiredSourceChange | CO_RecompileRequiredIRChange
      | CO_RecompileRequiredCompilerChange | CO_RecompileRequiredBackendChange
      | CO_RecompileRequiredOptimizerChange | CO_RecompileRequiredArchitectureChange
      | CO_RecompileRequiredABIChange | CO_RecompileRequiredDatatypeChange
      | CO_RecompileRequiredLayoutChange | CO_RecompileRequiredShapeChange
      | CO_RecompileRequiredQuantizationChange | CO_RecompileRequiredPrecisionChange
      | CO_RecompileRequiredSpecializationChange | CO_RecompileRequiredDependencyGeneration
      | CO_InvalidArtifact | CO_StaleArtifact | CO_CorruptArtifact | CO_PolicyRejected

datatype CompatibilityReason =
    CR_None | CR_SourceChanged | CR_IRChanged | CR_CompilerChanged | CR_BackendChanged
      | CR_OptimizerChanged | CR_ArchitectureChanged | CR_ABIChanged | CR_DatatypeChanged
      | CR_LayoutChanged | CR_ShapeChanged | CR_QuantizationChanged | CR_PrecisionChanged
      | CR_SpecializationChanged | CR_DependencyGenerationChanged
      | CR_ToolchainGenerationChanged | CR_RuntimeGenerationChanged | CR_EquivalentTarget
      | CR_TargetChanged | CR_Invalid | CR_Stale | CR_Corrupt | CR_Policy
      | CR_EnvironmentFingerprint

definition compatibilityOutcomeName :: "CompatibilityOutcome \<Rightarrow> string" where
  "compatibilityOutcomeName x = (case x of
      CO_ExactReusable \<Rightarrow> ''ExactReusable''
    | CO_ReusableWithRuntimeValidation \<Rightarrow> ''ReusableWithRuntimeValidation''
    | CO_ReusableAcrossEquivalentTarget \<Rightarrow> ''ReusableAcrossEquivalentTarget''
    | CO_RecompileRequiredSourceChange \<Rightarrow> ''RecompileRequiredSourceChange''
    | CO_RecompileRequiredIRChange \<Rightarrow> ''RecompileRequiredIRChange''
    | CO_RecompileRequiredCompilerChange \<Rightarrow> ''RecompileRequiredCompilerChange''
    | CO_RecompileRequiredBackendChange \<Rightarrow> ''RecompileRequiredBackendChange''
    | CO_RecompileRequiredOptimizerChange \<Rightarrow> ''RecompileRequiredOptimizerChange''
    | CO_RecompileRequiredArchitectureChange \<Rightarrow> ''RecompileRequiredArchitectureChange''
    | CO_RecompileRequiredABIChange \<Rightarrow> ''RecompileRequiredABIChange''
    | CO_RecompileRequiredDatatypeChange \<Rightarrow> ''RecompileRequiredDatatypeChange''
    | CO_RecompileRequiredLayoutChange \<Rightarrow> ''RecompileRequiredLayoutChange''
    | CO_RecompileRequiredShapeChange \<Rightarrow> ''RecompileRequiredShapeChange''
    | CO_RecompileRequiredQuantizationChange \<Rightarrow> ''RecompileRequiredQuantizationChange''
    | CO_RecompileRequiredPrecisionChange \<Rightarrow> ''RecompileRequiredPrecisionChange''
    | CO_RecompileRequiredSpecializationChange \<Rightarrow> ''RecompileRequiredSpecializationChange''
    | CO_RecompileRequiredDependencyGeneration \<Rightarrow> ''RecompileRequiredDependencyGeneration''
    | CO_InvalidArtifact \<Rightarrow> ''InvalidArtifact''
    | CO_StaleArtifact \<Rightarrow> ''StaleArtifact''
    | CO_CorruptArtifact \<Rightarrow> ''CorruptArtifact''
    | CO_PolicyRejected \<Rightarrow> ''PolicyRejected'')"

definition compatibilityReasonName :: "CompatibilityReason \<Rightarrow> string" where
  "compatibilityReasonName x = (case x of
      CR_None \<Rightarrow> ''None''
    | CR_SourceChanged \<Rightarrow> ''SourceChanged''
    | CR_IRChanged \<Rightarrow> ''IRChanged''
    | CR_CompilerChanged \<Rightarrow> ''CompilerChanged''
    | CR_BackendChanged \<Rightarrow> ''BackendChanged''
    | CR_OptimizerChanged \<Rightarrow> ''OptimizerChanged''
    | CR_ArchitectureChanged \<Rightarrow> ''ArchitectureChanged''
    | CR_ABIChanged \<Rightarrow> ''ABIChanged''
    | CR_DatatypeChanged \<Rightarrow> ''DatatypeChanged''
    | CR_LayoutChanged \<Rightarrow> ''LayoutChanged''
    | CR_ShapeChanged \<Rightarrow> ''ShapeChanged''
    | CR_QuantizationChanged \<Rightarrow> ''QuantizationChanged''
    | CR_PrecisionChanged \<Rightarrow> ''PrecisionChanged''
    | CR_SpecializationChanged \<Rightarrow> ''SpecializationChanged''
    | CR_DependencyGenerationChanged \<Rightarrow> ''DependencyGenerationChanged''
    | CR_ToolchainGenerationChanged \<Rightarrow> ''ToolchainGenerationChanged''
    | CR_RuntimeGenerationChanged \<Rightarrow> ''RuntimeGenerationChanged''
    | CR_EquivalentTarget \<Rightarrow> ''EquivalentTarget''
    | CR_TargetChanged \<Rightarrow> ''TargetChanged''
    | CR_Invalid \<Rightarrow> ''Invalid''
    | CR_Stale \<Rightarrow> ''Stale''
    | CR_Corrupt \<Rightarrow> ''Corrupt''
    | CR_Policy \<Rightarrow> ''Policy''
    | CR_EnvironmentFingerprint \<Rightarrow> ''EnvironmentFingerprint'')"

record CompilationCompatibilityDecision =
  de_outcome :: CompatibilityOutcome
  de_reusable :: bool
  de_reasons :: "CompatibilityReason list"
  de_detail :: string

definition de_default :: CompilationCompatibilityDecision where
  "de_default = \<lparr>de_outcome = CO_RecompileRequiredSpecializationChange, de_reusable = False, de_reasons = [],
     de_detail = []\<rparr>"

definition de_exact :: "CompilationCompatibilityDecision \<Rightarrow> bool" where
  "de_exact d \<longleftrightarrow> de_outcome d = CO_ExactReusable"

definition de_toJson :: "CompilationCompatibilityDecision \<Rightarrow> Json" where
  "de_toJson d = json_sets
    [(''outcome'', JStr (compatibilityOutcomeName (de_outcome d))), (''reusable'', JBool (de_reusable d)),
     (''reasons'', JArr (map (\<lambda>r. JStr (compatibilityReasonName r)) (de_reasons d))), (''detail'', JStr (de_detail d))]"

definition de_explainText :: "CompilationCompatibilityDecision \<Rightarrow> string" where
  "de_explainText d =
     compatibilityOutcomeName (de_outcome d) @ '' reusable='' @ (if de_reusable d then ''yes'' else ''no'') @
     (if de_reasons d \<noteq> [] then '' reasons:'' @ concat (map (\<lambda>r. '' '' @ compatibilityReasonName r) (de_reasons d)) else []) @
     (if de_detail d \<noteq> [] then '' ('' @ de_detail d @ '')'' else [])"

record CompilationCompatibilityPolicy =
  po_allowEquivalentTarget :: bool
  po_requireRuntimeValidation :: bool
  po_strictEnvironment :: bool
  po_maxIdenticalFieldsAllowed :: i32

definition po_default :: CompilationCompatibilityPolicy where
  "po_default = \<lparr>po_allowEquivalentTarget = False, po_requireRuntimeValidation = True,
     po_strictEnvironment = True, po_maxIdenticalFieldsAllowed = 0\<rparr>"

definition po_toJson :: "CompilationCompatibilityPolicy \<Rightarrow> Json" where
  "po_toJson p = json_sets
    [(''allow_equivalent_target'', JBool (po_allowEquivalentTarget p)),
     (''require_runtime_validation'', JBool (po_requireRuntimeValidation p)),
     (''strict_environment'', JBool (po_strictEnvironment p))]"

definition reasonForKeyField :: "KeyField \<Rightarrow> CompatibilityReason" where
  "reasonForKeyField f =
     (if f = KF_LogicalOperation \<or> f = KF_SourceIdentity \<or> f = KF_SourceDigest
           \<or> f = KF_SourceContent
        then CR_SourceChanged
      else if f = KF_IRIdentity \<or> f = KF_IRDigest \<or> f = KF_IRFormat \<or> f = KF_IRContent
        then CR_IRChanged
      else if f = KF_Frontend \<or> f = KF_FrontendVersion \<or> f = KF_Compiler
           \<or> f = KF_CompilerVersion
        then CR_CompilerChanged
      else if f = KF_Backend \<or> f = KF_BackendVersion
        then CR_BackendChanged
      else if f = KF_CodeGenerator \<or> f = KF_Optimizer \<or> f = KF_OptimizerVersion
           \<or> f = KF_Linker \<or> f = KF_LinkerVersion
        then CR_OptimizerChanged
      else if f = KF_Runtime \<or> f = KF_RuntimeVersion \<or> f = KF_RuntimeCompatibilityGeneration
        then CR_RuntimeGenerationChanged
      else if f = KF_Driver \<or> f = KF_DriverVersion \<or> f = KF_TargetArchitecture
           \<or> f = KF_ComputeCapability \<or> f = KF_ISA \<or> f = KF_AcceleratorVendor
           \<or> f = KF_AcceleratorFamily
        then CR_ArchitectureChanged
      else if f = KF_ABI \<or> f = KF_CallingConvention \<or> f = KF_KernelABI \<or> f = KF_GraphABI
        then CR_ABIChanged
      else if f = KF_Datatype
        then CR_DatatypeChanged
      else if f = KF_Layout
        then CR_LayoutChanged
      else if f = KF_Rank \<or> f = KF_StaticShape \<or> f = KF_SymbolicShape
        then CR_ShapeChanged
      else if f = KF_Alignment \<or> f = KF_Quantization
        then CR_QuantizationChanged
      else if f = KF_Precision
        then CR_PrecisionChanged
      else if f = KF_LaunchSpecialization \<or> f = KF_ScalarConstants \<or> f = KF_FeatureFlags
           \<or> f = KF_OptimizationFlags \<or> f = KF_CodegenFlags \<or> f = KF_DebugRelease
           \<or> f = KF_Determinism \<or> f = KF_Reproducibility \<or> f = KF_ModelRevision
           \<or> f = KF_OperatorRevision
        then CR_SpecializationChanged
      else if f = KF_DependencyIdentities \<or> f = KF_DependencyGenerations
        then CR_DependencyGenerationChanged
      else if f = KF_CompilerPolicyGeneration
        then CR_ToolchainGenerationChanged
      else if f = KF_EnvFingerprint
        then CR_EnvironmentFingerprint
      else if f = KF_Namespace \<or> f = KF_Tenant
        then CR_Policy
      else CR_SpecializationChanged)"

section \<open>Differences\<close>

record FieldDiff =
  fd_field :: KeyField
  fd_presentInRequest :: bool
  fd_requestValue :: string
  fd_presentInArtifact :: bool
  fd_artifactValue :: string

text \<open>
  The value of a field as text. \<open>None\<close> is the \<open>std::length_error\<close> that
  \<open>CanonicalReader::str\<close> lets escape on a length that wraps its bounds check.
\<close>

definition renderFieldValue :: "bytes \<Rightarrow> string option" where
  "renderFieldValue v =
     (let rest = (case rd_u64 (reader_on v) of
            Got u r2 \<Rightarrow> if \<not> hasRemaining r2 then Some (dec_int (uint u)) else None
          | _ \<Rightarrow> None);
          rest2 = (case rest of Some s \<Rightarrow> s
          | None \<Rightarrow> (case rd_u128 (reader_on v) of
              Got i r3 \<Rightarrow> if \<not> hasRemaining r3 then toHex i else ''0x'' @ bytesToHex v
            | _ \<Rightarrow> ''0x'' @ bytesToHex v))
      in case rd_str (reader_on v) of
          Got str r \<Rightarrow> if \<not> hasRemaining r then Some str else Some rest2
        | Miss _ \<Rightarrow> Some rest2
        | Throw \<Rightarrow> None)"

text \<open>The tags of both keys in the order of the \<open>std::set\<close>; the last entry with a tag counts.\<close>

definition last_entry :: "u8 \<Rightarrow> CompilationKey \<Rightarrow> KeyFieldEntry option" where
  "last_entry t k = find (\<lambda>e. ke_tag e = t) (rev k)"

definition diff_tags :: "CompilationKey \<Rightarrow> CompilationKey \<Rightarrow> u8 list" where
  "diff_tags a b = sort (remdups (map ke_tag a @ map ke_tag b))"

definition render_opt :: "KeyFieldEntry option \<Rightarrow> string option" where
  "render_opt e = (case e of None \<Rightarrow> Some [] | Some e \<Rightarrow> renderFieldValue (ke_value e))"

definition field_diff :: "CompilationKey \<Rightarrow> CompilationKey \<Rightarrow> u8 \<Rightarrow> FieldDiff option" where
  "field_diff a b t =
     Option.bind (render_opt (last_entry t b)) (\<lambda>rv.
     Option.bind (render_opt (last_entry t a)) (\<lambda>av.
     Some \<lparr>fd_field = KeyField t, fd_presentInRequest = (last_entry t b \<noteq> None), fd_requestValue = rv,
       fd_presentInArtifact = (last_entry t a \<noteq> None), fd_artifactValue = av\<rparr>))"

definition same_entry :: "CompilationKey \<Rightarrow> CompilationKey \<Rightarrow> u8 \<Rightarrow> bool" where
  "same_entry a b t \<longleftrightarrow> map_option ke_value (last_entry t a) = map_option ke_value (last_entry t b)"

definition fieldDiffs :: "CompilationKey \<Rightarrow> CompilationKey \<Rightarrow> FieldDiff list option" where
  "fieldDiffs a b = those (map (field_diff a b) (filter (\<lambda>t. \<not> same_entry a b t) (diff_tags a b)))"

section \<open>The decision\<close>

definition rejection :: "CompatibilityOutcome \<Rightarrow> CompatibilityReason \<Rightarrow> string \<Rightarrow> CompilationCompatibilityDecision" where
  "rejection out r det = \<lparr>de_outcome = out, de_reusable = False, de_reasons = [r], de_detail = det\<rparr>"

definition state_rejection :: "string \<Rightarrow> CompilationCompatibilityDecision option" where
  "state_rejection state =
     (if state = ''Corrupt'' then Some (rejection CO_CorruptArtifact CR_Corrupt ''artifact state is Corrupt'')
      else if state = ''Invalidated'' \<or> state = ''Retired'' then
        Some (rejection CO_StaleArtifact CR_Stale (''artifact state is '' @ state))
      else if state = [] \<or> state = ''Invalid'' \<or> state = ''Failed'' \<or> state = ''Cancelled'' then
        Some (rejection CO_InvalidArtifact CR_Invalid
          (''artifact is not in a valid state ('' @ (if state = [] then ''unspecified'' else state) @ '')''))
      else None)"

record Scan =
  sn_reasons :: "CompatibilityReason list"
  sn_envChanged :: bool
  sn_targetChanged :: bool
  sn_hardRecompile :: bool

definition scan_step :: "FieldDiff \<Rightarrow> Scan \<Rightarrow> Scan" where
  "scan_step fd s =
     (let r = reasonForKeyField (fd_field fd);
          s' = s\<lparr>sn_reasons := sn_reasons s @ [r]\<rparr>
      in if r = CR_EnvironmentFingerprint then s'\<lparr>sn_envChanged := True\<rparr>
         else if r = CR_ArchitectureChanged then s'\<lparr>sn_targetChanged := True\<rparr>
         else if r = CR_Policy then s'
         else s'\<lparr>sn_hardRecompile := True\<rparr>)"

definition scan :: "FieldDiff list \<Rightarrow> Scan" where
  "scan fds = fold scan_step fds
     \<lparr>sn_reasons = [], sn_envChanged = False, sn_targetChanged = False, sn_hardRecompile = False\<rparr>"

definition outcome_for :: "CompatibilityReason \<Rightarrow> CompatibilityOutcome \<Rightarrow> CompatibilityOutcome" where
  "outcome_for r out = (case r of
      CR_SourceChanged \<Rightarrow> CO_RecompileRequiredSourceChange
    | CR_IRChanged \<Rightarrow> CO_RecompileRequiredIRChange
    | CR_CompilerChanged \<Rightarrow> CO_RecompileRequiredCompilerChange
    | CR_BackendChanged \<Rightarrow> CO_RecompileRequiredBackendChange
    | CR_OptimizerChanged \<Rightarrow> CO_RecompileRequiredOptimizerChange
    | CR_ArchitectureChanged \<Rightarrow> CO_RecompileRequiredArchitectureChange
    | CR_ABIChanged \<Rightarrow> CO_RecompileRequiredABIChange
    | CR_DatatypeChanged \<Rightarrow> CO_RecompileRequiredDatatypeChange
    | CR_LayoutChanged \<Rightarrow> CO_RecompileRequiredLayoutChange
    | CR_ShapeChanged \<Rightarrow> CO_RecompileRequiredShapeChange
    | CR_QuantizationChanged \<Rightarrow> CO_RecompileRequiredQuantizationChange
    | CR_PrecisionChanged \<Rightarrow> CO_RecompileRequiredPrecisionChange
    | CR_SpecializationChanged \<Rightarrow> CO_RecompileRequiredSpecializationChange
    | CR_DependencyGenerationChanged \<Rightarrow> CO_RecompileRequiredDependencyGeneration
    | CR_ToolchainGenerationChanged \<Rightarrow> CO_RecompileRequiredDependencyGeneration
    | CR_RuntimeGenerationChanged \<Rightarrow> CO_RecompileRequiredDependencyGeneration
    | _ \<Rightarrow> out)"

fun pick_outcome :: "CompatibilityReason list \<Rightarrow> CompatibilityOutcome \<Rightarrow> CompatibilityOutcome" where
  "pick_outcome [] out = out"
| "pick_outcome (r # rs) out =
     (let out' = outcome_for r out
      in if out' \<noteq> CO_RecompileRequiredSpecializationChange then out' else pick_outcome rs out')"

definition decide_diffs :: "FieldDiff list \<Rightarrow> CompilationCompatibilityPolicy \<Rightarrow> CompilationCompatibilityDecision" where
  "decide_diffs fds policy =
     (let s = scan fds
      in if \<not> sn_hardRecompile s \<and> \<not> sn_envChanged s \<and> po_allowEquivalentTarget policy \<and>
            sn_targetChanged s \<and> fds \<noteq> [] \<and>
            list_all (\<lambda>fd. reasonForKeyField (fd_field fd) = CR_ArchitectureChanged) fds then
           \<lparr>de_outcome = CO_ReusableAcrossEquivalentTarget, de_reusable = True, de_reasons = [CR_EquivalentTarget],
            de_detail = ''request differs only by target; equivalent target reuse permitted by policy''\<rparr>
         else if \<not> sn_hardRecompile s \<and> sn_envChanged s \<and> \<not> po_strictEnvironment policy then
           \<lparr>de_outcome = CO_ReusableWithRuntimeValidation, de_reusable = True, de_reasons = [CR_EnvironmentFingerprint],
            de_detail = ''only environment fingerprint differs; reuse with runtime validation by policy''\<rparr>
         else
           \<lparr>de_outcome = pick_outcome (sn_reasons s) CO_RecompileRequiredSpecializationChange, de_reusable = False,
            de_reasons = sn_reasons s, de_detail = ''compilation key differs; recompile required''\<rparr>)"

definition decide ::
  "CompilationKey \<Rightarrow> CompilationKey \<Rightarrow> ArtifactDescriptor \<Rightarrow> CompilationCompatibilityPolicy \<Rightarrow>
   CompilationCompatibilityDecision option" where
  "decide artifactKey requestKey artifact policy =
     (case state_rejection (ad_state artifact) of
        Some d \<Rightarrow> Some d
      | None \<Rightarrow>
          if key_eq artifactKey requestKey then
            Some \<lparr>de_outcome = CO_ExactReusable, de_reusable = True, de_reasons = [CR_None],
              de_detail = ''artifact compilation key exactly matches request''\<rparr>
          else map_option (\<lambda>fds. decide_diffs fds policy) (fieldDiffs artifactKey requestKey))"

section \<open>Which fields differ\<close>

lemma last_entry_smap: "map_option ke_value (last_entry t k) = map_of (rev (key_smap k)) t"
proof -
  have "map_option ke_value (find (\<lambda>e. ke_tag e = t) xs) = map_of (key_smap xs) t" for xs
    by (induction xs) (auto simp: key_smap_def)
  then show ?thesis by (simp add: last_entry_def key_smap_def rev_map)
qed

lemma last_entry_wf: "key_wf k \<Longrightarrow> map_option ke_value (last_entry t k) = field_value k (KeyField t)"
  by (simp add: last_entry_smap field_value_smap key_wf_smap smap_inv_def map_of_rev_distinct strict_sorted_iff)

lemma last_entry_None: "last_entry t k = None \<longleftrightarrow> t \<notin> ke_tag ` set k"
  by (auto simp: last_entry_def find_None_iff)

text \<open>The fields in which two keys differ, in tag order.\<close>

definition diff_fields :: "CompilationKey \<Rightarrow> CompilationKey \<Rightarrow> KeyField list" where
  "diff_fields a b = map KeyField (filter (\<lambda>t. \<not> same_entry a b t) (diff_tags a b))"

lemma fieldDiffs_fields: "fieldDiffs a b = Some ds \<Longrightarrow> map fd_field ds = diff_fields a b"
proof -
  have "those (map (field_diff a b) ts) = Some ds \<Longrightarrow> map fd_field ds = map KeyField ts" for ts
    by (induction ts arbitrary: ds) (auto simp: field_diff_def bind_eq_Some_conv split: option.splits)
  then show "fieldDiffs a b = Some ds \<Longrightarrow> map fd_field ds = diff_fields a b"
    by (simp add: fieldDiffs_def diff_fields_def)
qed

lemma set_diff_fields:
  assumes "key_wf a" "key_wf b"
  shows "f \<in> set (diff_fields a b) \<longleftrightarrow> field_value a f \<noteq> field_value b f"
proof -
  obtain t where f: "f = KeyField t" by (cases f)
  have "same_entry a b t" if "t \<notin> set (diff_tags a b)"
    using that last_entry_None [of t a] last_entry_None [of t b] by (auto simp: diff_tags_def same_entry_def)
  then show ?thesis
    using assms by (auto simp: f diff_fields_def same_entry_def last_entry_wf)
qed

lemma diff_fields_empty: "key_wf a \<Longrightarrow> key_wf b \<Longrightarrow> diff_fields a b = [] \<longleftrightarrow> a = b"
  using set_diff_fields [of a b] key_map.ext [of a b] by (metis list.set_intros(1) neq_Nil_conv empty_iff empty_set)

lemma diff_fields_sorted: "sorted_wrt (\<lambda>f g. keyFieldTag f < keyFieldTag g) (diff_fields a b)"
proof -
  have "sorted_wrt (<) (diff_tags a b)" by (simp add: diff_tags_def strict_sorted_iff)
  then show ?thesis by (simp add: diff_fields_def sorted_wrt_map sorted_wrt_filter)
qed

lemma pick_find:
  "pick_outcome rs CO_RecompileRequiredSpecializationChange =
     (case find (\<lambda>r. outcome_for r CO_RecompileRequiredSpecializationChange \<noteq> CO_RecompileRequiredSpecializationChange) rs of
        None \<Rightarrow> CO_RecompileRequiredSpecializationChange
      | Some r \<Rightarrow> outcome_for r CO_RecompileRequiredSpecializationChange)"
  by (induction rs) (simp_all add: Let_def)

section \<open>What is decided\<close>

definition live_state :: "string \<Rightarrow> bool" where
  "live_state s \<longleftrightarrow> s \<notin> {[], ''Corrupt'', ''Invalidated'', ''Retired'', ''Invalid'', ''Failed'', ''Cancelled''}"

lemma state_rejection_None: "state_rejection s = None \<longleftrightarrow> live_state s"
  by (simp add: state_rejection_def live_state_def)

lemma state_rejection_refuses: "state_rejection s = Some d \<Longrightarrow> \<not> de_reusable d"
proof -
  assume "state_rejection s = Some d"
  then have "\<exists>out r t. d = rejection out r t" unfolding state_rejection_def by (metis option.inject option.distinct(1))
  then show ?thesis by (auto simp: rejection_def)
qed

lemma key_eq_iff: "key_wf a \<Longrightarrow> key_wf b \<Longrightarrow> key_eq a b \<longleftrightarrow> a = b"
proof -
  assume wf: "key_wf a" "key_wf b"
  then have "distinct (map ke_tag a)" "distinct (map ke_tag b)" by (simp_all add: key_wf_def strict_sorted_iff)
  then have "key_eq a b \<longleftrightarrow> set a = set b" by (rule key_eq_set)
  also have "\<dots> \<longleftrightarrow> a = b"
    using wf map_sorted_distinct_set_unique [of ke_tag a b]
    by (auto simp: key_wf_def strict_sorted_iff distinct_map)
  finally show ?thesis .
qed

definition soft_reasons :: "CompatibilityReason set" where
  "soft_reasons = {CR_EnvironmentFingerprint, CR_ArchitectureChanged, CR_Policy}"

lemma scan_fold:
  fixes fds :: "FieldDiff list"
  defines "rs \<equiv> map (\<lambda>fd. reasonForKeyField (fd_field fd)) fds"
  shows "fold scan_step fds s =
    \<lparr>sn_reasons = sn_reasons s @ rs, sn_envChanged = (sn_envChanged s \<or> CR_EnvironmentFingerprint \<in> set rs),
     sn_targetChanged = (sn_targetChanged s \<or> CR_ArchitectureChanged \<in> set rs),
     sn_hardRecompile = (sn_hardRecompile s \<or> \<not> set rs \<subseteq> soft_reasons)\<rparr>"
  unfolding rs_def
  by (induction fds arbitrary: s) (auto simp: scan_step_def Let_def soft_reasons_def)

lemma scan_eq:
  assumes "map (\<lambda>fd. reasonForKeyField (fd_field fd)) fds = rs"
  shows "scan fds = \<lparr>sn_reasons = rs, sn_envChanged = (CR_EnvironmentFingerprint \<in> set rs),
     sn_targetChanged = (CR_ArchitectureChanged \<in> set rs), sn_hardRecompile = (\<not> set rs \<subseteq> soft_reasons)\<rparr>"
  using assms unfolding scan_def scan_fold by simp

definition equivalent_target :: "CompatibilityReason list \<Rightarrow> bool" where
  "equivalent_target rs \<longleftrightarrow> rs \<noteq> [] \<and> set rs \<subseteq> {CR_ArchitectureChanged}"

definition environment_only :: "CompatibilityReason list \<Rightarrow> bool" where
  "environment_only rs \<longleftrightarrow> CR_EnvironmentFingerprint \<in> set rs \<and> set rs \<subseteq> soft_reasons"

lemma equivalent_target_alt:
  "equivalent_target rs \<longleftrightarrow> set rs \<subseteq> soft_reasons \<and> CR_EnvironmentFingerprint \<notin> set rs \<and>
      CR_ArchitectureChanged \<in> set rs \<and> rs \<noteq> [] \<and> set rs \<subseteq> {CR_ArchitectureChanged}"
  by (cases rs) (auto simp: equivalent_target_def soft_reasons_def)

lemma decide_diffs_eq:
  assumes rs: "map (\<lambda>fd. reasonForKeyField (fd_field fd)) fds = rs"
  shows "decide_diffs fds p =
     (if po_allowEquivalentTarget p \<and> equivalent_target rs then
        \<lparr>de_outcome = CO_ReusableAcrossEquivalentTarget, de_reusable = True, de_reasons = [CR_EquivalentTarget],
         de_detail = ''request differs only by target; equivalent target reuse permitted by policy''\<rparr>
      else if \<not> po_strictEnvironment p \<and> environment_only rs then
        \<lparr>de_outcome = CO_ReusableWithRuntimeValidation, de_reusable = True, de_reasons = [CR_EnvironmentFingerprint],
         de_detail = ''only environment fingerprint differs; reuse with runtime validation by policy''\<rparr>
      else
        \<lparr>de_outcome = pick_outcome rs CO_RecompileRequiredSpecializationChange, de_reusable = False,
         de_reasons = rs, de_detail = ''compilation key differs; recompile required''\<rparr>)"
proof -
  have ne: "fds = [] \<longleftrightarrow> rs = []"
    and all: "list_all (\<lambda>fd. reasonForKeyField (fd_field fd) = CR_ArchitectureChanged) fds \<longleftrightarrow> set rs \<subseteq> {CR_ArchitectureChanged}"
    using rs [symmetric] by (simp_all add: list_all_iff image_subset_iff)
  have "(\<not> \<not> set rs \<subseteq> soft_reasons \<and> CR_EnvironmentFingerprint \<notin> set rs \<and> po_allowEquivalentTarget p \<and>
      CR_ArchitectureChanged \<in> set rs \<and> rs \<noteq> [] \<and> set rs \<subseteq> {CR_ArchitectureChanged}) \<longleftrightarrow>
     po_allowEquivalentTarget p \<and> equivalent_target rs"
    unfolding equivalent_target_alt by blast
  moreover have "(\<not> \<not> set rs \<subseteq> soft_reasons \<and> CR_EnvironmentFingerprint \<in> set rs \<and> \<not> po_strictEnvironment p) \<longleftrightarrow>
     \<not> po_strictEnvironment p \<and> environment_only rs"
    by (auto simp: environment_only_def)
  ultimately show ?thesis
    unfolding decide_diffs_def scan_eq [OF rs] Let_def ne all Scan.simps by (simp only:)
qed

text \<open>The reasons of a decision are those of the fields that differ, in tag order.\<close>

definition diff_reasons :: "CompilationKey \<Rightarrow> CompilationKey \<Rightarrow> CompatibilityReason list" where
  "diff_reasons a b = map reasonForKeyField (diff_fields a b)"

lemma fieldDiffs_reasons:
  "fieldDiffs a b = Some fds \<Longrightarrow> map (\<lambda>fd. reasonForKeyField (fd_field fd)) fds = diff_reasons a b"
  using fieldDiffs_fields [of a b fds] by (simp add: diff_reasons_def flip: map_map [unfolded o_def])

lemma decide_live:
  assumes "key_wf a" "key_wf b" "live_state (ad_state d)" "a \<noteq> b"
  shows "decide a b d p = map_option (\<lambda>fds. decide_diffs fds p) (fieldDiffs a b)"
  using assms by (simp add: decide_def key_eq_iff state_rejection_None [THEN iffD2])

section \<open>When the engine throws\<close>

lemma render_None:
  assumes "small v"
  shows "renderFieldValue v = None \<longleftrightarrow> 8 \<le> length v \<and> 2 ^ 64 \<le> 8 + be_nat (take 8 v)"
proof -
  have "renderFieldValue v = None \<longleftrightarrow> rd_str (reader_on v) = Throw"
    by (simp add: renderFieldValue_def Let_def split: rres.splits)
  also have "\<dots> \<longleftrightarrow> 8 \<le> length v \<and> 2 ^ 64 \<le> 8 + be_nat (take 8 v)"
  proof -
    have "rwf (reader_on v)" using assms by (simp add: reader_on_at)
    moreover have "view (reader_on v) = v" "rpos (reader_on v) = 0" by (simp_all add: reader_on_def view_def)
    ultimately show ?thesis using str_throw_iff [of "reader_on v"] by simp
  qed
  finally show ?thesis .
qed

lemma those_None: "those xs = None \<longleftrightarrow> None \<in> set xs"
  by (induction xs) (auto split: option.splits)

lemma fieldDiffs_None:
  assumes "key_wf a" "key_wf b"
  shows "fieldDiffs a b = None \<longleftrightarrow> (\<exists>f v. field_value a f \<noteq> field_value b f \<and>
     (field_value a f = Some v \<or> field_value b f = Some v) \<and> renderFieldValue v = None)"
proof -
  have r: "render_opt (last_entry t k) = None \<longleftrightarrow> (\<exists>v. field_value k (KeyField t) = Some v \<and> renderFieldValue v = None)"
    if "key_wf k" for t k
    using last_entry_wf [OF that, of t, symmetric] by (auto simp: render_opt_def split: option.splits)
  have n: "field_diff a b (keyFieldTag f) = None \<longleftrightarrow>
      (\<exists>v. (field_value a f = Some v \<or> field_value b f = Some v) \<and> renderFieldValue v = None)" for f
    using r [OF assms(1), of "keyFieldTag f"] r [OF assms(2), of "keyFieldTag f"]
    by (auto simp: field_diff_def bind_eq_None_conv)
  have "fieldDiffs a b = None \<longleftrightarrow> (\<exists>f \<in> set (diff_fields a b). field_diff a b (keyFieldTag f) = None)"
    by (force simp: fieldDiffs_def those_None diff_fields_def)
  also have "\<dots> \<longleftrightarrow> (\<exists>f. field_value a f \<noteq> field_value b f \<and> field_diff a b (keyFieldTag f) = None)"
    using set_diff_fields [OF assms] by blast
  finally show ?thesis unfolding n by blast
qed

lemma decide_reuse_iff:
  assumes "key_wf a" "key_wf b" "decide a b d p = Some dec"
  shows "de_reusable dec \<longleftrightarrow> live_state (ad_state d) \<and>
     (a = b \<or>
      po_allowEquivalentTarget p \<and>
        (\<forall>f. field_value a f \<noteq> field_value b f \<longrightarrow> reasonForKeyField f = CR_ArchitectureChanged) \<or>
      \<not> po_strictEnvironment p \<and>
        (\<exists>f. field_value a f \<noteq> field_value b f \<and> reasonForKeyField f = CR_EnvironmentFingerprint) \<and>
        (\<forall>f. field_value a f \<noteq> field_value b f \<longrightarrow>
           reasonForKeyField f \<in> {CR_EnvironmentFingerprint, CR_ArchitectureChanged, CR_Policy}))"
proof -
  consider (dead) "\<not> live_state (ad_state d)" | (same) "live_state (ad_state d)" "a = b"
    | (diff) "live_state (ad_state d)" "a \<noteq> b" by blast
  then show ?thesis
  proof cases
    case dead
    then obtain r where "state_rejection (ad_state d) = Some r" using state_rejection_None by blast
    then show ?thesis using assms(3) dead state_rejection_refuses by (auto simp: decide_def)
  next
    case same
    then show ?thesis using assms by (auto simp: decide_def state_rejection_None [THEN iffD2] key_eq_iff)
  next
    case diff
    then obtain fds where fds: "fieldDiffs a b = Some fds" and dec: "dec = decide_diffs fds p"
      using assms by (auto simp: decide_live)
    have "set (diff_reasons a b) = {reasonForKeyField f |f. field_value a f \<noteq> field_value b f}"
      using set_diff_fields [OF assms(1,2)] by (auto simp: diff_reasons_def)
    moreover have "diff_reasons a b \<noteq> []" using diff diff_fields_empty assms by (simp add: diff_reasons_def)
    ultimately show ?thesis using diff unfolding dec decide_diffs_eq [OF fieldDiffs_reasons [OF fds]]
      by (auto simp: equivalent_target_def environment_only_def soft_reasons_def)
  qed
qed

text \<open>
  C9: The compatibility engine permits reuse exactly when the artifact is in none of the
  rejected lifecycle states and either its key is the requested key, or the policy
  allows equivalent targets and every differing field is one of the architecture fields,
  or the policy does not insist on the environment and the environment fingerprint
  differs and every differing field is an environment, architecture, namespace or
  tenant field. With the default policy only an identical key is reusable.
\<close>

theorem decide_reuse:
  assumes "key_wf a" "key_wf b" "decide a b d p = Some dec"
  shows "de_reusable dec \<longleftrightarrow> live_state (ad_state d) \<and>
     (a = b \<or>
      po_allowEquivalentTarget p \<and>
        (\<forall>f. field_value a f \<noteq> field_value b f \<longrightarrow> reasonForKeyField f = CR_ArchitectureChanged) \<or>
      \<not> po_strictEnvironment p \<and>
        (\<exists>f. field_value a f \<noteq> field_value b f \<and> reasonForKeyField f = CR_EnvironmentFingerprint) \<and>
        (\<forall>f. field_value a f \<noteq> field_value b f \<longrightarrow>
           reasonForKeyField f \<in> {CR_EnvironmentFingerprint, CR_ArchitectureChanged, CR_Policy}))"
  using assms by (rule decide_reuse_iff)

lemma decide_reuse_witness:
  "\<exists>dec. decide [KeyFieldEntry 1 [2]] [KeyFieldEntry 1 [2]] (ad_default\<lparr>ad_state := ''Deployable''\<rparr>) po_default = Some dec \<and>
     de_reusable dec"
proof -
  have wf: "key_wf [KeyFieldEntry 1 [2]]" by (simp add: key_wf_def)
  obtain dec where dec: "decide [KeyFieldEntry 1 [2]] [KeyFieldEntry 1 [2]] (ad_default\<lparr>ad_state := ''Deployable''\<rparr>) po_default = Some dec"
    using wf by (simp add: decide_def key_eq_iff state_rejection_def)
  moreover have "de_reusable dec" using decide_reuse [OF wf wf dec] by (simp add: live_state_def)
  ultimately show ?thesis by blast
qed

text \<open>
  A refusal between two different keys reports every difference: the reasons are those of
  exactly the differing fields, in field order, none left out, and the outcome is the one
  of the first of them that names an outcome other than a specialization change; the
  outcome is a specialization change only when no reason names another one.
\<close>

theorem decide_reasons:
  assumes "key_wf a" "key_wf b" "a \<noteq> b" "live_state (ad_state d)" "decide a b d p = Some dec" "\<not> de_reusable dec"
  shows "\<exists>fs. sorted_wrt (\<lambda>f g. keyFieldTag f < keyFieldTag g) fs \<and> set fs = {f. field_value a f \<noteq> field_value b f} \<and>
     de_reasons dec = map reasonForKeyField fs \<and>
     de_outcome dec = (case find (\<lambda>r. outcome_for r CO_RecompileRequiredSpecializationChange \<noteq> CO_RecompileRequiredSpecializationChange) (de_reasons dec) of
        None \<Rightarrow> CO_RecompileRequiredSpecializationChange
      | Some r \<Rightarrow> outcome_for r CO_RecompileRequiredSpecializationChange)"
proof -
  obtain fds where fds: "fieldDiffs a b = Some fds" and dec: "dec = decide_diffs fds p"
    using assms by (auto simp: decide_live)
  have "de_reasons dec = diff_reasons a b" "de_outcome dec = pick_outcome (diff_reasons a b) CO_RecompileRequiredSpecializationChange"
    using assms(6) unfolding dec decide_diffs_eq [OF fieldDiffs_reasons [OF fds]] by (auto split: if_splits)
  moreover have "sorted_wrt (\<lambda>f g. keyFieldTag f < keyFieldTag g) (diff_fields a b)" by (rule diff_fields_sorted)
  moreover have "set (diff_fields a b) = {f. field_value a f \<noteq> field_value b f}"
    using set_diff_fields [OF assms(1,2)] by blast
  ultimately show ?thesis by (intro exI [of _ "diff_fields a b"]) (simp add: diff_reasons_def pick_find)
qed

lemma decide_reasons_witness:
  "\<exists>dec. decide [KeyFieldEntry 1 [2]] [] (ad_default\<lparr>ad_state := ''Deployable''\<rparr>) po_default = Some dec \<and>
     de_reasons dec \<noteq> []"
proof -
  let ?d = "ad_default\<lparr>ad_state := ''Deployable''\<rparr>"
  have wf: "key_wf [KeyFieldEntry 1 [2]]" "key_wf []" by (simp_all add: key_wf_def)
  have l: "live_state (ad_state ?d)" by (simp add: live_state_def)
  have v: "field_value [KeyFieldEntry 1 [2]] f = (if f = KeyField 1 then Some [2] else None)" "field_value [] f = None" for f
    by (cases f; simp add: field_value_def findField_def)+
  then have "fieldDiffs [KeyFieldEntry 1 [2]] [] \<noteq> None"
    using render_None [OF small_few, of "[2]"] by (simp add: fieldDiffs_None [OF wf])
  then obtain dec where dec: "decide [KeyFieldEntry 1 [2]] [] ?d po_default = Some dec"
    using decide_live [OF wf l] by auto
  have nr: "\<not> de_reusable dec" using decide_reuse_iff [OF wf dec] by (simp add: po_default_def)
  obtain fs where "set fs = {f. field_value [KeyFieldEntry 1 [2]] f \<noteq> field_value [] f}" "de_reasons dec = map reasonForKeyField fs"
    using decide_reasons [OF wf _ l dec nr] by auto
  moreover have "field_value [KeyFieldEntry 1 [2]] (KeyField 1) \<noteq> field_value [] (KeyField 1)"
    by (simp add: field_value_def findField_def)
  ultimately have "de_reasons dec \<noteq> []" by auto
  then show ?thesis using dec by blast
qed


text \<open>
  The engine fails with an escaping exception, instead of a decision, exactly when the
  artifact is live, the keys differ, and one of the two values of a differing field has
  at least eight bytes and starts with a big-endian number of 2^64 - 8 or more. In every
  other case it decides.
\<close>

theorem decide_throws:
  assumes "key_wf a" "key_wf b" "\<forall>f v. field_value a f = Some v \<or> field_value b f = Some v \<longrightarrow> small v"
  shows "decide a b d p = None \<longleftrightarrow> live_state (ad_state d) \<and>
     (\<exists>f v. field_value a f \<noteq> field_value b f \<and> (field_value a f = Some v \<or> field_value b f = Some v) \<and>
        8 \<le> length v \<and> 2 ^ 64 \<le> 8 + be_nat (take 8 v))"
proof (cases "live_state (ad_state d) \<and> a \<noteq> b")
  case True
  have "(field_value a f = Some v \<or> field_value b f = Some v) \<and> renderFieldValue v = None \<longleftrightarrow>
      (field_value a f = Some v \<or> field_value b f = Some v) \<and> 8 \<le> length v \<and> 2 ^ 64 \<le> 8 + be_nat (take 8 v)" for f v
    using assms(3) render_None by blast
  then have "fieldDiffs a b = None \<longleftrightarrow> (\<exists>f v. field_value a f \<noteq> field_value b f \<and>
      (field_value a f = Some v \<or> field_value b f = Some v) \<and> 8 \<le> length v \<and> 2 ^ 64 \<le> 8 + be_nat (take 8 v))"
    unfolding fieldDiffs_None [OF assms(1,2)] by blast
  then show ?thesis using True by (simp add: decide_live [OF assms(1,2)])
next
  case False
  then show ?thesis
    using assms(1,2) by (auto simp: decide_def key_eq_iff state_rejection_None [symmetric] split: option.splits)
qed

lemma decide_throws_witness:
  "decide (key_runtimeCompatibilityGeneration 1 []) (key_runtimeCompatibilityGeneration 0xFFFFFFFFFFFFFFFF [])
     (ad_default\<lparr>ad_state := ''Deployable''\<rparr>) po_default = None"
proof -
  let ?a = "key_runtimeCompatibilityGeneration 1 []" and ?b = "key_runtimeCompatibilityGeneration 0xFFFFFFFFFFFFFFFF []"
  have wf: "key_wf ?a" "key_wf ?b" by (simp_all add: setter_defs set_defs key_map.inv_emp)
  have v: "field_value (key_runtimeCompatibilityGeneration n []) f = (if f = KF_RuntimeCompatibilityGeneration then Some (putU64BE n) else None)" for n f
    by (simp add: setter_defs set_defs encU64_def field_value_put key_map.get_emp)
  have "be_nat (putU64BE 0xFFFFFFFFFFFFFFFF) = 2 ^ 64 - 1" by (simp add: putU64BE_def be_nat_def)
  moreover have "putU64BE 1 \<noteq> putU64BE 0xFFFFFFFFFFFFFFFF" by (simp add: inj_eq block_inj)
  ultimately show ?thesis
    by (subst decide_throws [OF wf]) (auto simp: v live_state_def intro: small_few)
qed

end
