(* ===== verification/CF_Observability.thy ===== *)
theory CF_Observability
  imports CF_Descriptor
begin

text \<open>
  \<open>Observability.hpp\<close> and \<open>Observability.cpp\<close>: the counters, the bounded event
  log and the explain accumulator. Every method is one section under the mutex of
  the object, so each is one function on its state. The clock is an argument.
\<close>

record Event =
  ev_timeMs :: i64
  ev_type :: string
  ev_data :: Json

record Observability =
  ob_counters :: "(string, i64) smap"
  ob_events :: "Event list"
  ob_maxEvents :: nat

definition obs_new :: "nat \<Rightarrow> Observability" where
  "obs_new maxEvents = \<lparr>ob_counters = [], ob_events = [], ob_maxEvents = maxEvents\<rparr>"

definition obs_get :: "string \<Rightarrow> Observability \<Rightarrow> i64" where
  "obs_get key ob = (case map_of (ob_counters ob) key of None \<Rightarrow> 0 | Some v \<Rightarrow> v)"

text \<open>\<open>operator[]\<close> creates a missing counter at 0; the addition wraps at 64 bits.\<close>

definition obs_count_by :: "string \<Rightarrow> i64 \<Rightarrow> Observability \<Rightarrow> Observability" where
  "obs_count_by key delta ob = ob\<lparr>ob_counters := smap_put key (obs_get key ob + delta) (ob_counters ob)\<rparr>"

abbreviation obs_count :: "string \<Rightarrow> Observability \<Rightarrow> Observability" where
  "obs_count key \<equiv> obs_count_by key 1"

definition obs_set :: "string \<Rightarrow> i64 \<Rightarrow> Observability \<Rightarrow> Observability" where
  "obs_set key v ob = ob\<lparr>ob_counters := smap_put key v (ob_counters ob)\<rparr>"

fun trim_events :: "nat \<Rightarrow> Event list \<Rightarrow> Event list" where
  "trim_events n [] = []"
| "trim_events n (e # es) = (if n < length (e # es) then trim_events n es else e # es)"

definition obs_recordEvent :: "i64 \<Rightarrow> string \<Rightarrow> Json \<Rightarrow> Observability \<Rightarrow> Observability" where
  "obs_recordEvent now type data ob =
     ob\<lparr>ob_events := trim_events (ob_maxEvents ob)
       (ob_events ob @ [\<lparr>ev_timeMs = now, ev_type = type, ev_data = data\<rparr>])\<rparr>"

definition obs_stats :: "Observability \<Rightarrow> Json" where
  "obs_stats ob = json_sets (map (\<lambda>(k, v). (k, JNum (double_of_int (sint v)))) (ob_counters ob))"

definition ev_toJson :: "Event \<Rightarrow> Json" where
  "ev_toJson e = json_sets
     [(''time_ms'', JNum (double_of_int (sint (ev_timeMs e)))), (''type'', JStr (ev_type e)), (''data'', ev_data e)]"

definition obs_snapshot :: "Observability \<Rightarrow> Json" where
  "obs_snapshot ob = json_sets [(''counters'', obs_stats ob), (''events'', JArr (map ev_toJson (ob_events ob)))]"

definition obs_recentEvents :: "nat \<Rightarrow> Observability \<Rightarrow> Event list" where
  "obs_recentEvents limit ob =
     (let n = length (ob_events ob); start = (if limit < n then n - limit else 0)
      in map (\<lambda>i. ob_events ob ! i) [start..<n])"

type_synonym ExplainBuilder = "(string, Json) smap"

definition eb_add :: "string \<Rightarrow> Json \<Rightarrow> ExplainBuilder \<Rightarrow> ExplainBuilder" where
  "eb_add key v eb = smap_put key v eb"

definition eb_addText :: "string \<Rightarrow> string \<Rightarrow> ExplainBuilder \<Rightarrow> ExplainBuilder" where
  "eb_addText key v eb = eb_add key (JStr v) eb"

definition eb_build :: "ExplainBuilder \<Rightarrow> Json" where
  "eb_build eb = JObj eb"

definition eb_clear :: "ExplainBuilder \<Rightarrow> ExplainBuilder" where
  "eb_clear eb = []"

section \<open>What the log and the counters hold\<close>

definition last_n :: "nat \<Rightarrow> 'a list \<Rightarrow> 'a list" where
  "last_n n xs = drop (length xs - n) xs"

lemma trim_last_n: "trim_events n es = last_n n es"
  by (induction n es rule: trim_events.induct) (auto simp: last_n_def Suc_diff_le)

lemma last_n_short: "length xs \<le> n \<Longrightarrow> last_n n xs = xs"
  by (simp add: last_n_def)

lemma last_n_snoc: "last_n n (last_n n xs @ [x]) = last_n n (xs @ [x])"
  by (cases "n \<le> length xs") (auto simp: last_n_def Suc_diff_le)

lemma recent_last_n: "obs_recentEvents limit ob = last_n limit (ob_events ob)"
proof -
  have "map (\<lambda>i. xs ! i) [a..<length xs] = drop a xs" for a and xs :: "Event list"
    by (rule nth_equalityI) auto
  then show ?thesis by (simp add: obs_recentEvents_def Let_def last_n_def)
qed

text \<open>Updates of the object, for statements about any sequence of calls.\<close>

datatype ObsOp = OCount string i64 | OSet string i64 | ORecord i64 string Json

fun obs_op :: "ObsOp \<Rightarrow> Observability \<Rightarrow> Observability" where
  "obs_op (OCount k d) ob = obs_count_by k d ob"
| "obs_op (OSet k v) ob = obs_set k v ob"
| "obs_op (ORecord t ty d) ob = obs_recordEvent t ty d ob"

fun recorded :: "ObsOp list \<Rightarrow> Event list" where
  "recorded [] = []"
| "recorded (ORecord t ty d # ops) = \<lparr>ev_timeMs = t, ev_type = ty, ev_data = d\<rparr> # recorded ops"
| "recorded (_ # ops) = recorded ops"

fun counted :: "string \<Rightarrow> i64 \<Rightarrow> ObsOp list \<Rightarrow> i64" where
  "counted key n [] = n"
| "counted key n (OCount k d # ops) = counted key (if k = key then n + d else n) ops"
| "counted key n (OSet k v # ops) = counted key (if k = key then v else n) ops"
| "counted key n (ORecord _ _ _ # ops) = counted key n ops"

lemma obs_get_put: "obs_get k (ob\<lparr>ob_counters := smap_put k' v (ob_counters ob)\<rparr>) = (if k = k' then v else obs_get k ob)"
  by (simp add: obs_get_def smap_get_put)

lemma obs_get_ops: "obs_get key (fold obs_op ops ob) = counted key (obs_get key ob) ops"
proof (induction ops arbitrary: ob)
  case (Cons op ops)
  then show ?case
    by (cases op) (simp_all add: obs_count_by_def obs_set_def obs_get_put, simp_all add: obs_recordEvent_def obs_get_def)
qed simp

lemma obs_events_ops:
  assumes "ob_events ob = last_n (ob_maxEvents ob) xs"
  shows "ob_events (fold obs_op ops ob) = last_n (ob_maxEvents ob) (xs @ recorded ops)"
  using assms
proof (induction ops arbitrary: ob xs)
  case (Cons op ops)
  then show ?case
  proof (cases op)
    case (ORecord t ty d)
    then show ?thesis
      using Cons.IH [of "obs_op op ob" "xs @ [\<lparr>ev_timeMs = t, ev_type = ty, ev_data = d\<rparr>]"] Cons.prems
      by (simp add: obs_recordEvent_def trim_last_n last_n_snoc)
  qed (use Cons.IH [of "obs_op op ob" xs] Cons.prems in \<open>simp_all add: obs_count_by_def obs_set_def\<close>)
qed simp

text \<open>
  From a new object, after any sequence of counts, sets and events: every counter holds
  what its last set and the counts after it add up to (0 if never touched), the log holds
  exactly the most recent maxEvents events in the order they were recorded, and
  recentEvents returns the most recent of those up to its limit.
\<close>

theorem obs_exact:
  "obs_get key (fold obs_op ops (obs_new n)) = counted key 0 ops \<and>
   ob_events (fold obs_op ops (obs_new n)) = last_n n (recorded ops) \<and>
   obs_recentEvents limit (fold obs_op ops (obs_new n)) = last_n (min limit n) (recorded ops)"
proof -
  have "obs_get key (fold obs_op ops (obs_new n)) = counted key 0 ops"
    by (simp add: obs_get_ops) (simp add: obs_get_def obs_new_def)
  moreover have ev: "ob_events (fold obs_op ops (obs_new n)) = last_n n (recorded ops)"
    using obs_events_ops [of "obs_new n" "[]"] by (simp add: obs_new_def last_n_def)
  moreover have "last_n limit (last_n n xs) = last_n (min limit n) xs" for xs :: "Event list"
    by (auto simp: last_n_def min_def intro: arg_cong [of _ _ "\<lambda>k. drop k xs"])
  ultimately show ?thesis by (simp add: recent_last_n)
qed

lemma smap_inv_counters: "smap_inv (ob_counters ob) \<Longrightarrow> smap_inv (ob_counters (obs_op op ob))"
  by (cases op) (auto simp: obs_count_by_def obs_set_def obs_recordEvent_def smap_inv_put)

text \<open>The statistics show every counter.\<close>

lemma obs_stats_get:
  "smap_inv (ob_counters ob) \<Longrightarrow> json_get k (obs_stats ob) = map_option (\<lambda>v. JNum (double_of_int (sint v))) (map_of (ob_counters ob) k)"
proof -
  let ?m = "map (\<lambda>(k, v). (k, JNum (double_of_int (sint v)))) (ob_counters ob)"
  assume "smap_inv (ob_counters ob)"
  moreover have "map fst ?m = map fst (ob_counters ob)" by auto
  ultimately have "distinct (map fst ?m)" by (simp only: smap_inv_def strict_sorted_iff)
  then show ?thesis by (simp add: obs_stats_def json_get_sets map_of_rev_distinct map_of_map)
qed

end
