(* ===== verification/CF_Persistence.thy ===== *)
theory CF_Persistence
  imports CF_Request
begin

text \<open>
  \<open>Persistence.hpp\<close> and \<open>Persistence.cpp\<close>: the two files of an artifact
  generation, their encoding with magic, version and checksum, and the store. The store
  directory is a map from file names to contents; the order in which a directory is
  iterated is an argument. Each write can fail at each of its system calls, which is
  also what a crash at that point leaves behind; the POSIX branch of the write is the
  one modelled.
\<close>

section \<open>Values that may not come back\<close>

text \<open>
  A call that may let \<open>std::length_error\<close> escape, or convert an out-of-range number
  (undefined behaviour).
\<close>

datatype 'a eff = Ret 'a | LengthError | Undef

definition ebind :: "'a eff \<Rightarrow> ('a \<Rightarrow> 'b eff) \<Rightarrow> 'b eff" where
  "ebind m f = (case m of Ret x \<Rightarrow> f x | LengthError \<Rightarrow> LengthError | Undef \<Rightarrow> Undef)"

lemma ebind_simps [simp]: "ebind (Ret x) f = f x" "ebind LengthError f = LengthError" "ebind Undef f = Undef"
  by (simp_all add: ebind_def)

section \<open>Records\<close>

record PersistedRecord =
  pr_id :: Id128
  pr_generation :: u64
  pr_key :: CompilationKey
  pr_descriptor :: ArtifactDescriptor
  pr_contentBytes :: bytes
  pr_invalidated :: bool
  pr_superseded :: bool
  pr_corrupted :: bool
  pr_error :: string

definition pr_default :: PersistedRecord where
  "pr_default = \<lparr>pr_id = Id128 0 0, pr_generation = 0, pr_key = [], pr_descriptor = ad_default, pr_contentBytes = [],
     pr_invalidated = False, pr_superseded = False, pr_corrupted = False, pr_error = []\<rparr>"

type_synonym Disk = "(string, bytes) smap"

section \<open>Metadata\<close>

definition kMetaMagic :: string where "kMetaMagic = ''CFMD''"

definition kVersion :: u32 where "kVersion = 1"

definition meta_json :: "PersistedRecord \<Rightarrow> Json" where
  "meta_json r = json_set ''superseded'' (JBool (pr_superseded r))
     (json_set ''invalidated'' (JBool (pr_invalidated r)) (ad_toJson (pr_descriptor r)))"

definition meta_payload :: "PersistedRecord \<Rightarrow> string \<Rightarrow> bytes" where
  "meta_payload r json =
     w_string kMetaMagic @ putU32BE kVersion @ w_string (string_of (makeCanonicalFields (pr_key r))) @
     w_string json @ ad_contentDigest (pr_descriptor r)"

definition encodeMeta :: "PersistedRecord \<Rightarrow> bytes option" where
  "encodeMeta r = map_option (\<lambda>json. let w = meta_payload r json in w @ sha256 w) (json_dump (meta_json r))"

definition rd_or :: "'a rres \<Rightarrow> string \<Rightarrow> ('a \<Rightarrow> creader \<Rightarrow> (string + 'b) eff) \<Rightarrow> (string + 'b) eff" where
  "rd_or m error k = (case m of Got x r \<Rightarrow> k x r | Miss _ \<Rightarrow> Ret (Inl error) | Throw \<Rightarrow> LengthError)"

definition flag_of :: "Json \<Rightarrow> string \<Rightarrow> bool" where
  "flag_of j k = (case json_get k j of None \<Rightarrow> False | Some v \<Rightarrow> asBool v)"

definition meta_record :: "CompilationKey \<Rightarrow> Json \<Rightarrow> ArtifactDescriptor \<Rightarrow> PersistedRecord" where
  "meta_record key j desc = pr_default\<lparr>pr_key := key, pr_descriptor := desc, pr_id := ad_id desc,
     pr_generation := ad_generation desc, pr_invalidated := flag_of j ''invalidated'',
     pr_superseded := flag_of j ''superseded''\<rparr>"

definition decode_payload :: "creader \<Rightarrow> (string + PersistedRecord) eff" where
  "decode_payload r =
     rd_or (rd_str r) ''truncated key'' (\<lambda>kb r.
       case fromCanonicalBytes (bytes_of kb) of
         None \<Rightarrow> Ret (Inl ''invalid canonical key in metadata'')
       | Some key \<Rightarrow>
           rd_or (rd_str r) ''truncated metadata'' (\<lambda>js r.
             case json_parse js of
               None \<Rightarrow> Ret (Inl ''metadata JSON parse failure'')
             | Some j \<Rightarrow> (case ad_fromJson j of
                   None \<Rightarrow> Undef
                 | Some desc \<Rightarrow>
                     rd_or (rd_rawBlob 32 r) ''truncated content digest'' (\<lambda>_ _. Ret (Inr (meta_record key j desc))))))"

definition decodeMeta :: "bytes \<Rightarrow> (string + PersistedRecord) eff" where
  "decodeMeta d =
     rd_or (rd_str (reader_on d)) ''unknown metadata magic'' (\<lambda>magic r.
       if magic \<noteq> kMetaMagic then Ret (Inl ''unknown metadata magic'')
       else rd_or (rd_u32 r) ''truncated version'' (\<lambda>ver r.
         if ver \<noteq> kVersion then Ret (Inl (''unknown persistence version '' @ dec_int (uint ver)))
         else if remaining r < 32 then Ret (Inl ''truncated checksum'')
         else if drop (length d - 32) d \<noteq> sha256 (take (length d - 32) d) then Ret (Inl ''metadata checksum mismatch'')
         else decode_payload r))"

section \<open>Files\<close>

text \<open>Opening creates the root; the message of a failed creation and whether the root exists are arguments.\<close>

definition ps_open :: "string \<Rightarrow> string option \<Rightarrow> bool \<Rightarrow> unit result" where
  "ps_open store_root failed there = (case failed of
     Some m \<Rightarrow> if \<not> there then Err ErrIOError (''cannot create store root '' @ store_root @ '': '' @ m) else Ok ()
   | None \<Rightarrow> Ok ())"

definition metaPath :: "Id128 \<Rightarrow> u64 \<Rightarrow> string" where
  "metaPath i gen = toHex i @ ''_'' @ dec_int (uint gen) @ ''.meta''"

definition binPath :: "Id128 \<Rightarrow> u64 \<Rightarrow> string" where
  "binPath i gen = toHex i @ ''_'' @ dec_int (uint gen) @ ''.bin''"

datatype WriteFault = WriteDone | OpenFails | WriteFails nat | RenameFails

definition atomicWriteBytes :: "WriteFault \<Rightarrow> string \<Rightarrow> bytes \<Rightarrow> Disk \<Rightarrow> bool \<times> Disk" where
  "atomicWriteBytes f dest d disk =
     (let tmp = dest @ ''.tmp''
      in case f of
          OpenFails \<Rightarrow> (False, disk)
        | WriteFails n \<Rightarrow> (False, smap_put tmp (take n d) disk)
        | RenameFails \<Rightarrow> (False, smap_put tmp d disk)
        | WriteDone \<Rightarrow> (True, smap_put dest d (smap_del tmp (smap_put tmp d disk))))"

definition readAll :: "string \<Rightarrow> Disk \<Rightarrow> bytes option" where
  "readAll p disk = map_of disk p"

section \<open>The store\<close>

text \<open>One fault for each of the two writes. \<open>None\<close>: the metadata text is undefined.\<close>

definition ps_store :: "string \<Rightarrow> WriteFault \<Rightarrow> WriteFault \<Rightarrow> PersistedRecord \<Rightarrow> Disk \<Rightarrow> (unit result \<times> Disk) option" where
  "ps_store rt f1 f2 r disk =
     (if rt = [] then Some (Err ErrPersistenceFailure ''store root not opened'', disk)
      else map_option (\<lambda>meta.
        let (ok1, d1) = atomicWriteBytes f1 (metaPath (pr_id r) (pr_generation r)) meta disk
        in if \<not> ok1 then (Err ErrPersistenceFailure ''atomic metadata write failed'', d1)
           else let (ok2, d2) = atomicWriteBytes f2 (binPath (pr_id r) (pr_generation r)) (pr_contentBytes r) d1
                in if \<not> ok2 then (Err ErrPersistenceFailure ''atomic content write failed'', d2)
                   else (Ok (), d2)) (encodeMeta r))"

definition load_content :: "Id128 \<Rightarrow> u64 \<Rightarrow> PersistedRecord \<Rightarrow> bytes \<Rightarrow> PersistedRecord result" where
  "load_content i gen r bin =
     (if ad_contentDigest (pr_descriptor r) \<noteq> zeroDigest \<and> sha256 bin \<noteq> ad_contentDigest (pr_descriptor r)
      then Err ErrArtifactCorrupt ''content digest mismatch''
      else if pr_id r \<noteq> i \<or> pr_generation r \<noteq> gen then Err ErrMetadataCorrupt ''metadata id/generation mismatch''
      else Ok (r\<lparr>pr_contentBytes := bin\<rparr>))"

definition ps_load :: "Id128 \<Rightarrow> u64 \<Rightarrow> Disk \<Rightarrow> PersistedRecord result eff" where
  "ps_load i gen disk =
     (case readAll (metaPath i gen) disk of
        None \<Rightarrow> Ret (Err ErrNotFound (''metadata file missing for artifact '' @ toHex i @ ''_'' @ dec_int (uint gen)))
      | Some mb \<Rightarrow> ebind (decodeMeta mb) (\<lambda>parsed. Ret (case parsed of
            Inl error \<Rightarrow> Err ErrMetadataCorrupt error
          | Inr r \<Rightarrow> (case readAll (binPath i gen) disk of
                None \<Rightarrow> Err ErrArtifactTruncated (''content file missing for artifact '' @ toHex i @ ''_'' @ dec_int (uint gen))
              | Some bin \<Rightarrow> load_content i gen r bin))))"

text \<open>\<open>std::strtoull\<close> in base 10 on a text without NUL.\<close>

definition is_space :: "char \<Rightarrow> bool" where
  "is_space c \<longleftrightarrow> (of_char c :: nat) \<in> {9, 10, 11, 12, 13, 32}"

definition strtoull :: "string \<Rightarrow> u64" where
  "strtoull s =
     (let s1 = dropWhile is_space s;
          neg = (case s1 of c # _ \<Rightarrow> c = CHR ''-'' | [] \<Rightarrow> False);
          s2 = (case s1 of c # cs \<Rightarrow> if c = CHR ''-'' \<or> c = CHR ''+'' then cs else s1 | [] \<Rightarrow> []);
          v = digits_value (takeWhile is_digit s2)
      in if 2 ^ 64 \<le> v then - 1 else if neg then - of_int v else of_int v)"

definition ends_with :: "string \<Rightarrow> string \<Rightarrow> bool" where
  "ends_with name suf \<longleftrightarrow> length suf \<le> length name \<and> drop (length name - length suf) name = suf"

definition parse_name :: "string \<Rightarrow> (Id128 \<times> u64) option" where
  "parse_name name =
     (if \<not> ends_with name ''.meta'' \<or> CHR ''_'' \<notin> set name then None
      else let idHex = takeWhile (\<lambda>c. c \<noteq> CHR ''_'') name;
               us = length idHex;
               genStr = take (length name - (us + 1) - 5) (drop (us + 1) name)
           in map_option (\<lambda>i. (i, strtoull genStr)) (id_parse idHex))"

text \<open>
  \<open>name.size() - (us + 1) - 5\<close> wraps when the underscore is inside the suffix, which
  \<open>substr\<close> then clips to the rest; the suffix has no underscore, so \<open>us + 1 + 5\<close> never
  exceeds the size.
\<close>

definition ps_list :: "string list \<Rightarrow> (Id128 \<times> u64) list" where
  "ps_list names = List.map_filter parse_name names"

definition ps_loadLatest :: "Id128 \<Rightarrow> string list \<Rightarrow> Disk \<Rightarrow> PersistedRecord result eff" where
  "ps_loadLatest i names disk =
     (let (latest, any) = fold (\<lambda>(a, g) (latest, any). if a = i \<and> latest < g then (g, True) else (latest, any))
            (ps_list names) (0, False)
      in if \<not> any then Ret (Err ErrNotFound (''no generations for artifact '' @ toHex i)) else ps_load i latest disk)"

definition ps_remove :: "Id128 \<Rightarrow> u64 \<Rightarrow> Disk \<Rightarrow> unit result \<times> Disk" where
  "ps_remove i gen disk = (Ok (), smap_del (binPath i gen) (smap_del (metaPath i gen) disk))"

section \<open>Recovery\<close>

record RecoveryResult =
  rr_valid :: "PersistedRecord list"
  rr_corrupted :: "PersistedRecord list"
  rr_invalidated :: "PersistedRecord list"
  rr_orphanTempRemoved :: "string list"

definition recover_one :: "Id128 \<times> u64 \<Rightarrow> PersistedRecord result \<Rightarrow> RecoveryResult \<Rightarrow> RecoveryResult" where
  "recover_one ig l res =
     (case l of
        Err _ m \<Rightarrow> res\<lparr>rr_corrupted := rr_corrupted res @
          [pr_default\<lparr>pr_id := fst ig, pr_generation := snd ig, pr_corrupted := True, pr_error := m\<rparr>]\<rparr>
      | Ok r \<Rightarrow> if pr_invalidated r then res\<lparr>rr_invalidated := rr_invalidated res @ [r]\<rparr>
                else res\<lparr>rr_valid := rr_valid res @ [r]\<rparr>)"

fun recover_loop :: "(Id128 \<times> u64) list \<Rightarrow> Disk \<Rightarrow> RecoveryResult \<Rightarrow> RecoveryResult eff" where
  "recover_loop [] disk res = Ret res"
| "recover_loop (ig # igs) disk res =
     ebind (ps_load (fst ig) (snd ig) disk) (\<lambda>l. recover_loop igs disk (recover_one ig l res))"

text \<open>
  \<open>names\<close> is the directory in the order it is iterated, \<open>gone\<close> tells which removals succeed:
  their error code is not looked at, and the path is recorded either way.
\<close>

definition ps_recover :: "(string \<Rightarrow> bool) \<Rightarrow> string list \<Rightarrow> Disk \<Rightarrow> (RecoveryResult \<times> Disk) eff" where
  "ps_recover gone names disk =
     (let orphans = filter (\<lambda>n. ends_with n ''.tmp'') names;
          disk' = fold smap_del (filter gone orphans) disk
      in ebind (recover_loop (ps_list (filter (\<lambda>n. \<not> ends_with n ''.tmp'') names)) disk'
           \<lparr>rr_valid = [], rr_corrupted = [], rr_invalidated = [], rr_orphanTempRemoved = orphans\<rparr>)
           (\<lambda>res. Ret (res, disk')))"

section \<open>Metadata reads back\<close>

lemma json_ok_text: "json_ok j \<Longrightarrow> \<exists>t. json_dump j = Some t \<and> json_parse t = Some j"
proof -
  assume j: "json_ok j"
  obtain t where t: "dumpTo j = Some t" using dump_total [OF j] by blast
  then have "parse_value (t @ []) = Some (j, [])"
    using json_ok_parses [OF j] number_end_punct(4) unfolding parses_def by blast
  then show ?thesis using t by (simp add: json_dump_def json_parse_def skipWs_def)
qed

lemma json_set_sets: "json_set k v (json_sets kvs) = json_sets (kvs @ [(k, v)])"
  by (simp add: json_sets_fold json_set_JObj)

lemma json_get_set: "json_get k (json_set k' v (json_sets kvs)) = (if k = k' then Some v else json_get k (json_sets kvs))"
  by (simp add: json_set_sets json_get_sets)

lemma meta_json_get:
  "json_get k (meta_json r) = (if k = ''superseded'' then Some (JBool (pr_superseded r))
     else if k = ''invalidated'' then Some (JBool (pr_invalidated r)) else json_get k (ad_toJson (pr_descriptor r)))"
  unfolding meta_json_def ad_toJson_def json_set_sets by (simp add: json_get_sets)

lemma meta_json_descriptor: "ad_fromJson (meta_json r) = ad_fromJson (ad_toJson (pr_descriptor r))"
  by (simp add: ad_fromJson_def JSTR_def JNUM_def meta_json_get)

lemma json_ok_set: "json_ok (json_sets kvs) \<Longrightarrow> json_ok v \<Longrightarrow> json_ok (json_set k v (json_sets kvs))"
  using set_smap_put_sub by (fastforce simp: json_sets_fold json_set_JObj list_all_iff smap_inv_put)

lemma meta_json_ok: "ad_ok (pr_descriptor r) \<Longrightarrow> json_ok (meta_json r)"
proof -
  assume "ad_ok (pr_descriptor r)"
  then have ok: "json_ok (ad_toJson (pr_descriptor r))" by (rule ad_to_ok)
  obtain kvs where kvs: "ad_toJson (pr_descriptor r) = json_sets kvs" by (simp add: ad_toJson_def)
  have "json_ok (json_set ''invalidated'' (JBool (pr_invalidated r)) (json_sets kvs))"
    using ok by (intro json_ok_set) (simp_all add: kvs)
  then show ?thesis unfolding meta_json_def kvs json_set_sets [of "''invalidated''"] by (intro json_ok_set) simp_all
qed

text \<open>
  \<open>pr_text\<close>: the texts in the metadata read back, that is, the numbers of the descriptor are
  exact, its digests have 32 bytes, the key is well formed with known tags, and the payload
  fits a 64-bit size. \<open>pr_own\<close>: the descriptor is that of the record: identity, generation
  and content digest agree (a zero digest agrees with any content).
\<close>

definition pr_text :: "PersistedRecord \<Rightarrow> bool" where
  "pr_text r \<longleftrightarrow> ad_ok (pr_descriptor r) \<and> key_wf (pr_key r) \<and> (\<forall>e \<in> set (pr_key r). valid_tag (ke_tag e)) \<and>
     (\<forall>t. json_dump (meta_json r) = Some t \<longrightarrow> small (meta_payload r t @ replicate 32 0))"

definition pr_own :: "PersistedRecord \<Rightarrow> bool" where
  "pr_own r \<longleftrightarrow> ad_id (pr_descriptor r) = pr_id r \<and> ad_generation (pr_descriptor r) = pr_generation r \<and>
     (ad_contentDigest (pr_descriptor r) = zeroDigest \<or> ad_contentDigest (pr_descriptor r) = sha256 (pr_contentBytes r))"

definition pr_kept :: "PersistedRecord \<Rightarrow> PersistedRecord" where
  "pr_kept r = r\<lparr>pr_descriptor := ad_kept (pr_descriptor r), pr_corrupted := False, pr_error := []\<rparr>"

text \<open>What the metadata of a record is read back as.\<close>

definition meta_read :: "PersistedRecord \<Rightarrow> PersistedRecord" where
  "meta_read r = (pr_kept r)\<lparr>pr_contentBytes := [], pr_id := ad_id (pr_descriptor r), pr_generation := ad_generation (pr_descriptor r)\<rparr>"

lemma rd_or_Got [simp]: "rd_or (Got x r) e k = k x r"
  by (simp add: rd_or_def)

lemma decode_payload_enc:
  assumes "fromCanonicalBytes kb = Some key" "json_parse js = Some j" "ad_fromJson j = Some desc" "length cd = 32"
    and "small (pre @ w_string (string_of kb) @ w_string js @ cd @ rest)"
  shows "decode_payload (reader_at pre (w_string (string_of kb) @ w_string js @ cd @ rest)) = Ret (Inr (meta_record key j desc))"
  using assms by (simp add: decode_payload_def c_str.dec_enc c_raw32.dec_enc)

lemma decodeMeta_enc:
  assumes "small (w_string kMetaMagic @ putU32BE kVersion @ pl @ sha256 (w_string kMetaMagic @ putU32BE kVersion @ pl))"
  shows "decodeMeta ((w_string kMetaMagic @ putU32BE kVersion @ pl) @ sha256 (w_string kMetaMagic @ putU32BE kVersion @ pl)) =
     decode_payload (reader_at (w_string kMetaMagic @ putU32BE kVersion) (pl @ sha256 (w_string kMetaMagic @ putU32BE kVersion @ pl)))"
  using assms c_str.dec_enc [where x = kMetaMagic and pre = "[]"] c_u32.dec_enc [where x = kVersion and pre = "w_string kMetaMagic"]
  by (simp add: decodeMeta_def reader_on_at remaining_at)

lemma record_meta:
  assumes "pr_text r"
  obtains m where "encodeMeta r = Some m" "decodeMeta m = Ret (Inr (meta_read r))"
proof -
  have ok: "ad_ok (pr_descriptor r)" and d: "length (ad_contentDigest (pr_descriptor r)) = 32" using assms by (auto simp: pr_text_def ad_ok_def)
  obtain t where t: "json_dump (meta_json r) = Some t" "json_parse t = Some (meta_json r)"
    using json_ok_text [OF meta_json_ok [OF ok]] by blast
  let ?kb = "makeCanonicalFields (pr_key r)"
  let ?pl = "w_string (string_of ?kb) @ w_string t @ ad_contentDigest (pr_descriptor r)"
  have w: "meta_payload r t = w_string kMetaMagic @ putU32BE kVersion @ ?pl" by (simp add: meta_payload_def)
  have sm: "small (meta_payload r t @ sha256 (meta_payload r t))" using assms t by (simp add: pr_text_def small_def)
  have key: "fromCanonicalBytes ?kb = Some (pr_key r)"
    using assms sm key_bytes_back [of "pr_key r"] by (simp add: pr_text_def w small_def w_string_def)
  have desc: "ad_fromJson (meta_json r) = Some (ad_kept (pr_descriptor r))"
    by (simp add: meta_json_descriptor ad_from_to ok)
  have "decodeMeta (meta_payload r t @ sha256 (meta_payload r t)) = Ret (Inr (meta_record (pr_key r) (meta_json r) (ad_kept (pr_descriptor r))))"
    unfolding w using decodeMeta_enc [of ?pl] decode_payload_enc [OF key t(2) desc d] sm by (simp add: w)
  moreover have "meta_record (pr_key r) (meta_json r) (ad_kept (pr_descriptor r)) = meta_read r"
    using assms by (cases r) (simp add: meta_record_def meta_read_def pr_kept_def pr_default_def pr_text_def flag_of_def meta_json_get asBool_def ad_kept_def)
  ultimately show ?thesis using that t(1) by (auto simp: encodeMeta_def Let_def)
qed

section \<open>Length of a printed value\<close>

fun jlen :: "Json \<Rightarrow> nat" where
  "jlen JNull = 4"
| "jlen (JBool b) = 5"
| "jlen (JNum d) = 17"
| "jlen (JStr s) = 2 + 6 * length s"
| "jlen (JArr a) = 2 + sum_list (map (\<lambda>x. jlen x + 1) a)"
| "jlen (JObj m) = 2 + sum_list (map (\<lambda>kv. 6 * length (fst kv) + 4 + jlen (snd kv)) m)"

lemma length_dec_pos: "0 \<le> n \<Longrightarrow> n < 10 ^ Suc k \<Longrightarrow> length (dec_pos n) \<le> Suc k"
proof (induction k arbitrary: n)
  case (Suc k)
  then show ?case by (cases "n < 10") (auto simp: dec_pos.simps [of n])
qed (simp add: dec_pos.simps)

lemma length_escape: "length (escapeTo s) \<le> 2 + 6 * length s"
proof -
  have "length (escape_char c) \<le> 6" for c by (simp add: escape_char_def Let_def)
  then have "length (concat (map escape_char s)) \<le> 6 * length s"
    by (induction s) (auto intro: add_mono)
  then show ?thesis by (simp add: escapeTo_def)
qed

lemma length_commas: "length (commas ts) \<le> sum_list (map (\<lambda>t. length t + 1) ts)"
  by (induction ts) (auto simp: commas_Cons, simp add: commas_def)

lemma those_bound:
  assumes "those (map f xs) = Some ts" "\<And>x t. x \<in> set xs \<Longrightarrow> f x = Some t \<Longrightarrow> length t + 1 \<le> g x"
  shows "sum_list (map (\<lambda>t. length t + 1) ts) \<le> sum_list (map g xs)"
  using assms
proof (induction xs arbitrary: ts)
  case (Cons x xs)
  then obtain t us where "f x = Some t" "those (map f xs) = Some us" "ts = t # us" by (auto split: option.splits)
  then show ?case using Cons.IH [of us] Cons.prems(2) by (fastforce intro: add_mono)
qed simp

lemma dump_length: "json_ok j \<Longrightarrow> dumpTo j = Some t \<Longrightarrow> length t \<le> jlen j"
proof (induction j arbitrary: t)
  case (JNum d)
  then obtain n where n: "d = Fin (of_int n)" "\<bar>n\<bar> < 2 ^ 53" by (auto simp: exact_int_def)
  then have "\<bar>n\<bar> < 10 ^ Suc 15" by simp
  then have "length (dec_pos \<bar>n\<bar>) \<le> 16" using length_dec_pos [of "\<bar>n\<bar>" 15] by simp
  then show ?case using JNum n by (auto simp: dump_number_int dec_int_def split: if_splits)
next
  case (JArr a)
  then obtain ts where ts: "those (map dumpTo a) = Some ts" "t = ''['' @ commas ts @ '']''" by auto
  have "length u + 1 \<le> jlen x + 1" if "x \<in> set a" "dumpTo x = Some u" for x u
    using JArr that by (auto simp: list_all_iff)
  then have "sum_list (map (\<lambda>t. length t + 1) ts) \<le> sum_list (map (\<lambda>x. jlen x + 1) a)"
    by (rule those_bound [OF ts(1)])
  then show ?case using length_commas [of ts] ts(2) by simp
next
  case (JObj m)
  then obtain ts where ts: "those (map (\<lambda>kv. map_option (\<lambda>t. escapeTo (fst kv) @ '':'' @ t) (dumpTo (snd kv))) m) = Some ts"
    "t = ''{'' @ commas ts @ ''}''" by auto
  have "length u + 1 \<le> 6 * length (fst kv) + 4 + jlen (snd kv)"
    if kv: "kv \<in> set m" and u: "map_option (\<lambda>t. escapeTo (fst kv) @ '':'' @ t) (dumpTo (snd kv)) = Some u" for kv u
  proof -
    obtain v where v: "dumpTo (snd kv) = Some v" "u = escapeTo (fst kv) @ '':'' @ v"
      using u by (cases "dumpTo (snd kv)") auto
    then have "length v \<le> jlen (snd kv)"
      using JObj.IH [of kv "snd kv" v] JObj.prems kv by (cases kv) (auto simp: list_all_iff)
    then show ?thesis using length_escape [of "fst kv"] v by simp
  qed
  then have "sum_list (map (\<lambda>t. length t + 1) ts) \<le> sum_list (map (\<lambda>kv. 6 * length (fst kv) + 4 + jlen (snd kv)) m)"
    by (rule those_bound [OF ts(1)])
  then show ?case using length_commas [of ts] ts(2) by simp
qed (use length_escape in \<open>auto split: if_splits\<close>)

definition fields_len :: "(string \<times> Json) list \<Rightarrow> nat" where
  "fields_len kvs = sum_list (map (\<lambda>kv. 6 * length (fst kv) + 4 + jlen (snd kv)) kvs)"

lemma fields_len_simps [simp]:
  "fields_len [] = 0" "fields_len ((k, v) # kvs) = 6 * length k + 4 + jlen v + fields_len kvs"
  "fields_len (xs @ ys) = fields_len xs + fields_len ys"
  by (simp_all add: fields_len_def)

lemma jlen_sets: "jlen (json_sets kvs) \<le> 2 + fields_len kvs"
proof -
  have put: "fields_len (smap_put k v m) \<le> fields_len [(k, v)] + fields_len m" for k v m
    by (induction k v m rule: smap_put.induct) auto
  have "fields_len (fold (\<lambda>(k, v). smap_put k v) kvs m) \<le> fields_len kvs + fields_len m" for m
  proof (induction kvs arbitrary: m)
    case (Cons kv kvs)
    obtain k v where kv: "kv = (k, v)" by (cases kv)
    show ?case using Cons.IH [of "smap_put k v m"] put [of k v m] by (simp add: kv)
  qed simp
  from this [of "[]"] show ?thesis by (simp add: json_sets_fold fields_len_def)
qed

section \<open>Storing and loading\<close>

lemma dec_int_inject: "0 \<le> n \<Longrightarrow> 0 \<le> m \<Longrightarrow> dec_int n = dec_int m \<longleftrightarrow> n = m"
  by (metis dec_int_def digits_value_dec_pos not_less)

lemma path_inject:
  "metaPath i g = metaPath i' g' \<longleftrightarrow> i = i' \<and> g = g'"
  "binPath i g = binPath i' g' \<longleftrightarrow> i = i' \<and> g = g'"
  by (auto simp: metaPath_def binPath_def append_eq_append_conv dec_int_inject intro: word_uint_eqI)

lemma last_path:
  "last (metaPath i g) = CHR ''a''" "last (binPath i g) = CHR ''n''" "last (p @ ''.tmp'') = CHR ''p''"
  by (simp_all add: metaPath_def binPath_def)

lemma path_distinct:
  "metaPath i g \<noteq> binPath i' g'" "binPath i g \<noteq> metaPath i' g'"
  "metaPath i g \<noteq> p @ ''.tmp''" "binPath i g \<noteq> p @ ''.tmp''"
proof -
  have "CHR ''a'' \<noteq> CHR ''n''" "CHR ''a'' \<noteq> CHR ''p''" "CHR ''n'' \<noteq> CHR ''p''" by simp_all
  then show "metaPath i g \<noteq> binPath i' g'" "binPath i g \<noteq> metaPath i' g'"
    "metaPath i g \<noteq> p @ ''.tmp''" "binPath i g \<noteq> p @ ''.tmp''"
    using last_path by metis+
qed

lemma atomicWrite_get:
  assumes "atomicWriteBytes f dest d disk = (ok, disk')" "\<not> ends_with p ''.tmp''"
  shows "map_of disk' p = (if ok \<and> p = dest then Some d else map_of disk p) \<and> (ok \<longleftrightarrow> f = WriteDone)"
proof -
  have "p \<noteq> dest @ ''.tmp''" using assms(2) by (auto simp: ends_with_def)
  then show ?thesis
    using assms(1) by (cases f) (auto simp: atomicWriteBytes_def Let_def smap_get_put smap_get_del)
qed

lemma paths_not_tmp: "\<not> ends_with (metaPath i g) ''.tmp''" "\<not> ends_with (binPath i g) ''.tmp''"
  by (simp_all add: ends_with_def metaPath_def binPath_def)

lemma ps_load_same:
  "map_of disk' (metaPath i g) = map_of disk (metaPath i g) \<Longrightarrow> map_of disk' (binPath i g) = map_of disk (binPath i g) \<Longrightarrow>
   ps_load i g disk' = ps_load i g disk"
proof -
  assume f: "map_of disk' (metaPath i g) = map_of disk (metaPath i g)" "map_of disk' (binPath i g) = map_of disk (binPath i g)"
  show ?thesis unfolding ps_load_def readAll_def f ..
qed

text \<open>The two files after a store, whatever fails.\<close>

lemma store_files:
  assumes "rt \<noteq> []" "encodeMeta r = Some m"
  obtains res disk' where "ps_store rt fm fb r disk = Some (res, disk')"
    "res = Ok () \<longleftrightarrow> fm = WriteDone \<and> fb = WriteDone"
    "\<forall>i g. map_of disk' (metaPath i g) = (if fm = WriteDone \<and> i = pr_id r \<and> g = pr_generation r then Some m else map_of disk (metaPath i g))"
    "\<forall>i g. map_of disk' (binPath i g) = (if fm = WriteDone \<and> fb = WriteDone \<and> i = pr_id r \<and> g = pr_generation r
        then Some (pr_contentBytes r) else map_of disk (binPath i g))"
proof -
  obtain ok1 d1 where w1: "atomicWriteBytes fm (metaPath (pr_id r) (pr_generation r)) m disk = (ok1, d1)" by fastforce
  obtain ok2 d2 where w2: "atomicWriteBytes fb (binPath (pr_id r) (pr_generation r)) (pr_contentBytes r) d1 = (ok2, d2)" by fastforce
  note g1 = atomicWrite_get [OF w1 paths_not_tmp(1)] atomicWrite_get [OF w1 paths_not_tmp(2)]
  note g2 = atomicWrite_get [OF w2 paths_not_tmp(1)] atomicWrite_get [OF w2 paths_not_tmp(2)]
  show ?thesis
  proof (cases ok1)
    case False
    then show ?thesis using that [of _ d1] assms w1 g1 by (simp add: ps_store_def path_inject path_distinct)
  next
    case True
    then show ?thesis
      using that [of _ d2] assms w1 w2 g1 g2 by (cases ok2) (simp_all add: ps_store_def path_inject path_distinct)
  qed
qed

lemma load_stored:
  assumes "pr_text r" "map_of disk (metaPath (pr_id r) (pr_generation r)) = Some m" "encodeMeta r = Some m"
  shows "ps_load (pr_id r) (pr_generation r) disk = Ret (case map_of disk (binPath (pr_id r) (pr_generation r)) of
     None \<Rightarrow> Err ErrArtifactTruncated (''content file missing for artifact '' @ toHex (pr_id r) @ ''_'' @ dec_int (uint (pr_generation r)))
   | Some bin \<Rightarrow> load_content (pr_id r) (pr_generation r) (meta_read r) bin)"
proof -
  have "decodeMeta m = Ret (Inr (meta_read r))"
    using record_meta [OF assms(1)] assms(3) by (metis option.inject)
  then show ?thesis using assms(2) by (simp add: ps_load_def readAll_def)
qed

text \<open>The content beside that metadata: what is accepted, and as which record.\<close>

lemma load_content_meta:
  "load_content (pr_id r) (pr_generation r) (meta_read r) bin = Ok x \<longleftrightarrow>
     pr_own (r\<lparr>pr_contentBytes := bin\<rparr>) \<and> x = (pr_kept r)\<lparr>pr_contentBytes := bin\<rparr>"
  by (cases r) (auto simp: load_content_def meta_read_def pr_kept_def pr_own_def ad_kept_def)

lemma not_Ok: "(\<forall>x. y \<noteq> Ok x) \<longleftrightarrow> (\<exists>c m. y = Err c m)"
  by (cases y) auto

text \<open>
  C17: Storing an artifact generation, whatever system call of its two writes fails or is the last
  before a crash. The record is one whose metadata text reads back: numbers below 2^53, digests of
  32 bytes, a well-formed key with known tags, a payload that fits a 64-bit size. Then: the store
  reports success exactly when both files were written; after a success the generation loads as the
  stored record (its vocabulary enums at their defaults) if the identity, generation and content
  digest of its descriptor are its own, and as an error otherwise, although the store succeeded;
  when the metadata was not written the generation loads as before; when only the metadata was
  written it loads as an error, or as the new metadata over an old content file that has the new
  digest; a failed store of a generation with no files before leaves one that loads as an error;
  and every other generation loads exactly as before.
\<close>

theorem store_atomic:
  assumes "pr_text r" "rt \<noteq> []"
  shows "\<exists>res disk'. ps_store rt fm fb r disk = Some (res, disk') \<and> (res = Ok () \<longleftrightarrow> fm = WriteDone \<and> fb = WriteDone) \<and>
     (res = Ok () \<longrightarrow> (if pr_own r then ps_load (pr_id r) (pr_generation r) disk' = Ret (Ok (pr_kept r))
        else \<exists>c m. ps_load (pr_id r) (pr_generation r) disk' = Ret (Err c m))) \<and>
     (fm \<noteq> WriteDone \<longrightarrow> ps_load (pr_id r) (pr_generation r) disk' = ps_load (pr_id r) (pr_generation r) disk) \<and>
     (fm = WriteDone \<and> fb \<noteq> WriteDone \<longrightarrow> (\<exists>c m. ps_load (pr_id r) (pr_generation r) disk' = Ret (Err c m)) \<or>
        (\<exists>old. map_of disk (binPath (pr_id r) (pr_generation r)) = Some old \<and> pr_own (r\<lparr>pr_contentBytes := old\<rparr>) \<and>
           ps_load (pr_id r) (pr_generation r) disk' = Ret (Ok ((pr_kept r)\<lparr>pr_contentBytes := old\<rparr>)))) \<and>
     (res \<noteq> Ok () \<and> map_of disk (metaPath (pr_id r) (pr_generation r)) = None \<and> map_of disk (binPath (pr_id r) (pr_generation r)) = None \<longrightarrow>
        (\<exists>c m. ps_load (pr_id r) (pr_generation r) disk' = Ret (Err c m))) \<and>
     (\<forall>i g. (i, g) \<noteq> (pr_id r, pr_generation r) \<longrightarrow> ps_load i g disk' = ps_load i g disk)"
proof -
  obtain m where m: "encodeMeta r = Some m" using record_meta [OF assms(1)] by blast
  obtain res disk' where st: "ps_store rt fm fb r disk = Some (res, disk')"
    and ok: "res = Ok () \<longleftrightarrow> fm = WriteDone \<and> fb = WriteDone"
    and mf: "\<forall>i g. map_of disk' (metaPath i g) = (if fm = WriteDone \<and> i = pr_id r \<and> g = pr_generation r then Some m else map_of disk (metaPath i g))"
    and bf: "\<forall>i g. map_of disk' (binPath i g) = (if fm = WriteDone \<and> fb = WriteDone \<and> i = pr_id r \<and> g = pr_generation r
        then Some (pr_contentBytes r) else map_of disk (binPath i g))"
    by (rule store_files [OF assms(2) m, where fm = fm and fb = fb and disk = disk]) (rule that)
  let ?load = "ps_load (pr_id r) (pr_generation r)" and ?accepts = "load_content (pr_id r) (pr_generation r) (meta_read r)"
  have others: "\<forall>i g. (i, g) \<noteq> (pr_id r, pr_generation r) \<longrightarrow> ps_load i g disk' = ps_load i g disk"
    by (intro allI impI ps_load_same) (auto simp: mf bf)
  have unwritten: "fm \<noteq> WriteDone \<longrightarrow> ?load disk' = ?load disk"
    by (intro impI ps_load_same) (auto simp: mf bf)
  have both: "?load disk' = Ret (?accepts (pr_contentBytes r))" if "res = Ok ()"
    using that ok load_stored [OF assms(1) _ m, of disk'] by (simp add: mf bf)
  have own: "if pr_own r then ?load disk' = Ret (Ok (pr_kept r)) else \<exists>c m. ?load disk' = Ret (Err c m)" if "res = Ok ()"
  proof (cases "?accepts (pr_contentBytes r)")
    case (Ok x)
    then show ?thesis using both [OF that] load_content_meta [of r "pr_contentBytes r" x] by (cases r) (simp add: pr_kept_def)
  next
    case (Err c e)
    then show ?thesis using both [OF that] load_content_meta [of r "pr_contentBytes r" "(pr_kept r)\<lparr>pr_contentBytes := pr_contentBytes r\<rparr>"]
      by (cases r) (simp add: pr_kept_def)
  qed
  have half: "(\<exists>c m. ?load disk' = Ret (Err c m)) \<or> (\<exists>old. map_of disk (binPath (pr_id r) (pr_generation r)) = Some old \<and>
      pr_own (r\<lparr>pr_contentBytes := old\<rparr>) \<and> ?load disk' = Ret (Ok ((pr_kept r)\<lparr>pr_contentBytes := old\<rparr>)))"
    if "fm = WriteDone" "fb \<noteq> WriteDone"
  proof (cases "map_of disk (binPath (pr_id r) (pr_generation r))")
    case None
    then show ?thesis using that load_stored [OF assms(1) _ m, of disk'] by (simp add: mf bf)
  next
    case (Some old)
    then have l: "?load disk' = Ret (?accepts old)" using that load_stored [OF assms(1) _ m, of disk'] by (simp add: mf bf)
    show ?thesis
    proof (cases "?accepts old")
      case (Ok x)
      then show ?thesis using l Some load_content_meta [of r old x] by simp
    qed (use l in simp)
  qed
  have none: "\<exists>c m. ?load disk' = Ret (Err c m)"
    if "res \<noteq> Ok ()" "map_of disk (metaPath (pr_id r) (pr_generation r)) = None" "map_of disk (binPath (pr_id r) (pr_generation r)) = None"
  proof (cases "fm = WriteDone")
    case True
    then show ?thesis using that ok half by auto
  next
    case False
    then show ?thesis using that by (simp add: ps_load_def readAll_def mf)
  qed
  show ?thesis
    by (intro exI [of _ res] exI [of _ disk'] conjI st ok others unwritten) (iprover intro: own half none)+
qed

text \<open>A small record whose printed form is known to be short.\<close>

definition sample_record :: PersistedRecord where
  "sample_record = pr_default\<lparr>pr_contentBytes := [1, 2, 3]\<rparr>"

lemma default_names_short:
  "length (vendorName AV_Unknown) \<le> 60" "length (familyName AF_Unknown) \<le> 60" "length (datatypeName DT_None) \<le> 60"
  "length (layoutName LO_None) \<le> 60" "length (quantizationName QM_None) \<le> 60" "length (precisionName PM_None) \<le> 60"
  "length (reproducibilityName RM_Unspecified) \<le> 60" "length (artifactFormatName FMT_Unknown) \<le> 60"
  by code_simp+

lemma length_digestToHex: "length (digestToHex d) = 2 * length d"
  by (induction d) (simp_all add: digestToHex_def bytesToHex_def)

lemma sample_ok: "pr_text sample_record"
proof -
  have ad: "ad_ok ad_default"
    by (simp add: ad_ok_def ad_default_def td_ok_def td_default_def cd_ok_def bd_ok_def spd_ok_def
        spd_default_def vd_ok_def vd_default_def dd_ok_def dd_default_def pd_ok_def pd_default_def
        num_ok_def zeroDigest_def)
  have "length t \<le> 90000" if "json_dump (meta_json sample_record) = Some t" for t
  proof -
    have sub: "jlen (td_toJson td_default) \<le> 9000" "jlen (cd_toJson cd_default) \<le> 9000" "jlen (bd_toJson bd_default) \<le> 9000"
      "jlen (spd_toJson spd_default) \<le> 9000" "jlen (vd_toJson vd_default) \<le> 9000" "jlen (dd_toJson dd_default) \<le> 9000"
      "jlen (pd_toJson pd_default) \<le> 9000"
      unfolding td_toJson_def cd_toJson_def bd_toJson_def spd_toJson_def vd_toJson_def dd_toJson_def pd_toJson_def
      using default_names_short
      by (intro order_trans [OF jlen_sets], simp add: td_default_def cd_default_def bd_default_def spd_default_def vd_default_def dd_default_def pd_default_def length_digestToHex zeroDigest_def)+
    have "length t \<le> jlen (meta_json sample_record)"
      using that dump_length [OF meta_json_ok, of sample_record] ad by (simp add: json_dump_def sample_record_def pr_default_def)
    also have "jlen (meta_json sample_record) \<le> 90000"
      unfolding meta_json_def ad_toJson_def json_set_sets using sub default_names_short
      by (intro order_trans [OF jlen_sets]) (simp add: sample_record_def pr_default_def ad_default_def length_digestToHex zeroDigest_def)
    finally show ?thesis .
  qed
  moreover have "length (makeCanonicalFields []) \<le> 100" by code_simp
  ultimately have "small (meta_payload sample_record t @ replicate 32 0)" if "json_dump (meta_json sample_record) = Some t" for t
    using that by (simp add: meta_payload_def small_def w_string_def kMetaMagic_def sample_record_def pr_default_def ad_default_def zeroDigest_def)
  then show ?thesis using ad by (simp add: pr_text_def sample_record_def pr_default_def key_wf_def ad_default_def)
qed

lemma store_atomic_witness:
  "\<exists>res disk'. ps_store ''root'' WriteDone (WriteFails 2) sample_record [] = Some (res, disk') \<and> res \<noteq> Ok () \<and>
     (\<exists>c m. ps_load (pr_id sample_record) (pr_generation sample_record) disk' = Ret (Err c m))"
proof -
  obtain res disk' where "ps_store ''root'' WriteDone (WriteFails 2) sample_record [] = Some (res, disk')"
    "res \<noteq> Ok ()" "\<exists>c m. ps_load (pr_id sample_record) (pr_generation sample_record) disk' = Ret (Err c m)"
    using store_atomic [OF sample_ok, of "''root''" WriteDone "WriteFails 2" "[]"] by auto
  then show ?thesis by blast
qed

section \<open>Recovering\<close>

lemma recover_loop_partition:
  assumes "recover_loop igs disk res = Ret res'"
  shows "\<exists>v c n. rr_valid res' = rr_valid res @ v \<and> rr_corrupted res' = rr_corrupted res @ c \<and> rr_invalidated res' = rr_invalidated res @ n \<and>
     length v + length c + length n = length igs \<and>
     (\<forall>r \<in> set v. \<not> pr_invalidated r \<and> (\<exists>ig \<in> set igs. ps_load (fst ig) (snd ig) disk = Ret (Ok r))) \<and>
     (\<forall>r \<in> set n. pr_invalidated r \<and> (\<exists>ig \<in> set igs. ps_load (fst ig) (snd ig) disk = Ret (Ok r))) \<and>
     (\<forall>ig \<in> set igs. \<forall>r. ps_load (fst ig) (snd ig) disk = Ret (Ok r) \<longrightarrow> r \<in> set (v @ n))"
  using assms
proof (induction igs arbitrary: res)
  case (Cons ig igs)
  then obtain l where l: "ps_load (fst ig) (snd ig) disk = Ret l" and rest: "recover_loop igs disk (recover_one ig l res) = Ret res'"
    by (cases "ps_load (fst ig) (snd ig) disk") auto
  from Cons.IH [OF rest] obtain v c n where
    *: "rr_valid res' = rr_valid (recover_one ig l res) @ v" "rr_corrupted res' = rr_corrupted (recover_one ig l res) @ c"
    "rr_invalidated res' = rr_invalidated (recover_one ig l res) @ n" "length v + length c + length n = length igs"
    "\<forall>r \<in> set v. \<not> pr_invalidated r \<and> (\<exists>ig \<in> set igs. ps_load (fst ig) (snd ig) disk = Ret (Ok r))"
    "\<forall>r \<in> set n. pr_invalidated r \<and> (\<exists>ig \<in> set igs. ps_load (fst ig) (snd ig) disk = Ret (Ok r))"
    "\<forall>ig \<in> set igs. \<forall>r. ps_load (fst ig) (snd ig) disk = Ret (Ok r) \<longrightarrow> r \<in> set (v @ n)" by blast
  show ?case
  proof (cases l)
    case (Ok r)
    then show ?thesis
    proof (cases "pr_invalidated r")
      case True
      then show ?thesis using Ok l * by (intro exI [of _ v] exI [of _ c] exI [of _ "r # n"]) (auto simp: recover_one_def)
    next
      case False
      then show ?thesis using Ok l * by (intro exI [of _ "r # v"] exI [of _ c] exI [of _ n]) (auto simp: recover_one_def)
    qed
  next
    case (Err e m)
    then show ?thesis using l * by (intro exI [of _ v] exI [of _ "_ # c"] exI [of _ n]) (auto simp: recover_one_def)
  qed
qed simp

lemma recover_loop_orphans: "recover_loop igs disk res = Ret res' \<Longrightarrow> rr_orphanTempRemoved res' = rr_orphanTempRemoved res"
  by (induction igs arbitrary: res) (auto simp: ebind_def recover_one_def split: eff.splits result.splits if_splits)

lemma map_of_fold_del: "map_of (fold smap_del ns disk) p = (if p \<in> set ns then None else map_of disk p)"
  by (induction ns arbitrary: disk) (auto simp: smap_get_del)

lemma load_tmp_removed: "ps_load i g (fold smap_del (filter gone (filter (\<lambda>n. ends_with n ''.tmp'') ns)) disk) = ps_load i g disk"
  "ps_load i g (fold smap_del (filter (\<lambda>n. ends_with n ''.tmp'' \<and> gone n) ns) disk) = ps_load i g disk"
  by (rule ps_load_same; simp add: map_of_fold_del paths_not_tmp)+

lemma load_Ok:
  assumes "ps_load i g disk = Ret (Ok r)"
  shows "pr_id r = i \<and> pr_generation r = g \<and> map_of disk (binPath i g) = Some (pr_contentBytes r) \<and>
    (ad_contentDigest (pr_descriptor r) = zeroDigest \<or> sha256 (pr_contentBytes r) = ad_contentDigest (pr_descriptor r))"
proof -
  from assms obtain mb parsed where "decodeMeta mb = Ret parsed" and p: "(case parsed of
            Inl error \<Rightarrow> Err ErrMetadataCorrupt error
          | Inr r \<Rightarrow> (case readAll (binPath i g) disk of
                None \<Rightarrow> Err ErrArtifactTruncated (''content file missing for artifact '' @ toHex i @ ''_'' @ dec_int (uint g))
              | Some bin \<Rightarrow> load_content i g r bin)) = Ok r"
    unfolding ps_load_def by (auto simp: ebind_def split: option.splits eff.splits)
  then obtain r0 bin where "map_of disk (binPath i g) = Some bin" "load_content i g r0 bin = Ok r"
    by (auto simp: readAll_def split: sum.splits option.splits)
  then show ?thesis by (auto simp: load_content_def split: if_splits)
qed

text \<open>
  C18: When recovery returns, every metadata file it lists is counted once as valid, invalidated
  or corrupt; each record it calls valid is not marked invalidated, its files loaded, its
  identity and generation are those of its file, and its content hashes to the recorded
  digest (unless that is zero); every record that loads is reported; the temporary files are
  reported, gone where the system removed them, and every other file is untouched.
\<close>

theorem recover_sound:
  assumes "ps_recover gone names disk = Ret (res, disk')"
  defines "igs \<equiv> ps_list (filter (\<lambda>n. \<not> ends_with n ''.tmp'') names)"
  shows "length (rr_valid res) + length (rr_corrupted res) + length (rr_invalidated res) = length igs \<and>
    (\<forall>r \<in> set (rr_valid res). \<not> pr_invalidated r \<and> (pr_id r, pr_generation r) \<in> set igs \<and>
       ps_load (pr_id r) (pr_generation r) disk = Ret (Ok r) \<and>
       (ad_contentDigest (pr_descriptor r) = zeroDigest \<or> sha256 (pr_contentBytes r) = ad_contentDigest (pr_descriptor r))) \<and>
    (\<forall>(i, g) \<in> set igs. \<forall>r. ps_load i g disk = Ret (Ok r) \<longrightarrow> r \<in> set (rr_valid res) \<union> set (rr_invalidated res)) \<and>
    rr_orphanTempRemoved res = filter (\<lambda>n. ends_with n ''.tmp'') names \<and>
    (\<forall>p. map_of disk' p = (if p \<in> set names \<and> ends_with p ''.tmp'' \<and> gone p then None else map_of disk p))"
proof -
  let ?d = "fold smap_del (filter gone (filter (\<lambda>n. ends_with n ''.tmp'') names)) disk"
  obtain res0 where loop: "recover_loop igs ?d res0 = Ret res" and d: "disk' = ?d" and
    z: "rr_valid res0 = []" "rr_corrupted res0 = []" "rr_invalidated res0 = []" "rr_orphanTempRemoved res0 = filter (\<lambda>n. ends_with n ''.tmp'') names"
    using assms by (fastforce simp: ps_recover_def Let_def ebind_def split: eff.splits)
  from recover_loop_partition [OF loop] obtain v c n where
    *: "rr_valid res = v" "rr_corrupted res = c" "rr_invalidated res = n" "length v + length c + length n = length igs"
    "\<forall>r \<in> set v. \<not> pr_invalidated r \<and> (\<exists>ig \<in> set igs. ps_load (fst ig) (snd ig) ?d = Ret (Ok r))"
    "\<forall>ig \<in> set igs. \<forall>r. ps_load (fst ig) (snd ig) ?d = Ret (Ok r) \<longrightarrow> r \<in> set (v @ n)" using z by auto
  have "\<not> pr_invalidated r \<and> (pr_id r, pr_generation r) \<in> set igs \<and> ps_load (pr_id r) (pr_generation r) disk = Ret (Ok r) \<and>
       (ad_contentDigest (pr_descriptor r) = zeroDigest \<or> sha256 (pr_contentBytes r) = ad_contentDigest (pr_descriptor r))"
    if r: "r \<in> set (rr_valid res)" for r
  proof -
    obtain i g where "(i, g) \<in> set igs" and l: "ps_load i g disk = Ret (Ok r)" and "\<not> pr_invalidated r"
      using r * by (auto simp: load_tmp_removed)
    then show ?thesis using load_Ok [OF l] by auto
  qed
  moreover have "\<forall>(i, g) \<in> set igs. \<forall>r. ps_load i g disk = Ret (Ok r) \<longrightarrow> r \<in> set (rr_valid res) \<union> set (rr_invalidated res)"
    using * by (auto simp: load_tmp_removed)
  moreover have "\<forall>p. map_of disk' p = (if p \<in> set names \<and> ends_with p ''.tmp'' \<and> gone p then None else map_of disk p)"
    by (auto simp: d map_of_fold_del)
  ultimately show ?thesis using * z recover_loop_orphans [OF loop] by simp
qed

lemma recover_sound_witness:
  "\<exists>res disk'. ps_recover (\<lambda>_. True) [''x.tmp''] [(''x.tmp'', [1])] = Ret (res, disk') \<and> map_of disk' ''x.tmp'' = None"
proof -
  obtain res disk' where r: "ps_recover (\<lambda>_. True) [''x.tmp''] [(''x.tmp'', [1])] = Ret (res, disk')"
    by (simp add: ps_recover_def Let_def ends_with_def ps_list_def List.map_filter_simps)
  from recover_sound [OF r] show ?thesis using r by (auto simp: ends_with_def)
qed

text \<open>A damaged file can stop the whole recovery.\<close>

lemma decodeMeta_throws:
  assumes "small d" "8 \<le> length d" "2 ^ 64 \<le> 8 + be_nat (take 8 d)"
  shows "decodeMeta d = LengthError"
proof -
  have "rwf (reader_on d)" using assms(1) by (simp add: reader_on_at)
  moreover have "view (reader_on d) = d" "rpos (reader_on d) = 0" by (simp_all add: reader_on_def view_def)
  ultimately have "rd_str (reader_on d) = Throw" using str_throw_iff [of "reader_on d"] assms by simp
  then show ?thesis by (simp add: decodeMeta_def rd_or_def)
qed

lemma recover_loop_stops: "ig \<in> set igs \<Longrightarrow> ps_load (fst ig) (snd ig) disk = LengthError \<Longrightarrow> recover_loop igs disk res \<noteq> Ret x"
  by (induction igs arbitrary: res) (auto simp: ebind_def split: eff.splits)

text \<open>
  C19: Recovery of the whole store fails, without classifying anything, as soon as one listed
  metadata file starts with a length of 2^64 - 8 or more: the reader's bounds check wraps,
  an exception escapes from the load, and recovery never returns a result, although such a
  file is plain corruption.
\<close>

theorem recover_throws:
  assumes "n \<in> set names" "parse_name n = Some (i, g)" "\<not> ends_with n ''.tmp''" "map_of disk (metaPath i g) = Some d"
    and "small d" "8 \<le> length d" "2 ^ 64 \<le> 8 + be_nat (take 8 d)"
  shows "ps_recover gone names disk \<noteq> Ret x"
proof -
  let ?d = "fold smap_del (filter gone (filter (\<lambda>n. ends_with n ''.tmp'') names)) disk"
  have "(i, g) \<in> set (ps_list (filter (\<lambda>n. \<not> ends_with n ''.tmp'') names))"
    using assms(1-3) by (auto simp: ps_list_def map_filter_def intro!: image_eqI [of _ _ n])
  moreover have "ps_load i g ?d = LengthError"
    unfolding load_tmp_removed using assms by (simp add: ps_load_def readAll_def decodeMeta_throws)
  ultimately show ?thesis
    using recover_loop_stops [of "(i, g)"] by (auto simp: ps_recover_def Let_def ebind_def split: eff.splits)
qed

lemma recover_throws_witness:
  "\<forall>x. ps_recover (\<lambda>_. True) [metaPath (Id128 0 1) 2] [(metaPath (Id128 0 1) 2, [0xFF, 0xFF, 0xFF, 0xFF, 0xFF, 0xFF, 0xFF, 0xFF])] \<noteq> Ret x"
proof (rule allI, rule recover_throws)
  show "parse_name (metaPath (Id128 0 1) 2) = Some (Id128 0 1, 2)" by code_simp
  show "small [0xFF :: u8, 0xFF, 0xFF, 0xFF, 0xFF, 0xFF, 0xFF, 0xFF]" by (rule small_few) simp
qed (simp_all add: paths_not_tmp be_nat_def)

end
