(* ===== verification/CF_Plan.thy ===== *)
theory CF_Plan
  imports CF_Request CF_Compatibility
begin

text \<open>
  The backend interface of \<open>Backend.hpp\<close>, the configuration of \<open>Fabric.hpp\<close>,
  and planning and toolchain context from \<open>Fabric.cpp\<close>. Whether the CUDA driver is
  present, the wall clock and the number of the plan are arguments.
\<close>

section \<open>Backends\<close>

record BackendCapabilities =
  bc_id :: string
  bc_name :: string
  bc_targetArchitecture :: string
  bc_compiler :: string
  bc_compilerVersion :: string
  bc_vendor :: AcceleratorVendor
  bc_family :: AcceleratorFamily
  bc_datatypes :: "string list"
  bc_layouts :: "string list"
  bc_featureFlags :: "string list"
  bc_synthetic :: bool
  bc_supportsNVRTC :: bool
  bc_supportsOffline :: bool
  bc_supportsExecution :: bool

record BackendOutput =
  bo_executable :: bytes
  bo_format :: ArtifactFormat
  bo_backend :: BackendDescriptor
  bo_compiler :: CompilerDescriptor
  bo_specialization :: SpecializationDescriptor
  bo_stages :: "StageResult list"
  bo_validation :: ValidationDescriptor
  bo_deterministic :: bool
  bo_referenceDigest :: string

definition bo_default :: BackendOutput where
  "bo_default = \<lparr>bo_executable = [], bo_format = FMT_Unknown, bo_backend = bd_default, bo_compiler = cd_default,
     bo_specialization = spd_default, bo_stages = [], bo_validation = vd_default, bo_deterministic = False,
     bo_referenceDigest = []\<rparr>"

text \<open>
  A loaded module is its kind and what a smoke run returns. The virtual calls of a
  backend take the moment of the call as their first argument, so that a backend may
  answer differently each time it is asked.
\<close>

record LoadedModule =
  lm_kind :: string
  lm_executeSmoke :: "Digest result"

record ICompilerBackend =
  bk_id :: string
  bk_checkCompatible :: "nat \<Rightarrow> CompilationPlan \<Rightarrow> unit result"
  bk_compile :: "nat \<Rightarrow> CompilationRequest \<Rightarrow> CompilationPlan \<Rightarrow> KeyToolchainContext \<Rightarrow> BackendOutput result"
  bk_validate :: "nat \<Rightarrow> ArtifactDescriptor \<Rightarrow> bytes \<Rightarrow> ValidationDescriptor result"
  bk_load :: "nat \<Rightarrow> ArtifactDescriptor \<Rightarrow> bytes \<Rightarrow> LoadedModule result"

section \<open>Configuration\<close>

record CompilationFabricConfig =
  cf_artifactRoot :: string
  cf_persistenceEnabled :: bool
  cf_persistOnCompile :: bool
  cf_allowCuda :: bool
  cf_autotuneEnabled :: bool
  cf_strictLifecycle :: bool
  cf_compatibilityPolicy :: CompilationCompatibilityPolicy
  cf_reproducibility :: ReproducibilityMode
  cf_namespaceName :: string
  cf_tenant :: string
  cf_maxEventRetention :: u64
  cf_environmentFingerprint :: string

definition cf_default :: CompilationFabricConfig where
  "cf_default = \<lparr>cf_artifactRoot = ''cf-artifacts'', cf_persistenceEnabled = True, cf_persistOnCompile = True,
     cf_allowCuda = True, cf_autotuneEnabled = True, cf_strictLifecycle = True, cf_compatibilityPolicy = po_default,
     cf_reproducibility = RM_BestEffort, cf_namespaceName = ''default'', cf_tenant = ''default'',
     cf_maxEventRetention = 8192, cf_environmentFingerprint = []\<rparr>"

section \<open>Planning\<close>

definition starts_with :: "string \<Rightarrow> string \<Rightarrow> bool" where
  "starts_with p s \<longleftrightarrow> take (length p) s = p"

definition is_cuda :: "string \<Rightarrow> bool" where
  "is_cuda backend \<longleftrightarrow> backend = ''cuda-nvrtc'' \<or> backend = ''cuda-nvcc''"

definition wantCuda :: "CompilationRequest \<Rightarrow> bool" where
  "wantCuda r \<longleftrightarrow> is_cuda (rq_backend r) \<or> starts_with ''sm_'' (rq_targetArchitecture r) \<or>
     rq_computeCapability r \<noteq> [] \<or> starts_with ''sm_'' (rq_isa r)"

definition selectBackend :: "bool \<Rightarrow> string list \<Rightarrow> CompilationRequest \<Rightarrow> string" where
  "selectBackend cudaOk backends r =
     (if wantCuda r \<and> cudaOk \<and> ''cuda-nvrtc'' \<in> set backends
      then (if rq_backend r = ''cuda-nvcc'' then ''cuda-nvcc'' else ''cuda-nvrtc'')
      else ''cpu'')"

definition planTarget :: "TargetDescriptor list \<Rightarrow> string \<Rightarrow> CompilationRequest \<Rightarrow> TargetDescriptor" where
  "planTarget targets backend r =
     (if is_cuda backend then
        let t = (case find (\<lambda>tt. td_architecture tt = ''sm_120'' \<or> td_vendor tt = AV_Nvidia) targets of
                   Some tt \<Rightarrow> tt | None \<Rightarrow> td_default);
            arch = (if rq_targetArchitecture r = [] then ''sm_120'' else rq_targetArchitecture r)
        in t\<lparr>td_vendor := AV_Nvidia, td_family := AF_NvidiaBlackwell, td_architecture := arch,
             td_computeCapability := (if rq_computeCapability r = [] then ''12.0'' else rq_computeCapability r),
             td_isa := arch\<rparr>
      else td_default\<lparr>td_vendor := AV_CPU, td_family := AF_X86_64, td_architecture := ''host-x86_64'',
             td_isa := ''x86_64'', td_abi := ''sysv64'', td_deviceCount := 1\<rparr>)"

definition planReason :: "string \<Rightarrow> string" where
  "planReason backend = ''selected backend '' @ backend @ '' because '' @
     (if is_cuda backend then ''request targeted an NVIDIA/CUDA architecture and NVRTC is available''
      else ''the request is CPU-targeted or CUDA is unavailable; the deterministic CPU backend satisfies it'')"

definition plan ::
  "CompilationFabricConfig \<Rightarrow> bool \<Rightarrow> string list \<Rightarrow> TargetDescriptor list \<Rightarrow> u64 \<Rightarrow> i64 \<Rightarrow> CompilationRequest \<Rightarrow>
   CompilationPlan result" where
  "plan config cudaOk backends targets planNo now r =
     (if rq_backend r \<noteq> [] \<and> rq_backend r \<notin> set backends \<and> rq_backend r \<noteq> ''cuda-nvcc''
      then Err ErrNoBackend (''no backend registered for '' @ rq_backend r)
      else let backend = selectBackend cudaOk backends r; cuda = is_cuda backend
           in Ok (pl_default\<lparr>pl_planId := fromU64 planNo, pl_request := r, pl_createdAt := now, pl_backend := backend,
               pl_compiler := (if cuda then ''nvrtc'' else if backend = ''cuda-nvcc'' then ''nvcc'' else ''cf-cpu''),
               pl_frontend := ''cf-frontend'',
               pl_optimizer := (if cuda then ''nvrtc-opt'' else ''cf-cpu-opt''),
               pl_linker := (if cuda then ''nvrtc'' else ''cf-cpu-link''),
               pl_runtime := (if cuda then ''cuda-driver'' else ''cf-cpu-runtime''),
               pl_target := planTarget targets backend r,
               pl_expectedFormat := (if cuda then FMT_CUBIN else FMT_Bytecode),
               pl_expectedValidationMethod := (if cuda then ''load-launch-reference'' else ''cpu-execute-reference''),
               pl_expectedDeploymentMethod := (if cuda then ''cuda-load'' else ''cpu-execute''),
               pl_specializationStrategy :=
                 (if rq_staticShape r \<noteq> [] then ''static-shape''
                  else if rq_symbolicShape r \<noteq> [] then ''dynamic-bounded'' else ''static-default''),
               pl_stages := [SK_Normalize, SK_Lower, SK_Optimize, SK_Codegen, SK_Validate, SK_Persist, SK_Deploy],
               pl_requiredToolchainCapabilities := [''compiler'', if cuda then ''nvrtc'' else ''deterministic''],
               pl_reproducibility :=
                 (if rq_reproducibility r \<noteq> RM_Unspecified then rq_reproducibility r else cf_reproducibility config),
               pl_cachePolicy := ''exact'', pl_reason := planReason backend\<rparr>))"

definition makeTc :: "CompilationPlan \<Rightarrow> ToolchainDescriptor \<Rightarrow> CompilationFabricConfig \<Rightarrow> KeyToolchainContext" where
  "makeTc p toolchain config =
     (let tc = tc_default\<lparr>tc_frontend := pl_frontend p, tc_frontendVersion := ''1.0.0''\<rparr>;
          tc' = (if is_cuda (pl_backend p) then
                   tc\<lparr>tc_compiler := ''nvrtc'', tc_compilerVersion := tcd_nvrtcVersion toolchain, tc_backend := ''cuda-nvrtc'',
                      tc_backendVersion := tcd_nvrtcVersion toolchain, tc_codeGenerator := ''nvrtc'', tc_optimizer := ''nvrtc-opt'',
                      tc_linker := ''nvrtc'', tc_runtime := ''cuda-driver'', tc_driver := ''nvidia'',
                      tc_driverVersion := tcd_cudaDriverVersion toolchain\<rparr>
                 else
                   tc\<lparr>tc_compiler := ''cf-cpu'', tc_compilerVersion := ''1.0.0'', tc_backend := ''cpu'', tc_backendVersion := ''1.0.0'',
                      tc_codeGenerator := ''cf-cpu-codegen'', tc_optimizer := ''cf-cpu-opt'', tc_linker := ''cf-cpu-link'',
                      tc_runtime := ''cf-cpu-runtime''\<rparr>)
      in tc'\<lparr>tc_environmentFingerprint := cf_environmentFingerprint config\<rparr>)"

text \<open>The key under which a request is compiled.\<close>

definition request_key :: "ToolchainDescriptor \<Rightarrow> CompilationFabricConfig \<Rightarrow> CompilationRequest \<Rightarrow> CompilationPlan \<Rightarrow> CompilationKey" where
  "request_key toolchain config r p = buildCompilationKey r p (makeTc p toolchain config)"

section \<open>What a plan is\<close>

lemma selectBackend_cases: "selectBackend c bs r \<in> {''cpu'', ''cuda-nvrtc'', ''cuda-nvcc''}"
  by (simp add: selectBackend_def)

text \<open>
  Planning refuses a request exactly when it names a backend that is neither registered
  nor cuda-nvcc. Otherwise it plans for a CUDA backend exactly when the request asks for
  CUDA (by backend, architecture, compute capability or ISA), the driver is present and
  the NVRTC backend is registered, and for the CPU otherwise; the target vendor follows
  that choice, the compiler of a CUDA plan is always nvrtc, even when cuda-nvcc was asked
  for, and the stage list is the fixed pipeline.
\<close>

theorem plan_chooses:
  "(case plan cfg cudaOk bs ts no now r of
      Err c m \<Rightarrow> c = ErrNoBackend \<and> rq_backend r \<noteq> [] \<and> rq_backend r \<notin> set bs \<and> rq_backend r \<noteq> ''cuda-nvcc''
    | Ok p \<Rightarrow> (rq_backend r = [] \<or> rq_backend r \<in> set bs \<or> rq_backend r = ''cuda-nvcc'') \<and> pl_request p = r \<and>
        (let cuda = (wantCuda r \<and> cudaOk \<and> ''cuda-nvrtc'' \<in> set bs)
         in is_cuda (pl_backend p) = cuda \<and> (cuda \<or> pl_backend p = ''cpu'') \<and>
            pl_compiler p = (if cuda then ''nvrtc'' else ''cf-cpu'') \<and>
            td_vendor (pl_target p) = (if cuda then AV_Nvidia else AV_CPU)) \<and>
        pl_stages p = [SK_Normalize, SK_Lower, SK_Optimize, SK_Codegen, SK_Validate, SK_Persist, SK_Deploy])"
  by (simp add: plan_def Let_def selectBackend_def is_cuda_def planTarget_def split: option.splits)

end
