(* ===== verification/CF_Fabric.thy ===== *)
theory CF_Fabric
  imports CF_Plan CF_Observability CF_Persistence
begin

text \<open>
  The orchestration runtime of \<open>Fabric.cpp\<close>. \<open>Impl\<close> is the shared state; every
  section that the code runs under \<open>regMutex_\<close> is one function on it, and what the
  owner of an attempt computes outside the lock is a function of its local data. The
  interleaving of these sections is the subject of the theory \<open>CF_Interleaving\<close>.

  Shared pointers to in-flight entries are indices into a heap of entries, so that the
  map, the owner and the waiters share one entry as in the code. The clocks, the faults
  of the file system and the moment of a backend call come from an environment.
\<close>

section \<open>State\<close>

record Env =
  en_millis :: "nat \<Rightarrow> i64"
  en_nanos :: "nat \<Rightarrow> i64"
  en_metaFault :: "nat \<Rightarrow> WriteFault"
  en_binFault :: "nat \<Rightarrow> WriteFault"

definition nowMs :: "Env \<Rightarrow> nat \<Rightarrow> i64" where
  "nowMs env m = of_int (trunc (of_int (sint (en_nanos env m)) / 1000000))"

record CacheEntry =
  ce_key :: CompilationKey
  ce_descriptor :: ArtifactDescriptor
  ce_bytes :: bytes
  ce_baseCacheGen :: u64
  ce_baseToolchainGen :: u64
  ce_inCache :: bool

record InflightEntry =
  fe_attempt :: Id128
  fe_done :: bool
  fe_success :: bool
  fe_result :: CompilationResult
  fe_failure :: ErrorCode
  fe_failureMsg :: string
  fe_waiters :: i32
  fe_baseCacheGen :: u64
  fe_baseToolchainGen :: u64

record Impl =
  im_backends :: "(string, ICompilerBackend) smap"
  im_toolchain :: ToolchainDescriptor
  im_targets :: "TargetDescriptor list"
  im_disk :: Disk
  im_cache :: "(CompilationKey, CacheEntry) smap"
  im_heap :: "InflightEntry list"
  im_inflight :: "(CompilationKey, nat) smap"
  im_epoch :: u64
  im_cacheGen :: u64
  im_toolchainGen :: u64
  im_artifactCounter :: u64
  im_obs :: Observability
  im_leaseCounts :: "(Id128, u64 list) smap"

text \<open>The CUDA target is advertised from the toolchain probe, the CPU target always.\<close>

definition discoverTargets :: "bool \<Rightarrow> ToolchainDescriptor \<Rightarrow> TargetDescriptor list" where
  "discoverTargets cudaOk toolchain =
     td_default\<lparr>td_vendor := AV_CPU, td_family := AF_X86_64, td_architecture := ''host-x86_64'', td_isa := ''x86_64'',
       td_abi := ''sysv64'', td_deviceCount := 1\<rparr> #
     (if tcd_nvccPresent toolchain \<or> tcd_nvrtcPresent toolchain \<or> cudaOk then
        [td_default\<lparr>td_vendor := AV_Nvidia, td_family := AF_NvidiaBlackwell, td_architecture := ''sm_120'', td_isa := ''sm_120'',
           td_computeCapability := ''12.0'', td_kernelABI := ''nvrtc'', td_abi := ''cuda'', td_deviceCount := 1,
           td_driverVersion := tcd_cudaDriverVersion toolchain\<rparr>]
      else [])"

definition fabric_init ::
  "CompilationFabricConfig \<Rightarrow> bool \<Rightarrow> ICompilerBackend \<Rightarrow> ICompilerBackend \<Rightarrow> ToolchainDescriptor \<Rightarrow> Disk \<Rightarrow> i64 \<Rightarrow> Impl" where
  "fabric_init config cudaOk cpuBackend cudaBackend toolchain disk now =
     \<lparr>im_backends = (if cf_allowCuda config \<and> cudaOk
        then smap_put ''cuda-nvcc'' cudaBackend (smap_put ''cuda-nvrtc'' cudaBackend (smap_put ''cpu'' cpuBackend []))
        else smap_put ''cpu'' cpuBackend []),
      im_toolchain = toolchain, im_targets = discoverTargets cudaOk toolchain, im_disk = disk,
      im_cache = [], im_heap = [], im_inflight = [], im_epoch = 1, im_cacheGen = 1, im_toolchainGen = 1,
      im_artifactCounter = 0,
      im_obs = obs_recordEvent now ''fabric_init'' (json_sets [(''cuda'', JBool cudaOk)])
        (obs_set ''toolchain_generation'' 1 (obs_set ''cache_generation'' 1 (obs_set ''coordinator_epoch'' 1 (obs_new 4096)))),
      im_leaseCounts = []\<rparr>"

definition on_obs :: "(Observability \<Rightarrow> Observability) \<Rightarrow> Impl \<Rightarrow> Impl" where
  "on_obs f i = i\<lparr>im_obs := f (im_obs i)\<rparr>"

definition registerBackend :: "ICompilerBackend \<Rightarrow> Impl \<Rightarrow> Impl" where
  "registerBackend b i = i\<lparr>im_backends := smap_put (bk_id b) b (im_backends i)\<rparr>"

definition generations :: "Impl \<Rightarrow> u64 \<times> u64 \<times> u64" where
  "generations i = (im_epoch i, im_cacheGen i, im_toolchainGen i)"

definition fabric_toolchains :: "Impl \<Rightarrow> ToolchainDescriptor result" where "fabric_toolchains i = Ok (im_toolchain i)"

definition fabric_targets :: "Impl \<Rightarrow> TargetDescriptor list result" where "fabric_targets i = Ok (im_targets i)"

definition uniqueHex :: "Env \<Rightarrow> nat \<Rightarrow> u64 \<Rightarrow> string" where
  "uniqueHex env m counter = toHex (Id128 0 ((counter * 2654435761) XOR en_nanos env m))"

section \<open>Sections of compile\<close>

definition reused_result ::
  "CompilationRequest \<Rightarrow> CompilationPlan \<Rightarrow> CompilationKey \<Rightarrow> CacheEntry \<Rightarrow> CompilationCompatibilityDecision \<Rightarrow> CompilationResult" where
  "reused_result request p key e dec =
     (let d = ce_descriptor e
      in rs_default\<lparr>rs_requestId := rq_requestId request, rs_planId := pl_planId p, rs_attemptId := pd_attemptId (ad_provenance d),
           rs_artifactId := ad_id d, rs_generation := ad_generation d, rs_key := key, rs_keyDigest := key_digest key,
           rs_artifact := d, rs_artifactBytes := ce_bytes e, rs_reused := True, rs_validated := vd_passed (ad_validation d),
           rs_deployable := True, rs_referenceMatched := vd_referenceComparison (ad_validation d),
           rs_compatibilityDecision := compatibilityOutcomeName (de_outcome dec), rs_backendUsed := bd_id (ad_backend d),
           rs_compileMs := 0, rs_totalMs := 0\<rparr>)"

text \<open>\<open>None\<close>: the decision throws.\<close>

definition fast_path ::
  "CompilationFabricConfig \<Rightarrow> i64 \<Rightarrow> CompilationRequest \<Rightarrow> CompilationPlan \<Rightarrow> CompilationKey \<Rightarrow> Impl \<Rightarrow>
   (CompilationResult option \<times> Impl) option" where
  "fast_path config now request p key i =
     (let miss = (None, on_obs (obs_count ''cache_misses'') i)
      in case map_of (im_cache i) key of
          None \<Rightarrow> Some miss
        | Some e \<Rightarrow> map_option (\<lambda>dec.
            if de_reusable dec \<and> ad_state (ce_descriptor e) = ''Deployable'' then
              let d = (ce_descriptor e)\<lparr>ad_lastAccess := now, ad_reuseCount := ad_reuseCount (ce_descriptor e) + 1\<rparr>;
                  e' = e\<lparr>ce_descriptor := d\<rparr>
              in (Some (reused_result request p key e' dec),
                  on_obs (obs_count ''reused_builds'' \<circ> obs_count ''cache_hits'') (i\<lparr>im_cache := smap_put key e' (im_cache i)\<rparr>))
            else miss) (decide (ce_key e) key (ce_descriptor e) (cf_compatibilityPolicy config)))"

definition new_flight :: "Id128 \<Rightarrow> u64 \<Rightarrow> u64 \<Rightarrow> InflightEntry" where
  "new_flight attempt cacheGen toolchainGen = \<lparr>fe_attempt = attempt, fe_done = False, fe_success = False, fe_result = rs_default,
     fe_failure = ErrOk, fe_failureMsg = [], fe_waiters = 0, fe_baseCacheGen = cacheGen, fe_baseToolchainGen = toolchainGen\<rparr>"

text \<open>The section that joins an attempt in flight (\<open>Inl\<close> its entry) or opens one (\<open>Inr\<close>).\<close>

definition join_flight :: "CompilationKey \<Rightarrow> Impl \<Rightarrow> (nat + nat) \<times> Impl" where
  "join_flight key i =
     (case (case map_of (im_inflight i) key of Some h \<Rightarrow> if \<not> fe_done (im_heap i ! h) then Some h else None | None \<Rightarrow> None) of
        Some h \<Rightarrow> (Inl h, on_obs (obs_count ''singleflight_waiters'')
          (i\<lparr>im_heap := (im_heap i)[h := (im_heap i ! h)\<lparr>fe_waiters := fe_waiters (im_heap i ! h) + 1\<rparr>]\<rparr>))
      | None \<Rightarrow>
          let n = im_artifactCounter i + 1; h = length (im_heap i)
          in (Inr h, i\<lparr>im_artifactCounter := n,
                im_heap := im_heap i @ [new_flight (fromU64 n) (im_cacheGen i) (im_toolchainGen i)],
                im_inflight := smap_put key h (im_inflight i)\<rparr>))"

text \<open>A waiter that finds its entry done.\<close>

definition wake :: "nat \<Rightarrow> Impl \<Rightarrow> (CompilationResult result \<times> Impl) option" where
  "wake h i =
     (let e = im_heap i ! h
      in if \<not> fe_done e then None
         else Some (if fe_success e then Ok (fe_result e) else Err (fe_failure e) (fe_failureMsg e),
                    on_obs (obs_count ''singleflight_wait_completions'') i))"

text \<open>The section in which an owner gives up: it is the same on every failing path.\<close>

definition fail_flight :: "nat \<Rightarrow> ErrorCode \<Rightarrow> string \<Rightarrow> (Observability \<Rightarrow> Observability) \<Rightarrow> Impl \<Rightarrow> Impl" where
  "fail_flight h code msg f i = on_obs f
     (i\<lparr>im_heap := (im_heap i)[h := (im_heap i ! h)\<lparr>fe_done := True, fe_success := False, fe_failure := code, fe_failureMsg := msg\<rparr>]\<rparr>)"

section \<open>Building, outside the lock\<close>

definition dbl_pos :: "dbl \<Rightarrow> bool" where
  "dbl_pos d = (case d of Fin x \<Rightarrow> 0 < x | Inf neg \<Rightarrow> \<not> neg)"

definition dbl_less :: "dbl \<Rightarrow> dbl \<Rightarrow> bool" where
  "dbl_less a b = (case (a, b) of (Fin x, Fin y) \<Rightarrow> x < y | (Fin _, Inf neg) \<Rightarrow> \<not> neg
     | (Inf neg, Fin _) \<Rightarrow> neg | (Inf n, Inf m) \<Rightarrow> n \<and> \<not> m)"

definition dbl_max :: dbl where
  "dbl_max = Fin ((2 - 1 / 2 ^ 52) * 2 ^ 1023)"

definition perf_ms :: "i64 \<Rightarrow> dbl" where
  "perf_ms nanos = (case double_of_int (sint nanos) of Fin x \<Rightarrow> round_double (x / 1000000) | Inf b \<Rightarrow> Inf b)"

record Tune =
  tu_cands :: "AutotuneCandidate list"
  tu_best :: dbl
  tu_winner :: "nat option"

definition variant_request :: "CompilationRequest \<Rightarrow> nat \<Rightarrow> CompilationRequest" where
  "variant_request r vi = r\<lparr>
     rq_optimizeLevel := (if vi = 0 then 0 else if sint (rq_optimizeLevel r) < 1 then 1 else rq_optimizeLevel r),
     rq_autotuneSeed := rq_autotuneSeed r + of_nat vi\<rparr>"

definition variant_descriptor :: "i64 \<Rightarrow> CompilationKey \<Rightarrow> BackendOutput \<Rightarrow> ArtifactDescriptor" where
  "variant_descriptor nanos key bo = ad_default\<lparr>ad_id := fromU64 (nanos AND 0x7FFFFFFFFFFFFFFF), ad_generation := 1,
     ad_format := bo_format bo, ad_specialization := bo_specialization bo, ad_backend := bo_backend bo,
     ad_keyDigest := key_digest key, ad_contentDigest := sha256 (bo_executable bo)\<rparr>"

text \<open>The moments of one variant: compile, descriptor, validate, load, and the two clock readings.\<close>

definition tune_variant ::
  "Env \<Rightarrow> ICompilerBackend \<Rightarrow> CompilationRequest \<Rightarrow> CompilationPlan \<Rightarrow> KeyToolchainContext \<Rightarrow> CompilationKey \<Rightarrow> nat \<Rightarrow> nat \<Rightarrow> Tune \<Rightarrow> Tune" where
  "tune_variant env b r p tc key m vi tu =
     (let vr = variant_request r vi;
          ac = ac_default\<lparr>ac_variantId := ''variant-'' @ dec_int (int vi),
                 ac_flags := json_sets [(''optimize_level'', JNum (double_of_int (sint (rq_optimizeLevel vr)))),
                                       (''seed'', JNum (double_of_int (uint (rq_autotuneSeed vr))))]\<rparr>
      in case bk_compile b m vr p tc of
          Err c msg \<Rightarrow> tu\<lparr>tu_cands := tu_cands tu @ [ac\<lparr>ac_validated := False, ac_perfMs := Fin (- 1), ac_reason := msg\<rparr>]\<rparr>
        | Ok bo \<Rightarrow>
            let vad = variant_descriptor (en_nanos env (m + 1)) key bo;
                ok = (case bk_validate b (m + 2) vad (bo_executable bo) of Ok vd \<Rightarrow> vd_passed vd | Err _ _ \<Rightarrow> False);
                perf = (if ok then (case bk_load b (m + 3) vad (bo_executable bo) of
                          Ok _ \<Rightarrow> perf_ms (en_nanos env (m + 5) - en_nanos env (m + 4)) | Err _ _ \<Rightarrow> Fin 0) else Fin 0);
                ac' = ac\<lparr>ac_validated := ok, ac_perfMs := perf, ac_artifactId := ad_id vad,
                         ac_reason := (if ok then (if dbl_pos perf then ''validated+measured'' else ''validated(nil perf)'')
                                       else ''validation_failed'')\<rparr>;
                tu' = tu\<lparr>tu_cands := tu_cands tu @ [ac']\<rparr>
            in if ok \<and> dbl_pos perf \<and> dbl_less perf (tu_best tu) then tu'\<lparr>tu_best := perf, tu_winner := Some vi\<rparr> else tu')"

definition tune_all ::
  "Env \<Rightarrow> ICompilerBackend \<Rightarrow> CompilationRequest \<Rightarrow> CompilationPlan \<Rightarrow> KeyToolchainContext \<Rightarrow> CompilationKey \<Rightarrow> nat \<Rightarrow> Tune" where
  "tune_all env b r p tc key m =
     (let tu = fold (\<lambda>vi. tune_variant env b r p tc key (m + 6 * vi) vi) [0..<nat (sint (rq_autotuneCandidates r))]
            \<lparr>tu_cands = [], tu_best = dbl_max, tu_winner = None\<rparr>
      in if tu_winner tu \<noteq> None then tu
         else tu\<lparr>tu_winner := find (\<lambda>vi. ac_validated (tu_cands tu ! vi)) [0..<length (tu_cands tu)]\<rparr>)"

record Built =
  bt_output :: BackendOutput
  bt_autotuned :: bool
  bt_winner :: string
  bt_cands :: "AutotuneCandidate list"

definition build_tuned ::
  "Env \<Rightarrow> ICompilerBackend \<Rightarrow> CompilationRequest \<Rightarrow> CompilationPlan \<Rightarrow> KeyToolchainContext \<Rightarrow> CompilationKey \<Rightarrow> nat \<Rightarrow> Built" where
  "build_tuned env b r p tc key m =
     (let tu = tune_all env b r p tc key m;
          m' = m + 6 * nat (sint (rq_autotuneCandidates r));
          (output, winner) = (case tu_winner tu of
             None \<Rightarrow> (bo_default, [])
           | Some w \<Rightarrow> (case bk_compile b m' (variant_request r w) p tc of
                 Ok wob \<Rightarrow> (wob, ac_variantId (tu_cands tu ! w)) | Err _ _ \<Rightarrow> (bo_default, [])));
          output' = (if bo_executable output = [] then
                       (case bk_compile b (m' + 1) r p tc of Ok wob \<Rightarrow> wob | Err _ _ \<Rightarrow> output) else output)
      in \<lparr>bt_output = output', bt_autotuned = True, bt_winner = winner, bt_cands = tu_cands tu\<rparr>)"

datatype BuildResult = BuildFails ErrorCode string "ObsOp list" | BuildDone Built

definition owner_build ::
  "Env \<Rightarrow> (string, ICompilerBackend) smap \<Rightarrow> CompilationRequest \<Rightarrow> CompilationPlan \<Rightarrow> KeyToolchainContext \<Rightarrow> CompilationKey \<Rightarrow> nat \<Rightarrow> BuildResult" where
  "owner_build env backends r p tc key m =
     (case map_of backends (pl_backend p) of
        None \<Rightarrow> BuildFails ErrNoBackend (''no backend '' @ pl_backend p) []
      | Some b \<Rightarrow> (case bk_checkCompatible b m p of
            Err c msg \<Rightarrow> BuildFails c msg [OCount ''compile_failures'' 1]
          | Ok _ \<Rightarrow>
              let done = (\<lambda>bt. if bo_executable (bt_output bt) = []
                     then BuildFails ErrBuildFailed ''no candidate produced an artifact'' [OCount ''compile_failures'' 1]
                     else BuildDone bt)
              in if rq_autotune r \<and> 1 < sint (rq_autotuneCandidates r)
                 then done (build_tuned env b r p tc key (m + 1))
                 else (case bk_compile b (m + 1) r p tc of
                     Err c msg \<Rightarrow> BuildFails c msg [OCount ''compile_failures'' 1,
                       ORecord (en_millis env (m + 1)) ''compile_failed'' (json_sets [(''backend'', JStr (pl_backend p)), (''error'', JStr msg)])]
                   | Ok bo \<Rightarrow> done \<lparr>bt_output = bo, bt_autotuned = False, bt_winner = [], bt_cands = []\<rparr>)))"

section \<open>Validation, outside the lock\<close>

text \<open>The descriptor reads the clock three times; \<open>clock\<close> holds the readings.\<close>

definition new_artifact ::
  "CompilationFabricConfig \<Rightarrow> (nat \<Rightarrow> i64) \<Rightarrow> CompilationRequest \<Rightarrow> CompilationPlan \<Rightarrow> CompilationKey \<Rightarrow> Id128 \<Rightarrow> u64 \<Rightarrow> u64 \<Rightarrow> BackendOutput \<Rightarrow> ArtifactDescriptor" where
  "new_artifact config clock r p key attempt idNo gen out = ad_default\<lparr>ad_id := fromU64 idNo, ad_generation := gen,
     ad_format := bo_format out, ad_contentDigest := sha256 (bo_executable out), ad_byteSize := of_nat (length (bo_executable out)),
     ad_keyDigest := key_digest key, ad_backend := bo_backend out, ad_compiler := bo_compiler out, ad_target := pl_target p,
     ad_specialization := bo_specialization out,
     ad_provenance := pd_default\<lparr>pd_requestId := rq_requestId r, pd_planId := pl_planId p, pd_attemptId := attempt, pd_createdAt := clock 0\<rparr>,
     ad_namespaceName := cf_namespaceName config, ad_tenant := cf_tenant config, ad_createdAt := clock 1, ad_lastAccess := clock 2,
     ad_state := ''Validating''\<rparr>"

definition make_deployable :: "CompilationPlan \<Rightarrow> ArtifactDescriptor \<Rightarrow> ArtifactDescriptor" where
  "make_deployable p art = art\<lparr>ad_state := ''Deployable'', ad_deployment := (ad_deployment art)\<lparr>dd_deployable := True,
     dd_runtimeCompatible := True, dd_architectureValidated := True, dd_generationValidated := True,
     dd_method := (if is_cuda (pl_backend p) then ''cuda-load'' else ''cpu-execute'')\<rparr>\<rparr>"

definition owner_validate ::
  "ICompilerBackend \<Rightarrow> nat \<Rightarrow> CompilationPlan \<Rightarrow> ArtifactDescriptor \<Rightarrow> bytes \<Rightarrow> (ErrorCode \<times> string) + ArtifactDescriptor" where
  "owner_validate b m p art executable =
     (case bk_validate b m art executable of
        Err c msg \<Rightarrow> Inl (c, msg)
      | Ok vd \<Rightarrow> if \<not> vd_passed vd then Inl (ErrValidationFailed, ''artifact failed validation: '' @ vd_message vd)
                else Inr (make_deployable p (art\<lparr>ad_validation := vd\<rparr>)))"

section \<open>Commit and completion\<close>

definition stale_message :: string where
  "stale_message = ''generation changed during compile; stale completion rejected''"

definition committed_event :: "ArtifactDescriptor \<Rightarrow> u64 \<Rightarrow> CompilationPlan \<Rightarrow> Json" where
  "committed_event art gen p = json_sets [(''artifact'', JStr (toHex (ad_id art))),
     (''gen'', JNum (double_of_int (uint gen))), (''backend'', JStr (pl_backend p))]"

definition persist_artifact ::
  "CompilationFabricConfig \<Rightarrow> WriteFault \<Rightarrow> WriteFault \<Rightarrow> CompilationKey \<Rightarrow> ArtifactDescriptor \<Rightarrow> u64 \<Rightarrow> bytes \<Rightarrow> Impl \<Rightarrow> Impl option" where
  "persist_artifact config wm wb key art gen content i =
     (if cf_persistenceEnabled config \<and> cf_persistOnCompile config then
        map_option (\<lambda>(sr, disk'). let i' = i\<lparr>im_disk := disk'\<rparr>
            in if result_ok sr then i' else on_obs (obs_count ''persistence_failures'') i')
          (ps_store (cf_artifactRoot config) wm wb
            (pr_default\<lparr>pr_id := ad_id art, pr_generation := gen, pr_key := key, pr_descriptor := art, pr_contentBytes := content\<rparr>)
            (im_disk i))
      else Some i)"

text \<open>\<open>Some (False, _)\<close> is the rejected stale completion; \<open>None\<close>: the text of the metadata is undefined.\<close>

definition commit ::
  "CompilationFabricConfig \<Rightarrow> Env \<Rightarrow> nat \<Rightarrow> nat \<Rightarrow> CompilationPlan \<Rightarrow> CompilationKey \<Rightarrow> ArtifactDescriptor \<Rightarrow> u64 \<Rightarrow> bytes \<Rightarrow> Impl \<Rightarrow> (bool \<times> Impl) option" where
  "commit config env m h p key art gen content i =
     (let e = im_heap i ! h
      in if fe_baseCacheGen e \<noteq> im_cacheGen i \<or> fe_baseToolchainGen e \<noteq> im_toolchainGen i then
           Some (False, fail_flight h ErrStaleGeneration stale_message (obs_count ''stale_authority_rejections'') i)
         else
           let ce = \<lparr>ce_key = key, ce_descriptor = art, ce_bytes = content, ce_baseCacheGen = im_cacheGen i,
                     ce_baseToolchainGen = im_toolchainGen i, ce_inCache = True\<rparr>;
               i' = on_obs (obs_recordEvent (en_millis env m) ''artifact_committed'' (committed_event art gen p) \<circ>
                            obs_set ''cache_generation'' (im_cacheGen i) \<circ> obs_count ''compiled_artifacts'')
                      (i\<lparr>im_cache := smap_put key ce (im_cache i)\<rparr>)
           in map_option (Pair True)
                (persist_artifact config (en_metaFault env m) (en_binFault env m) key art gen content i'))"

definition fresh_result ::
  "CompilationRequest \<Rightarrow> CompilationPlan \<Rightarrow> CompilationKey \<Rightarrow> Id128 \<Rightarrow> ArtifactDescriptor \<Rightarrow> u64 \<Rightarrow> Built \<Rightarrow> i64 \<Rightarrow> i64 \<Rightarrow> CompilationResult" where
  "fresh_result r p key attempt art gen bt compileMs validateMs =
     rs_default\<lparr>rs_requestId := rq_requestId r, rs_planId := pl_planId p, rs_attemptId := attempt, rs_artifactId := ad_id art,
       rs_generation := gen, rs_key := key, rs_keyDigest := key_digest key, rs_artifact := art,
       rs_artifactBytes := bo_executable (bt_output bt), rs_reused := False, rs_validated := True, rs_deployable := True,
       rs_referenceMatched := vd_referenceComparison (ad_validation art), rs_compatibilityDecision := ''Compiled'',
       rs_backendUsed := pl_backend p, rs_compileMs := compileMs, rs_totalMs := compileMs + validateMs,
       rs_autotuned := bt_autotuned bt, rs_autotuneWinner := bt_winner bt, rs_autotuneCandidates := bt_cands bt,
       rs_stages := map (\<lambda>s. sr_default\<lparr>sr_kind := sr_kind s, sr_ran := True, sr_succeeded := True, sr_durationMs := sr_durationMs s,
         sr_message := sr_message s\<rparr>) (bo_stages (bt_output bt))\<rparr>"

definition finish_flight :: "nat \<Rightarrow> CompilationResult \<Rightarrow> Impl \<Rightarrow> Impl" where
  "finish_flight h res i = on_obs (obs_count ''singleflight_completions'')
     (i\<lparr>im_heap := (im_heap i)[h := (im_heap i ! h)\<lparr>fe_done := True, fe_success := True, fe_result := res\<rparr>]\<rparr>)"

section \<open>Lookup\<close>

definition lookup ::
  "CompilationFabricConfig \<Rightarrow> CompilationKey \<Rightarrow> Impl \<Rightarrow> (CompilationCompatibilityDecision \<times> ArtifactDescriptor option) option" where
  "lookup config key i =
     (case map_of (im_cache i) key of
        None \<Rightarrow> Some (\<lparr>de_outcome = CO_RecompileRequiredSpecializationChange, de_reusable = False, de_reasons = [CR_None],
                    de_detail = ''no artifact for key''\<rparr>, None)
      | Some e \<Rightarrow> map_option (\<lambda>dec. (dec, Some (ce_descriptor e)))
          (decide (ce_key e) key (ce_descriptor e) (cf_compatibilityPolicy config)))"

section \<open>Invalidation and supersession\<close>

text \<open>What an invalidation does to one entry; the same three assignments everywhere.\<close>

definition invalidate_entry :: "CacheEntry \<Rightarrow> CacheEntry" where
  "invalidate_entry e = e\<lparr>ce_descriptor := (ce_descriptor e)\<lparr>ad_state := ''Invalidated'',
     ad_deployment := (ad_deployment (ce_descriptor e))\<lparr>dd_deployable := False\<rparr>,
     ad_validation := (ad_validation (ce_descriptor e))\<lparr>vd_passed := False\<rparr>\<rparr>\<rparr>"

definition map_entries :: "(CacheEntry \<Rightarrow> CacheEntry) \<Rightarrow> Impl \<Rightarrow> Impl" where
  "map_entries f i = i\<lparr>im_cache := map (\<lambda>(k, e). (k, f e)) (im_cache i)\<rparr>"

definition bump_cacheGen :: "Impl \<Rightarrow> Impl" where
  "bump_cacheGen i = on_obs (obs_count ''invalidations'' \<circ> obs_set ''cache_generation'' (im_cacheGen i + 1))
     (i\<lparr>im_cacheGen := im_cacheGen i + 1\<rparr>)"

definition invalidateByKey :: "i64 \<Rightarrow> CompilationKey \<Rightarrow> Impl \<Rightarrow> Impl" where
  "invalidateByKey now key i =
     on_obs (obs_recordEvent now ''invalidate'' (json_sets [(''key'', JStr (key_toHex key))]))
       (bump_cacheGen (case map_of (im_cache i) key of
          None \<Rightarrow> i | Some e \<Rightarrow> i\<lparr>im_cache := smap_put key (invalidate_entry e) (im_cache i)\<rparr>))"

definition invalidateById :: "Id128 \<Rightarrow> Impl \<Rightarrow> Impl" where
  "invalidateById aid i =
     bump_cacheGen (map_entries (\<lambda>e. if ad_id (ce_descriptor e) = aid then invalidate_entry e else e) i)"

definition invalidateByLogicalOperation :: "Id128 \<Rightarrow> Impl \<Rightarrow> Impl" where
  "invalidateByLogicalOperation op i =
     bump_cacheGen (map_entries (\<lambda>e. if get_logicalOperation (ce_key e) = Some op then invalidate_entry e else e) i)"

definition invalidateByCompilerGeneration :: "u64 \<Rightarrow> Impl \<Rightarrow> Impl" where
  "invalidateByCompilerGeneration gen i =
     (let i' = map_entries (\<lambda>e. if ce_baseToolchainGen e \<le> gen then invalidate_entry e else e) i
      in bump_cacheGen (i'\<lparr>im_toolchainGen := im_toolchainGen i' + 1\<rparr>))"

definition invalidateByDependencyGeneration :: "u64 \<Rightarrow> Impl \<Rightarrow> Impl" where
  "invalidateByDependencyGeneration gen i =
     bump_cacheGen (map_entries (\<lambda>e. case getU64 KF_DependencyGenerations (ce_key e) of
         None \<Rightarrow> e | Some dg \<Rightarrow> if dg \<le> gen then invalidate_entry e else e) i)"

definition supersede_entry :: "CacheEntry \<Rightarrow> CacheEntry" where
  "supersede_entry e = e\<lparr>ce_descriptor := (ce_descriptor e)\<lparr>ad_state := ''Superseded'',
     ad_deployment := (ad_deployment (ce_descriptor e))\<lparr>dd_deployable := False\<rparr>\<rparr>\<rparr>"

definition supersede :: "Id128 \<Rightarrow> u64 \<Rightarrow> Impl \<Rightarrow> Impl" where
  "supersede aid newGen i = on_obs (obs_count ''supersessions'')
     (map_entries (\<lambda>e. if ad_id (ce_descriptor e) = aid \<and> ad_generation (ce_descriptor e) < newGen
        then supersede_entry e else e) i)"

section \<open>Deployment and leases\<close>

definition find_artifact :: "Id128 \<Rightarrow> Impl \<Rightarrow> CacheEntry option" where
  "find_artifact aid i = map_option snd (find (\<lambda>(k, e). ad_id (ce_descriptor e) = aid) (im_cache i))"

definition deploy :: "nat \<Rightarrow> Id128 \<Rightarrow> Impl \<Rightarrow> LoadedModule result" where
  "deploy m aid i =
     (case find_artifact aid i of
        None \<Rightarrow> Err ErrNotFound ''artifact not in cache''
      | Some e \<Rightarrow>
          let desc = ce_descriptor e; backendId = bd_id (ad_backend desc)
          in if ad_state desc \<noteq> ''Deployable'' \<and> ad_state desc \<noteq> ''Deployed''
             then Err ErrNotDeployable (''artifact state is '' @ ad_state desc)
             else (case map_of (im_backends i) backendId of
                 None \<Rightarrow> Err ErrNoBackend (''no backend for '' @ backendId)
               | Some b \<Rightarrow> bk_load b m desc (ce_bytes e)))"

definition kMaxLeases :: nat where "kMaxLeases = 100000"

definition leases_of :: "Id128 \<Rightarrow> Impl \<Rightarrow> u64 list" where
  "leases_of aid i = (case map_of (im_leaseCounts i) aid of None \<Rightarrow> [] | Some v \<Rightarrow> v)"

definition acquire :: "Id128 \<Rightarrow> Impl \<Rightarrow> CompilationLease result \<times> Impl" where
  "acquire aid i =
     (case find_artifact aid i of
        None \<Rightarrow> (Err ErrNotFound ''artifact not found'', i)
      | Some e \<Rightarrow>
          let v = leases_of aid i @ [0]; v' = (if kMaxLeases < length v then [] else v)
          in (Ok \<lparr>ls_artifactId = Some aid, ls_generation = ad_generation (ce_descriptor e)\<rparr>,
              on_obs (obs_count ''active_leases'') (i\<lparr>im_leaseCounts := smap_put aid v' (im_leaseCounts i)\<rparr>)))"

definition release :: "CompilationLease \<Rightarrow> Impl \<Rightarrow> unit result \<times> Impl" where
  "release lease i =
     (case ls_artifactId lease of
        None \<Rightarrow> (Err ErrInvalidArgument ''invalid lease'', i)
      | Some aid \<Rightarrow> (case map_of (im_leaseCounts i) aid of
            None \<Rightarrow> (Err ErrLeaseUnderflow ''lease underflow'', i)
          | Some v \<Rightarrow> if v = [] then (Err ErrLeaseUnderflow ''lease underflow'', i)
                      else (Ok (), on_obs (obs_count ''lease_releases'') (i\<lparr>im_leaseCounts := smap_put aid (butlast v) (im_leaseCounts i)\<rparr>))))"

section \<open>Recovery\<close>

definition adopt :: "PersistedRecord \<Rightarrow> Impl \<Rightarrow> Impl" where
  "adopt r i = on_obs (obs_count ''recovered_artifacts'')
     (i\<lparr>im_cache := smap_put (pr_key r) \<lparr>ce_key = pr_key r, ce_descriptor = pr_descriptor r, ce_bytes = pr_contentBytes r,
        ce_baseCacheGen = im_cacheGen i, ce_baseToolchainGen = im_toolchainGen i, ce_inCache = True\<rparr> (im_cache i)\<rparr>)"

definition not_resident :: "CacheEntry \<Rightarrow> CacheEntry" where
  "not_resident e = e\<lparr>ce_descriptor := (ce_descriptor e)\<lparr>ad_deployment := (ad_deployment (ce_descriptor e))\<lparr>dd_moduleResident := False\<rparr>\<rparr>\<rparr>"

definition adopt_all :: "i64 \<Rightarrow> RecoveryResult \<Rightarrow> Impl \<Rightarrow> Impl" where
  "adopt_all now res i =
     (let i1 = fold adopt (rr_valid res) i;
          num = (\<lambda>n. JNum (double_of_int (int n)));
          i2 = on_obs (obs_count_by ''orphan_temps_removed'' (of_nat (length (rr_orphanTempRemoved res))) \<circ>
                       obs_count_by ''corruption_detected'' (of_nat (length (rr_corrupted res)))) i1;
          i3 = on_obs (\<lambda>ob. obs_set ''recovery_count'' (obs_get ''recovery_count'' ob + 1) ob) i2;
          i4 = on_obs (obs_recordEvent now ''recovery'' (json_sets
                [(''valid'', num (length (rr_valid res))), (''corrupted'', num (length (rr_corrupted res))),
                 (''invalidated'', num (length (rr_invalidated res))), (''orphan_temp'', num (length (rr_orphanTempRemoved res)))])) i3
      in map_entries not_resident i4)"

text \<open>
  Recovery has two parts. The scan of the store runs without the mutex; what it found is
  kept in a local variable of the call, nothing when persistence is off. The adoption runs
  under the mutex, and other threads may move between the two. \<open>gone\<close> says which
  temporary files the system lets the scan remove.
\<close>

definition recover_scan ::
  "CompilationFabricConfig \<Rightarrow> (string \<Rightarrow> bool) \<Rightarrow> string list \<Rightarrow> Impl \<Rightarrow> (RecoveryResult option \<times> Impl) eff" where
  "recover_scan config gone names i =
     (if \<not> cf_persistenceEnabled config then Ret (None, i)
      else ebind (ps_recover gone names (im_disk i)) (\<lambda>(res, disk'). Ret (Some res, i\<lparr>im_disk := disk'\<rparr>)))"

text \<open>The whole call, for a caller that is alone.\<close>

definition fabric_recover ::
  "CompilationFabricConfig \<Rightarrow> (string \<Rightarrow> bool) \<Rightarrow> i64 \<Rightarrow> string list \<Rightarrow> Impl \<Rightarrow> (unit result \<times> Impl) eff" where
  "fabric_recover config gone now names i = ebind (recover_scan config gone names i) (\<lambda>(found, i').
     Ret (Ok (), case found of None \<Rightarrow> i' | Some res \<Rightarrow> adopt_all now res i'))"

section \<open>Observation\<close>

definition active_flights :: "Impl \<Rightarrow> nat" where
  "active_flights i = length (filter (\<lambda>(k, h). \<not> fe_done (im_heap i ! h)) (im_inflight i))"

definition json_nat :: "nat \<Rightarrow> Json" where
  "json_nat n = JNum (double_of_int (int n))"

definition fabric_stats :: "Impl \<Rightarrow> Json" where
  "fabric_stats i =
     json_set ''active_reservations'' (json_nat 0)
      (json_set ''active_leases'' (json_nat (sum_list (map (length \<circ> snd) (im_leaseCounts i))))
       (json_set ''active_builds'' (json_nat (active_flights i))
        (json_set ''cache_entries'' (json_nat (length (im_cache i))) (obs_stats (im_obs i)))))"

definition index_entry :: "CompilationKey \<times> CacheEntry \<Rightarrow> Json" where
  "index_entry ke = (let d = ce_descriptor (snd ke) in json_sets
     [(''artifact'', JStr (toHex (ad_id d))), (''gen'', JNum (double_of_int (uint (ad_generation d)))),
      (''state'', JStr (ad_state d)), (''backend'', JStr (bd_id (ad_backend d))), (''key'', JStr (key_toHex (fst ke)))])"

record CompilationFabricSnapshot =
  sp_counters :: Json
  sp_events :: Json
  sp_artifactIndex :: Json
  sp_inflight :: Json
  sp_generations :: Json
  sp_epochText :: string

definition snapshot :: "Impl \<Rightarrow> CompilationFabricSnapshot" where
  "snapshot i = \<lparr>sp_counters = obs_stats (im_obs i),
     sp_events = (case json_get ''events'' (obs_snapshot (im_obs i)) of Some j \<Rightarrow> j | None \<Rightarrow> JArr []),
     sp_artifactIndex = JArr (map index_entry (im_cache i)),
     sp_inflight = json_sets [(''active'', json_nat (active_flights i))],
     sp_generations = json_sets [(''cache_generation'', JNum (double_of_int (uint (im_cacheGen i)))),
        (''toolchain_generation'', JNum (double_of_int (uint (im_toolchainGen i)))),
        (''artifact_counter'', JNum (double_of_int (uint (im_artifactCounter i))))],
     sp_epochText = ''epoch='' @ dec_int (uint (im_epoch i))\<rparr>"

definition fabric_explain :: "CompilationKey \<Rightarrow> Impl \<Rightarrow> Json" where
  "fabric_explain key i =
     (let base = [(''key'', JStr (key_toHex key)),
            (''fields'', JArr (map (\<lambda>e. json_sets [(''field'', JStr (fe_name e)), (''present'', JBool (fe_present e)),
               (''value'', JStr (fe_value e))]) (key_explain key)))]
      in case map_of (im_cache i) key of
          None \<Rightarrow> json_sets base
        | Some e \<Rightarrow> let d = ce_descriptor e in json_sets (base @ [(''state'', JStr (ad_state d)),
            (''backend'', JStr (bd_id (ad_backend d))), (''validation'', vd_toJson (ad_validation d)),
            (''deployment'', dd_toJson (ad_deployment d))]))"

end
