(* ===== verification/CF_Runs.thy ===== *)
theory CF_Runs
  imports CF_Prelude
begin

text \<open>
  Runs of a system whose steps are chosen by labels: every step is an executable
  partial function, \<open>None\<close> where the label is not enabled. The locales hold what is
  proved once for all such systems.
\<close>

fun run :: "('l \<Rightarrow> 's \<Rightarrow> 's option) \<Rightarrow> 'l list \<Rightarrow> 's \<Rightarrow> 's option" where
  "run step [] s = Some s"
| "run step (l # ls) s = Option.bind (step l s) (run step ls)"

lemma run_append: "run step (ls @ ls') s = Option.bind (run step ls s) (run step ls')"
  by (induction ls arbitrary: s) (auto simp: bind_eq_Some_conv split: Option.bind_splits)

lemma run_snoc: "run step (ls @ [l]) s = Option.bind (run step ls s) (step l)"
proof -
  have "run step [] = Some" by (rule ext) simp
  then have "run step [l] = step l" by (intro ext) (simp add: bind_runit)
  then show ?thesis by (simp only: run_append)
qed

lemma run_Cons_SomeE:
  assumes "run step (l # ls) s = Some s'"
  obtains s1 where "step l s = Some s1" "run step ls s1 = Some s'"
  using assms by (auto simp: bind_eq_Some_conv)

text \<open>Steps whose labels are restricted.\<close>

definition only :: "('l \<Rightarrow> bool) \<Rightarrow> ('l \<Rightarrow> 's \<Rightarrow> 's option) \<Rightarrow> 'l \<Rightarrow> 's \<Rightarrow> 's option" where
  "only P step l s = (if P l then step l s else None)"

lemma only_Some [simp]: "only P step l s = Some s' \<longleftrightarrow> P l \<and> step l s = Some s'"
  by (simp add: only_def)

lemma run_only: "(\<And>l. l \<in> set ls \<Longrightarrow> P l) \<Longrightarrow> run (only P step) ls s = run step ls s"
  by (induction ls arbitrary: s) (auto simp: only_def intro: Option.bind_cong)

inductive reachable :: "('l \<Rightarrow> 's \<Rightarrow> 's option) \<Rightarrow> ('s \<Rightarrow> bool) \<Rightarrow> 's \<Rightarrow> bool" for step start where
  reach_start: "start s \<Longrightarrow> reachable step start s"
| reach_step: "reachable step start s \<Longrightarrow> step l s = Some s' \<Longrightarrow> reachable step start s'"

lemma reachable_run: "reachable step start s \<Longrightarrow> run step ls s = Some s' \<Longrightarrow> reachable step start s'"
proof (induction ls arbitrary: s)
  case (Cons l ls)
  then show ?case by (blast intro: reach_step elim: run_Cons_SomeE)
qed simp

lemma reachable_iff: "reachable step start s' \<longleftrightarrow> (\<exists>s ls. start s \<and> run step ls s = Some s')"
proof
  show "reachable step start s' \<Longrightarrow> \<exists>s ls. start s \<and> run step ls s = Some s'"
  proof (induction rule: reachable.induct)
    case (reach_start s)
    then show ?case by (intro exI [of _ s] exI [of _ "[]"]) simp
  next
    case (reach_step s l s')
    then obtain s0 ls where "start s0" "run step ls s0 = Some s" by blast
    then show ?case using reach_step.hyps by (intro exI [of _ s0] exI [of _ "ls @ [l]"]) (simp add: run_snoc)
  qed
qed (blast intro: reachable_run reach_start)

locale step_invariant =
  fixes step :: "'l \<Rightarrow> 's \<Rightarrow> 's option"
    and inv :: "'s \<Rightarrow> bool"
  assumes inv_step: "inv s \<Longrightarrow> step l s = Some s' \<Longrightarrow> inv s'"
begin

lemma inv_run: "inv s \<Longrightarrow> run step ls s = Some s' \<Longrightarrow> inv s'"
  by (induction ls arbitrary: s) (auto simp: bind_eq_Some_conv intro: inv_step)

lemma inv_reachable: "reachable step start s \<Longrightarrow> (\<And>s. start s \<Longrightarrow> inv s) \<Longrightarrow> inv s"
  by (induction rule: reachable.induct) (auto intro: inv_step)

end

text \<open>A quantity of the state that the label of a step determines the change of.\<close>

locale step_counter =
  fixes step :: "'l \<Rightarrow> 's \<Rightarrow> 's option"
    and val :: "'s \<Rightarrow> 'n::comm_monoid_add"
    and delta :: "'l \<Rightarrow> 'n"
  assumes val_step: "step l s = Some s' \<Longrightarrow> val s' = val s + delta l"
begin

lemma val_run: "run step ls s = Some s' \<Longrightarrow> val s' = val s + sum_list (map delta ls)"
  by (induction ls arbitrary: s) (auto simp: bind_eq_Some_conv add.assoc dest: val_step)

end

section \<open>Simulation\<close>

text \<open>
  A system implements a specification when what its steps show, an action of the
  specification for each, can be replayed there. \<open>seen\<close> reads the action off a step.
\<close>

fun trace :: "('l \<Rightarrow> 's \<Rightarrow> 's option) \<Rightarrow> ('l \<Rightarrow> 's \<Rightarrow> 's \<Rightarrow> 'a) \<Rightarrow> 'l list \<Rightarrow> 's \<Rightarrow> 'a list" where
  "trace step seen [] s = []"
| "trace step seen (l # ls) s = (case step l s of None \<Rightarrow> [] | Some s' \<Rightarrow> seen l s s' # trace step seen ls s')"

locale simulation = step_invariant step inv
  for step :: "'l \<Rightarrow> 's \<Rightarrow> 's option" and inv :: "'s \<Rightarrow> bool" +
  fixes spec :: "'a \<Rightarrow> 'r \<Rightarrow> 'r option"
    and seen :: "'l \<Rightarrow> 's \<Rightarrow> 's \<Rightarrow> 'a"
    and sim :: "'s \<Rightarrow> 'r \<Rightarrow> bool"
  assumes sim_step: "inv s \<Longrightarrow> sim s r \<Longrightarrow> step l s = Some s' \<Longrightarrow> \<exists>r'. spec (seen l s s') r = Some r' \<and> sim s' r'"
begin

lemma sim_run: "inv s \<Longrightarrow> sim s r \<Longrightarrow> run step ls s = Some s' \<Longrightarrow> \<exists>r'. run spec (trace step seen ls s) r = Some r' \<and> sim s' r'"
proof (induction ls arbitrary: s r)
  case (Cons l ls)
  obtain s1 where s1: "step l s = Some s1" "run step ls s1 = Some s'" using Cons.prems(3) by (rule run_Cons_SomeE)
  moreover obtain r1 where "spec (seen l s s1) r = Some r1" "sim s1 r1" using sim_step Cons.prems s1(1) by blast
  ultimately show ?case using Cons.IH [of s1 r1] inv_step [OF Cons.prems(1) s1(1)] by simp
qed simp

end

end
