(* ===== verification/CF_Interleaving.thy ===== *)
theory CF_Interleaving
  imports CF_Fabric CF_Runs
begin

text \<open>
  Calls of \<open>CompilationFabric::compile\<close> from several threads at once, interleaved with
  the other operations of the runtime. A thread stops between any two sections that the
  code runs under its mutex; its program counter says which section comes next and its
  local record holds what the code keeps in local variables. A label chooses the thread
  that moves, or the operation that is called, so that a schedule is a list of labels.
\<close>

section \<open>Threads\<close>

datatype Pc =
    AtFast | AtJoin | AtWait | AtBuild | AtFail ErrorCode string "ObsOp list" | AtName | AtGen | AtCommit
  | AtFinish CompilationResult | Returned "CompilationResult result"

record Local =
  lo_request :: CompilationRequest
  lo_plan :: CompilationPlan
  lo_tc :: KeyToolchainContext
  lo_key :: CompilationKey
  lo_h :: nat
  lo_backend :: "ICompilerBackend option"
  lo_built :: Built
  lo_idNo :: u64
  lo_gen :: u64
  lo_art :: ArtifactDescriptor
  lo_compileMs :: i64
  lo_validateMs :: i64

type_synonym Thread = "Pc \<times> Local"

definition no_built :: Built where
  "no_built = \<lparr>bt_output = bo_default, bt_autotuned = False, bt_winner = [], bt_cands = []\<rparr>"

definition start_compile :: "CompilationFabricConfig \<Rightarrow> bool \<Rightarrow> u64 \<Rightarrow> i64 \<Rightarrow> CompilationRequest \<Rightarrow> Impl \<Rightarrow> Thread" where
  "start_compile config cudaOk planNo now request i =
     (let local = \<lparr>lo_request = request, lo_plan = pl_default, lo_tc = tc_default, lo_key = [], lo_h = 0, lo_backend = None,
            lo_built = no_built, lo_idNo = 0, lo_gen = 0, lo_art = ad_default, lo_compileMs = 0, lo_validateMs = 0\<rparr>
      in case plan config cudaOk (map fst (im_backends i)) (im_targets i) planNo now request of
          Err c msg \<Rightarrow> (Returned (Err c msg), local)
        | Ok p \<Rightarrow> let tc = makeTc p (im_toolchain i) config
                  in (AtFast, local\<lparr>lo_plan := p, lo_tc := tc, lo_key := buildCompilationKey request p tc\<rparr>))"

text \<open>The build of a request ends at most this many moments after it began.\<close>

definition build_end :: "CompilationRequest \<Rightarrow> nat \<Rightarrow> nat" where
  "build_end r m = m + 6 * nat (sint (rq_autotuneCandidates r)) + 4"

definition to_name :: "Env \<Rightarrow> nat \<Rightarrow> ICompilerBackend option \<Rightarrow> Built \<Rightarrow> Local \<Rightarrow> Thread" where
  "to_name env m b bt lv = (AtName, lv\<lparr>lo_backend := b, lo_built := bt,
     lo_compileMs := nowMs env (build_end (lo_request lv) m) - nowMs env m\<rparr>)"

text \<open>The backend is the one that built the output; a thread here always has one.\<close>

definition validate_step :: "CompilationFabricConfig \<Rightarrow> Env \<Rightarrow> nat \<Rightarrow> Local \<Rightarrow> Impl \<Rightarrow> Thread" where
  "validate_step config env m lv i =
     (let out = bt_output (lo_built lv);
          art = new_artifact config (\<lambda>k. en_millis env (m + k)) (lo_request lv) (lo_plan lv) (lo_key lv)
                  (fe_attempt (im_heap i ! lo_h lv)) (lo_idNo lv) (im_artifactCounter i) out
      in case lo_backend lv of
          None \<Rightarrow> (AtFail ErrNoBackend [] [], lv)
        | Some b \<Rightarrow> (case owner_validate b m (lo_plan lv) art (bo_executable out) of
              Inl (c, msg) \<Rightarrow> (AtFail c msg [OCount ''validation_failures'' 1], lv)
            | Inr art' \<Rightarrow> (AtCommit, lv\<lparr>lo_gen := im_artifactCounter i, lo_art := art',
                lo_validateMs := nowMs env (m + 3) - nowMs env m\<rparr>)))"

definition thread_step :: "CompilationFabricConfig \<Rightarrow> Env \<Rightarrow> nat \<Rightarrow> Thread \<Rightarrow> Impl \<Rightarrow> (Thread \<times> Impl) option" where
  "thread_step config env m th i =
     (let lv = snd th
      in case fst th of
          AtFast \<Rightarrow> map_option (\<lambda>(hit, i'). (case hit of Some r \<Rightarrow> (Returned (Ok r), lv) | None \<Rightarrow> (AtJoin, lv), i'))
            (fast_path config (en_millis env m) (lo_request lv) (lo_plan lv) (lo_key lv) i)
        | AtJoin \<Rightarrow> (case join_flight (lo_key lv) i of
              (Inl h, i') \<Rightarrow> Some ((AtWait, lv\<lparr>lo_h := h\<rparr>), i')
            | (Inr h, i') \<Rightarrow> Some ((AtBuild, lv\<lparr>lo_h := h\<rparr>), i'))
        | AtWait \<Rightarrow> map_option (\<lambda>(r, i'). ((Returned r, lv), i')) (wake (lo_h lv) i)
        | AtBuild \<Rightarrow> (case owner_build env (im_backends i) (lo_request lv) (lo_plan lv) (lo_tc lv) (lo_key lv) m of
              BuildFails c msg ops \<Rightarrow> Some ((AtFail c msg ops, lv), i)
            | BuildDone bt \<Rightarrow> Some (to_name env m (map_of (im_backends i) (pl_backend (lo_plan lv))) bt lv, i))
        | AtFail c msg ops \<Rightarrow> Some ((Returned (Err c msg), lv), fail_flight (lo_h lv) c msg (fold obs_op ops) i)
        | AtName \<Rightarrow> Some ((AtGen, lv\<lparr>lo_idNo := im_artifactCounter i + 1\<rparr>), i\<lparr>im_artifactCounter := im_artifactCounter i + 1\<rparr>)
        | AtGen \<Rightarrow> Some (validate_step config env m lv i, i)
        | AtCommit \<Rightarrow> map_option (\<lambda>(ok, i'). (if ok
              then (AtFinish (fresh_result (lo_request lv) (lo_plan lv) (lo_key lv) (fe_attempt (im_heap i ! lo_h lv)) (lo_art lv)
                      (lo_gen lv) (lo_built lv) (lo_compileMs lv) (lo_validateMs lv)), lv)
              else (Returned (Err ErrStaleGeneration stale_message), lv), i'))
            (commit config env m (lo_h lv) (lo_plan lv) (lo_key lv) (lo_art lv) (lo_gen lv) (bo_executable (bt_output (lo_built lv))) i)
        | AtFinish res \<Rightarrow> Some ((Returned (Ok res), lv), finish_flight (lo_h lv) res i)
        | Returned _ \<Rightarrow> None)"

section \<open>The runtime as a whole\<close>

datatype ApiOp =
    OpInvalidateKey i64 CompilationKey | OpInvalidateId Id128 | OpInvalidateOperation Id128
  | OpInvalidateCompiler u64 | OpInvalidateDependency u64 | OpSupersede Id128 u64
  | OpAcquire Id128 | OpRelease CompilationLease | OpRegister ICompilerBackend
  | OpScan "string \<Rightarrow> bool" "string list" | OpAdopt i64 RecoveryResult

definition api_op :: "CompilationFabricConfig \<Rightarrow> ApiOp \<Rightarrow> Impl \<Rightarrow> Impl option" where
  "api_op config op i = (case op of
      OpInvalidateKey now key \<Rightarrow> Some (invalidateByKey now key i)
    | OpInvalidateId aid \<Rightarrow> Some (invalidateById aid i)
    | OpInvalidateOperation oid \<Rightarrow> Some (invalidateByLogicalOperation oid i)
    | OpInvalidateCompiler gen \<Rightarrow> Some (invalidateByCompilerGeneration gen i)
    | OpInvalidateDependency gen \<Rightarrow> Some (invalidateByDependencyGeneration gen i)
    | OpSupersede aid gen \<Rightarrow> Some (supersede aid gen i)
    | OpAcquire aid \<Rightarrow> Some (snd (acquire aid i))
    | OpRelease lease \<Rightarrow> Some (snd (release lease i))
    | OpRegister b \<Rightarrow> Some (registerBackend b i)
    | OpScan gone names \<Rightarrow> (case recover_scan config gone names i of Ret (_, i') \<Rightarrow> Some i' | _ \<Rightarrow> None)
    | OpAdopt now res \<Rightarrow> Some (adopt_all now res i))"

text \<open>
  The results of the scans whose adoption is still to come. A call of \<open>recover\<close> is a scan
  and, later, the adoption of what that scan found; a scan that throws is not a step.
\<close>

definition scans_after :: "CompilationFabricConfig \<Rightarrow> ApiOp \<Rightarrow> Impl \<Rightarrow> RecoveryResult list \<Rightarrow> RecoveryResult list option" where
  "scans_after config op i scans = (case op of
      OpScan gone names \<Rightarrow> (case recover_scan config gone names i of Ret (Some res, _) \<Rightarrow> Some (scans @ [res]) | _ \<Rightarrow> Some scans)
    | OpAdopt now res \<Rightarrow> if res \<in> set scans then Some (remove1 res scans) else None
    | _ \<Rightarrow> Some scans)"

record World =
  wo_impl :: Impl
  wo_threads :: "Thread list"
  wo_scans :: "RecoveryResult list"

datatype Label = LCall u64 i64 CompilationRequest | LRun nat nat | LOp ApiOp

record Setup =
  su_config :: CompilationFabricConfig
  su_env :: Env
  su_cudaOk :: bool

definition wstep :: "Setup \<Rightarrow> Label \<Rightarrow> World \<Rightarrow> World option" where
  "wstep su l w = (case l of
      LCall planNo now request \<Rightarrow>
        Some (w\<lparr>wo_threads := wo_threads w @ [start_compile (su_config su) (su_cudaOk su) planNo now request (wo_impl w)]\<rparr>)
    | LRun t m \<Rightarrow> if t < length (wo_threads w)
        then map_option (\<lambda>(th, i'). w\<lparr>wo_threads := (wo_threads w)[t := th], wo_impl := i'\<rparr>)
               (thread_step (su_config su) (su_env su) m (wo_threads w ! t) (wo_impl w))
        else None
    | LOp op \<Rightarrow> (case (api_op (su_config su) op (wo_impl w), scans_after (su_config su) op (wo_impl w) (wo_scans w)) of
          (Some i', Some scans') \<Rightarrow> Some (w\<lparr>wo_impl := i', wo_scans := scans'\<rparr>)
        | _ \<Rightarrow> None))"

lemma wstep_LOp:
  assumes "wstep su (LOp op) w = Some w'"
  obtains i' scans' where "api_op (su_config su) op (wo_impl w) = Some i'" "w' = w\<lparr>wo_impl := i', wo_scans := scans'\<rparr>"
    "scans_after (su_config su) op (wo_impl w) (wo_scans w) = Some scans'"
  using assms by (auto simp: wstep_def split: option.splits)

lemma scans_after_simps [simp]:
  "scans_after config (OpInvalidateKey now key) i scans = Some scans" "scans_after config (OpInvalidateId aid) i scans = Some scans"
  "scans_after config (OpAcquire aid) i scans = Some scans" "scans_after config (OpRelease lease) i scans = Some scans"
  "scans_after config (OpRegister b) i scans = Some scans" "scans_after config (OpSupersede aid gen) i scans = Some scans"
  by (simp_all add: scans_after_def)

text \<open>A cached artifact comes from a publication or from an adoption.\<close>

fun is_recover_op :: "ApiOp \<Rightarrow> bool" where
  "is_recover_op (OpAdopt _ _) = True"
| "is_recover_op _ = False"

fun recovers :: "Label \<Rightarrow> bool" where
  "recovers (LOp op) = is_recover_op op"
| "recovers _ = False"

text \<open>A fabric before its first call; its cache may already hold recovered artifacts.\<close>

definition start_world :: "World \<Rightarrow> bool" where
  "start_world w \<longleftrightarrow> wo_threads w = [] \<and> im_heap (wo_impl w) = [] \<and> im_inflight (wo_impl w) = [] \<and>
     wo_scans w = [] \<and> smap_inv (im_cache (wo_impl w))"

section \<open>Single flight\<close>

fun owns :: "Pc \<Rightarrow> bool" where
  "owns AtBuild = True"
| "owns (AtFail _ _ _) = True"
| "owns AtName = True"
| "owns AtGen = True"
| "owns AtCommit = True"
| "owns (AtFinish _) = True"
| "owns _ = False"

definition is_owner :: "World \<Rightarrow> nat \<Rightarrow> bool" where
  "is_owner w t \<longleftrightarrow> t < length (wo_threads w) \<and> owns (fst (wo_threads w ! t))"

text \<open>
  The invariant: \<open>kf\<close> is the key under which an entry was opened. An owner's entry is not
  done and is the one in the map, no two owners share an entry, every entry that is not
  done has an owner, and a thread's entry was opened for its own key.
\<close>

definition done_flags :: "Impl \<Rightarrow> bool list" where
  "done_flags i = map fe_done (im_heap i)"

definition thread_inv :: "(nat \<Rightarrow> CompilationKey) \<Rightarrow> bool list \<Rightarrow> (CompilationKey \<Rightarrow> nat option) \<Rightarrow> Thread \<Rightarrow> bool" where
  "thread_inv kf d mp th \<longleftrightarrow> (let pc = fst th; h = lo_h (snd th); key = lo_key (snd th) in
     (owns pc \<longrightarrow> h < length d \<and> \<not> d ! h \<and> mp key = Some h) \<and>
     (owns pc \<or> pc = AtWait \<longrightarrow> h < length d \<and> kf h = key))"

definition flights_ok :: "(nat \<Rightarrow> CompilationKey) \<Rightarrow> bool list \<Rightarrow> (CompilationKey \<Rightarrow> nat option) \<Rightarrow> Thread list \<Rightarrow> bool" where
  "flights_ok kf d mp ths \<longleftrightarrow>
     (\<forall>t < length ths. thread_inv kf d mp (ths ! t)) \<and>
     (\<forall>t < length ths. \<forall>t' < length ths. owns (fst (ths ! t)) \<and> owns (fst (ths ! t')) \<and>
        lo_h (snd (ths ! t)) = lo_h (snd (ths ! t')) \<longrightarrow> t = t') \<and>
     (\<forall>k h. mp k = Some h \<longrightarrow> h < length d \<and> kf h = k) \<and>
     (\<forall>h < length d. d ! h \<or> (\<exists>t < length ths. owns (fst (ths ! t)) \<and> lo_h (snd (ths ! t)) = h))"

definition flight_inv :: "World \<Rightarrow> bool" where
  "flight_inv w \<longleftrightarrow> (\<exists>kf. flights_ok kf (done_flags (wo_impl w)) (map_of (im_inflight (wo_impl w))) (wo_threads w))"

text \<open>Operations leave the flights alone.\<close>

lemma on_obs_simps [simp]:
  "im_backends (on_obs f i) = im_backends i" "im_heap (on_obs f i) = im_heap i" "im_inflight (on_obs f i) = im_inflight i"
  "im_cache (on_obs f i) = im_cache i" "im_cacheGen (on_obs f i) = im_cacheGen i" "im_toolchainGen (on_obs f i) = im_toolchainGen i"
  "im_artifactCounter (on_obs f i) = im_artifactCounter i" "im_disk (on_obs f i) = im_disk i" "im_leaseCounts (on_obs f i) = im_leaseCounts i"
  "im_toolchain (on_obs f i) = im_toolchain i" "im_targets (on_obs f i) = im_targets i"
  by (simp_all add: on_obs_def)

lemma map_entries_simps [simp]:
  "im_heap (map_entries f i) = im_heap i" "im_inflight (map_entries f i) = im_inflight i" "im_cacheGen (map_entries f i) = im_cacheGen i"
  "im_toolchainGen (map_entries f i) = im_toolchainGen i" "im_artifactCounter (map_entries f i) = im_artifactCounter i"
  "im_backends (map_entries f i) = im_backends i" "im_leaseCounts (map_entries f i) = im_leaseCounts i"
  by (simp_all add: map_entries_def)

lemma bump_simps [simp]:
  "im_heap (bump_cacheGen i) = im_heap i" "im_inflight (bump_cacheGen i) = im_inflight i" "im_cache (bump_cacheGen i) = im_cache i"
  "im_cacheGen (bump_cacheGen i) = im_cacheGen i + 1" "im_toolchainGen (bump_cacheGen i) = im_toolchainGen i"
  "im_artifactCounter (bump_cacheGen i) = im_artifactCounter i" "im_backends (bump_cacheGen i) = im_backends i"
  by (simp_all add: bump_cacheGen_def)

lemma fold_adopt [simp]:
  "im_heap (fold adopt rs i) = im_heap i" "im_inflight (fold adopt rs i) = im_inflight i" "im_cacheGen (fold adopt rs i) = im_cacheGen i"
  "im_toolchainGen (fold adopt rs i) = im_toolchainGen i" "im_artifactCounter (fold adopt rs i) = im_artifactCounter i"
  by (induction rs arbitrary: i) (simp_all add: adopt_def)

lemma adopt_all_simps [simp]:
  "im_heap (adopt_all now res i) = im_heap i" "im_inflight (adopt_all now res i) = im_inflight i"
  "im_cacheGen (adopt_all now res i) = im_cacheGen i" "im_toolchainGen (adopt_all now res i) = im_toolchainGen i"
  "im_artifactCounter (adopt_all now res i) = im_artifactCounter i"
  by (simp_all add: adopt_all_def Let_def)

lemmas op_defs = api_op_def invalidateByKey_def invalidateById_def invalidateByLogicalOperation_def invalidateByCompilerGeneration_def
  invalidateByDependencyGeneration_def supersede_def acquire_def release_def registerBackend_def recover_scan_def ebind_def Let_def

lemma api_op_flights:
  assumes "api_op cfg op i = Some i'"
  shows "im_heap i' = im_heap i" "im_inflight i' = im_inflight i" "im_artifactCounter i' = im_artifactCounter i"
  using assms by (cases op; auto simp: op_defs ebind_def split: option.splits eff.splits if_splits)+

lemma fail_flight_simps [simp]:
  "im_inflight (fail_flight h c m f i) = im_inflight i" "im_cache (fail_flight h c m f i) = im_cache i"
  "im_cacheGen (fail_flight h c m f i) = im_cacheGen i" "im_toolchainGen (fail_flight h c m f i) = im_toolchainGen i"
  "im_artifactCounter (fail_flight h c m f i) = im_artifactCounter i"
  "done_flags (fail_flight h c m f i) = (done_flags i)[h := True]"
  by (simp_all add: fail_flight_def done_flags_def map_update)

lemma finish_flight_simps [simp]:
  "im_inflight (finish_flight h r i) = im_inflight i" "im_cache (finish_flight h r i) = im_cache i"
  "im_cacheGen (finish_flight h r i) = im_cacheGen i" "im_toolchainGen (finish_flight h r i) = im_toolchainGen i"
  "im_artifactCounter (finish_flight h r i) = im_artifactCounter i"
  "done_flags (finish_flight h r i) = (done_flags i)[h := True]"
  by (simp_all add: finish_flight_def done_flags_def map_update)

lemma persist_simps:
  "persist_artifact cfg wm wb key art gen c i = Some i' \<Longrightarrow>
     im_heap i' = im_heap i \<and> im_inflight i' = im_inflight i \<and> im_cache i' = im_cache i \<and> im_cacheGen i' = im_cacheGen i \<and>
     im_toolchainGen i' = im_toolchainGen i \<and> im_artifactCounter i' = im_artifactCounter i \<and> im_backends i' = im_backends i"
  by (auto simp: persist_artifact_def Let_def split: if_splits)

text \<open>How one step of a thread changes the flights.\<close>

datatype Effect = Keeps | Joins nat | Opens | Closes

definition effect_of :: "Effect \<Rightarrow> Thread \<Rightarrow> Thread \<Rightarrow> Impl \<Rightarrow> Impl \<Rightarrow> bool" where
  "effect_of ef th th' i i' \<longleftrightarrow> lo_key (snd th') = lo_key (snd th) \<and> (case ef of
      Keeps \<Rightarrow> done_flags i' = done_flags i \<and> im_inflight i' = im_inflight i \<and> lo_h (snd th') = lo_h (snd th) \<and>
        owns (fst th') = owns (fst th) \<and> fst th' \<noteq> AtWait
    | Joins h \<Rightarrow> done_flags i' = done_flags i \<and> im_inflight i' = im_inflight i \<and> lo_h (snd th') = h \<and> fst th = AtJoin \<and>
        fst th' = AtWait \<and> map_of (im_inflight i) (lo_key (snd th)) = Some h
    | Opens \<Rightarrow> done_flags i' = done_flags i @ [False] \<and> lo_h (snd th') = length (im_heap i) \<and> fst th = AtJoin \<and> fst th' = AtBuild \<and>
        im_inflight i' = smap_put (lo_key (snd th)) (length (im_heap i)) (im_inflight i) \<and>
        (\<forall>h. map_of (im_inflight i) (lo_key (snd th)) = Some h \<longrightarrow> fe_done (im_heap i ! h))
    | Closes \<Rightarrow> owns (fst th) \<and> (\<exists>r. fst th' = Returned r) \<and> lo_h (snd th') = lo_h (snd th) \<and>
        done_flags i' = (done_flags i)[lo_h (snd th) := True] \<and> im_inflight i' = im_inflight i)"

lemma update_waiters: "map fe_done (xs[h := (xs ! h)\<lparr>fe_waiters := n\<rparr>]) = map fe_done xs"
  by (cases "h < length xs") (simp_all add: map_update list_update_same_conv list_update_beyond)

lemma join_effect:
  assumes "join_flight key i = (r, i')"
  shows "case r of
      Inl h \<Rightarrow> done_flags i' = done_flags i \<and> im_inflight i' = im_inflight i \<and> map_of (im_inflight i) key = Some h
    | Inr h \<Rightarrow> done_flags i' = done_flags i @ [False] \<and> h = length (im_heap i) \<and> im_inflight i' = smap_put key h (im_inflight i) \<and>
        (\<forall>h'. map_of (im_inflight i) key = Some h' \<longrightarrow> fe_done (im_heap i ! h'))"
  using assms by (auto simp: join_flight_def done_flags_def update_waiters new_flight_def Let_def split: option.splits if_splits)

lemma fast_path_effect:
  "fast_path cfg now r p key i = Some (hit, i') \<Longrightarrow> im_heap i' = im_heap i \<and> im_inflight i' = im_inflight i \<and>
     im_cacheGen i' = im_cacheGen i \<and> im_toolchainGen i' = im_toolchainGen i \<and> im_artifactCounter i' = im_artifactCounter i"
  by (auto simp: fast_path_def Let_def split: option.splits if_splits)

lemma commit_effect:
  "commit cfg env m h p key art gen c i = Some (ok, i') \<Longrightarrow>
     (if ok then im_heap i' = im_heap i else done_flags i' = (done_flags i)[h := True]) \<and> im_inflight i' = im_inflight i \<and>
     im_cacheGen i' = im_cacheGen i \<and> im_toolchainGen i' = im_toolchainGen i \<and> im_artifactCounter i' = im_artifactCounter i"
  by (auto simp: commit_def Let_def split: if_splits dest!: persist_simps)

lemma validate_step_effect:
  "lo_key (snd (validate_step cfg env m lv i)) = lo_key lv" "lo_h (snd (validate_step cfg env m lv i)) = lo_h lv"
  "owns (fst (validate_step cfg env m lv i))" "fst (validate_step cfg env m lv i) \<noteq> AtWait"
  by (auto simp: validate_step_def Let_def split: option.splits sum.splits prod.splits)

lemma thread_step_effect:
  assumes "thread_step cfg env m th i = Some (th', i')"
  shows "\<exists>ef. effect_of ef th th' i i'"
proof (cases th)
  case (Pair pc lv)
  show ?thesis
  proof (cases pc)
    case AtFast
    then show ?thesis using assms Pair fast_path_effect
      by (intro exI [of _ Keeps]) (fastforce simp: thread_step_def effect_of_def done_flags_def split: option.splits)
  next
    case AtJoin
    obtain r j where "join_flight (lo_key lv) i = (r, j)" by fastforce
    then show ?thesis using assms Pair AtJoin join_effect [of "lo_key lv" i r j]
      by (cases r) (auto simp: thread_step_def effect_of_def intro: exI [of _ "Joins _"] exI [of _ Opens])
  next
    case AtWait
    then show ?thesis using assms Pair
      by (intro exI [of _ Keeps]) (auto simp: thread_step_def effect_of_def wake_def done_flags_def Let_def split: if_splits)
  next
    case AtBuild
    then show ?thesis using assms Pair
      by (intro exI [of _ Keeps]) (auto simp: thread_step_def effect_of_def to_name_def split: BuildResult.splits)
  next
    case (AtFail c msg ops)
    then show ?thesis using assms Pair by (intro exI [of _ Closes]) (auto simp: thread_step_def effect_of_def)
  next
    case AtName
    then show ?thesis using assms Pair by (intro exI [of _ Keeps]) (auto simp: thread_step_def effect_of_def done_flags_def)
  next
    case AtGen
    then show ?thesis using assms Pair validate_step_effect [of cfg env m lv i]
      by (intro exI [of _ Keeps]) (auto simp: thread_step_def effect_of_def)
  next
    case AtCommit
    then obtain ok where ok: "commit cfg env m (lo_h lv) (lo_plan lv) (lo_key lv) (lo_art lv) (lo_gen lv)
        (bo_executable (bt_output (lo_built lv))) i = Some (ok, i')"
      using assms Pair by (auto simp: thread_step_def)
    then show ?thesis using assms Pair AtCommit commit_effect [OF ok]
      by (cases ok) (auto simp: thread_step_def effect_of_def done_flags_def intro: exI [of _ Keeps] exI [of _ Closes])
  next
    case (AtFinish res)
    then show ?thesis using assms Pair by (intro exI [of _ Closes]) (auto simp: thread_step_def effect_of_def)
  next
    case (Returned r)
    then show ?thesis using assms Pair by (simp add: thread_step_def)
  qed
qed

text \<open>Each effect keeps the invariant.\<close>

lemma all_nth_update: "(\<And>s. s < length xs \<Longrightarrow> P (xs ! s)) \<Longrightarrow> P y \<Longrightarrow> \<forall>s < length (xs[t := y]). P (xs[t := y] ! s)"
  by (cases "t < length xs") (simp_all add: nth_list_update list_update_beyond)

lemma flights_keep:
  assumes ok: "flights_ok kf d mp ths" and t: "t < length ths" and key: "lo_key (snd th') = lo_key (snd (ths ! t))"
    and h: "lo_h (snd th') = lo_h (snd (ths ! t))" and o: "owns (fst th') = owns (fst (ths ! t))" and w: "fst th' \<noteq> AtWait"
  shows "flights_ok kf d mp (ths[t := th'])"
proof -
  have inv: "thread_inv kf d mp (ths ! s)" if "s < length ths" for s using ok that by (simp add: flights_ok_def)
  then have "thread_inv kf d mp th'" using inv [OF t] key h o w by (simp add: thread_inv_def Let_def)
  then have 1: "\<forall>s < length (ths[t := th']). thread_inv kf d mp (ths[t := th'] ! s)" by (intro all_nth_update) (simp_all add: inv)
  have 2: "owns (fst (ths[t := th'] ! s)) = owns (fst (ths ! s))" "lo_h (snd (ths[t := th'] ! s)) = lo_h (snd (ths ! s))" for s
    using t h o by (cases "s = t"; simp)+
  show ?thesis using ok 1 unfolding flights_ok_def 2 by simp
qed

lemma flights_call:
  assumes "flights_ok kf d mp ths" "\<not> owns (fst th)" "fst th \<noteq> AtWait"
  shows "flights_ok kf d mp (ths @ [th])"
  using assms by (auto simp: flights_ok_def thread_inv_def nth_append less_Suc_eq)

lemma flights_join:
  assumes ok: "flights_ok kf d mp ths" and t: "t < length ths" and at: "fst (ths ! t) = AtJoin" "fst th' = AtWait"
    and key: "lo_key (snd th') = lo_key (snd (ths ! t))" and mp: "mp (lo_key (snd th')) = Some (lo_h (snd th'))"
  shows "flights_ok kf d mp (ths[t := th'])"
  unfolding flights_ok_def
proof (intro conjI)
  have "thread_inv kf d mp th'" using ok mp at by (simp add: flights_ok_def thread_inv_def)
  then show "\<forall>s < length (ths[t := th']). thread_inv kf d mp (ths[t := th'] ! s)"
    using ok by (intro all_nth_update) (simp_all add: flights_ok_def)
  show "\<forall>s < length (ths[t := th']). \<forall>s' < length (ths[t := th']). owns (fst (ths[t := th'] ! s)) \<and> owns (fst (ths[t := th'] ! s')) \<and>
      lo_h (snd (ths[t := th'] ! s)) = lo_h (snd (ths[t := th'] ! s')) \<longrightarrow> s = s'"
    using ok at t by (simp add: flights_ok_def nth_list_update)
  have "owns (fst (ths ! s)) \<Longrightarrow> s \<noteq> t" for s using at by auto
  then show "\<forall>h < length d. d ! h \<or> (\<exists>s < length (ths[t := th']). owns (fst (ths[t := th'] ! s)) \<and> lo_h (snd (ths[t := th'] ! s)) = h)"
    using ok t by (simp add: flights_ok_def nth_list_update) metis
qed (use ok in \<open>simp add: flights_ok_def\<close>)

lemma thread_inv_open:
  assumes "thread_inv kf d mp th" "\<And>h. mp key = Some h \<Longrightarrow> d ! h"
  shows "thread_inv (kf(length d := key)) (d @ [False]) (mp(key \<mapsto> length d)) th"
  using assms by (fastforce simp: thread_inv_def nth_append Let_def)

lemma flights_open:
  assumes "flights_ok kf d mp ths" "t < length ths" "fst (ths ! t) = AtJoin" "lo_key (snd th') = key"
    "fst th' = AtBuild" "lo_h (snd th') = length d" "\<And>h. mp key = Some h \<Longrightarrow> d ! h"
  shows "flights_ok (kf(length d := key)) (d @ [False]) (mp(key \<mapsto> length d)) (ths[t := th'])"
  unfolding flights_ok_def
proof (intro conjI)
  have old: "thread_inv kf d mp (ths ! s)" if "s < length ths" for s using assms that by (simp add: flights_ok_def)
  show "\<forall>s < length (ths[t := th']). thread_inv (kf(length d := key)) (d @ [False]) (mp(key \<mapsto> length d)) (ths[t := th'] ! s)"
  proof (intro allI impI)
    fix s assume s: "s < length (ths[t := th'])"
    have "thread_inv (kf(length d := key)) (d @ [False]) (mp(key \<mapsto> length d)) th'"
      using assms by (simp add: thread_inv_def nth_append)
    then show "thread_inv (kf(length d := key)) (d @ [False]) (mp(key \<mapsto> length d)) (ths[t := th'] ! s)"
      using s old assms(7) by (cases "s = t") (simp_all add: thread_inv_open)
  qed
  show "\<forall>s < length (ths[t := th']). \<forall>s' < length (ths[t := th']). owns (fst (ths[t := th'] ! s)) \<and> owns (fst (ths[t := th'] ! s')) \<and>
      lo_h (snd (ths[t := th'] ! s)) = lo_h (snd (ths[t := th'] ! s')) \<longrightarrow> s = s'"
    using assms old by (simp add: flights_ok_def thread_inv_def nth_list_update Let_def) (metis nat_less_le)
  show "\<forall>k h. (mp(key \<mapsto> length d)) k = Some h \<longrightarrow> h < length (d @ [False]) \<and> (kf(length d := key)) h = k"
    using assms(1) by (simp add: flights_ok_def) (metis less_SucI less_irrefl)
  show "\<forall>h < length (d @ [False]). (d @ [False]) ! h \<or>
      (\<exists>s < length (ths[t := th']). owns (fst (ths[t := th'] ! s)) \<and> lo_h (snd (ths[t := th'] ! s)) = h)"
    using assms by (simp add: flights_ok_def nth_list_update nth_append less_Suc_eq) (metis owns.simps)
qed

lemma flights_close:
  assumes ok: "flights_ok kf d mp ths" and t: "t < length ths" and "owns (fst (ths ! t))" "lo_key (snd th') = lo_key (snd (ths ! t))"
    "fst th' = Returned r" "lo_h (snd (ths ! t)) = h"
  shows "flights_ok kf (d[h := True]) mp (ths[t := th'])"
  unfolding flights_ok_def
proof (intro conjI)
  have uniq: "lo_h (snd (ths ! s)) \<noteq> h" if "s < length ths" "owns (fst (ths ! s))" "s \<noteq> t" for s
    using ok t that assms(3,6) unfolding flights_ok_def by metis
  show "\<forall>s < length (ths[t := th']). thread_inv kf (d[h := True]) mp (ths[t := th'] ! s)"
  proof (intro allI impI)
    fix s assume "s < length (ths[t := th'])"
    then show "thread_inv kf (d[h := True]) mp (ths[t := th'] ! s)"
      using assms uniq [of s] by (cases "s = t") (auto simp: flights_ok_def thread_inv_def Let_def)
  qed
  show "\<forall>s < length (ths[t := th']). \<forall>s' < length (ths[t := th']). owns (fst (ths[t := th'] ! s)) \<and> owns (fst (ths[t := th'] ! s')) \<and>
      lo_h (snd (ths[t := th'] ! s)) = lo_h (snd (ths[t := th'] ! s')) \<longrightarrow> s = s'"
    using assms by (simp add: flights_ok_def nth_list_update)
  show "\<forall>k g. mp k = Some g \<longrightarrow> g < length (d[h := True]) \<and> kf g = k" using ok by (simp add: flights_ok_def)
  show "\<forall>g < length (d[h := True]). d[h := True] ! g \<or>
      (\<exists>s < length (ths[t := th']). owns (fst (ths[t := th'] ! s)) \<and> lo_h (snd (ths[t := th'] ! s)) = g)"
  proof (intro allI impI)
    fix g assume g: "g < length (d[h := True])"
    then have "d ! g \<or> (\<exists>s < length ths. owns (fst (ths ! s)) \<and> lo_h (snd (ths ! s)) = g)" using ok by (simp add: flights_ok_def)
    moreover have "s \<noteq> t" if "lo_h (snd (ths ! s)) \<noteq> h" for s using that assms(6) by auto
    ultimately show "d[h := True] ! g \<or>
        (\<exists>s < length (ths[t := th']). owns (fst (ths[t := th'] ! s)) \<and> lo_h (snd (ths[t := th'] ! s)) = g)"
      using g by (cases "g = h") (simp_all, metis nth_list_update_neq)
  qed
qed

lemma map_of_smap_put: "map_of (smap_put k v m) = (map_of m)(k \<mapsto> v)"
  by (rule ext) (simp add: smap_get_put)

lemma flights_effect:
  assumes ok: "flights_ok kf (done_flags i) (map_of (im_inflight i)) ths" and t: "t < length ths"
    and e: "effect_of ef (ths ! t) th' i i'"
  shows "\<exists>kf'. (\<forall>h < length (im_heap i). kf' h = kf h) \<and> flights_ok kf' (done_flags i') (map_of (im_inflight i')) (ths[t := th'])"
proof (cases ef)
  case Keeps
  then show ?thesis using flights_keep [OF ok t, of th'] e by (auto simp: effect_of_def)
next
  case (Joins h)
  then show ?thesis using flights_join [OF ok t, of th'] e by (auto simp: effect_of_def)
next
  case Opens
  have *: "done_flags i ! h" if "map_of (im_inflight i) (lo_key (snd (ths ! t))) = Some h" for h
    using that e Opens ok by (auto simp: effect_of_def done_flags_def flights_ok_def)
  have "flights_ok (kf(length (im_heap i) := lo_key (snd (ths ! t)))) (done_flags i') (map_of (im_inflight i')) (ths[t := th'])"
    using flights_open [OF ok t _ _ _ _ *, of th'] e Opens by (auto simp: effect_of_def done_flags_def map_of_smap_put)
  then show ?thesis by (intro exI [of _ "kf(length (im_heap i) := lo_key (snd (ths ! t)))"]) simp
next
  case Closes
  then show ?thesis using flights_close [OF ok t, of th'] e by (auto simp: effect_of_def)
qed

lemma start_compile_idle: "\<not> owns (fst (start_compile c ok n now r i))" "fst (start_compile c ok n now r i) \<noteq> AtWait"
  by (simp_all add: start_compile_def Let_def split: result.splits)

lemma flight_inv_step:
  assumes inv: "flight_inv w" and step: "wstep su l w = Some w'"
  shows "flight_inv w'"
proof -
  obtain kf where ok: "flights_ok kf (done_flags (wo_impl w)) (map_of (im_inflight (wo_impl w))) (wo_threads w)"
    using inv by (auto simp: flight_inv_def)
  show ?thesis
  proof (cases l)
    case (LCall planNo now request)
    then show ?thesis using flights_call [OF ok start_compile_idle] step by (auto simp: wstep_def flight_inv_def intro!: exI [of _ kf])
  next
    case (LRun t m)
    then obtain th' i' where t: "t < length (wo_threads w)" and w': "w' = w\<lparr>wo_threads := (wo_threads w)[t := th'], wo_impl := i'\<rparr>"
      and "thread_step (su_config su) (su_env su) m (wo_threads w ! t) (wo_impl w) = Some (th', i')"
      using step by (auto simp: wstep_def split: if_splits)
    then obtain ef where "effect_of ef (wo_threads w ! t) th' (wo_impl w) i'" using thread_step_effect by blast
    then obtain kf' where "flights_ok kf' (done_flags i') (map_of (im_inflight i')) ((wo_threads w)[t := th'])"
      using flights_effect [OF ok t] by blast
    then show ?thesis using w' by (auto simp: flight_inv_def)
  next
    case (LOp op)
    obtain i' sc where "api_op (su_config su) op (wo_impl w) = Some i'" "w' = w\<lparr>wo_impl := i', wo_scans := sc\<rparr>"
      using wstep_LOp step LOp by blast
    then show ?thesis using ok api_op_flights by (auto simp: flight_inv_def done_flags_def)
  qed
qed

interpretation flights: step_invariant "wstep su" flight_inv for su
  by unfold_locales (rule flight_inv_step)

lemma start_flight_inv: "start_world w \<Longrightarrow> flight_inv w"
  by (auto simp: start_world_def flight_inv_def flights_ok_def done_flags_def)

text \<open>
  C2: In every world that calls, thread steps and operations reach, two threads that are both
  between opening an attempt and completing it, with the same key, are the same thread, and
  the attempt is the one registered for its key and is not done.
\<close>

theorem single_flight:
  assumes "reachable (wstep su) start_world w" "is_owner w t" "is_owner w t'"
    "lo_key (snd (wo_threads w ! t)) = lo_key (snd (wo_threads w ! t'))"
  shows "t = t' \<and> map_of (im_inflight (wo_impl w)) (lo_key (snd (wo_threads w ! t))) = Some (lo_h (snd (wo_threads w ! t))) \<and>
    \<not> fe_done (im_heap (wo_impl w) ! lo_h (snd (wo_threads w ! t)))"
proof -
  have "flight_inv w" using assms(1) by (rule flights.inv_reachable) (rule start_flight_inv)
  then obtain kf where ok: "flights_ok kf (done_flags (wo_impl w)) (map_of (im_inflight (wo_impl w))) (wo_threads w)"
    by (auto simp: flight_inv_def)
  then have inv: "thread_inv kf (done_flags (wo_impl w)) (map_of (im_inflight (wo_impl w))) (wo_threads w ! s)" if "is_owner w s" for s
    using that by (simp add: flights_ok_def is_owner_def)
  have h: "map_of (im_inflight (wo_impl w)) (lo_key (snd (wo_threads w ! s))) = Some (lo_h (snd (wo_threads w ! s)))"
    "\<not> fe_done (im_heap (wo_impl w) ! lo_h (snd (wo_threads w ! s)))" if "is_owner w s" for s
    using inv [OF that] that by (auto simp: thread_inv_def is_owner_def done_flags_def Let_def)
  have "lo_h (snd (wo_threads w ! t)) = lo_h (snd (wo_threads w ! t'))" using h(1) [OF assms(2)] h(1) [OF assms(3)] assms(4) by simp
  then have "t = t'" using ok assms(2,3) by (simp add: flights_ok_def is_owner_def)
  then show ?thesis using h assms(2) by blast
qed

section \<open>A concrete fabric\<close>

text \<open>One backend that accepts everything, no persistence, two callers of the same request.\<close>

definition demo_backend :: ICompilerBackend where
  "demo_backend = \<lparr>bk_id = ''cpu'', bk_checkCompatible = \<lambda>_ _. Ok (), bk_compile = \<lambda>_ _ _ _. Ok (bo_default\<lparr>bo_executable := [1]\<rparr>),
     bk_validate = \<lambda>_ _ _. Ok (vd_default\<lparr>vd_passed := True\<rparr>), bk_load = \<lambda>_ _ _. Err ErrLoadFailed []\<rparr>"

definition demo_setup :: Setup where
  "demo_setup = \<lparr>su_config = cf_default\<lparr>cf_persistenceEnabled := False\<rparr>,
     su_env = \<lparr>en_millis = \<lambda>_. 0, en_nanos = \<lambda>_. 0, en_metaFault = \<lambda>_. WriteDone, en_binFault = \<lambda>_. WriteDone\<rparr>, su_cudaOk = False\<rparr>"

definition demo_world :: World where
  "demo_world = \<lparr>wo_impl = fabric_init (su_config demo_setup) False demo_backend demo_backend tcd_default [] 0, wo_threads = [], wo_scans = []\<rparr>"

definition demo_plan :: CompilationPlan where
  "demo_plan = (case plan (su_config demo_setup) False [''cpu''] (discoverTargets False tcd_default) 1 0 rq_default of Ok p \<Rightarrow> p)"

definition demo_tc :: KeyToolchainContext where
  "demo_tc = makeTc demo_plan tcd_default (su_config demo_setup)"

definition demo_key :: CompilationKey where
  "demo_key = buildCompilationKey rq_default demo_plan demo_tc"

definition demo_local :: Local where
  "demo_local = \<lparr>lo_request = rq_default, lo_plan = demo_plan, lo_tc = demo_tc, lo_key = demo_key, lo_h = 0, lo_backend = None,
     lo_built = no_built, lo_idNo = 0, lo_gen = 0, lo_art = ad_default, lo_compileMs = 0, lo_validateMs = 0\<rparr>"

lemma demo_start_world: "start_world demo_world" "im_cache (wo_impl demo_world) = []" "wo_threads demo_world = []"
  by (simp_all add: start_world_def demo_world_def fabric_init_def smap_inv_def)

lemma demo_plan_backend: "pl_backend demo_plan = ''cpu''"
  by (simp add: demo_plan_def plan_def selectBackend_def rq_default_def wantCuda_def is_cuda_def starts_with_def Let_def)

lemma demo_start:
  assumes "map fst (im_backends i) = [''cpu'']" "im_targets i = discoverTargets False tcd_default" "im_toolchain i = tcd_default"
  shows "start_compile (su_config demo_setup) (su_cudaOk demo_setup) 1 0 rq_default i = (AtFast, demo_local)"
proof -
  have "plan (su_config demo_setup) False [''cpu''] (discoverTargets False tcd_default) 1 0 rq_default = Ok demo_plan"
    unfolding demo_plan_def by (simp add: plan_def rq_default_def Let_def)
  then show ?thesis using assms by (simp add: start_compile_def demo_local_def demo_key_def demo_tc_def demo_setup_def Let_def)
qed

text \<open>The schedule: the first caller opens the attempt, the second one waits, the first one finishes.\<close>

definition demo_open :: "Label list" where
  "demo_open = [LCall 1 0 rq_default, LRun 0 0, LRun 0 1]"

definition demo_wait :: "Label list" where
  "demo_wait = [LCall 1 0 rq_default, LRun 1 2, LRun 1 3]"

lemma demo_open_run: "\<exists>w. run (wstep demo_setup) demo_open demo_world = Some w \<and> wo_threads w = [(AtBuild, demo_local)] \<and>
   im_backends (wo_impl w) = [(''cpu'', demo_backend)] \<and> im_targets (wo_impl w) = discoverTargets False tcd_default \<and>
   im_toolchain (wo_impl w) = tcd_default \<and> im_cache (wo_impl w) = [] \<and> im_inflight (wo_impl w) = [(demo_key, 0)] \<and>
   im_heap (wo_impl w) = [new_flight (fromU64 1) 1 1] \<and> im_cacheGen (wo_impl w) = 1 \<and> im_toolchainGen (wo_impl w) = 1 \<and>
   im_artifactCounter (wo_impl w) = 1"
proof -
  have s: "wstep demo_setup (LCall 1 0 rq_default) demo_world = Some (demo_world\<lparr>wo_threads := [(AtFast, demo_local)]\<rparr>)"
    using demo_start [of "wo_impl demo_world"] by (simp add: wstep_def demo_world_def fabric_init_def demo_setup_def)
  show ?thesis unfolding demo_open_def
    by (simp add: s) (simp add: wstep_def thread_step_def fast_path_def join_flight_def demo_world_def fabric_init_def demo_setup_def
       demo_local_def on_obs_def new_flight_def Let_def)
qed

definition demo_out :: BackendOutput where
  "demo_out = bo_default\<lparr>bo_executable := [1]\<rparr>"

definition demo_art :: "Id128 \<Rightarrow> u64 \<Rightarrow> ArtifactDescriptor" where
  "demo_art attempt n = make_deployable demo_plan ((new_artifact (su_config demo_setup) (\<lambda>_. 0) rq_default demo_plan demo_key attempt n n demo_out)
     \<lparr>ad_validation := vd_default\<lparr>vd_passed := True\<rparr>\<rparr>)"

definition demo_ready :: "nat \<Rightarrow> Id128 \<Rightarrow> u64 \<Rightarrow> Local" where
  "demo_ready h attempt n = demo_local\<lparr>lo_h := h, lo_backend := Some demo_backend,
     lo_built := \<lparr>bt_output = demo_out, bt_autotuned = False, bt_winner = [], bt_cands = []\<rparr>,
     lo_idNo := n, lo_gen := n, lo_art := demo_art attempt n\<rparr>"

lemma nowMs_demo: "nowMs (su_env demo_setup) m = 0"
  by (simp add: nowMs_def demo_setup_def trunc_def)

lemma demo_build_steps:
  assumes "t < length (wo_threads w)" "wo_threads w ! t = (AtBuild, demo_local\<lparr>lo_h := h\<rparr>)" "im_backends (wo_impl w) = [(''cpu'', demo_backend)]"
  shows "run (wstep demo_setup) (replicate 3 (LRun t m)) w = Some (w\<lparr>wo_threads := (wo_threads w)[t :=
      (AtCommit, demo_ready h (fe_attempt (im_heap (wo_impl w) ! h)) (im_artifactCounter (wo_impl w) + 1))],
      wo_impl := (wo_impl w)\<lparr>im_artifactCounter := im_artifactCounter (wo_impl w) + 1\<rparr>\<rparr>)"
proof -
  let ?b = "\<lparr>bt_output = demo_out, bt_autotuned = False, bt_winner = [], bt_cands = []\<rparr>"
  have b: "owner_build (su_env demo_setup) [(''cpu'', demo_backend)] rq_default demo_plan demo_tc demo_key m = BuildDone ?b"
    by (simp add: owner_build_def demo_plan_backend demo_backend_def rq_default_def demo_out_def Let_def)
  have v: "owner_validate demo_backend m demo_plan (new_artifact (su_config demo_setup) (\<lambda>_. 0) rq_default demo_plan demo_key a n n demo_out) bs
      = Inr (demo_art a n)" for a n bs
    by (simp add: owner_validate_def demo_backend_def demo_art_def)
  have e: "en_millis (su_env demo_setup) k = 0" for k by (simp add: demo_setup_def)
  show ?thesis using assms
    by (simp add: numeral_3_eq_3 wstep_def thread_step_def validate_step_def to_name_def nowMs_demo demo_ready_def demo_local_def b v e
        demo_plan_backend Let_def)
qed

lemma demo_commit_steps:
  assumes "t < length (wo_threads w)" "wo_threads w ! t = (AtCommit, demo_ready h a n)" "h < length (im_heap (wo_impl w))"
    "fe_baseCacheGen (im_heap (wo_impl w) ! h) = im_cacheGen (wo_impl w)" "fe_baseToolchainGen (im_heap (wo_impl w) ! h) = im_toolchainGen (wo_impl w)"
  shows "\<exists>w' r. run (wstep demo_setup) (replicate 2 (LRun t m)) w = Some w' \<and> wo_threads w' = (wo_threads w)[t := (Returned (Ok r), demo_ready h a n)] \<and>
      map_of (im_cache (wo_impl w')) demo_key = Some \<lparr>ce_key = demo_key, ce_descriptor = demo_art a n, ce_bytes = [1],
        ce_baseCacheGen = im_cacheGen (wo_impl w), ce_baseToolchainGen = im_toolchainGen (wo_impl w), ce_inCache = True\<rparr> \<and>
      im_backends (wo_impl w') = im_backends (wo_impl w) \<and> im_targets (wo_impl w') = im_targets (wo_impl w) \<and>
      im_toolchain (wo_impl w') = im_toolchain (wo_impl w) \<and> im_artifactCounter (wo_impl w') = im_artifactCounter (wo_impl w) \<and>
      im_cacheGen (wo_impl w') = im_cacheGen (wo_impl w) \<and> im_toolchainGen (wo_impl w') = im_toolchainGen (wo_impl w) \<and>
      im_inflight (wo_impl w') = im_inflight (wo_impl w) \<and> fe_done (im_heap (wo_impl w') ! h)"
proof -
  have p: "\<not> cf_persistenceEnabled (su_config demo_setup)" by (simp add: demo_setup_def)
  show ?thesis using assms
    by (simp add: numeral_2_eq_2 wstep_def thread_step_def commit_def persist_artifact_def p finish_flight_def demo_ready_def demo_local_def
        demo_out_def smap_get_put Let_def) blast
qed

lemma single_flight_witness:
  "\<exists>w. reachable (wstep demo_setup) start_world w \<and> is_owner w 0 \<and> map_of (im_inflight (wo_impl w)) demo_key = Some 0 \<and>
     \<not> fe_done (im_heap (wo_impl w) ! 0)"
proof -
  obtain w where w: "run (wstep demo_setup) demo_open demo_world = Some w" "wo_threads w = [(AtBuild, demo_local)]"
    using demo_open_run by blast
  then have r: "reachable (wstep demo_setup) start_world w" using demo_start_world by (auto simp: reachable_iff)
  have o: "is_owner w 0" using w by (simp add: is_owner_def)
  show ?thesis using single_flight [OF r o o refl] r o w(2) by (auto simp: demo_local_def)
qed

lemma demo_wait_run: "\<exists>w. run (wstep demo_setup) (demo_open @ demo_wait) demo_world = Some w \<and>
  wo_threads w = [(AtBuild, demo_local), (AtWait, demo_local)]"
proof -
  obtain w where w: "run (wstep demo_setup) demo_open demo_world = Some w" and t: "wo_threads w = [(AtBuild, demo_local)]"
    and b: "im_backends (wo_impl w) = [(''cpu'', demo_backend)]" "im_targets (wo_impl w) = discoverTargets False tcd_default"
      "im_toolchain (wo_impl w) = tcd_default" "im_cache (wo_impl w) = []" "im_inflight (wo_impl w) = [(demo_key, 0)]"
      "im_heap (wo_impl w) = [new_flight (fromU64 1) 1 1]"
    using demo_open_run by blast
  have s: "wstep demo_setup (LCall 1 0 rq_default) w = Some (w\<lparr>wo_threads := [(AtBuild, demo_local), (AtFast, demo_local)]\<rparr>)"
    using demo_start [of "wo_impl w"] b t by (simp add: wstep_def)
  then have "\<exists>w'. run (wstep demo_setup) demo_wait w = Some w' \<and> wo_threads w' = [(AtBuild, demo_local), (AtWait, demo_local)]"
    using b unfolding demo_wait_def
    by (simp add: wstep_def thread_step_def fast_path_def join_flight_def demo_local_def new_flight_def Let_def)
  then show ?thesis using w by (simp add: run_append)
qed

end
