(* ===== verification/CF_Results.thy ===== *)
theory CF_Results
  imports CF_Interleaving
begin

text \<open>
  What the results of \<open>compile\<close> are worth: every one of them, fresh, reused or taken
  over from another thread's attempt, carries bytes that a backend of this fabric
  compiled for a request with the key of the thread's own, and that a backend validated.
\<close>

text \<open>A request as it was made, or as autotuning varies it.\<close>

definition variant_of :: "CompilationRequest \<Rightarrow> CompilationRequest \<Rightarrow> bool" where
  "variant_of r r' \<longleftrightarrow> r' = r \<or> (\<exists>vi. r' = variant_request r vi)"

definition built_by :: "ICompilerBackend set \<Rightarrow> CompilationKey \<Rightarrow> bytes \<Rightarrow> bool" where
  "built_by B k bs \<longleftrightarrow> (\<exists>b \<in> B. \<exists>m r r' p tc out. bk_compile b m r' p tc = Ok out \<and> bo_executable out = bs \<and>
     variant_of r r' \<and> pl_request p = r \<and> buildCompilationKey r p tc = k)"

definition validated_by :: "ICompilerBackend set \<Rightarrow> CompilationKey \<Rightarrow> bytes \<Rightarrow> ValidationDescriptor \<Rightarrow> bool" where
  "validated_by B k bs vd \<longleftrightarrow> (\<exists>b \<in> B. \<exists>m d. ad_keyDigest d = key_digest k \<and> bk_validate b m d bs = Ok vd)"

definition proven :: "ICompilerBackend set \<Rightarrow> CompilationKey \<Rightarrow> ArtifactDescriptor \<Rightarrow> bytes \<Rightarrow> bool" where
  "proven B k d bs \<longleftrightarrow> ad_state d = ''Deployable'' \<and> vd_passed (ad_validation d) \<and> bs \<noteq> [] \<and>
     ad_contentDigest d = sha256 bs \<and> ad_byteSize d = of_nat (length bs) \<and> ad_keyDigest d = key_digest k \<and>
     built_by B k bs \<and> validated_by B k bs (ad_validation d)"

definition result_good :: "ICompilerBackend set \<Rightarrow> CompilationKey \<Rightarrow> CompilationResult \<Rightarrow> bool" where
  "result_good B k r \<longleftrightarrow> rs_key r = k \<and> rs_keyDigest r = key_digest k \<and> rs_validated r \<and> rs_deployable r \<and>
     rs_artifactId r = ad_id (rs_artifact r) \<and> proven B k (rs_artifact r) (rs_artifactBytes r)"

definition entry_good :: "ICompilerBackend set \<Rightarrow> CompilationKey \<Rightarrow> CacheEntry \<Rightarrow> bool" where
  "entry_good B k e \<longleftrightarrow> (ad_state (ce_descriptor e) = ''Deployable'' \<longrightarrow> proven B k (ce_descriptor e) (ce_bytes e))"

definition cache_good :: "ICompilerBackend set \<Rightarrow> (CompilationKey \<times> CacheEntry) list \<Rightarrow> bool" where
  "cache_good B c \<longleftrightarrow> (\<forall>(k, e) \<in> set c. entry_good B k e)"

definition heap_good :: "ICompilerBackend set \<Rightarrow> (nat \<Rightarrow> CompilationKey) \<Rightarrow> InflightEntry list \<Rightarrow> bool" where
  "heap_good B kf hp \<longleftrightarrow> (\<forall>h < length hp. fe_done (hp ! h) \<and> fe_success (hp ! h) \<longrightarrow> result_good B (kf h) (fe_result (hp ! h)))"

definition thread_good :: "ICompilerBackend set \<Rightarrow> Thread \<Rightarrow> bool" where
  "thread_good B th \<longleftrightarrow> (let lv = snd th; bs = bo_executable (bt_output (lo_built lv)) in
     ((\<exists>c msg. fst th = Returned (Err c msg)) \<or> lo_key lv = buildCompilationKey (lo_request lv) (lo_plan lv) (lo_tc lv) \<and> pl_request (lo_plan lv) = lo_request lv) \<and>
     (case fst th of
        AtName \<Rightarrow> bs \<noteq> [] \<and> built_by B (lo_key lv) bs \<and> (\<exists>b \<in> B. lo_backend lv = Some b)
      | AtGen \<Rightarrow> bs \<noteq> [] \<and> built_by B (lo_key lv) bs \<and> (\<exists>b \<in> B. lo_backend lv = Some b)
      | AtCommit \<Rightarrow> proven B (lo_key lv) (lo_art lv) bs
      | AtFinish r \<Rightarrow> result_good B (lo_key lv) r
      | Returned (Ok r) \<Rightarrow> result_good B (lo_key lv) r
      | _ \<Rightarrow> True))"

definition impl_good :: "ICompilerBackend set \<Rightarrow> (nat \<Rightarrow> CompilationKey) \<Rightarrow> Impl \<Rightarrow> bool" where
  "impl_good B kf i \<longleftrightarrow> snd ` set (im_backends i) \<subseteq> B \<and> cache_good B (im_cache i) \<and> heap_good B kf (im_heap i)"

definition good_inv :: "ICompilerBackend set \<Rightarrow> World \<Rightarrow> bool" where
  "good_inv B w \<longleftrightarrow> (\<exists>kf. flights_ok kf (done_flags (wo_impl w)) (map_of (im_inflight (wo_impl w))) (wo_threads w) \<and> impl_good B kf (wo_impl w)) \<and>
     (\<forall>th \<in> set (wo_threads w). thread_good B th)"

fun registers_only :: "ICompilerBackend set \<Rightarrow> Label \<Rightarrow> bool" where
  "registers_only B (LOp (OpRegister b)) = (b \<in> B)"
| "registers_only B (LOp (OpAdopt _ _)) = False"
| "registers_only B _ = True"

section \<open>The parts of the state\<close>

lemma cache_good_put: "cache_good B c \<Longrightarrow> entry_good B k e \<Longrightarrow> cache_good B (smap_put k e c)"
  using set_smap_put_sub [of k e c] by (fastforce simp: cache_good_def)

lemma cache_good_find: "cache_good B c \<Longrightarrow> map_of c k = Some e \<Longrightarrow> entry_good B k e"
  by (auto simp: cache_good_def dest: map_of_SomeD)

lemma cache_good_map:
  "cache_good B (im_cache i) \<Longrightarrow> (\<And>k e. entry_good B k e \<Longrightarrow> entry_good B k (f e)) \<Longrightarrow> cache_good B (im_cache (map_entries f i))"
  by (fastforce simp: cache_good_def map_entries_def)

lemma entry_good_marks [simp]: "entry_good B k (invalidate_entry e)" "entry_good B k (supersede_entry e)"
  by (simp_all add: entry_good_def invalidate_entry_def supersede_entry_def)

lemma cache_good_op:
  assumes "api_op cfg op i = Some i'" "registers_only B (LOp op)" "cache_good B (im_cache i)"
  shows "cache_good B (im_cache i')"
  using assms
  by (cases op) (auto simp: op_defs split: option.splits if_splits eff.splits intro!: cache_good_put cache_good_map)

lemma backends_op:
  assumes "api_op cfg op i = Some i'" "registers_only B (LOp op)" "snd ` set (im_backends i) \<subseteq> B"
  shows "snd ` set (im_backends i') \<subseteq> B"
  using assms set_smap_put_sub [of _ _ "im_backends i"]
  by (cases op) (fastforce simp: op_defs split: option.splits if_splits eff.splits)+

lemma proven_touch: "proven B k (d\<lparr>ad_lastAccess := x, ad_reuseCount := y\<rparr>) bs = proven B k d bs"
  by (simp add: proven_def)

lemma fast_path_good:
  assumes f: "fast_path cfg now r p k i = Some (hit, i')" and c: "cache_good B (im_cache i)"
  shows "cache_good B (im_cache i') \<and> im_backends i' = im_backends i \<and> (\<forall>res. hit = Some res \<longrightarrow> result_good B k res)"
proof (cases "map_of (im_cache i) k")
  case None
  then show ?thesis using f c by (simp add: fast_path_def Let_def split: if_splits) auto
next
  case (Some e)
  let ?e = "e\<lparr>ce_descriptor := (ce_descriptor e)\<lparr>ad_lastAccess := now, ad_reuseCount := ad_reuseCount (ce_descriptor e) + 1\<rparr>\<rparr>"
  have e: "entry_good B k e" using cache_good_find [OF c Some] .
  then have "entry_good B k ?e" by (simp add: entry_good_def proven_touch)
  moreover have "result_good B k (reused_result r p k ?e dec)" if "ad_state (ce_descriptor e) = ''Deployable''" for dec
    using e that by (simp add: entry_good_def result_good_def reused_result_def proven_touch Let_def) (simp add: proven_def)
  ultimately show ?thesis using f c Some by (auto simp: fast_path_def Let_def cache_good_put split: if_splits)
qed

lemma fresh_result_good:
  assumes "proven B k art (bo_executable (bt_output bt))"
  shows "result_good B k (fresh_result r p k a art g bt c v)"
  using assms by (simp add: result_good_def fresh_result_def)

lemma commit_good:
  assumes "commit cfg env m h p k art g bs i = Some (ok, i')" "cache_good B (im_cache i)" "proven B k art bs"
  shows "cache_good B (im_cache i') \<and> im_backends i' = im_backends i"
proof -
  have "entry_good B k \<lparr>ce_key = k, ce_descriptor = art, ce_bytes = bs, ce_baseCacheGen = im_cacheGen i,
      ce_baseToolchainGen = im_toolchainGen i, ce_inCache = True\<rparr>"
    using assms(3) by (simp add: entry_good_def)
  then show ?thesis using assms(1,2) by (auto simp: commit_def Let_def fail_flight_def cache_good_put split: if_splits dest!: persist_simps)
qed

lemma owner_validate_good:
  assumes "owner_validate b m p (new_artifact cfg now r p k a n g out) (bo_executable out) = Inr art" "b \<in> B" "bo_executable out \<noteq> []" "built_by B k (bo_executable out)"
  shows "proven B k art (bo_executable out)"
proof -
  obtain vd where vd: "bk_validate b m (new_artifact cfg now r p k a n g out) (bo_executable out) = Ok vd" "vd_passed vd"
    "art = make_deployable p ((new_artifact cfg now r p k a n g out)\<lparr>ad_validation := vd\<rparr>)"
    using assms(1) by (auto simp: owner_validate_def split: result.splits if_splits)
  moreover have "ad_keyDigest (new_artifact cfg now r p k a n g out) = key_digest k" by (simp add: new_artifact_def)
  ultimately have "validated_by B k (bo_executable out) vd" using assms(2) unfolding validated_by_def by blast
  then show ?thesis using vd(2,3) assms(3,4) unfolding proven_def by (auto simp: make_deployable_def new_artifact_def)
qed

lemma validate_step_good:
  assumes "thread_good B (AtGen, lv)"
  shows "thread_good B (validate_step cfg env m lv i)"
proof -
  obtain b where b: "b \<in> B" "lo_backend lv = Some b" using assms by (auto simp: thread_good_def Let_def)
  then show ?thesis using assms owner_validate_good [of b]
    by (auto simp: thread_good_def validate_step_def Let_def split: sum.splits)
qed

lemma heap_good_update:
  assumes "heap_good B kf hp" "fe_done e \<and> fe_success e \<Longrightarrow> h < length hp \<Longrightarrow> result_good B (kf h) (fe_result e)"
  shows "heap_good B kf (hp[h := e])"
  using assms by (cases "h < length hp") (auto simp: heap_good_def nth_list_update list_update_beyond)

lemma heap_good_waiter: "heap_good B kf hp \<Longrightarrow> heap_good B kf (hp[h := (hp ! h)\<lparr>fe_waiters := n\<rparr>])"
  by (rule heap_good_update) (auto simp: heap_good_def)

lemma heap_good_open: "heap_good B kf hp \<Longrightarrow> heap_good B kf (hp @ [new_flight a c g])"
  by (auto simp: heap_good_def nth_append new_flight_def)

lemma heap_good_fail: "heap_good B kf (im_heap i) \<Longrightarrow> heap_good B kf (im_heap (fail_flight h c msg f i))"
  by (auto simp: fail_flight_def intro: heap_good_update)

lemma heap_good_finish:
  "heap_good B kf (im_heap i) \<Longrightarrow> result_good B (kf h) r \<Longrightarrow> heap_good B kf (im_heap (finish_flight h r i))"
  by (auto simp: finish_flight_def intro: heap_good_update)

lemma heap_good_join: "heap_good B kf (im_heap i) \<Longrightarrow> heap_good B kf (im_heap (snd (join_flight k i)))"
  by (auto simp: join_flight_def Let_def heap_good_waiter heap_good_open split: option.splits)

lemma heap_good_commit:
  "commit cfg env m h p k art g bs i = Some (ok, i') \<Longrightarrow> heap_good B kf (im_heap i) \<Longrightarrow> heap_good B kf (im_heap i')"
  by (auto simp: commit_def Let_def heap_good_fail split: if_splits dest!: persist_simps)

lemma heap_good_agree: "heap_good B kf hp \<Longrightarrow> (\<And>h. h < length hp \<Longrightarrow> kf' h = kf h) \<Longrightarrow> heap_good B kf' hp"
  by (simp add: heap_good_def)

lemma build_tuned_origin:
  assumes "bo_executable (bt_output (build_tuned env b r p tc k m)) \<noteq> []"
  shows "\<exists>m' r'. variant_of r r' \<and> bk_compile b m' r' p tc = Ok (bt_output (build_tuned env b r p tc k m))"
  using assms unfolding build_tuned_def variant_of_def
  by (auto simp: Let_def bo_default_def split: option.splits result.splits prod.splits if_splits)

lemma owner_build_good:
  assumes "owner_build env bs r p tc k m = BuildDone bt" "snd ` set bs \<subseteq> B"
    and "k = buildCompilationKey r p tc" "pl_request p = r"
  shows "bo_executable (bt_output bt) \<noteq> [] \<and> built_by B k (bo_executable (bt_output bt)) \<and> (\<exists>b \<in> B. map_of bs (pl_backend p) = Some b)"
proof -
  obtain b where b: "map_of bs (pl_backend p) = Some b" using assms(1) by (auto simp: owner_build_def split: option.splits)
  then have B: "b \<in> B" using assms(2) by (force dest: map_of_SomeD)
  have n: "bo_executable (bt_output bt) \<noteq> []"
    using assms(1) b by (auto simp: owner_build_def Let_def split: result.splits if_splits)
  have "\<exists>m' r'. variant_of r r' \<and> bk_compile b m' r' p tc = Ok (bt_output bt)"
    using assms(1) b n build_tuned_origin [of env b r p tc k "m + 1"]
    by (auto simp: owner_build_def Let_def split: result.splits if_splits) (auto simp: variant_of_def)
  then have "built_by B k (bo_executable (bt_output bt))" using B assms(3,4) unfolding built_by_def by blast
  then show ?thesis using b B n by blast
qed

section \<open>The invariant\<close>

lemma thread_step_good:
  assumes step: "thread_step cfg env m th i = Some (th', i')" and th: "thread_good B th" and i: "impl_good B kf i"
    and h: "fst th = AtWait \<or> owns (fst th) \<Longrightarrow> lo_h (snd th) < length (im_heap i) \<and> kf (lo_h (snd th)) = lo_key (snd th)"
  shows "thread_good B th' \<and> impl_good B kf i'"
proof (cases th)
  case (Pair pc lv)
  show ?thesis
  proof (cases pc)
    case AtFast
    then obtain hit where "fast_path cfg (en_millis env m) (lo_request lv) (lo_plan lv) (lo_key lv) i = Some (hit, i')"
        "th' = (case hit of Some r \<Rightarrow> (Returned (Ok r), lv) | None \<Rightarrow> (AtJoin, lv))"
      using step Pair by (auto simp: thread_step_def)
    then show ?thesis using fast_path_good [of cfg _ _ _ _ i hit i' B] fast_path_effect th i Pair AtFast
      by (auto simp: thread_good_def impl_good_def Let_def split: option.splits)
  next
    case AtJoin
    have "impl_good B kf (snd (join_flight (lo_key lv) i))"
      using i heap_good_join [of B kf i "lo_key lv"]
      by (auto simp: impl_good_def join_flight_def Let_def split: option.splits)
    then show ?thesis using step th Pair AtJoin
      by (auto simp: thread_step_def thread_good_def Let_def split: prod.splits sum.splits)
  next
    case AtWait
    then show ?thesis using step th i h Pair
      by (simp add: thread_step_def wake_def thread_good_def impl_good_def heap_good_def Let_def split: if_splits) force+
  next
    case AtBuild
    then show ?thesis using step th i Pair owner_build_good [of env "im_backends i" "lo_request lv" "lo_plan lv" "lo_tc lv" "lo_key lv" m]
      by (auto simp: thread_step_def to_name_def thread_good_def impl_good_def Let_def split: BuildResult.splits)
  next
    case (AtFail c msg ops)
    then show ?thesis using step th i Pair heap_good_fail [of B kf i]
      by (auto simp: thread_step_def thread_good_def impl_good_def Let_def) (auto simp: fail_flight_def)
  next
    case AtName
    then show ?thesis using step th i Pair by (fastforce simp: thread_step_def thread_good_def impl_good_def Let_def)
  next
    case AtGen
    then show ?thesis using step th i Pair validate_step_good [of B lv cfg env m i] by (auto simp: thread_step_def)
  next
    case AtCommit
    then obtain ok where ok: "commit cfg env m (lo_h lv) (lo_plan lv) (lo_key lv) (lo_art lv) (lo_gen lv)
        (bo_executable (bt_output (lo_built lv))) i = Some (ok, i')"
      using step Pair by (auto simp: thread_step_def)
    have p: "proven B (lo_key lv) (lo_art lv) (bo_executable (bt_output (lo_built lv)))"
      using th Pair AtCommit by (auto simp: thread_good_def Let_def)
    then have "impl_good B kf i'" using commit_good [OF ok, of B] heap_good_commit [OF ok] i by (simp add: impl_good_def)
    moreover have "thread_good B th'" using step th Pair AtCommit ok fresh_result_good [OF p]
      by (auto simp: thread_step_def thread_good_def Let_def)
    ultimately show ?thesis by blast
  next
    case (AtFinish res)
    then have "result_good B (kf (lo_h lv)) res" using th h Pair by (auto simp: thread_good_def Let_def)
    then show ?thesis using step th i Pair AtFinish heap_good_finish [of B kf i]
      by (auto simp: thread_step_def thread_good_def impl_good_def Let_def) (auto simp: finish_flight_def)
  next
    case (Returned r)
    then show ?thesis using step Pair by (simp add: thread_step_def)
  qed
qed

lemma plan_request: "plan cfg ok bs ts n now r = Ok p \<Longrightarrow> pl_request p = r"
  by (auto simp: plan_def Let_def split: if_splits)

lemma start_compile_good: "thread_good B (start_compile cfg ok n now r i)"
  by (auto simp: start_compile_def thread_good_def Let_def plan_request split: result.splits)

lemma good_inv_step:
  assumes inv: "good_inv B w" and reg: "registers_only B l" and step: "wstep su l w = Some w'"
  shows "good_inv B w'"
proof -
  obtain kf where ok: "flights_ok kf (done_flags (wo_impl w)) (map_of (im_inflight (wo_impl w))) (wo_threads w)"
    and i: "impl_good B kf (wo_impl w)" and ths: "\<And>th. th \<in> set (wo_threads w) \<Longrightarrow> thread_good B th"
    using inv by (auto simp: good_inv_def)
  show ?thesis
  proof (cases l)
    case (LCall n now r)
    then have "flights_ok kf (done_flags (wo_impl w')) (map_of (im_inflight (wo_impl w'))) (wo_threads w')"
      using flights_call [OF ok start_compile_idle] step by (auto simp: wstep_def)
    then show ?thesis using i ths step LCall start_compile_good by (auto simp: good_inv_def wstep_def)
  next
    case (LRun t m)
    then obtain th' i' where t: "t < length (wo_threads w)" and w': "w' = w\<lparr>wo_threads := (wo_threads w)[t := th'], wo_impl := i'\<rparr>"
      and th': "thread_step (su_config su) (su_env su) m (wo_threads w ! t) (wo_impl w) = Some (th', i')"
      using step by (auto simp: wstep_def split: if_splits)
    obtain kf' where agree: "\<And>h. h < length (im_heap (wo_impl w)) \<Longrightarrow> kf' h = kf h"
      and ok': "flights_ok kf' (done_flags i') (map_of (im_inflight i')) ((wo_threads w)[t := th'])"
      using flights_effect [OF ok t] thread_step_effect [OF th'] by blast
    have "impl_good B kf' (wo_impl w)" using i heap_good_agree agree by (auto simp: impl_good_def)
    moreover have "thread_inv kf (done_flags (wo_impl w)) (map_of (im_inflight (wo_impl w))) (wo_threads w ! t)"
      using ok t by (simp add: flights_ok_def)
    then have "fst (wo_threads w ! t) = AtWait \<or> owns (fst (wo_threads w ! t)) \<Longrightarrow>
        lo_h (snd (wo_threads w ! t)) < length (im_heap (wo_impl w)) \<and> kf' (lo_h (snd (wo_threads w ! t))) = lo_key (snd (wo_threads w ! t))"
      using agree by (auto simp: thread_inv_def done_flags_def Let_def)
    ultimately have "thread_good B th' \<and> impl_good B kf' i'" using thread_step_good [OF th' ths] t by simp
    then show ?thesis using w' ok' ths by (auto simp: good_inv_def dest!: set_update_subset_insert [THEN subsetD])
  next
    case (LOp op)
    obtain i' sc where o: "api_op (su_config su) op (wo_impl w) = Some i'" and w': "w' = w\<lparr>wo_impl := i', wo_scans := sc\<rparr>"
      using wstep_LOp step LOp by blast
    have r: "registers_only B (LOp op)" using reg LOp by simp
    have "impl_good B kf i'" using i cache_good_op [OF o r] backends_op [OF o r] api_op_flights [OF o] by (simp add: impl_good_def)
    then show ?thesis using w' ok ths api_op_flights [OF o] by (auto simp: good_inv_def done_flags_def)
  qed
qed

interpretation good: step_invariant "only (registers_only B) (wstep su)" "good_inv B" for B su
  by unfold_locales (auto intro: good_inv_step)

text \<open>A fabric whose cache is empty, and the backends that a schedule can involve.\<close>

definition fresh_world :: "World \<Rightarrow> bool" where
  "fresh_world w \<longleftrightarrow> start_world w \<and> im_cache (wo_impl w) = []"

fun registered :: "Label list \<Rightarrow> ICompilerBackend list" where
  "registered [] = []"
| "registered (LOp (OpRegister b) # ls) = b # registered ls"
| "registered (_ # ls) = registered ls"

definition backends_of :: "World \<Rightarrow> Label list \<Rightarrow> ICompilerBackend set" where
  "backends_of w ls = set (map snd (im_backends (wo_impl w)) @ registered ls)"

lemma registers_only_all:
  assumes "l \<in> set ls" "\<not> recovers l" "set (registered ls) \<subseteq> B"
  shows "registers_only B l"
  using assms
proof (induction ls rule: registered.induct)
  case (2 b ls)
  then show ?case by auto
qed (auto elim!: registers_only.elims)

lemma fresh_good: "fresh_world w \<Longrightarrow> good_inv (backends_of w ls) w"
  using start_flight_inv [of w]
  by (auto simp: fresh_world_def start_world_def good_inv_def flight_inv_def impl_good_def cache_good_def heap_good_def backends_of_def)

lemma returned_good:
  assumes "run (wstep su) ls w = Some w'" "fresh_world w" "\<forall>l \<in> set ls. \<not> recovers l"
    and "t < length (wo_threads w')"
  shows "thread_good (backends_of w ls) (wo_threads w' ! t)"
proof -
  let ?B = "backends_of w ls"
  have "registers_only ?B l" if "l \<in> set ls" for l
    using registers_only_all [OF that, of ?B] that assms(3) by (auto simp: backends_of_def)
  then have "run (only (registers_only ?B) (wstep su)) ls w = Some w'" using run_only [of ls "registers_only ?B" "wstep su" w] assms(1) by simp
  then have "good_inv ?B w'" using good.inv_run fresh_good [OF assms(2)] by blast
  moreover have "wo_threads w' ! t \<in> set (wo_threads w')" using assms(4) by simp
  ultimately show ?thesis unfolding good_inv_def by blast
qed

text \<open>
  C3: Whatever the schedule of calls, thread steps and operations (recovery excepted), a result
  that compile returns belongs to the key of the caller's own request; it is deployable
  and validated, its bytes are not empty and hash to the recorded content digest, a backend of
  this fabric compiled them for a request with the same key (or its autotuning variant), and
  a backend validated exactly these bytes, under the digest of that key, and they passed. This holds for fresh,
  reused and waited-for results alike.
\<close>

theorem compile_validated:
  assumes "run (wstep su) ls w = Some w'" "fresh_world w" "\<forall>l \<in> set ls. \<not> recovers l"
    and "t < length (wo_threads w')" "wo_threads w' ! t = (Returned (Ok r), lv)"
  shows "rs_key r = buildCompilationKey (lo_request lv) (lo_plan lv) (lo_tc lv) \<and> rs_keyDigest r = key_digest (rs_key r) \<and>
    rs_deployable r \<and> rs_validated r \<and> ad_state (rs_artifact r) = ''Deployable'' \<and> vd_passed (ad_validation (rs_artifact r)) \<and>
    rs_artifactBytes r \<noteq> [] \<and> ad_contentDigest (rs_artifact r) = sha256 (rs_artifactBytes r) \<and>
    ad_keyDigest (rs_artifact r) = rs_keyDigest r \<and> built_by (backends_of w ls) (rs_key r) (rs_artifactBytes r) \<and>
    validated_by (backends_of w ls) (rs_key r) (rs_artifactBytes r) (ad_validation (rs_artifact r))"
  using returned_good [OF assms(1-4)] assms(5) by (auto simp: thread_good_def result_good_def proven_def Let_def)

lemma compile_validated_witness:
  "\<exists>w' r lv. run (wstep demo_setup) (demo_open @ replicate 3 (LRun 0 2) @ replicate 2 (LRun 0 3)) demo_world = Some w' \<and>
     wo_threads w' = [(Returned (Ok r), lv)] \<and> rs_validated r \<and> ad_contentDigest (rs_artifact r) = sha256 (rs_artifactBytes r)"
proof -
  let ?ls = "demo_open @ replicate 3 (LRun 0 2) @ replicate 2 (LRun 0 3)"
  obtain w where w: "run (wstep demo_setup) demo_open demo_world = Some w" and t: "wo_threads w = [(AtBuild, demo_local)]"
    and b: "im_backends (wo_impl w) = [(''cpu'', demo_backend)]" "im_heap (wo_impl w) = [new_flight (fromU64 1) 1 1]"
      "im_cacheGen (wo_impl w) = 1" "im_toolchainGen (wo_impl w) = 1"
    using demo_open_run by blast
  have l: "demo_local = demo_local\<lparr>lo_h := 0\<rparr>" by (simp add: demo_local_def)
  obtain w1 where w1: "run (wstep demo_setup) (replicate 3 (LRun 0 2)) w = Some w1" "wo_threads w1 = [(AtCommit, demo_ready 0 (fromU64 1) (im_artifactCounter (wo_impl w) + 1))]"
      "im_heap (wo_impl w1) = im_heap (wo_impl w)" "im_cacheGen (wo_impl w1) = 1" "im_toolchainGen (wo_impl w1) = 1"
    using demo_build_steps [of 0 w 0 2] t b l by (simp add: new_flight_def)
  obtain w' r lv where w': "run (wstep demo_setup) (replicate 2 (LRun 0 3)) w1 = Some w'" "wo_threads w' = [(Returned (Ok r), lv)]"
    using demo_commit_steps [of 0 w1 0 "fromU64 1" "im_artifactCounter (wo_impl w) + 1" 3] w1 b by (auto simp: new_flight_def)
  have run: "run (wstep demo_setup) ?ls demo_world = Some w'" using w w1(1) w'(1) by (simp add: run_append)
  have f: "fresh_world demo_world" by (simp add: fresh_world_def demo_start_world)
  have n: "\<forall>l \<in> set ?ls. \<not> recovers l" by (auto simp: demo_open_def)
  have "0 < length (wo_threads w')" "wo_threads w' ! 0 = (Returned (Ok r), lv)" using w'(2) by simp_all
  from compile_validated [OF run f n this] show ?thesis using run w'(2) by blast
qed

end
