(* ===== verification/CF_Double.thy ===== *)
theory CF_Double
  imports CF_Json
begin

text \<open>
  IEEE binary64 arithmetic on bit patterns, as the CPU backend uses it: addition,
  multiplication, negation, absolute value, comparison, and the conversion to binary32
  and back, all rounding to nearest, ties to even. The bits of a NaN result and the sine
  function, which C++ does not fix, belong to the floating-point unit that is an argument.
  The class of a double forgets the payload of a NaN and the sign of a zero; every
  operation is a function of the classes of its operands, which is what proofs use.
\<close>

section \<open>Rounding to p bits\<close>

definition fexp :: "nat \<Rightarrow> int \<Rightarrow> rat \<Rightarrow> int" where
  "fexp p emin x =
     (let (n, d) = quotient_of x;
          e = max emin (bit_count n - bit_count d - int p)
      in if 2 ^ p \<le> x / 2 powi e then e + 1 else e)"

definition fround :: "nat \<Rightarrow> int \<Rightarrow> rat \<Rightarrow> rat" where
  "fround p emin x = (let e = fexp p emin x in of_int (round_half_even (x / 2 powi e)) * 2 powi e)"

lemma bit_count_bounds: "0 < n \<Longrightarrow> 0 < bit_count n \<and> 2 ^ nat (bit_count n - 1) \<le> n \<and> n < 2 ^ nat (bit_count n)"
proof (induction n rule: bit_count.induct)
  case (1 n)
  have c: "bit_count n = bit_count (n div 2) + 1" using "1.prems" by (subst bit_count.simps) simp
  show ?case
  proof (cases "n = 1")
    case True
    then show ?thesis by (simp add: bit_count.simps)
  next
    case False
    then have "0 < n div 2" using "1.prems" by auto
    then have ih: "0 < bit_count (n div 2)" "2 ^ nat (bit_count (n div 2) - 1) \<le> n div 2" "n div 2 < 2 ^ nat (bit_count (n div 2))"
      using "1.IH" "1.prems" by auto
    have "(2::int) ^ nat (bit_count (n div 2)) = 2 * 2 ^ nat (bit_count (n div 2) - 1)"
      using ih(1) by (metis Suc_nat_eq_nat_zadd1 add.commute diff_add_cancel diff_ge_0_iff_ge int_one_le_iff_zero_less power_Suc)
    moreover have "(2::int) ^ nat (bit_count n) = 2 * 2 ^ nat (bit_count (n div 2))"
      using ih(1) c by (simp add: nat_add_distrib)
    moreover have "2 * (n div 2) \<le> n" "n < 2 * (n div 2) + 2" by auto
    ultimately show ?thesis using ih c by simp
  qed
qed

lemma powi_le_iff: "(2::rat) powi a \<le> 2 powi b \<longleftrightarrow> a \<le> b"
  using power_int_increasing [of a b "2 :: rat"] power_int_strict_increasing [of b a "2 :: rat"] by (auto simp: not_le [symmetric])

lemma quotient_bounds:
  assumes "0 < x" "quotient_of x = (n, d)"
  shows "2 powi (bit_count n - bit_count d - 1) < x" "x < 2 powi (bit_count n - bit_count d + 1)"
proof -
  have d: "0 < d" and x: "x = of_int n / of_int d" using quotient_of_denom_pos [OF assms(2)] quotient_of_div [OF assms(2)] by auto
  then have n: "0 < n" using assms(1) by (simp add: zero_less_divide_iff)
  have powi: "(2::rat) powi b = of_int (2 ^ nat b)" if "0 \<le> b" for b using that by (simp add: power_int_def)
  note bn = bit_count_bounds [OF n] and bd = bit_count_bounds [OF d]
  have N: "2 powi (bit_count n - 1) \<le> (of_int n :: rat)" "(of_int n :: rat) < 2 powi bit_count n"
    using bn by (simp_all add: powi del: of_int_power)
  have D: "2 powi (bit_count d - 1) \<le> (of_int d :: rat)" "(of_int d :: rat) < 2 powi bit_count d"
    using bd by (simp_all add: powi del: of_int_power)
  have "2 powi (bit_count n - bit_count d - 1) * (of_int d :: rat) < 2 powi (bit_count n - bit_count d - 1) * 2 powi bit_count d"
    using D(2) by simp
  also have "\<dots> = 2 powi (bit_count n - 1)" by (simp flip: power_int_add)
  finally show "2 powi (bit_count n - bit_count d - 1) < x" using N(1) d by (simp add: x pos_less_divide_eq)
  have "(of_int n :: rat) < 2 powi bit_count n" by (rule N(2))
  also have "\<dots> = 2 powi (bit_count n - bit_count d + 1) * 2 powi (bit_count d - 1)" by (simp flip: power_int_add)
  also have "\<dots> \<le> 2 powi (bit_count n - bit_count d + 1) * of_int d" using D(1) by simp
  finally show "x < 2 powi (bit_count n - bit_count d + 1)" using d by (simp add: x pos_divide_less_eq)
qed

text \<open>What the exponent is, and that these conditions fix it.\<close>

definition is_fexp :: "nat \<Rightarrow> int \<Rightarrow> rat \<Rightarrow> int \<Rightarrow> bool" where
  "is_fexp p emin x e \<longleftrightarrow> emin \<le> e \<and> x < 2 powi (int p + e) \<and> (e = emin \<or> 2 powi (int p + e - 1) \<le> x)"

lemma fexp_is: 
  assumes "0 < x"
  shows "is_fexp p emin x (fexp p emin x)"
proof -
  obtain n d where q: "quotient_of x = (n, d)" by fastforce
  define b where "b = bit_count n - bit_count d"
  define e where "e = max emin (b - int p)"
  have lo: "2 powi (b - 1) < x" and hi: "x < 2 powi (b + 1)" using quotient_bounds [OF assms q] by (simp_all add: b_def)
  have f: "fexp p emin x = (if 2 ^ p \<le> x / 2 powi e then e + 1 else e)" by (simp add: fexp_def q b_def e_def)
  have s: "2 ^ p \<le> x / 2 powi e \<longleftrightarrow> 2 powi (int p + e) \<le> x" by (simp add: pos_le_divide_eq power_int_add)
  have "(2::rat) powi (b + 1) \<le> 2 powi (int p + (e + 1))" by (simp add: powi_le_iff e_def)
  then have up: "x < 2 powi (int p + (e + 1))" using hi by linarith
  have low: "2 powi (int p + e - 1) \<le> x" if "e \<noteq> emin"
  proof -
    have "int p + e - 1 = b - 1" using that by (auto simp: e_def)
    then show ?thesis using lo by simp
  qed
  have "emin \<le> e" by (simp add: e_def)
  then show ?thesis using up low unfolding is_fexp_def f s by (auto simp: not_le)
qed

lemma fexp_unique:
  assumes "is_fexp p emin x e" "is_fexp p emin x e'"
  shows "e = e'"
proof -
  have "False" if "is_fexp p emin x a" "is_fexp p emin x b" "a < b" for a b
  proof -
    have "(2::rat) powi (int p + a) \<le> 2 powi (int p + b - 1)" using that(3) by (simp add: powi_le_iff)
    then show False using that by (auto simp: is_fexp_def)
  qed
  then show ?thesis using assms by (metis linorder_neqE)
qed

lemma rhe_ge: "of_int k \<le> x \<Longrightarrow> k \<le> round_half_even x"
proof -
  assume "of_int k \<le> x"
  then have "k \<le> \<lfloor>x\<rfloor>" by (simp add: le_floor_iff)
  then show ?thesis by (simp add: round_half_even_def Let_def)
qed

lemma rhe_le: "x \<le> of_int k \<Longrightarrow> round_half_even x \<le> k"
proof (cases "x = of_int k")
  case False
  assume "x \<le> of_int k"
  then have "\<lfloor>x\<rfloor> < k" using False by (simp add: floor_less_iff)
  then show ?thesis by (simp add: round_half_even_def Let_def)
qed simp

definition fmant :: "nat \<Rightarrow> int \<Rightarrow> rat \<Rightarrow> int" where
  "fmant p emin x = round_half_even (x / 2 powi fexp p emin x)"

lemma fround_eq: "fround p emin x = of_int (fmant p emin x) * 2 powi fexp p emin x"
  by (simp add: fround_def fmant_def Let_def)

lemma fmant_bounds:
  assumes "0 < x" "0 < p"
  shows "0 \<le> fmant p emin x \<and> fmant p emin x \<le> 2 ^ p \<and> emin \<le> fexp p emin x \<and>
    (fexp p emin x = emin \<or> 2 ^ (p - 1) \<le> fmant p emin x)"
proof -
  let ?e = "fexp p emin x"
  have i: "is_fexp p emin x ?e" using fexp_is [OF assms(1)] .
  have "0 \<le> fmant p emin x" unfolding fmant_def using assms(1) by (intro rhe_ge) simp
  moreover have "fmant p emin x \<le> 2 ^ p" unfolding fmant_def
    using i by (intro rhe_le) (simp add: is_fexp_def pos_divide_le_eq power_int_add)
  moreover have "2 ^ (p - 1) \<le> fmant p emin x" if "?e \<noteq> emin"
  proof -
    have "2 powi (int p + ?e - 1) \<le> x" using i that by (simp add: is_fexp_def)
    moreover have "int p + ?e - 1 = int (p - 1) + ?e" using assms(2) by simp
    ultimately have "2 powi int (p - 1) * 2 powi ?e \<le> x" by (metis power_int_add zero_neq_numeral)
    then have "of_int (2 ^ (p - 1)) \<le> x / 2 powi ?e" by (simp only: pos_le_divide_eq zero_less_power_int zero_less_numeral power_int_of_nat of_int_power of_int_numeral)
    then show ?thesis unfolding fmant_def by (rule rhe_ge)
  qed
  ultimately show ?thesis using i by (auto simp: is_fexp_def)
qed

text \<open>A value with a mantissa of p bits at a sufficient exponent is not changed by rounding.\<close>

lemma fround_exact:
  assumes "0 < m" "m < 2 ^ p" "emin \<le> e" "y = of_int m * 2 powi e"
  shows "fround p emin y = y"
proof -
  let ?E = "fexp p emin y"
  have y: "0 < y" using assms by simp
  have i: "is_fexp p emin y ?E" using fexp_is [OF y] .
  have up: "y < 2 powi (int p + e)"
  proof -
    have "(of_int m :: rat) < of_int (2 ^ p)" using assms(2) by (simp only: of_int_less_iff)
    then show ?thesis by (simp add: assms(4) power_int_add)
  qed
  have "?E \<le> e"
  proof (rule ccontr)
    assume "\<not> ?E \<le> e"
    then have "2 powi (int p + ?E - 1) \<le> y" "(2::rat) powi (int p + e) \<le> 2 powi (int p + ?E - 1)"
      using i assms(3) by (auto simp: is_fexp_def powi_le_iff)
    then show False using up by simp
  qed
  then have k: "(2::rat) ^ nat (e - ?E) * 2 powi ?E = 2 powi e"
    by (metis diff_add_cancel diff_ge_0_iff_ge int_nat_eq power_int_add power_int_of_nat zero_neq_numeral)
  then have "y = of_int (m * 2 ^ nat (e - ?E)) * 2 powi ?E" unfolding assms(4) by (simp add: mult.assoc)
  then have "y / 2 powi ?E = of_int (m * 2 ^ nat (e - ?E))" by (metis nonzero_mult_div_cancel_right power_int_not_zero zero_neq_numeral)
  then have f: "fmant p emin y = m * 2 ^ nat (e - ?E)" unfolding fmant_def by (simp only: round_half_even_int)
  note k
  then show ?thesis unfolding fround_eq f by (simp add: assms(4) mult.assoc)
qed

lemma fround_idem:
  assumes "0 < x" "1 < p" "0 < fround p emin x"
  shows "fround p emin (fround p emin x) = fround p emin x"
proof -
  let ?m = "fmant p emin x" and ?e = "fexp p emin x"
  note b = fmant_bounds [of x p emin]
  have m: "0 < ?m" using assms b by (cases "?m = 0") (auto simp: fround_eq)
  show ?thesis
  proof (cases "?m = 2 ^ p")
    case True
    have "(2::rat) ^ p = 2 ^ (p - 1) * 2" using assms(2) by (metis One_nat_def Suc_lessD Suc_pred mult.commute power_Suc zero_less_Suc less_trans)
    then have "fround p emin x = of_int (2 ^ (p - 1)) * 2 powi (?e + 1)" by (simp add: fround_eq True power_int_add_1 mult.assoc)
    then show ?thesis using assms b by (intro fround_exact [of "2 ^ (p - 1)" p emin "?e + 1"]) (auto intro: power_strict_increasing)
  next
    case False
    then show ?thesis using assms b m by (intro fround_exact [of ?m p emin ?e]) (auto simp: fround_eq)
  qed
qed

section \<open>Bit patterns\<close>

type_synonym double = u64

definition neg_bit :: "double \<Rightarrow> bool" where "neg_bit x \<longleftrightarrow> 2 ^ 63 \<le> uint x"

definition magn :: "double \<Rightarrow> int" where "magn x = uint x mod 2 ^ 63"

definition mk :: "bool \<Rightarrow> int \<Rightarrow> double" where "mk s b = of_int (b + (if s then 2 ^ 63 else 0))"

definition inf_bits :: int where "inf_bits = 2047 * 2 ^ 52"

definition mag :: "int \<Rightarrow> rat" where
  "mag b = (if b < 2 ^ 52 then of_int b * 2 powi (- 1074) else of_int (2 ^ 52 + b mod 2 ^ 52) * 2 powi (b div 2 ^ 52 - 1075))"

text \<open>The magnitude bits of a nonnegative value: exponent and mantissa side by side, carries included.\<close>

definition rnd :: "rat \<Rightarrow> int" where
  "rnd x = (if x = 0 then 0 else min inf_bits (fmant 53 (- 1074) x + (fexp 53 (- 1074) x + 1074) * 2 ^ 52))"

lemma magn_bounds [simp]: "0 \<le> magn x" "magn x < 2 ^ 63"
  by (simp_all add: magn_def)

lemma uint_mk: "0 \<le> b \<Longrightarrow> b < 2 ^ 63 \<Longrightarrow> uint (mk s b) = b + (if s then 2 ^ 63 else 0)"
  unfolding mk_def uint_word_of_int by (rule mod_pos_pos_trivial) auto

lemma mk_simps: "0 \<le> b \<Longrightarrow> b < 2 ^ 63 \<Longrightarrow> neg_bit (mk s b) = s \<and> magn (mk s b) = b"
  by (auto simp: neg_bit_def magn_def uint_mk)

lemma mk_magn: "mk (neg_bit x) (magn x) = x"
proof (rule word_uint_eqI)
  have u: "uint x < 2 ^ 64" using unsigned_less [of x, where 'a = int] by simp
  have "uint (mk (neg_bit x) (magn x)) = magn x + (if neg_bit x then 2 ^ 63 else 0)" by (rule uint_mk) (simp_all only: magn_bounds)
  also have "\<dots> = uint x"
  proof (cases "neg_bit x")
    case True
    then have "0 \<le> uint x - 2 ^ 63" "uint x - 2 ^ 63 < 2 ^ 63" using u by (simp_all add: neg_bit_def)
    then have "(uint x - 2 ^ 63) mod 2 ^ 63 = uint x - 2 ^ 63" by (rule mod_pos_pos_trivial)
    moreover have "uint x mod 2 ^ 63 = (uint x - 2 ^ 63) mod 2 ^ 63" by (simp add: mod_diff_right_eq)
    ultimately show ?thesis using True by (simp add: magn_def)
  next
    case False
    then show ?thesis by (simp add: magn_def neg_bit_def)
  qed
  finally show "uint (mk (neg_bit x) (magn x)) = uint x" .
qed

lemma mag_join:
  assumes "0 \<le> M" "M \<le> 2 ^ 53" "- 1074 \<le> E" "E = - 1074 \<or> 2 ^ 52 \<le> M"
  shows "mag (M + (E + 1074) * 2 ^ 52) = of_int M * 2 powi E"
proof -
  consider "M < 2 ^ 52" | "2 ^ 52 \<le> M" "M < 2 ^ 53" | "M = 2 ^ 53" using assms(2) by linarith
  then show ?thesis
  proof cases
    case 1
    then show ?thesis using assms by (simp add: mag_def)
  next
    case 2
    define k where "k = E + 1075"
    have e: "M + (E + 1074) * 2 ^ 52 = (M - 2 ^ 52) + k * 2 ^ 52" by (simp add: k_def algebra_simps)
    have "((M - 2 ^ 52) + k * 2 ^ 52) div 2 ^ 52 = k" "((M - 2 ^ 52) + k * 2 ^ 52) mod 2 ^ 52 = M - 2 ^ 52"
      using 2 mod_pos_pos_trivial [of "M - 2 ^ 52" "2 ^ 52"] div_pos_pos_trivial [of "M - 2 ^ 52" "2 ^ 52"]
      by (simp_all only: div_mult_self1 mod_mult_self1) simp_all
    moreover have "\<not> (M - 2 ^ 52) + k * 2 ^ 52 < 2 ^ 52" using 2 assms(3) by (simp add: k_def)
    ultimately show ?thesis unfolding e mag_def by (simp add: k_def)
  next
    case 3
    define k where "k = E + 1076"
    have e: "M + (E + 1074) * 2 ^ 52 = k * 2 ^ 52" using 3 by (simp add: k_def algebra_simps)
    have "\<not> k * 2 ^ 52 < 2 ^ 52" using assms(3) by (simp add: k_def)
    then have "mag (k * 2 ^ 52) = 2 ^ 52 * 2 powi (E + 1)" by (simp add: mag_def k_def add.commute)
    also have "\<dots> = of_int M * 2 powi E" using 3 by (simp add: power_int_add)
    finally show ?thesis unfolding e .
  qed
qed

lemma mag_split:
  assumes "0 < b" "b < inf_bits"
  obtains M E where "b = M + (E + 1074) * 2 ^ 52" "0 < M" "M < 2 ^ 53" "- 1074 \<le> E" "E = - 1074 \<or> 2 ^ 52 \<le> M"
proof (cases "b < 2 ^ 52")
  case True
  then show ?thesis using assms that [of b "- 1074"] by simp
next
  case False
  have d: "b = b mod 2 ^ 52 + (b div 2 ^ 52) * 2 ^ 52" by (simp add: mod_div_mult_eq)
  have "1 \<le> b div 2 ^ 52" using False div_int_pos_iff zdiv_mono1 [of "2 ^ 52" b "2 ^ 52"] by simp
  moreover have "0 \<le> b mod 2 ^ 52" "b mod 2 ^ 52 < 2 ^ 52" by simp_all
  ultimately show ?thesis using d that [of "2 ^ 52 + b mod 2 ^ 52" "b div 2 ^ 52 - 1075"] by (simp add: algebra_simps)
qed

lemma mag_0 [simp]: "mag 0 = 0"
  by (simp add: mag_def)

lemma mag_pos: "0 < b \<Longrightarrow> b < inf_bits \<Longrightarrow> 0 < mag b"
  by (erule (1) mag_split) (simp only: mag_join zero_less_mult_iff of_int_0_less_iff, simp)

lemma rnd_mag:
  assumes "0 \<le> b" "b < inf_bits"
  shows "rnd (mag b) = b"
proof (cases "b = 0")
  case False
  then have b: "0 < b" using assms by simp
  obtain M E where M: "b = M + (E + 1074) * 2 ^ 52" "0 < M" "M < 2 ^ 53" "- 1074 \<le> E" "E = - 1074 \<or> 2 ^ 52 \<le> M"
    using mag_split [OF b assms(2)] .
  have y: "mag b = of_int M * 2 powi E" unfolding M(1) using M by (intro mag_join) auto
  have "is_fexp 53 (- 1074) (mag b) E"
  proof -
    have "(of_int M :: rat) < of_int (2 ^ 53)" using M(3) by (simp only: of_int_less_iff)
    then have "mag b < 2 powi (53 + E)" unfolding y by (simp add: power_int_add)
    moreover have "2 powi (53 + E - 1) \<le> mag b" if "2 ^ 52 \<le> M"
    proof -
      have "of_int (2 ^ 52) \<le> (of_int M :: rat)" using that by (simp only: of_int_le_iff)
      moreover have "(2::rat) powi (53 + E - 1) = 2 ^ 52 * 2 powi E"
        using power_int_add [of "2::rat" 52 E] by (simp add: algebra_simps)
      ultimately show ?thesis unfolding y by simp
    qed
    ultimately show ?thesis using M(4,5) by (auto simp: is_fexp_def)
  qed
  then have f: "fexp 53 (- 1074) (mag b) = E" using fexp_is [OF mag_pos [OF b assms(2)]] fexp_unique by blast
  then have "fmant 53 (- 1074) (mag b) = M" unfolding fmant_def f y by simp
  then show ?thesis using f M(1) assms mag_pos [OF b assms(2)] by (simp add: rnd_def)
qed (simp add: rnd_def)

lemma rnd_bounds: "0 \<le> x \<Longrightarrow> 0 \<le> rnd x \<and> rnd x \<le> inf_bits"
  using fmant_bounds [of x 53 "- 1074"] by (auto simp: rnd_def inf_bits_def min_def)

lemma mag_rnd:
  assumes "0 < x" "rnd x < inf_bits"
  shows "mag (rnd x) = fround 53 (- 1074) x"
proof -
  have "rnd x = fmant 53 (- 1074) x + (fexp 53 (- 1074) x + 1074) * 2 ^ 52" using assms by (simp add: rnd_def min_def split: if_splits)
  moreover have "mag (fmant 53 (- 1074) x + (fexp 53 (- 1074) x + 1074) * 2 ^ 52) = fround 53 (- 1074) x"
    unfolding fround_eq using fmant_bounds [OF assms(1), of 53 "- 1074"] by (intro mag_join) auto
  ultimately show ?thesis by simp
qed

section \<open>The class of a double\<close>

text \<open>
  What a double is up to the payload of a NaN and the sign of a zero: \<open>None\<close> for a NaN,
  otherwise the value as the JSON numbers have it.
\<close>

definition signed_val :: "bool \<Rightarrow> rat \<Rightarrow> rat" where "signed_val s x = (if s then - x else x)"

definition cls :: "double \<Rightarrow> dbl option" where
  "cls x = (if inf_bits < magn x then None
            else Some (if magn x = inf_bits then Inf (neg_bit x) else Fin (signed_val (neg_bit x) (mag (magn x)))))"

definition is_nan :: "double \<Rightarrow> bool" where "is_nan x \<longleftrightarrow> inf_bits < magn x"

text \<open>The double nearest to a value, with the given sign when the value is zero.\<close>

definition enc :: "bool \<Rightarrow> rat \<Rightarrow> double" where
  "enc z x = mk (if x = 0 then z else x < 0) (rnd \<bar>x\<bar>)"

lemma is_nan_cls: "is_nan x \<longleftrightarrow> cls x = None"
  by (simp add: is_nan_def cls_def)

lemma round_pos_eq: "round_pos x = fround 53 (- 1074) x"
  by (simp add: round_pos_def fround_def dbl_exp_def fexp_def)

text \<open>The magnitude bits reach infinity exactly when the rounded value leaves the range.\<close>

lemma rnd_inf_iff:
  assumes "0 < x"
  shows "rnd x = inf_bits \<longleftrightarrow> 2 ^ 1024 \<le> fround 53 (- 1074) x"
proof -
  let ?m = "fmant 53 (- 1074) x" and ?e = "fexp 53 (- 1074) x"
  have b: "0 \<le> ?m" "?m \<le> 2 ^ 53" "- 1074 \<le> ?e" "?e = - 1074 \<or> 2 ^ 52 \<le> ?m"
    using fmant_bounds [OF assms, of 53 "- 1074"] by auto
  have l: "rnd x = inf_bits \<longleftrightarrow> 2047 * 2 ^ 52 \<le> ?m + (?e + 1074) * 2 ^ 52"
    using assms by (auto simp: rnd_def inf_bits_def)
  consider "?e \<le> 970" | "?e = 971" | "972 \<le> ?e" by linarith
  then show ?thesis
  proof cases
    case 1
    have "(of_int ?m :: rat) \<le> of_int (2 ^ 53)" using b(2) by (simp only: of_int_le_iff)
    then have "fround 53 (- 1074) x \<le> 2 ^ 53 * 2 powi ?e" unfolding fround_eq by (intro mult_right_mono) simp_all
    also have "\<dots> \<le> 2 ^ 53 * 2 powi 970" using 1 by (intro mult_left_mono) (simp_all only: powi_le_iff, simp)
    also have "\<dots> = 2 powi 1023" using power_int_add [of "2::rat" 53 970] by simp
    also have "\<dots> < 2 ^ 1024" by simp
    finally have "\<not> 2 ^ 1024 \<le> fround 53 (- 1074) x" by simp
    moreover have "\<not> 2047 * 2 ^ 52 \<le> ?m + (?e + 1074) * 2 ^ 52" using 1 b(2) by simp
    ultimately show ?thesis by (simp only: l)
  next
    case 2
    have "2 ^ 1024 \<le> fround 53 (- 1074) x \<longleftrightarrow> (2 ^ 53 :: rat) * 2 powi 971 \<le> of_int ?m * 2 powi 971"
      unfolding fround_eq 2 by simp
    also have "\<dots> \<longleftrightarrow> (2 ^ 53 :: rat) \<le> of_int ?m" by (rule mult_le_cancel_right_pos) simp
    also have "\<dots> \<longleftrightarrow> 2 ^ 53 \<le> ?m" by (metis of_int_le_iff of_int_numeral of_int_power)
    finally show ?thesis unfolding l 2 by simp
  next
    case 3
    have m: "2 ^ 52 \<le> ?m" using b(4) 3 by auto
    then have "of_int (2 ^ 52) \<le> (of_int ?m :: rat)" by (simp only: of_int_le_iff)
    then have "2 ^ 52 * 2 powi ?e \<le> fround 53 (- 1074) x" unfolding fround_eq by (intro mult_right_mono) simp_all
    moreover have "(2::rat) ^ 52 * 2 powi 972 \<le> 2 ^ 52 * 2 powi ?e"
      using 3 by (intro mult_left_mono) (simp_all only: powi_le_iff, simp)
    ultimately have "2 ^ 1024 \<le> fround 53 (- 1074) x" by simp
    moreover have "2047 * 2 ^ 52 \<le> ?m + (?e + 1074) * 2 ^ 52" using 3 m by simp
    ultimately show ?thesis by (simp only: l)
  qed
qed

lemma cls_mk:
  assumes "0 \<le> b" "b \<le> inf_bits"
  shows "cls (mk s b) = Some (if b = inf_bits then Inf s else Fin (signed_val s (mag b)))"
proof -
  have "neg_bit (mk s b) = s" "magn (mk s b) = b" using assms mk_simps [of b s] by (simp_all add: inf_bits_def)
  then show ?thesis using assms(2) by (auto simp: cls_def)
qed

lemma cls_enc: "cls (enc z x) = Some (round_double x)"
proof (cases "x = 0")
  case True
  then show ?thesis by (simp add: enc_def cls_mk rnd_def inf_bits_def round_double_def signed_val_def)
next
  case False
  let ?y = "fround 53 (- 1074) \<bar>x\<bar>"
  have p: "0 < \<bar>x\<bar>" using False by simp
  have "cls (enc z x) = Some (if rnd \<bar>x\<bar> = inf_bits then Inf (x < 0) else Fin (signed_val (x < 0) (mag (rnd \<bar>x\<bar>))))"
    using False rnd_bounds [of "\<bar>x\<bar>"] by (simp add: enc_def cls_mk)
  moreover have "mag (rnd \<bar>x\<bar>) = ?y" if "rnd \<bar>x\<bar> \<noteq> inf_bits"
    using mag_rnd [OF p] rnd_bounds [of "\<bar>x\<bar>"] that by simp
  ultimately show ?thesis using False rnd_inf_iff [OF p] by (simp add: round_double_def round_pos_eq Let_def signed_val_def)
qed

text \<open>A value that a double holds is held exactly.\<close>

lemma round_double_exact:
  assumes "cls a = Some (Fin x)"
  shows "round_double x = Fin x"
proof -
  have b: "magn a < inf_bits" "x = signed_val (neg_bit a) (mag (magn a))" using assms by (auto simp: cls_def split: if_splits)
  show ?thesis
  proof (cases "magn a = 0")
    case False
    then have m: "0 < mag (magn a)" using b order_neq_le_trans [of 0 "magn a"] by (intro mag_pos) simp_all
    have "rnd (mag (magn a)) = magn a" using b by (intro rnd_mag) simp_all
    then have "mag (magn a) = fround 53 (- 1074) (mag (magn a))" "\<not> 2 ^ 1024 \<le> fround 53 (- 1074) (mag (magn a))"
      using mag_rnd [OF m] rnd_inf_iff [OF m] b(1) by simp_all
    then show ?thesis using m by (auto simp: b(2) round_double_def round_pos_eq Let_def signed_val_def)
  qed (simp add: b(2) round_double_def signed_val_def)
qed

section \<open>Operations\<close>

text \<open>
  What C++ leaves to the floating-point unit and the mathematical library: the bits of a
  NaN that an operation returns, the NaN that a text names, and the sine. A NaN operation
  that would not return a NaN is given the quiet NaN.
\<close>

datatype fop = FAdd | FSub | FMul | FSingle

record Fpu =
  fp_nan :: "fop \<Rightarrow> double \<Rightarrow> double \<Rightarrow> double"
  fp_text_nan :: "string \<Rightarrow> double"
  fp_sin :: "double \<Rightarrow> double"

definition quiet_nan :: double where "quiet_nan = mk False (inf_bits + 2 ^ 51)"

definition nan_or :: "double \<Rightarrow> double" where "nan_or v = (if is_nan v then v else quiet_nan)"

definition f_neg :: "double \<Rightarrow> double" where "f_neg a = mk (\<not> neg_bit a) (magn a)"

definition f_abs :: "double \<Rightarrow> double" where "f_abs a = mk False (magn a)"

definition f_plus :: "double \<Rightarrow> double \<Rightarrow> double \<Rightarrow> double" where
  "f_plus nan a b = (case (cls a, cls b) of
     (Some (Inf s), Some (Inf t)) \<Rightarrow> if s = t then a else nan_or nan
   | (Some (Inf s), Some (Fin y)) \<Rightarrow> a
   | (Some (Fin x), Some (Inf t)) \<Rightarrow> b
   | (Some (Fin x), Some (Fin y)) \<Rightarrow> enc (neg_bit a \<and> neg_bit b) (x + y)
   | _ \<Rightarrow> nan_or nan)"

definition f_add :: "Fpu \<Rightarrow> double \<Rightarrow> double \<Rightarrow> double" where
  "f_add fpu a b = f_plus (fp_nan fpu FAdd a b) a b"

definition f_sub :: "Fpu \<Rightarrow> double \<Rightarrow> double \<Rightarrow> double" where
  "f_sub fpu a b = f_plus (fp_nan fpu FSub a b) a (f_neg b)"

definition f_mul :: "Fpu \<Rightarrow> double \<Rightarrow> double \<Rightarrow> double" where
  "f_mul fpu a b =
     (let s = (neg_bit a \<noteq> neg_bit b); nan = nan_or (fp_nan fpu FMul a b) in
      case (cls a, cls b) of
        (Some (Inf _), Some (Inf _)) \<Rightarrow> mk s inf_bits
      | (Some (Inf _), Some (Fin y)) \<Rightarrow> if y = 0 then nan else mk s inf_bits
      | (Some (Fin x), Some (Inf _)) \<Rightarrow> if x = 0 then nan else mk s inf_bits
      | (Some (Fin x), Some (Fin y)) \<Rightarrow> enc s (x * y)
      | _ \<Rightarrow> nan)"

text \<open>To \<open>float\<close> and back: 24 bits of mantissa, exponents from -149, values below 2 to the 128.\<close>

definition f_single :: "Fpu \<Rightarrow> double \<Rightarrow> double" where
  "f_single fpu a = (case cls a of
     None \<Rightarrow> nan_or (fp_nan fpu FSingle a a)
   | Some (Inf _) \<Rightarrow> a
   | Some (Fin x) \<Rightarrow>
       if x = 0 then a
       else let y = fround 24 (- 149) \<bar>x\<bar>
            in if 2 ^ 128 \<le> y then mk (x < 0) inf_bits else mk (x < 0) (rnd y))"

fun dbl_less :: "dbl \<Rightarrow> dbl \<Rightarrow> bool" where
  "dbl_less (Fin x) (Fin y) \<longleftrightarrow> x < y"
| "dbl_less (Inf s) (Fin y) \<longleftrightarrow> s"
| "dbl_less (Fin x) (Inf t) \<longleftrightarrow> \<not> t"
| "dbl_less (Inf s) (Inf t) \<longleftrightarrow> s \<and> \<not> t"

definition f_less :: "double \<Rightarrow> double \<Rightarrow> bool" where
  "f_less a b = (case (cls a, cls b) of (Some u, Some v) \<Rightarrow> dbl_less u v | _ \<Rightarrow> False)"

definition f_eq :: "double \<Rightarrow> double \<Rightarrow> bool" where
  "f_eq a b \<longleftrightarrow> cls a \<noteq> None \<and> cls a = cls b"

definition f_of_int :: "int \<Rightarrow> double" where "f_of_int n = enc False (of_int n)"

section \<open>Operations are functions of the classes\<close>

fun dbl_neg :: "dbl \<Rightarrow> dbl" where
  "dbl_neg (Fin x) = Fin (- x)" | "dbl_neg (Inf s) = Inf (\<not> s)"

fun dbl_abs :: "dbl \<Rightarrow> dbl" where
  "dbl_abs (Fin x) = Fin \<bar>x\<bar>" | "dbl_abs (Inf s) = Inf False"

fun dbl_plus :: "dbl \<Rightarrow> dbl \<Rightarrow> dbl option" where
  "dbl_plus (Inf s) (Inf t) = (if s = t then Some (Inf s) else None)"
| "dbl_plus (Inf s) (Fin y) = Some (Inf s)"
| "dbl_plus (Fin x) (Inf t) = Some (Inf t)"
| "dbl_plus (Fin x) (Fin y) = Some (round_double (x + y))"

fun dbl_mul :: "dbl \<Rightarrow> dbl \<Rightarrow> dbl option" where
  "dbl_mul (Inf s) (Inf t) = Some (Inf (s \<noteq> t))"
| "dbl_mul (Inf s) (Fin y) = (if y = 0 then None else Some (Inf (s \<noteq> (y < 0))))"
| "dbl_mul (Fin x) (Inf t) = (if x = 0 then None else Some (Inf ((x < 0) \<noteq> t)))"
| "dbl_mul (Fin x) (Fin y) = Some (round_double (x * y))"

fun dbl_single :: "dbl \<Rightarrow> dbl" where
  "dbl_single (Inf s) = Inf s"
| "dbl_single (Fin x) =
     (if x = 0 then Fin 0
      else let y = fround 24 (- 149) \<bar>x\<bar> in if 2 ^ 128 \<le> y then Inf (x < 0) else Fin (signed_val (x < 0) y))"

lemma cls_nan_or [simp]: "cls (nan_or v) = None"
proof -
  have "cls quiet_nan = None" using mk_simps [of "inf_bits + 2 ^ 51" False] by (simp add: quiet_nan_def cls_def inf_bits_def)
  then show ?thesis by (simp add: nan_or_def is_nan_cls)
qed

lemma mag_nonneg: "magn a < inf_bits \<Longrightarrow> 0 \<le> mag (magn a)"
  using mag_pos [of "magn a"] magn_bounds(1) [of a] by (cases "magn a = 0") (simp, linarith)

lemma cls_neg: "cls (f_neg a) = map_option dbl_neg (cls a)"
  using mk_simps [OF magn_bounds, of "\<not> neg_bit a" a] by (auto simp: f_neg_def cls_def signed_val_def)

lemma cls_abs: "cls (f_abs a) = map_option dbl_abs (cls a)"
  using mk_simps [OF magn_bounds, of False a] mag_nonneg [of a] by (auto simp: f_abs_def cls_def signed_val_def)

lemma cls_plus: "cls (f_plus nan a b) = Option.bind (cls a) (\<lambda>u. Option.bind (cls b) (dbl_plus u))"
  by (auto simp: f_plus_def cls_enc split: option.splits dbl.splits)

lemma cls_sign:
  assumes "cls a = Some u"
  shows "(case u of Inf s \<Rightarrow> neg_bit a = s | Fin x \<Rightarrow> x \<noteq> 0 \<longrightarrow> neg_bit a = (x < 0))"
  using assms mag_nonneg [of a] by (auto simp: cls_def signed_val_def split: if_splits)

lemma cls_mul: "cls (f_mul fpu a b) = Option.bind (cls a) (\<lambda>u. Option.bind (cls b) (dbl_mul u))"
proof -
  have i: "cls (mk s inf_bits) = Some (Inf s)" for s by (simp add: cls_mk inf_bits_def)
  show ?thesis using cls_sign [of a] cls_sign [of b]
    by (auto simp: f_mul_def cls_enc i Let_def split: option.splits dbl.splits)
qed

text \<open>A value rounded to 24 bits below 2 to the 128 is a double.\<close>

lemma single_repr:
  assumes "0 < x" "y = fround 24 (- 149) x" "y < 2 ^ 128" "0 < y"
  shows "fround 53 (- 1074) y = y" "rnd y < inf_bits" "mag (rnd y) = y"
proof -
  let ?m = "fmant 24 (- 149) x" and ?e = "fexp 24 (- 149) x"
  have b: "0 \<le> ?m" "?m \<le> 2 ^ 24" "- 149 \<le> ?e" using fmant_bounds [OF assms(1), of 24 "- 149"] by auto
  have y: "y = of_int ?m * 2 powi ?e" by (simp add: assms(2) fround_eq)
  then have "0 < ?m" using b(1) assms(4) by (cases "?m = 0") auto
  then show r: "fround 53 (- 1074) y = y" using b y by (intro fround_exact [of ?m 53 "- 1074" ?e]) auto
  have "(2::rat) ^ 128 < 2 ^ 1024" by simp
  then have "\<not> 2 ^ 1024 \<le> y" using assms(3) by linarith
  then show i: "rnd y < inf_bits" using rnd_inf_iff [OF assms(4)] r rnd_bounds [of y] assms(4) by simp
  show "mag (rnd y) = y" using mag_rnd [OF assms(4) i] r by simp
qed

lemma fround_nonneg: "0 < x \<Longrightarrow> 0 < p \<Longrightarrow> 0 \<le> fround p e x"
  using fmant_bounds [of x p e] by (simp add: fround_eq)

lemma cls_single: "cls (f_single fpu a) = map_option dbl_single (cls a)"
proof (cases "cls a")
  case None
  then show ?thesis by (simp add: f_single_def)
next
  case (Some u)
  show ?thesis
  proof (cases u)
    case (Inf s)
    then show ?thesis using Some by (simp add: f_single_def)
  next
    case (Fin x)
    let ?y = "fround 24 (- 149) \<bar>x\<bar>"
    have i: "cls (mk s inf_bits) = Some (Inf s)" for s by (simp add: cls_mk inf_bits_def)
    have z: "cls (mk s (rnd ?y)) = Some (Fin (signed_val s ?y))" if "x \<noteq> 0" "?y < 2 ^ 128" for s
    proof (cases "?y = 0")
      case True
      then show ?thesis by (simp add: rnd_def cls_mk inf_bits_def)
    next
      case False
      then have "0 < ?y" using that fround_nonneg [of "\<bar>x\<bar>" 24 "- 149"] by simp
      then show ?thesis using single_repr [of "\<bar>x\<bar>" ?y] that rnd_bounds [of ?y] by (simp add: cls_mk)
    qed
    show ?thesis using Some Fin i z by (auto simp: f_single_def Let_def not_le)
  qed
qed

lemma dbl_single_idem: "dbl_single (dbl_single u) = dbl_single u"
proof (cases u)
  case (Fin x)
  let ?y = "fround 24 (- 149) \<bar>x\<bar>"
  have "dbl_single (Fin (signed_val s ?y)) = Fin (signed_val s ?y)" if "x \<noteq> 0" "?y < 2 ^ 128" "s = (x < 0)" for s
  proof (cases "?y = 0")
    case False
    then have p: "0 < ?y" using that fround_nonneg [of "\<bar>x\<bar>" 24 "- 149"] by simp
    have "\<bar>signed_val s ?y\<bar> = ?y" "signed_val s ?y < 0 \<longleftrightarrow> s" "signed_val s ?y \<noteq> 0" using p by (simp_all add: signed_val_def)
    then show ?thesis using that fround_idem [of "\<bar>x\<bar>" 24 "- 149"] p by (simp add: Let_def)
  qed (simp add: signed_val_def)
  then show ?thesis using Fin by (auto simp: Let_def not_le)
qed simp

lemmas cls_ops = cls_neg cls_abs cls_plus cls_mul cls_single f_add_def f_sub_def f_less_def f_eq_def

text \<open>Adding a zero, subtracting a zero and multiplying by one keep the class.\<close>

lemma cls_add_zero: "cls b = Some (Fin 0) \<Longrightarrow> cls (f_add fpu a b) = cls a"
  using round_double_exact [of a] by (cases "cls a"; cases "the (cls a)") (simp_all add: cls_ops)

lemma cls_sub_zero: "cls b = Some (Fin 0) \<Longrightarrow> cls (f_sub fpu a b) = cls a"
  using round_double_exact [of a] by (cases "cls a"; cases "the (cls a)") (simp_all add: cls_ops)

lemma cls_mul_one: "cls b = Some (Fin 1) \<Longrightarrow> cls (f_mul fpu a b) = cls a"
  using round_double_exact [of a] by (cases "cls a"; cases "the (cls a)") (simp_all add: cls_ops)

end
