(* ===== verification/CF_CpuBackend.thy ===== *)
theory CF_CpuBackend
  imports CF_Double CF_Persistence CF_Plan
begin

text \<open>
  The deterministic CPU backend of \<open>CpuBackend.cpp\<close>: the line-oriented source parser,
  the bytecode, its execution on binary64 values, the optimiser inside \<open>compile\<close>,
  validation and loading. The floating-point unit and the readings of the monotonic clock
  are arguments. The result of a call that lets \<open>std::length_error\<close> escape or has
  undefined behaviour is a value of \<open>eff\<close>.
\<close>

section \<open>Programs\<close>

datatype CpuOpKind = CpuOpKind (opkind_value: u8)

abbreviation OP_Nop :: CpuOpKind where "OP_Nop \<equiv> CpuOpKind 0"
abbreviation OP_Add :: CpuOpKind where "OP_Add \<equiv> CpuOpKind 1"
abbreviation OP_Sub :: CpuOpKind where "OP_Sub \<equiv> CpuOpKind 2"
abbreviation OP_Mul :: CpuOpKind where "OP_Mul \<equiv> CpuOpKind 3"
abbreviation OP_Scale :: CpuOpKind where "OP_Scale \<equiv> CpuOpKind 4"
abbreviation OP_Abs :: CpuOpKind where "OP_Abs \<equiv> CpuOpKind 5"
abbreviation OP_Neg :: CpuOpKind where "OP_Neg \<equiv> CpuOpKind 6"
abbreviation OP_Sum :: CpuOpKind where "OP_Sum \<equiv> CpuOpKind 7"
abbreviation OP_Max :: CpuOpKind where "OP_Max \<equiv> CpuOpKind 8"
abbreviation OP_Min :: CpuOpKind where "OP_Min \<equiv> CpuOpKind 9"
abbreviation OP_Id :: CpuOpKind where "OP_Id \<equiv> CpuOpKind 10"

definition opKindTable :: "(string \<times> CpuOpKind) list" where
  "opKindTable =
    [(''nop'', OP_Nop), (''add'', OP_Add), (''sub'', OP_Sub), (''mul'', OP_Mul), (''scale'', OP_Scale),
     (''abs'', OP_Abs), (''neg'', OP_Neg), (''sum'', OP_Sum), (''max'', OP_Max), (''min'', OP_Min), (''id'', OP_Id)]"

definition opKindFromName :: "string \<Rightarrow> CpuOpKind option" where
  "opKindFromName s = map_of opKindTable s"

definition opKindName :: "CpuOpKind \<Rightarrow> string" where
  "opKindName k = (case map_of (map prod.swap opKindTable) k of Some s \<Rightarrow> s | None \<Rightarrow> ''nop'')"

record CpuOp =
  op_kind :: CpuOpKind
  op_scalar :: double
  op_n :: u32

record CpuProgram =
  cp_name :: string
  cp_ops :: "CpuOp list"
  cp_datatype :: Datatype
  cp_shapeN :: u64
  cp_alignment :: i32
  cp_launchConfig :: string

definition cp_default :: CpuProgram where
  "cp_default = \<lparr>cp_name = [], cp_ops = [], cp_datatype = DT_F32, cp_shapeN = 0, cp_alignment = 0, cp_launchConfig = []\<rparr>"

section \<open>Text\<close>

text \<open>\<open>std::isspace\<close> in the classic locale.\<close>

definition is_space :: "char \<Rightarrow> bool" where
  "is_space c \<longleftrightarrow> (let k = (of_char c :: nat) in k = 32 \<or> 9 \<le> k \<and> k \<le> 13)"

definition newline :: char where "newline = char_of (10 :: nat)"

definition tab :: char where "tab = char_of (9 :: nat)"

definition carriage :: char where "carriage = char_of (13 :: nat)"

lemma tl_dropWhile_less: "s \<noteq> [] \<Longrightarrow> length (tl (dropWhile P s)) < length s"
  using length_dropWhile_le [of P s] by (cases "dropWhile P s"; cases s) (simp_all del: dropWhile.simps dropWhile_eq_Nil_conv)

text \<open>\<open>std::getline\<close> until it fails: no line follows a final newline.\<close>

function split_lines :: "string \<Rightarrow> string list" where
  "split_lines s =
     (if s = [] then []
      else takeWhile (\<lambda>c. c \<noteq> newline) s # split_lines (tl (dropWhile (\<lambda>c. c \<noteq> newline) s)))"
  by pat_completeness auto
termination
  by (relation "measure length") (auto simp del: length_tl intro: tl_dropWhile_less)

text \<open>Reading words with \<open>>>\<close> until it fails.\<close>

function split_words :: "string \<Rightarrow> string list" where
  "split_words s =
     (let w = dropWhile is_space s
      in if w = [] then [] else takeWhile (\<lambda>c. \<not> is_space c) w # split_words (dropWhile (\<lambda>c. \<not> is_space c) w))"
  by pat_completeness auto
termination
proof (relation "measure length")
  fix s w assume w: "w = dropWhile is_space s" "w \<noteq> []"
  then have "\<not> is_space (hd w)" by (simp add: hd_dropWhile)
  then have "length (dropWhile (\<lambda>c. \<not> is_space c) w) < length w"
    using w(2) by (cases w) (simp_all add: length_dropWhile_le less_Suc_eq_le)
  then show "(dropWhile (\<lambda>c. \<not> is_space c) w, s) \<in> measure length"
    using length_dropWhile_le [of is_space s] w(1) by simp
qed simp

declare split_lines.simps [simp del] split_words.simps [simp del]

definition c_string :: "string \<Rightarrow> string" where "c_string s = takeWhile (\<lambda>c. (of_char c :: nat) \<noteq> 0) s"

definition scan_sign :: "string \<Rightarrow> bool \<times> string" where
  "scan_sign s = (case s of [] \<Rightarrow> (False, [])
     | c # cs \<Rightarrow> if c = CHR ''-'' then (True, cs) else if c = CHR ''+'' then (False, cs) else (False, s))"

text \<open>
  \<open>strtoull\<close>, \<open>strtoul\<close> and \<open>strtoll\<close> in base 10: out of range they saturate. The code
  builds on Windows only, where an \<open>unsigned long\<close> has 32 bits.
\<close>

definition strtoull10 :: "string \<Rightarrow> u64" where
  "strtoull10 s =
     (let (neg, r) = scan_sign (dropWhile is_space (c_string s)); n = digits_value (takeWhile is_digit r)
      in if 2 ^ 64 \<le> n then - 1 else if neg then - of_int n else of_int n)"

definition strtoul10 :: "string \<Rightarrow> u32" where
  "strtoul10 s =
     (let (neg, r) = scan_sign (dropWhile is_space (c_string s)); n = digits_value (takeWhile is_digit r)
      in if 2 ^ 32 \<le> n then - 1 else if neg then - of_int n else of_int n)"

definition strtoll10 :: "string \<Rightarrow> i64" where
  "strtoll10 s =
     (let (neg, r) = scan_sign (dropWhile is_space (c_string s)); n = digits_value (takeWhile is_digit r)
      in of_int (if neg then max (- (2 ^ 63)) (- n) else min (2 ^ 63 - 1) n))"

text \<open>\<open>std::strtod\<close> in the C locale: decimal and hexadecimal numbers, infinities and NaNs in either case.\<close>

definition lower_char :: "char \<Rightarrow> char" where
  "lower_char c = (let k = (of_char c :: nat) in if 65 \<le> k \<and> k \<le> 90 then char_of (k + 32) else c)"

definition is_hex :: "char \<Rightarrow> bool" where "is_hex c \<longleftrightarrow> 0 \<le> hexVal c"

definition hex_value :: "string \<Rightarrow> int" where "hex_value ds = foldl (\<lambda>a c. a * 16 + hexVal c) 0 ds"

definition scan_mantissa :: "(char \<Rightarrow> bool) \<Rightarrow> string \<Rightarrow> string \<times> string \<times> string" where
  "scan_mantissa P s =
     (let r = dropWhile P s
      in case r of
          c # cs \<Rightarrow> if c = CHR ''.'' then (takeWhile P s, takeWhile P cs, dropWhile P cs) else (takeWhile P s, [], r)
        | [] \<Rightarrow> (takeWhile P s, [], []))"

definition scan_exp :: "char \<Rightarrow> string \<Rightarrow> int" where
  "scan_exp e s = (case s of
     c # cs \<Rightarrow> if c = e then let (neg, r) = scan_sign cs; n = digits_value (takeWhile is_digit r) in if neg then - n else n else 0
   | [] \<Rightarrow> 0)"

definition strtod64 :: "Fpu \<Rightarrow> string \<Rightarrow> double" where
  "strtod64 fpu s =
     (let (neg, r) = scan_sign (dropWhile is_space (c_string s));
          t = map lower_char r;
          (hi, hf, hr) = scan_mantissa is_hex (drop 2 t);
          (di, df, dr) = scan_mantissa is_digit t
      in if take 3 t = ''inf'' then mk neg inf_bits
         else if take 3 t = ''nan'' then nan_or (fp_text_nan fpu s)
         else if take 2 t = ''0x'' \<and> hi @ hf \<noteq> []
         then enc neg (signed_val neg (of_int (hex_value (hi @ hf)) * 2 powi (scan_exp (CHR ''p'') hr - 4 * int (length hf))))
         else if di @ df = [] then enc False 0
         else enc neg (signed_val neg (of_int (digits_value (di @ df)) * 10 powi (scan_exp (CHR ''e'') dr - int (length df)))))"

section \<open>Parsing\<close>

definition clean_line :: "string \<Rightarrow> string" where
  "clean_line l =
     dropWhile (\<lambda>c. c = CHR '' '' \<or> c = tab)
       (rev (dropWhile (\<lambda>c. c = carriage \<or> c = CHR '' '' \<or> c = tab) (rev l)))"

definition key_part :: "string \<Rightarrow> string" where "key_part t = takeWhile (\<lambda>c. c \<noteq> CHR ''='') t"

definition val_part :: "string \<Rightarrow> string" where "val_part t = tl (dropWhile (\<lambda>c. c \<noteq> CHR ''='') t)"

definition has_eq :: "string \<Rightarrow> bool" where "has_eq t \<longleftrightarrow> CHR ''='' \<in> set t"

definition parse_header :: "string \<Rightarrow> CpuProgram \<Rightarrow> CpuProgram" where
  "parse_header tok p =
     (let key = key_part tok; val = val_part tok
      in if key = ''name'' then p\<lparr>cp_name := val\<rparr>
         else if key = ''datatype'' then (case datatypeFromName val of Some d \<Rightarrow> p\<lparr>cp_datatype := d\<rparr> | None \<Rightarrow> p)
         else if key = ''shape'' then p\<lparr>cp_shapeN := strtoull10 val\<rparr>
         else if key = ''alignment'' then p\<lparr>cp_alignment := ucast (strtoll10 val)\<rparr>
         else p)"

definition parse_operand :: "Fpu \<Rightarrow> CpuOp \<Rightarrow> string \<Rightarrow> CpuOp" where
  "parse_operand fpu op tok =
     (if \<not> has_eq tok then op
      else if key_part tok = ''scalar'' then op\<lparr>op_scalar := strtod64 fpu (val_part tok)\<rparr>
      else if key_part tok = ''n'' then op\<lparr>op_n := strtoul10 (val_part tok)\<rparr>
      else op)"

definition parse_op :: "Fpu \<Rightarrow> CpuOpKind \<Rightarrow> string list \<Rightarrow> CpuProgram \<Rightarrow> CpuProgram" where
  "parse_op fpu kind args p =
     (let op = \<lparr>op_kind = kind, op_scalar = enc False 0,
                 op_n = ucast (if cp_shapeN p \<noteq> 0 then cp_shapeN p else 1024)\<rparr>
      in p\<lparr>cp_ops := cp_ops p @ [foldl (parse_operand fpu) op args]\<rparr>)"

fun parse_lines :: "Fpu \<Rightarrow> string list \<Rightarrow> CpuProgram \<Rightarrow> CpuProgram result eff" where
  "parse_lines fpu [] p = Ret (Ok p)"
| "parse_lines fpu (l # ls) p =
     (let line = clean_line l
      in if line = [] \<or> hd line = CHR ''#'' then parse_lines fpu ls p
         else case split_words line of
             [] \<Rightarrow> Undef
           | tok # args \<Rightarrow>
               if has_eq tok \<and> key_part tok \<noteq> [] then parse_lines fpu ls (parse_header tok p)
               else case opKindFromName tok of
                   None \<Rightarrow> Ret (Err ErrInvalidSource (''unknown op: '' @ tok))
                 | Some kind \<Rightarrow> parse_lines fpu ls (parse_op fpu kind args p))"

definition parse_finish :: "CpuProgram \<Rightarrow> CpuProgram result" where
  "parse_finish p =
     (let m = foldl (\<lambda>s op. max s (ucast (op_n op))) 0 (cp_ops p);
          shape = (if cp_shapeN p \<noteq> 0 then cp_shapeN p else if m \<noteq> 0 then m else 1024);
          q = p\<lparr>cp_shapeN := shape, cp_name := (if cp_name p = [] then ''cf-kernel'' else cp_name p)\<rparr>
      in if cp_ops p = [] then Err ErrInvalidSource ''source produced no operations'' else Ok q)"

definition parseSource :: "Fpu \<Rightarrow> string \<Rightarrow> CpuProgram result eff" where
  "parseSource fpu source =
     ebind (parse_lines fpu (split_lines source) cp_default)
       (\<lambda>res. Ret (case res of Err c m \<Rightarrow> Err c m | Ok p \<Rightarrow> parse_finish p))"

section \<open>Bytecode\<close>

definition w_f64 :: "double \<Rightarrow> bytes" where "w_f64 v = putU64BE v"

definition rd_f64 :: "double reader" where "rd_f64 r = rd_u64 r"

definition kCpuMagic :: u32 where "kCpuMagic = 0x43464231"

definition kCpuVersion :: u32 where "kCpuVersion = 1"

definition encode_op :: "CpuOp \<Rightarrow> bytes" where
  "encode_op op = w_u8 (opkind_value (op_kind op)) @ w_f64 (op_scalar op) @ putU32BE (op_n op)"

definition cpu_encode :: "CpuProgram \<Rightarrow> bytes" where
  "cpu_encode p = putU32BE kCpuMagic @ putU32BE kCpuVersion @ w_string (cp_name p) @ putU64BE (cp_shapeN p) @
     w_u8 (datatype_value (cp_datatype p)) @ putU32BE (cp_alignment p) @ w_string (cp_launchConfig p) @
     putU32BE (of_nat (length (cp_ops p))) @ concat (map encode_op (cp_ops p))"

text \<open>A read that ends \<open>decode\<close> with \<open>ArtifactCorrupt\<close> when it fails.\<close>

definition rd_art :: "'a rres \<Rightarrow> string \<Rightarrow> ('a \<Rightarrow> creader \<Rightarrow> 'b result eff) \<Rightarrow> 'b result eff" where
  "rd_art m msg k = (case m of Got x r \<Rightarrow> k x r | Miss _ \<Rightarrow> Ret (Err ErrArtifactCorrupt msg) | Throw \<Rightarrow> LengthError)"

fun decode_ops :: "nat \<Rightarrow> creader \<Rightarrow> (CpuOp list \<Rightarrow> creader \<Rightarrow> 'b result eff) \<Rightarrow> 'b result eff" where
  "decode_ops 0 r k = k [] r"
| "decode_ops (Suc n) r k =
     rd_art (rd_u8 r) ''CPU artifact truncated op'' (\<lambda>kind r.
     rd_art (rd_f64 r) ''CPU artifact truncated scalar'' (\<lambda>scalar r.
     rd_art (rd_u32 r) ''CPU artifact truncated op n'' (\<lambda>m r.
     decode_ops n r (\<lambda>ops r. k (\<lparr>op_kind = CpuOpKind kind, op_scalar = scalar, op_n = m\<rparr> # ops) r))))"

definition cpu_decode :: "bytes \<Rightarrow> CpuProgram result eff" where
  "cpu_decode d =
     rd_art (rd_u32 (reader_on d)) ''CPU artifact magic mismatch'' (\<lambda>magic r.
     if magic \<noteq> kCpuMagic then Ret (Err ErrArtifactCorrupt ''CPU artifact magic mismatch'')
     else case rd_u32 r of
       Miss _ \<Rightarrow> Ret (Err ErrArtifactInvalid ''CPU artifact version unsupported'')
     | Throw \<Rightarrow> LengthError
     | Got version r \<Rightarrow>
     if version \<noteq> kCpuVersion then Ret (Err ErrArtifactInvalid ''CPU artifact version unsupported'')
     else
     rd_art (rd_str r) ''CPU artifact truncated name'' (\<lambda>name r.
     rd_art (rd_u64 r) ''CPU artifact truncated shape'' (\<lambda>shape r.
     rd_art (rd_u8 r) ''CPU artifact truncated datatype'' (\<lambda>dt r.
     rd_art (rd_u32 r) ''CPU artifact truncated alignment'' (\<lambda>align r.
     rd_art (rd_str r) ''CPU artifact truncated launch config'' (\<lambda>launch r.
     rd_art (rd_u32 r) ''CPU artifact truncated op count'' (\<lambda>nops r.
     if 4096 < nops then Ret (Err ErrArtifactCorrupt ''CPU artifact op count out of range'')
     else decode_ops (unat nops) r (\<lambda>ops r.
       if hasRemaining r then Ret (Err ErrArtifactCorrupt ''CPU artifact trailing garbage'')
       else if ops = [] then Ret (Err ErrArtifactCorrupt ''CPU artifact no ops'')
       else Ret (Ok \<lparr>cp_name = name, cp_ops = ops, cp_datatype = Datatype dt, cp_shapeN = shape,
              cp_alignment = align, cp_launchConfig = launch\<rparr>)))))))))"

section \<open>Execution\<close>

definition rr :: "Fpu \<Rightarrow> Datatype \<Rightarrow> double \<Rightarrow> double" where
  "rr fpu dt v = (if dt = DT_F32 then f_single fpu v else v)"

definition hostInput :: "Fpu \<Rightarrow> u32 \<Rightarrow> Datatype \<Rightarrow> u64 \<Rightarrow> double list" where
  "hostInput fpu n dt seed =
     map (\<lambda>i. rr fpu dt (f_mul fpu (fp_sin fpu (f_add fpu
                (f_mul fpu (f_of_int (uint seed mod 100000)) (enc False (517 / 1000000)))
                (f_mul fpu (f_of_int (int i)) (enc False (12345 / 1000000)))))
              (f_of_int 1000)))
       [0..<unat n]"

definition seedFor :: "CompilationRequest \<Rightarrow> u32" where
  "seedFor r = ucast ((foldl (\<lambda>h b. h * 131 + ucast b) 0x9e3779b97f4a7c15 (rq_sourceDigest r) XOR
     (rq_autotuneSeed r * 2654435761 :: u64)) AND 0x7FFFFFFF)"

definition makeSeedFrom :: "CompilationRequest \<Rightarrow> u32" where
  "makeSeedFrom r = ucast ((foldl (\<lambda>h b. h * 131 + ucast b) 0x9e3779b97f4a7c15 (rq_sourceDigest r) XOR
     (rq_autotuneSeed r * 2654435761 :: u64)) AND 0x7FFFFFFF)"

definition map_op :: "Fpu \<Rightarrow> CpuOp \<Rightarrow> double \<Rightarrow> double" where
  "map_op fpu op x =
     (if op_kind op = OP_Add then f_add fpu x (op_scalar op)
      else if op_kind op = OP_Sub then f_sub fpu x (op_scalar op)
      else if op_kind op = OP_Mul then f_mul fpu x (op_scalar op)
      else if op_kind op = OP_Scale then f_mul fpu x (op_scalar op)
      else if op_kind op = OP_Abs then f_abs x
      else if op_kind op = OP_Neg then f_neg x
      else x)"

text \<open>\<open>std::max (acc, x)\<close> and \<open>std::min (acc, x)\<close> keep the first unless the second is beyond it.\<close>

definition f_max :: "double \<Rightarrow> double \<Rightarrow> double" where "f_max a x = (if f_less a x then x else a)"

definition f_min :: "double \<Rightarrow> double \<Rightarrow> double" where "f_min a x = (if f_less x a then x else a)"

definition reduce_op :: "Fpu \<Rightarrow> CpuOpKind \<Rightarrow> double list \<Rightarrow> double" where
  "reduce_op fpu kind out =
     foldl (\<lambda>acc x. if kind = OP_Sum then f_add fpu acc x else if kind = OP_Max then f_max acc x else f_min acc x)
       (if kind = OP_Sum \<or> out = [] then enc False 0 else hd out) out"

definition run_op :: "Fpu \<Rightarrow> Datatype \<Rightarrow> double list \<Rightarrow> CpuOp \<Rightarrow> double list" where
  "run_op fpu dt out op =
     (if op_kind op \<in> {OP_Add, OP_Sub, OP_Mul, OP_Scale, OP_Abs, OP_Neg, OP_Id}
      then map (\<lambda>x. rr fpu dt (map_op fpu op x)) out
      else if op_kind op \<in> {OP_Sum, OP_Max, OP_Min} then [rr fpu dt (reduce_op fpu (op_kind op) out)]
      else out)"

definition cpu_execute :: "Fpu \<Rightarrow> CpuProgram \<Rightarrow> u64 \<Rightarrow> double list" where
  "cpu_execute fpu p seed =
     (let n = ucast (if cp_shapeN p \<noteq> 0 then cp_shapeN p else 1024)
      in foldl (run_op fpu (cp_datatype p)) (hostInput fpu n (cp_datatype p) seed) (cp_ops p))"

definition cpu_reference :: "Fpu \<Rightarrow> CpuProgram \<Rightarrow> u64 \<Rightarrow> double list" where
  "cpu_reference fpu p seed = cpu_execute fpu p seed"

text \<open>The bytes of an array of doubles in memory, least significant byte first.\<close>

definition memory_of :: "double list \<Rightarrow> bytes" where "memory_of xs = concat (map (\<lambda>x. rev (putU64BE x)) xs)"

definition referenceDigest :: "Fpu \<Rightarrow> CpuProgram \<Rightarrow> u64 \<Rightarrow> Digest" where
  "referenceDigest fpu p seed = sha256 (memory_of (cpu_execute fpu p seed))"

definition fmt_double :: "double \<Rightarrow> string" where
  "fmt_double x = (case cls x of
     None \<Rightarrow> if neg_bit x then ''-nan'' else ''nan''
   | Some (Inf s) \<Rightarrow> if s then ''-inf'' else ''inf''
   | Some (Fin v) \<Rightarrow> fmt_g v)"

definition programToText :: "CpuProgram \<Rightarrow> string" where
  "programToText p = cp_name p @ '' datatype='' @ datatypeName (cp_datatype p) @ '' shape='' @ dec_int (uint (cp_shapeN p)) @
     concat (map (\<lambda>op. '' '' @ opKindName (op_kind op) @
       (if f_eq (op_scalar op) (enc False 0) then [] else ''('' @ fmt_double (op_scalar op) @ '')'')) (cp_ops p))"

section \<open>The backend\<close>

definition cpu_caps :: BackendCapabilities where
  "cpu_caps = \<lparr>bc_id = ''cpu'', bc_name = ''deterministic-cpu'', bc_targetArchitecture = ''host-x86_64'',
     bc_compiler = ''cf-cpu'', bc_compilerVersion = ''1.0.0'', bc_vendor = AV_CPU, bc_family = AF_X86_64,
     bc_datatypes = [''f32'', ''f64''], bc_layouts = [''row_major''],
     bc_featureFlags = [''deterministic'', ''bounded-execution''], bc_synthetic = True, bc_supportsNVRTC = False,
     bc_supportsOffline = False, bc_supportsExecution = True\<rparr>"

definition cpu_checkCompatible :: "CompilationPlan \<Rightarrow> unit result" where
  "cpu_checkCompatible p =
     (if td_vendor (pl_target p) \<noteq> AV_CPU \<and> rq_backend (pl_request p) \<noteq> ''cpu'' \<and> rq_backend (pl_request p) \<noteq> []
      then Err ErrTargetUnsupported (''CPU backend cannot target '' @ vendorName (td_vendor (pl_target p)))
      else Ok ())"

definition cpu_lower :: "Fpu \<Rightarrow> CompilationRequest \<Rightarrow> IRDescriptor result eff" where
  "cpu_lower fpu r = ebind (parseSource fpu (rq_source r)) (\<lambda>parsed. Ret (case parsed of
     Err c m \<Rightarrow> Err c m
   | Ok p \<Rightarrow> Ok (ird_default\<lparr>ird_identity := fromU64 1,
        ird_digest := (if rq_irDigest r \<noteq> zeroDigest then rq_irDigest r else sha256 (bytes_of (rq_source r))),
        ird_format := ''cf-bytecode'', ird_byteSize := of_nat (length (rq_source r)), ird_datatype := cp_datatype p,
        ird_layout := rq_layout r, ird_rank := 1, ird_staticShape := rq_staticShape r,
        ird_symbolicShape := rq_symbolicShape r\<rparr>)))"

definition specialize :: "CompilationRequest \<Rightarrow> CpuProgram \<Rightarrow> CpuProgram" where
  "specialize r p =
     (let shape = (case rq_staticShape r of [] \<Rightarrow> cp_shapeN p | s # _ \<Rightarrow> s)
      in p\<lparr>cp_datatype := (if rq_datatype r \<noteq> DT_None then rq_datatype r else cp_datatype p),
           cp_shapeN := (if rq_rank r \<noteq> 0 then max shape (if rq_staticShape r = [] then rq_rank r else shape) else shape),
           cp_launchConfig := rq_launchSpecialization r\<rparr>)"

definition foldable :: "CpuOp \<Rightarrow> bool" where
  "foldable op \<longleftrightarrow>
     op_kind op = OP_Scale \<and> f_eq (op_scalar op) (f_of_int 1) \<or>
     op_kind op = OP_Add \<and> f_eq (op_scalar op) (f_of_int 0) \<or>
     op_kind op = OP_Sub \<and> f_eq (op_scalar op) (f_of_int 0) \<or>
     op_kind op = OP_Nop"

definition cpu_optimize :: "i32 \<Rightarrow> CpuProgram \<Rightarrow> CpuProgram" where
  "cpu_optimize level p =
     (let ops = (if 0 < sint level then filter (\<lambda>op. \<not> foldable op) (cp_ops p) else cp_ops p)
      in p\<lparr>cp_ops := (if ops = [] then cp_ops p else ops)\<rparr>)"

definition same_values :: "double list \<Rightarrow> double list \<Rightarrow> bool" where
  "same_values out ref \<longleftrightarrow> length out = length ref \<and> list_all2 f_eq out ref"

definition compile_validation :: "Fpu \<Rightarrow> u64 \<Rightarrow> CpuProgram \<Rightarrow> CpuProgram result \<Rightarrow> i64 \<Rightarrow> ValidationDescriptor" where
  "compile_validation fpu seed prog dec ms =
     (let vd = vd_default\<lparr>vd_executed := True, vd_method := ''cpu-execute-reference'', vd_durationMs := ms\<rparr>
      in case dec of
          Err _ m \<Rightarrow> vd\<lparr>vd_passed := False, vd_message := m\<rparr>
        | Ok p \<Rightarrow>
            let match = same_values (cpu_execute fpu p seed) (cpu_reference fpu prog seed)
            in vd\<lparr>vd_contentDigestOk := True, vd_formatOk := True, vd_architectureOk := True, vd_abiOk := True,
                 vd_dependencyOk := True, vd_metadataConsistent := True, vd_referenceComparison := match,
                 vd_executionSmoke := True, vd_loadable := True, vd_passed := match,
                 vd_message := (if match then [] else ''CPU reference comparison mismatch'')\<rparr>)"

definition stage :: "StageKind \<Rightarrow> bool \<Rightarrow> i64 \<Rightarrow> string \<Rightarrow> StageResult" where
  "stage k ok ms msg = sr_default\<lparr>sr_kind := k, sr_ran := True, sr_succeeded := ok, sr_durationMs := ms, sr_message := msg\<rparr>"

definition compile_output :: "Fpu \<Rightarrow> (nat \<Rightarrow> i64) \<Rightarrow> u64 \<Rightarrow> CpuProgram \<Rightarrow> ValidationDescriptor \<Rightarrow> BackendOutput" where
  "compile_output fpu nowMs seed prog vd = \<lparr>
     bo_executable = cpu_encode prog, bo_format = FMT_Bytecode,
     bo_backend = bd_default\<lparr>bd_id := ''cpu'', bd_name := ''deterministic-cpu'', bd_compilerId := ''cf-cpu'',
       bd_compilerVersion := ''1.0.0'', bd_codeGenerator := ''cf-cpu-codegen'', bd_optimizer := ''cf-cpu-opt'',
       bd_linker := ''cf-cpu-link'', bd_runtime := ''cf-cpu-runtime'', bd_targetArchitecture := ''host-x86_64'',
       bd_isSyntheticCPU := True\<rparr>,
     bo_compiler = cd_default\<lparr>cd_id := ''cf-cpu'', cd_version := ''1.0.0'', cd_vendor := ''CompilationFabric'',
       cd_backendType := ''cpu''\<rparr>,
     bo_specialization = spd_default\<lparr>spd_datatype := cp_datatype prog, spd_shape := [cp_shapeN prog],
       spd_launchSpecialization := cp_launchConfig prog\<rparr>,
     bo_stages =
       [stage SK_Lower True (nowMs 1 - nowMs 0) ''parse source -> IR'',
        stage SK_Optimize True (nowMs 3 - nowMs 2)
          (''constant-fold + DCE ('' @ dec_int (int (length (cp_ops prog))) @ '' ops)''),
        stage SK_Codegen True (nowMs 5 - nowMs 4) ''bytecode codegen'',
        stage SK_Validate (vd_passed vd) (vd_durationMs vd) (vd_message vd)],
     bo_validation = vd, bo_deterministic = True,
     bo_referenceDigest = digestToHex (referenceDigest fpu prog seed)\<rparr>"

text \<open>The argument \<open>nowMs\<close> holds the readings of the clock in the order of the calls.\<close>

definition cpu_compile :: "Fpu \<Rightarrow> (nat \<Rightarrow> i64) \<Rightarrow> CompilationRequest \<Rightarrow> BackendOutput result eff" where
  "cpu_compile fpu nowMs r =
     ebind (parseSource fpu (rq_source r)) (\<lambda>parsed. case parsed of
       Err c m \<Rightarrow> Ret (Err c m)
     | Ok p \<Rightarrow>
         let prog = cpu_optimize (rq_optimizeLevel r) (specialize r p); seed = ucast (makeSeedFrom r)
         in ebind (cpu_decode (cpu_encode prog)) (\<lambda>dec.
              Ret (Ok (compile_output fpu nowMs seed prog
                (compile_validation fpu seed prog dec (nowMs 7 - nowMs 6))))))"

definition key_seed :: "ArtifactDescriptor \<Rightarrow> u64" where
  "key_seed d = foldl (\<lambda>seed b. seed * 131 + ucast b) 0 (ad_keyDigest d)"

definition cpu_validate :: "Fpu \<Rightarrow> ArtifactDescriptor \<Rightarrow> bytes \<Rightarrow> ValidationDescriptor result eff" where
  "cpu_validate fpu d executable =
     (let vd = vd_default\<lparr>vd_executed := True, vd_method := ''cpu-execute-reference''\<rparr>
      in ebind (cpu_decode executable) (\<lambda>dec. Ret (Ok (case dec of
           Err _ m \<Rightarrow> vd\<lparr>vd_passed := False, vd_message := m\<rparr>
         | Ok p \<Rightarrow>
             let digestOk = (ad_contentDigest d = zeroDigest \<or> ad_contentDigest d = sha256 executable);
                 match = same_values (cpu_execute fpu p (key_seed d)) (cpu_reference fpu p (key_seed d));
                 passed = (match \<and> digestOk)
             in vd\<lparr>vd_contentDigestOk := digestOk, vd_formatOk := True, vd_architectureOk := True, vd_abiOk := True,
                  vd_dependencyOk := True, vd_metadataConsistent := True, vd_referenceComparison := match,
                  vd_executionSmoke := True, vd_loadable := True, vd_passed := passed,
                  vd_message := (if passed then [] else ''CPU validation failed: '' @
                    (if match then ''content digest mismatch'' else ''reference mismatch''))\<rparr>))))"

record CpuLoadedModule =
  lm_prog :: CpuProgram
  lm_seed :: u64
  lm_last :: "double list"

definition cpu_load :: "ArtifactDescriptor \<Rightarrow> bytes \<Rightarrow> CpuLoadedModule result eff" where
  "cpu_load d executable = ebind (cpu_decode executable) (\<lambda>dec. Ret (case dec of
     Err _ m \<Rightarrow> Err ErrLoadFailed m
   | Ok p \<Rightarrow> Ok \<lparr>lm_prog = p, lm_seed = key_seed d, lm_last = []\<rparr>))"

definition cpu_executeSmoke :: "Fpu \<Rightarrow> CpuLoadedModule \<Rightarrow> Digest result \<times> CpuLoadedModule" where
  "cpu_executeSmoke fpu m =
     (let out = cpu_execute fpu (lm_prog m) (lm_seed m) in (Ok (sha256 (memory_of out)), m\<lparr>lm_last := out\<rparr>))"

section \<open>The bytecode round trip\<close>

lemma rd_art_Got [simp]: "rd_art (Got x r) msg k = k x r"
  by (simp add: rd_art_def)

lemma rd_art_Ok: "rd_art m msg k = Ret (Ok p) \<longleftrightarrow> (\<exists>x r. m = Got x r \<and> k x r = Ret (Ok p))"
  by (auto simp: rd_art_def split: rres.splits)

interpretation c_f64: strict_codec w_f64 rd_f64 "\<lambda>_. True"
  using c_u64.strict_codec_axioms unfolding w_f64_def rd_f64_def .

lemmas [codec] = c_f64.dec_enc c_f64.dec_enc_end

lemma decode_ops_enc:
  "small (pre @ concat (map encode_op ops) @ rest) \<Longrightarrow>
   decode_ops (length ops) (reader_at pre (concat (map encode_op ops) @ rest)) k =
     k ops (reader_at (pre @ concat (map encode_op ops)) rest)"
proof (induction ops arbitrary: pre k)
  case (Cons op ops)
  have op: "\<lparr>op_kind = op_kind op, op_scalar = op_scalar op, op_n = op_n op\<rparr> = op" by simp
  have s: "small ((pre @ encode_op op) @ concat (map encode_op ops) @ rest)" using Cons.prems by simp
  have "decode_ops (length (op # ops)) (reader_at pre (concat (map encode_op (op # ops)) @ rest)) k =
      decode_ops (length ops) (reader_at (pre @ encode_op op) (concat (map encode_op ops) @ rest)) (\<lambda>ops r. k (op # ops) r)"
    using Cons.prems by (simp add: encode_op_def [of op] codec op)
  also have "\<dots> = k (op # ops) (reader_at (pre @ concat (map encode_op (op # ops))) rest)"
    using Cons.IH [OF s] by simp
  finally show ?case .
qed simp

lemma decode_ops_sound:
  "decode_ops n r k = Ret (Ok p) \<Longrightarrow> rwf r \<Longrightarrow>
   \<exists>ops r'. k ops r' = Ret (Ok p) \<and> length ops = n \<and> rwf r' \<and> rdata r' = rdata r \<and>
     view r = concat (map encode_op ops) @ view r'"
proof (induction n arbitrary: r k)
  case 0
  then show ?case by auto
next
  case (Suc n)
  obtain kind scalar m r1 r2 r3 where
    d: "rd_u8 r = Got kind r1" "rd_f64 r1 = Got scalar r2" "rd_u32 r2 = Got m r3"
      "decode_ops n r3 (\<lambda>ops r. k (\<lparr>op_kind = CpuOpKind kind, op_scalar = scalar, op_n = m\<rparr> # ops) r) = Ret (Ok p)"
    using Suc.prems(1) by (auto simp: rd_art_Ok)
  note s1 = c_u8.dec_sound [OF Suc.prems(2) d(1)]
  note s2 = c_f64.dec_sound [OF s1 [THEN conjunct2, THEN conjunct1] d(2)]
  note s3 = c_u32.dec_sound [OF s2 [THEN conjunct2, THEN conjunct1] d(3)]
  let ?op = "\<lparr>op_kind = CpuOpKind kind, op_scalar = scalar, op_n = m\<rparr>"
  have v: "view r = encode_op ?op @ view r3" using s1 s2 s3 by (simp add: encode_op_def)
  obtain ops r' where o: "k (?op # ops) r' = Ret (Ok p)" "length ops = n" "rwf r'" "rdata r' = rdata r3"
      "view r3 = concat (map encode_op ops) @ view r'"
    using Suc.IH [OF d(4)] s3 by auto
  show ?case using o v s1 s2 s3 by (intro exI [of _ "?op # ops"] exI [of _ r']) simp
qed

lemma cpu_decodes_before:
  assumes "small (cpu_encode p @ rest)" "length (cp_ops p) < 2 ^ 32"
  shows "cpu_decode (cpu_encode p @ rest) =
    Ret (if 4096 < length (cp_ops p) then Err ErrArtifactCorrupt ''CPU artifact op count out of range''
         else if rest \<noteq> [] then Err ErrArtifactCorrupt ''CPU artifact trailing garbage''
         else if cp_ops p = [] then Err ErrArtifactCorrupt ''CPU artifact no ops'' else Ok p)"
proof -
  have n: "unat (of_nat (length (cp_ops p)) :: u32) = length (cp_ops p)" using assms(2) by (simp add: unat_of_nat)
  then have l: "(4096 :: u32) < of_nat (length (cp_ops p)) \<longleftrightarrow> 4096 < length (cp_ops p)" by (simp add: word_less_nat_alt)
  let ?k = "\<lambda>ops r. if hasRemaining r then Ret (Err ErrArtifactCorrupt ''CPU artifact trailing garbage'')
       else if ops = [] then Ret (Err ErrArtifactCorrupt ''CPU artifact no ops'')
       else Ret (Ok \<lparr>cp_name = cp_name p, cp_ops = ops, cp_datatype = Datatype (datatype_value (cp_datatype p)), cp_shapeN = cp_shapeN p,
              cp_alignment = cp_alignment p, cp_launchConfig = cp_launchConfig p\<rparr>)"
  define pre where "pre = putU32BE kCpuMagic @ putU32BE kCpuVersion @ w_string (cp_name p) @ putU64BE (cp_shapeN p) @
     w_u8 (datatype_value (cp_datatype p)) @ putU32BE (cp_alignment p) @ w_string (cp_launchConfig p) @
     putU32BE (of_nat (length (cp_ops p)))"
  have e: "cpu_encode p = pre @ concat (map encode_op (cp_ops p))" by (simp add: cpu_encode_def pre_def)
  have "cpu_decode (cpu_encode p @ rest) =
    (if 4096 < length (cp_ops p) then Ret (Err ErrArtifactCorrupt ''CPU artifact op count out of range'')
     else decode_ops (length (cp_ops p)) (reader_at pre (concat (map encode_op (cp_ops p)) @ rest)) ?k)"
    using assms(1) unfolding cpu_decode_def reader_on_at cpu_encode_def by (simp add: codec n l pre_def)
  moreover have "decode_ops (length (cp_ops p)) (reader_at pre (concat (map encode_op (cp_ops p)) @ rest)) ?k =
      ?k (cp_ops p) (reader_at (cpu_encode p) rest)"
    using decode_ops_enc [of pre "cp_ops p" rest ?k] assms(1) e by simp
  ultimately show ?thesis using assms(1) by simp
qed

lemma cpu_decodes:
  assumes "small (cpu_encode p)" "length (cp_ops p) < 2 ^ 32"
  shows "cpu_decode (cpu_encode p) =
    Ret (if 4096 < length (cp_ops p) then Err ErrArtifactCorrupt ''CPU artifact op count out of range''
         else if cp_ops p = [] then Err ErrArtifactCorrupt ''CPU artifact no ops'' else Ok p)"
  using cpu_decodes_before [of p "[]"] assms by simp

lemma cpu_decode_sound:
  assumes s: "small d" and d: "cpu_decode d = Ret (Ok p)"
  shows "d = cpu_encode p \<and> cp_ops p \<noteq> [] \<and> length (cp_ops p) \<le> 4096"
proof -
  let ?k = "\<lambda>name shape dt align launch ops r. if hasRemaining r then Ret (Err ErrArtifactCorrupt ''CPU artifact trailing garbage'')
       else if ops = [] then Ret (Err ErrArtifactCorrupt ''CPU artifact no ops'')
       else Ret (Ok \<lparr>cp_name = name, cp_ops = ops, cp_datatype = Datatype dt, cp_shapeN = shape,
              cp_alignment = align, cp_launchConfig = launch\<rparr>)"
  obtain name shape dt align launch nops r1 r2 r3 r4 r5 r6 r7 r8 where
    r: "rd_u32 (reader_on d) = Got kCpuMagic r1" "rd_u32 r1 = Got kCpuVersion r2" "rd_str r2 = Got name r3"
      "rd_u64 r3 = Got shape r4" "rd_u8 r4 = Got dt r5" "rd_u32 r5 = Got align r6" "rd_str r6 = Got launch r7"
      "rd_u32 r7 = Got nops r8" "\<not> 4096 < nops" "decode_ops (unat nops) r8 (?k name shape dt align launch) = Ret (Ok p)"
    using d by (auto simp: cpu_decode_def rd_art_Ok split: if_splits rres.splits)
  note w = rwf_reader_on [OF s]
  note s1 = c_u32.dec_sound [OF w [THEN conjunct1] r(1)]
  note s2 = c_u32.dec_sound [OF s1 [THEN conjunct2, THEN conjunct1] r(2)]
  note s3 = c_str.dec_sound [OF s2 [THEN conjunct2, THEN conjunct1] r(3)]
  note s4 = c_u64.dec_sound [OF s3 [THEN conjunct2, THEN conjunct1] r(4)]
  note s5 = c_u8.dec_sound [OF s4 [THEN conjunct2, THEN conjunct1] r(5)]
  note s6 = c_u32.dec_sound [OF s5 [THEN conjunct2, THEN conjunct1] r(6)]
  note s7 = c_str.dec_sound [OF s6 [THEN conjunct2, THEN conjunct1] r(7)]
  note s8 = c_u32.dec_sound [OF s7 [THEN conjunct2, THEN conjunct1] r(8)]
  obtain ops r' where o: "?k name shape dt align launch ops r' = Ret (Ok p)" "length ops = unat nops" "rwf r'"
      "view r8 = concat (map encode_op ops) @ view r'"
    using decode_ops_sound [OF r(10)] s8 by blast
  have p: "p = \<lparr>cp_name = name, cp_ops = ops, cp_datatype = Datatype dt, cp_shapeN = shape, cp_alignment = align,
      cp_launchConfig = launch\<rparr>" "ops \<noteq> []" and e: "\<not> hasRemaining r'"
    using o(1) by (auto split: if_splits)
  have "view r' = []" using e by (simp add: hasRemaining_def view_def)
  moreover have "of_nat (length ops) = nops" by (simp add: o(2))
  moreover have "length ops \<le> 4096" using r(9) o(2) by (simp add: word_less_nat_alt)
  ultimately show ?thesis using w s1 s2 s3 s4 s5 s6 s7 s8 o(4) p by (simp add: cpu_encode_def)
qed

text \<open>
  C29: The bytecode decoder of the CPU backend accepts exactly the encodings of programs with at
  least one and at most 4096 operations, and gives back the program that was encoded, every
  scalar bit for bit.
\<close>

theorem bytecode_exact:
  assumes "small d"
  shows "cpu_decode d = Ret (Ok p) \<longleftrightarrow> d = cpu_encode p \<and> cp_ops p \<noteq> [] \<and> length (cp_ops p) \<le> 4096"
  using cpu_decode_sound [OF assms, of p] cpu_decodes [of p] assms by auto

lemma bytecode_exact_witness:
  "cpu_decode (cpu_encode (cp_default\<lparr>cp_ops := [\<lparr>op_kind = OP_Add, op_scalar = 1, op_n = 4\<rparr>]\<rparr>)) =
     Ret (Ok (cp_default\<lparr>cp_ops := [\<lparr>op_kind = OP_Add, op_scalar = 1, op_n = 4\<rparr>]\<rparr>))"
proof -
  let ?p = "cp_default\<lparr>cp_ops := [\<lparr>op_kind = OP_Add, op_scalar = 1, op_n = 4\<rparr>]\<rparr>"
  have "small (cpu_encode ?p)" by (rule small_few) (simp add: cpu_encode_def encode_op_def w_string_def w_f64_def w_u8_def cp_default_def)
  from bytecode_exact [OF this, of ?p] show ?thesis by simp
qed

section \<open>Execution up to the class of each value\<close>

lemma cls_rr: "cls (rr fpu dt x) = (if dt = DT_F32 then map_option dbl_single (cls x) else cls x)"
  by (simp add: rr_def cls_single)

lemma cls_rr_idem: "cls (rr fpu dt (rr fpu dt x)) = cls (rr fpu dt x)"
  by (simp add: cls_rr option.map_comp comp_def dbl_single_idem)

lemma cls_map_op: "cls x = cls y \<Longrightarrow> cls (map_op fpu op x) = cls (map_op fpu op y)"
  by (simp add: map_op_def cls_ops)

lemma cls_reduce:
  assumes "map cls xs = map cls ys"
  shows "cls (reduce_op fpu kind xs) = cls (reduce_op fpu kind ys)"
proof -
  let ?f = "\<lambda>acc x. if kind = OP_Sum then f_add fpu acc x else if kind = OP_Max then f_max acc x else f_min acc x"
  have step: "cls (?f a x) = cls (?f b y)" if "cls a = cls b" "cls x = cls y" for a b x y
    using that unfolding f_max_def f_min_def by (simp add: cls_ops)
  have l: "list_all2 (\<lambda>x y. cls x = cls y) xs ys" using assms by (simp add: list_all2_conv_all_nth list_eq_iff_nth_eq)
  have run: "cls (foldl ?f a xs) = cls (foldl ?f b ys)" if "cls a = cls b" for a b
    using l that
  proof (induction arbitrary: a b rule: list_all2_induct)
    case (Cons x xs y ys)
    show ?case unfolding foldl_Cons by (rule Cons.IH) (rule step [OF Cons.prems Cons.hyps(1)])
  qed (simp only: foldl_Nil)
  have "xs = [] \<longleftrightarrow> ys = []" using assms by auto
  moreover have "cls (hd xs) = cls (hd ys)" if "xs \<noteq> []" using l that by (cases xs; cases ys) auto
  ultimately show ?thesis unfolding reduce_op_def by (intro run) auto
qed

lemma cls_run_op:
  assumes "map cls xs = map cls ys"
  shows "map cls (run_op fpu dt xs op) = map cls (run_op fpu dt ys op)"
proof -
  have l: "list_all2 (\<lambda>x y. cls x = cls y) xs ys" using assms by (simp add: list_all2_conv_all_nth list_eq_iff_nth_eq)
  then have "map (\<lambda>x. cls (rr fpu dt (map_op fpu op x))) xs = map (\<lambda>x. cls (rr fpu dt (map_op fpu op x))) ys"
  proof (induction rule: list_all2_induct)
    case (Cons x xs y ys)
    then show ?case using cls_map_op [OF Cons.hyps(1), of fpu op] by (simp add: cls_rr)
  qed simp
  then have m: "map cls (map (\<lambda>x. rr fpu dt (map_op fpu op x)) xs) = map cls (map (\<lambda>x. rr fpu dt (map_op fpu op x)) ys)"
    by (simp only: map_map comp_def)
  have "cls (rr fpu dt (reduce_op fpu (op_kind op) xs)) = cls (rr fpu dt (reduce_op fpu (op_kind op) ys))"
    by (simp only: cls_rr cls_reduce [OF assms])
  then show ?thesis unfolding run_op_def using m assms by (simp only: list.map split: if_split) blast
qed

text \<open>Values that rounding to the datatype of the program keeps.\<close>

definition rounded :: "Fpu \<Rightarrow> Datatype \<Rightarrow> double list \<Rightarrow> bool" where
  "rounded fpu dt xs \<longleftrightarrow> (\<forall>x \<in> set xs. cls (rr fpu dt x) = cls x)"

lemma rounded_input: "rounded fpu dt (hostInput fpu n dt seed)"
  by (auto simp: rounded_def hostInput_def cls_rr_idem)

lemma rounded_run: "rounded fpu dt xs \<Longrightarrow> rounded fpu dt (run_op fpu dt xs op)"
  by (auto simp: rounded_def run_op_def cls_rr_idem)

lemma cls_of_int: "cls (f_of_int n) = Some (double_of_int n)"
  by (simp add: f_of_int_def cls_enc double_of_int_def)

lemma cls_zero_one: "cls (f_of_int 0) = Some (Fin 0)" "cls (f_of_int 1) = Some (Fin 1)"
  using double_of_int_exact [of 0] double_of_int_exact [of 1] by (simp_all add: cls_of_int)

lemma run_foldable:
  assumes "foldable op" "rounded fpu dt xs"
  shows "map cls (run_op fpu dt xs op) = map cls xs"
proof -
  have "cls (rr fpu dt (map_op fpu op x)) = cls x" if "x \<in> set xs" "op_kind op \<noteq> OP_Nop" for x
  proof -
    have "cls (map_op fpu op x) = cls x"
      using assms(1) that(2) by (auto simp: foldable_def map_op_def f_eq_def cls_zero_one cls_add_zero cls_sub_zero cls_mul_one)
    then show ?thesis using assms(2) that(1) by (auto simp: rounded_def cls_rr)
  qed
  then show ?thesis using assms(1) by (auto simp: run_op_def foldable_def)
qed

lemma run_filtered:
  "rounded fpu dt xs \<Longrightarrow> map cls xs = map cls ys \<Longrightarrow>
   map cls (foldl (run_op fpu dt) xs ops) = map cls (foldl (run_op fpu dt) ys (filter (\<lambda>op. \<not> foldable op) ops))"
proof (induction ops arbitrary: xs ys)
  case (Cons op ops)
  note r = rounded_run [OF Cons.prems(1), of op]
  show ?case
  proof (cases "foldable op")
    case True
    then show ?thesis using Cons.IH [OF r, of ys] run_foldable [OF True Cons.prems(1)] Cons.prems(2) by simp
  next
    case False
    then show ?thesis using Cons.IH [OF r, of "run_op fpu dt ys op"] cls_run_op [OF Cons.prems(2)] by simp
  qed
qed simp

lemma optimizer_classes: "map cls (cpu_execute fpu (cpu_optimize level p) seed) = map cls (cpu_execute fpu p seed)"
  unfolding cpu_execute_def cpu_optimize_def Let_def
  using run_filtered [OF rounded_input refl] by simp

text \<open>
  C20: The optimiser inside compile preserves what a program computes: at every level, for every
  program, seed and floating-point unit, the optimised program yields as many values as the
  original and each pair compares equal, or both are NaN. Only the sign of a zero and the bits
  of a NaN may differ.
\<close>

theorem optimizer_sound:
  "list_all2 (\<lambda>x y. f_eq x y \<or> is_nan x \<and> is_nan y)
     (cpu_execute fpu (cpu_optimize level p) seed) (cpu_execute fpu p seed)"
proof -
  have "list_all2 (\<lambda>x y. cls x = cls y) (cpu_execute fpu (cpu_optimize level p) seed) (cpu_execute fpu p seed)"
    using optimizer_classes [of fpu level p seed] by (simp add: list_all2_conv_all_nth list_eq_iff_nth_eq)
  then show ?thesis by (rule list_all2_mono) (auto simp: f_eq_def is_nan_cls)
qed

section \<open>Parsing\<close>

text \<open>What a source line is: nothing to do, a header, an operation, or one of the two that end parsing.\<close>

datatype LineKind = Blank | Wordless | Header string | Operation CpuOpKind "string list" | Unknown string

definition line_kind :: "string \<Rightarrow> LineKind" where
  "line_kind l =
     (let line = clean_line l
      in if line = [] \<or> hd line = CHR ''#'' then Blank
         else case split_words line of
             [] \<Rightarrow> Wordless
           | tok # args \<Rightarrow>
               if has_eq tok \<and> key_part tok \<noteq> [] then Header tok
               else case opKindFromName tok of None \<Rightarrow> Unknown tok | Some kind \<Rightarrow> Operation kind args)"

definition accepted :: "LineKind \<Rightarrow> bool" where
  "accepted k \<longleftrightarrow> (case k of Wordless \<Rightarrow> False | Unknown _ \<Rightarrow> False | _ \<Rightarrow> True)"

definition line_op :: "LineKind \<Rightarrow> CpuOpKind option" where
  "line_op k = (case k of Operation kind _ \<Rightarrow> Some kind | _ \<Rightarrow> None)"

definition apply_line :: "Fpu \<Rightarrow> LineKind \<Rightarrow> CpuProgram \<Rightarrow> CpuProgram" where
  "apply_line fpu k p = (case k of Header tok \<Rightarrow> parse_header tok p | Operation kind args \<Rightarrow> parse_op fpu kind args p | _ \<Rightarrow> p)"

lemma parse_lines_kinds:
  "parse_lines fpu ls p =
     (case find (\<lambda>k. \<not> accepted k) (map line_kind ls) of
        None \<Rightarrow> Ret (Ok (fold (apply_line fpu) (map line_kind ls) p))
      | Some (Unknown tok) \<Rightarrow> Ret (Err ErrInvalidSource (''unknown op: '' @ tok))
      | Some _ \<Rightarrow> Undef)"
proof (induction ls arbitrary: p)
  case (Cons l ls)
  then show ?case
    by (auto simp: line_kind_def accepted_def apply_line_def Let_def split: list.splits option.splits)
qed simp

lemma header_ops [simp]: "cp_ops (parse_header tok p) = cp_ops p"
  by (simp add: parse_header_def Let_def split: option.splits)

lemma operand_kind: "op_kind (foldl (parse_operand fpu) op args) = op_kind op"
  by (induction args arbitrary: op) (simp_all add: parse_operand_def)

lemma parse_op_kinds: "map op_kind (cp_ops (parse_op fpu kind args p)) = map op_kind (cp_ops p) @ [kind]"
  by (simp add: parse_op_def Let_def operand_kind)

lemma apply_lines_kinds:
  "map op_kind (cp_ops (fold (apply_line fpu) ks p)) = map op_kind (cp_ops p) @ List.map_filter line_op ks"
proof (induction ks arbitrary: p)
  case (Cons k ks)
  then show ?case by (cases k) (simp_all add: apply_line_def line_op_def List.map_filter_simps parse_op_kinds)
qed (simp add: List.map_filter_simps)

text \<open>
  C30: How parsing ends is decided by the first line that is neither blank, a comment, a header nor
  a known operation. When there is none, parsing succeeds with one operation per operation
  line, in order, unless there are no operation lines at all, which is an InvalidSource error.
  When its first word is unknown, parsing reports that word. When it holds no word, only
  characters such as form feeds that the tokenizer drops but the trimming keeps, the first
  token of an empty vector is read, which is undefined behaviour.
\<close>

theorem parse_outcome:
  "(let ks = map line_kind (split_lines s)
    in case find (\<lambda>k. \<not> accepted k) ks of
         None \<Rightarrow>
           (if List.map_filter line_op ks = []
            then parseSource fpu s = Ret (Err ErrInvalidSource ''source produced no operations'')
            else \<exists>p. parseSource fpu s = Ret (Ok p) \<and> map op_kind (cp_ops p) = List.map_filter line_op ks)
       | Some (Unknown tok) \<Rightarrow> parseSource fpu s = Ret (Err ErrInvalidSource (''unknown op: '' @ tok))
       | Some _ \<Rightarrow> parseSource fpu s = Undef)"
proof -
  let ?ks = "map line_kind (split_lines s)"
  let ?p = "fold (apply_line fpu) ?ks cp_default"
  have k: "map op_kind (cp_ops ?p) = List.map_filter line_op ?ks" by (simp add: apply_lines_kinds cp_default_def)
  then have e: "cp_ops ?p = [] \<longleftrightarrow> List.map_filter line_op ?ks = []" by (metis Nil_is_map_conv)
  show ?thesis unfolding Let_def parseSource_def parse_lines_kinds
    using k e by (auto simp: parse_finish_def Let_def split: option.splits LineKind.splits)
qed

text \<open>A line that holds a form feed only.\<close>

lemma form_feed_undefined: "parseSource fpu (''add'' @ [newline, char_of (12 :: nat)]) = Undef"
proof -
  have "map line_kind (split_lines (''add'' @ [newline, char_of (12 :: nat)])) = [Operation OP_Add [], Wordless]"
    by code_simp
  then show ?thesis by (simp add: parseSource_def parse_lines_kinds accepted_def)
qed

section \<open>Compiling\<close>

lemma no_nan_iff: "(\<forall>x \<in> set xs. \<not> is_nan x) \<longleftrightarrow> None \<notin> set (map cls xs)"
  by (force simp: is_nan_cls)

lemma same_values_self: "same_values xs xs \<longleftrightarrow> (\<forall>x \<in> set xs. \<not> is_nan x)"
  by (simp add: same_values_def list_all2_same f_eq_def is_nan_cls)

lemma parse_some_ops: "parseSource fpu s = Ret (Ok p) \<Longrightarrow> cp_ops p \<noteq> []"
  by (auto simp: parseSource_def parse_finish_def Let_def ebind_def split: eff.splits result.splits if_splits)

lemma optimize_ops: "cp_ops p \<noteq> [] \<Longrightarrow> cp_ops (cpu_optimize level p) \<noteq> []"
  by (simp add: cpu_optimize_def Let_def)

lemma optimize_fewer: "length (cp_ops (cpu_optimize level p)) \<le> length (cp_ops p)"
  by (simp add: cpu_optimize_def Let_def)

lemma specialize_ops [simp]: "cp_ops (specialize r p) = cp_ops p"
  by (simp add: specialize_def Let_def)

lemma no_nan_optimized:
  "(\<forall>x \<in> set (cpu_execute fpu (cpu_optimize level p) seed). \<not> is_nan x) \<longleftrightarrow> (\<forall>x \<in> set (cpu_execute fpu p seed). \<not> is_nan x)"
  unfolding no_nan_iff by (simp only: optimizer_classes)

text \<open>
  C21: For every source that parses, with fewer than 2 to the 32 operations and bytecode that fits in
  memory, the CPU backend produces an artifact; it is the bytecode of the specialised and
  optimised program. The validation inside compile passes exactly when at most 4096 operations
  are left and running the program as written, before the optimiser, yields no NaN. The later
  validation of the same bytes passes exactly when, besides, the recorded digest is absent or
  that of the bytes, the run now being seeded by the key.
\<close>

theorem cpu_compile_validates:
  assumes "parseSource fpu (rq_source r) = Ret (Ok p)" "length (cp_ops p) < 2 ^ 32"
    and "prog = cpu_optimize (rq_optimizeLevel r) (specialize r p)" "small (cpu_encode prog)"
  shows "\<exists>out vd. cpu_compile fpu nowMs r = Ret (Ok out) \<and> bo_executable out = cpu_encode prog \<and>
    (vd_passed (bo_validation out) \<longleftrightarrow> length (cp_ops prog) \<le> 4096 \<and>
       (\<forall>x \<in> set (cpu_execute fpu (specialize r p) (ucast (makeSeedFrom r))). \<not> is_nan x)) \<and>
    cpu_validate fpu d (bo_executable out) = Ret (Ok vd) \<and>
    (vd_passed vd \<longleftrightarrow> length (cp_ops prog) \<le> 4096 \<and>
       (ad_contentDigest d = zeroDigest \<or> ad_contentDigest d = sha256 (bo_executable out)) \<and>
       (\<forall>x \<in> set (cpu_execute fpu (specialize r p) (key_seed d)). \<not> is_nan x))"
proof -
  have n: "cp_ops prog \<noteq> []" using parse_some_ops [OF assms(1)] by (simp add: assms(3) optimize_ops)
  have l: "length (cp_ops prog) < 2 ^ 32"
    using assms(2) optimize_fewer [of "rq_optimizeLevel r" "specialize r p"] by (simp add: assms(3))
  note d = cpu_decodes [OF assms(4) l]
  have x: "(\<forall>x \<in> set (cpu_execute fpu prog s). \<not> is_nan x) \<longleftrightarrow> (\<forall>x \<in> set (cpu_execute fpu (specialize r p) s). \<not> is_nan x)" for s
    by (simp only: assms(3) no_nan_optimized)
  show ?thesis using n unfolding cpu_compile_def assms(1) cpu_validate_def
    by (simp add: assms(3) [symmetric] Let_def d compile_output_def compile_validation_def cpu_reference_def
        same_values_self x vd_default_def) blast
qed

definition sample_fpu :: Fpu where
  "sample_fpu = \<lparr>fp_nan = \<lambda>_ _ _. quiet_nan, fp_text_nan = \<lambda>_. quiet_nan, fp_sin = \<lambda>x. x\<rparr>"

definition sample_program :: CpuProgram where
  "sample_program = cp_default\<lparr>cp_name := ''cf-kernel'', cp_shapeN := 1024,
     cp_ops := [\<lparr>op_kind = OP_Neg, op_scalar = enc False 0, op_n = 1024\<rparr>]\<rparr>"

lemma sample_parse: "parseSource fpu ''neg'' = Ret (Ok sample_program)"
proof -
  have "map line_kind (split_lines ''neg'') = [Operation OP_Neg []]" by code_simp
  then show ?thesis
    by (simp add: parseSource_def parse_lines_kinds accepted_def apply_line_def parse_op_def parse_finish_def sample_program_def cp_default_def)
qed

lemma cpu_compile_validates_witness:
  "\<exists>out vd. cpu_compile sample_fpu (\<lambda>_. 0) (rq_default\<lparr>rq_source := ''neg''\<rparr>) = Ret (Ok out) \<and>
     cpu_validate sample_fpu (ad_default\<lparr>ad_contentDigest := zeroDigest\<rparr>) (bo_executable out) = Ret (Ok vd)"
proof -
  let ?r = "rq_default\<lparr>rq_source := ''neg''\<rparr>"
  let ?p = "cpu_optimize (rq_optimizeLevel ?r) (specialize ?r sample_program)"
  have o: "length (cp_ops sample_program) = 1" by (simp add: sample_program_def)
  have "length (cp_ops ?p) \<le> 1" using optimize_fewer [of "rq_optimizeLevel ?r" "specialize ?r sample_program"] o by simp
  then obtain ops where "cp_ops ?p = ops" "ops = [] \<or> (\<exists>op. ops = [op])" by (auto simp: le_Suc_eq length_Suc_conv)
  moreover have "cp_name ?p = ''cf-kernel''" "cp_launchConfig ?p = []"
    by (simp_all add: cpu_optimize_def specialize_def Let_def sample_program_def rq_default_def)
  ultimately have "small (cpu_encode ?p)"
    by (intro small_few) (auto simp: cpu_encode_def encode_op_def w_string_def w_f64_def w_u8_def)
  from cpu_compile_validates [where fpu = sample_fpu and r = ?r and nowMs = "\<lambda>_. 0" and d = "ad_default\<lparr>ad_contentDigest := zeroDigest\<rparr>", OF _ _ refl this] 
  show ?thesis using o sample_parse [of sample_fpu] by (simp add: rq_default_def) blast
qed

section \<open>Well-typed programs\<close>

definition cp_typed :: "CpuProgram \<Rightarrow> bool" where
  "cp_typed p \<longleftrightarrow> datatype_value (cp_datatype p) \<le> 20 \<and> (\<forall>op \<in> set (cp_ops p). opkind_value (op_kind op) \<le> 10)"

lemma datatypeFromName_typed: "datatypeFromName s = Some d \<Longrightarrow> datatype_value d \<le> 20"
proof -
  assume "datatypeFromName s = Some d"
  then have "d \<in> snd ` set datatypeTable" unfolding datatypeFromName_def LOOKUP_def by (auto simp: find_Some_iff) (metis image_eqI nth_mem snd_conv)
  then show ?thesis by (auto simp: datatypeTable_def)
qed

lemma opKindFromName_typed: "opKindFromName s = Some k \<Longrightarrow> opkind_value k \<le> 10"
proof -
  assume "opKindFromName s = Some k"
  then have "k \<in> snd ` set opKindTable" unfolding opKindFromName_def by (force dest: map_of_SomeD)
  then show ?thesis by (auto simp: opKindTable_def)
qed

lemma apply_line_typed:
  assumes "cp_typed p"
  shows "cp_typed (apply_line fpu (line_kind l) p)"
proof (cases "line_kind l")
  case (Header tok)
  then show ?thesis using assms datatypeFromName_typed [of "val_part tok"]
    by (auto simp: apply_line_def cp_typed_def parse_header_def Let_def split: option.splits)
next
  case (Operation kind args)
  then obtain tok where "opKindFromName tok = Some kind"
    by (auto simp: line_kind_def Let_def split: if_splits list.splits option.splits)
  then show ?thesis using assms Operation opKindFromName_typed [of tok]
    by (auto simp: apply_line_def cp_typed_def parse_op_def Let_def operand_kind)
qed (use assms in \<open>simp_all add: apply_line_def\<close>)

lemma apply_lines_typed: "cp_typed p \<Longrightarrow> cp_typed (fold (apply_line fpu) (map line_kind ls) p)"
  by (induction ls arbitrary: p) (simp_all add: apply_line_typed)

lemma parse_typed:
  assumes "parseSource fpu s = Ret (Ok p)"
  shows "cp_typed p \<and> cp_shapeN p \<noteq> 0 \<and> cp_name p \<noteq> []"
proof -
  obtain q where q: "parse_lines fpu (split_lines s) cp_default = Ret (Ok q)" "parse_finish q = Ok p"
    using assms by (auto simp: parseSource_def ebind_def split: eff.splits result.splits)
  have "q = fold (apply_line fpu) (map line_kind (split_lines s)) cp_default"
    using q(1) by (auto simp: parse_lines_kinds split: option.splits LineKind.splits)
  then have "cp_typed q" using apply_lines_typed [of cp_default] by (simp add: cp_typed_def cp_default_def)
  then show ?thesis using q(2) by (auto simp: parse_finish_def Let_def cp_typed_def split: if_splits)
qed

text \<open>
  C31: Every program the parser returns is well typed: its operation kinds and its datatype are
  enumerators of their types, its element count is not zero and its name is not empty. When
  the request's datatype is an enumerator, specialisation and optimisation keep the program
  well typed and leave it at least one operation, so that execution never meets a kind it
  ignores silently.
\<close>

theorem program_typed:
  assumes "parseSource fpu s = Ret (Ok p)" "datatype_value (rq_datatype r) \<le> 20"
  shows "cp_typed p \<and> cp_shapeN p \<noteq> 0 \<and> cp_name p \<noteq> [] \<and>
    (let prog = cpu_optimize level (specialize r p) in cp_typed prog \<and> cp_ops prog \<noteq> [])"
  using parse_typed [OF assms(1)] parse_some_ops [OF assms(1)] assms(2)
  by (auto simp: cp_typed_def Let_def cpu_optimize_def specialize_def)

lemma program_typed_witness:
  "cp_typed sample_program \<and> (let prog = cpu_optimize 1 (specialize rq_default sample_program) in cp_typed prog \<and> cp_ops prog \<noteq> [])"
  using program_typed [OF sample_parse [of sample_fpu], of rq_default 1] by (simp add: rq_default_def Let_def)

section \<open>The sign of a zero\<close>

lemma enc_zero: "enc z 0 = mk z 0" "enc z (0 * x) = mk z 0"
  by (simp_all add: enc_def rnd_def)

lemma neg_zero: "neg_bit (mk s 0) = s" "magn (mk s 0) = 0" "cls (mk s 0) = Some (Fin 0)"
  using mk_simps [of 0 s] by (simp_all add: cls_mk inf_bits_def signed_val_def)

text \<open>
  Optimised and original results are equal as numbers, not as bytes: with the input 0, a
  negation followed by the addition of 0 gives 0 and, without the addition, minus 0, so that
  the digests of the reference outputs differ between optimisation levels.
\<close>

lemma optimizer_changes_bytes:
  "\<exists>fpu p seed. cpu_execute fpu (cpu_optimize 1 p) seed = [mk True 0] \<and> cpu_execute fpu p seed = [mk False 0] \<and> mk True 0 \<noteq> mk False 0"
proof -
  let ?fpu = "sample_fpu\<lparr>fp_sin := \<lambda>_. mk False 0\<rparr>"
  let ?neg = "\<lparr>op_kind = OP_Neg, op_scalar = enc False 0, op_n = 1\<rparr>" and ?add = "\<lparr>op_kind = OP_Add, op_scalar = enc False 0, op_n = 1\<rparr>"
  let ?p = "cp_default\<lparr>cp_datatype := DT_F64, cp_shapeN := 1, cp_ops := [?neg, ?add]\<rparr>"
  have k: "\<not> neg_bit (f_of_int 1000)" "cls (f_of_int 1000) = Some (Fin 1000)"
    using mk_simps [of "rnd 1000" False] rnd_bounds [of 1000] double_of_int_exact [of 1000]
    by (simp_all add: cls_of_int) (simp add: f_of_int_def enc_def inf_bits_def)
  have i: "hostInput ?fpu 1 DT_F64 0 = [mk False 0]"
    by (simp add: hostInput_def rr_def f_mul_def neg_zero k enc_zero)
  have f: "\<not> foldable ?neg" "foldable ?add" by (simp_all add: foldable_def f_eq_def cls_zero_one enc_zero neg_zero)
  have o: "cpu_optimize 1 ?p = ?p\<lparr>cp_ops := [?neg]\<rparr>" using f by (simp add: cpu_optimize_def)
  have n: "run_op ?fpu DT_F64 [mk False 0] ?neg = [mk True 0]"
    by (simp add: run_op_def rr_def map_op_def f_neg_def neg_zero)
  have "run_op ?fpu DT_F64 [mk True 0] ?add = [mk False 0]"
    by (simp add: run_op_def rr_def map_op_def f_add_def f_plus_def enc_zero neg_zero)
  then have "cpu_execute ?fpu ?p 0 = [mk False 0]" "cpu_execute ?fpu (cpu_optimize 1 ?p) 0 = [mk True 0]"
    by (simp_all add: cpu_execute_def o i n)
  moreover have "mk True 0 \<noteq> mk False 0" by (metis neg_zero(1))
  ultimately show ?thesis by blast
qed

text \<open>A unit under which negation never meets a NaN, for the concrete runs of other theories.\<close>

definition zero_fpu :: Fpu where "zero_fpu = sample_fpu\<lparr>fp_sin := \<lambda>_. mk False 0\<rparr>"

lemma zero_input: "x \<in> set (hostInput zero_fpu n dt seed) \<Longrightarrow> cls x = Some (Fin 0)"
proof -
  have "cls (f_of_int 1000) = Some (Fin 1000)" using double_of_int_exact [of 1000] by (simp add: cls_of_int)
  then show "x \<in> set (hostInput zero_fpu n dt seed) \<Longrightarrow> cls x = Some (Fin 0)"
    by (auto simp: hostInput_def zero_fpu_def cls_rr cls_mul neg_zero round_double_def)
qed

lemma zero_execute: "map op_kind (cp_ops p) = [OP_Neg] \<Longrightarrow> \<forall>x \<in> set (cpu_execute zero_fpu p seed). \<not> is_nan x"
proof -
  assume k: "map op_kind (cp_ops p) = [OP_Neg]"
  then obtain op where op: "cp_ops p = [op]" "op_kind op = OP_Neg" by auto
  have "cls (rr zero_fpu dt (f_neg x)) = Some (Fin 0)" if "cls x = Some (Fin 0)" for x dt
    using that by (simp add: cls_rr cls_neg)
  then show ?thesis using zero_input
    by (auto simp: cpu_execute_def Let_def op run_op_def map_op_def is_nan_cls)
qed

end
