(* ===== verification/CF_EndToEnd.thy ===== *)
theory CF_EndToEnd
  imports CF_Results CF_CpuBackend
begin

text \<open>
  The runtime of \<open>Fabric.cpp\<close> with the backend of \<open>CpuBackend.cpp\<close> plugged into
  it: what an artifact that \<open>compile\<close> returns computes, compared with the source of the
  request the caller made, and that a request with a sound source is served.
\<close>

section \<open>The CPU backend behind the interface\<close>

text \<open>
  The runtime knows answers only. A call that lets an exception escape or has no defined
  behaviour yields no artifact, and stands for a failure here.
\<close>

definition settled :: "'a result eff \<Rightarrow> 'a result" where
  "settled e = (case e of Ret x \<Rightarrow> x | _ \<Rightarrow> Err ErrInternal [])"

lemma settled_simps [simp]: "settled (Ret x) = x" "settled LengthError = Err ErrInternal []" "settled Undef = Err ErrInternal []"
  by (simp_all add: settled_def)

lemma settled_Ok: "settled e = Ok x \<longleftrightarrow> e = Ret (Ok x)"
  by (cases e) simp_all

definition cpu_module :: "Fpu \<Rightarrow> CpuLoadedModule \<Rightarrow> LoadedModule" where
  "cpu_module fpu lm = \<lparr>lm_kind = ''cpu'', lm_executeSmoke = fst (cpu_executeSmoke fpu lm)\<rparr>"

text \<open>The readings of the clock in a call are those from the moment of the call on.\<close>

definition cpu_backend :: "Fpu \<Rightarrow> (nat \<Rightarrow> nat \<Rightarrow> i64) \<Rightarrow> ICompilerBackend" where
  "cpu_backend fpu clock = \<lparr>bk_id = ''cpu'', bk_checkCompatible = \<lambda>_ p. cpu_checkCompatible p,
     bk_compile = \<lambda>m r _ _. settled (cpu_compile fpu (clock m) r),
     bk_validate = \<lambda>_ d bs. settled (cpu_validate fpu d bs),
     bk_load = \<lambda>_ d bs. case settled (cpu_load d bs) of Ok lm \<Rightarrow> Ok (cpu_module fpu lm) | Err c m \<Rightarrow> Err c m\<rparr>"

section \<open>What the code computes\<close>

text \<open>Equal as numbers, or both not a number.\<close>

definition same_numbers :: "double list \<Rightarrow> double list \<Rightarrow> bool" where
  "same_numbers = list_all2 (\<lambda>x y. f_eq x y \<or> is_nan x \<and> is_nan y)"

lemma same_numbers_cls: "same_numbers xs ys \<longleftrightarrow> map cls xs = map cls ys"
proof -
  have "(f_eq x y \<or> is_nan x \<and> is_nan y) = (cls x = cls y)" for x y
    by (cases "cls x"; cases "cls y") (simp_all add: f_eq_def is_nan_cls)
  then show ?thesis by (auto simp: same_numbers_def list_all2_conv_all_nth list_eq_iff_nth_eq)
qed

lemma optimize_same: "same_numbers (cpu_execute fpu (cpu_optimize level p) seed) (cpu_execute fpu p seed)"
  by (simp only: same_numbers_cls optimizer_classes)

lemma encode_take:
  assumes "n \<le> length (cp_ops p)" "of_nat n = (of_nat (length (cp_ops p)) :: u32)"
  shows "cpu_encode p = cpu_encode (p\<lparr>cp_ops := take n (cp_ops p)\<rparr>) @ concat (map encode_op (drop n (cp_ops p)))"
proof -
  obtain xs ys where x: "xs = take n (cp_ops p)" "ys = drop n (cp_ops p)" by blast
  then have p: "cp_ops p = xs @ ys" "length xs = n" using assms(1) by simp_all
  have c: "(of_nat (length (xs @ ys)) :: u32) = of_nat (length xs)" using assms(2) p by simp
  have "cpu_encode p = cpu_encode (p\<lparr>cp_ops := xs\<rparr>) @ concat (map encode_op ys)"
    by (simp add: cpu_encode_def p(1)) (simp add: c [simplified])
  then show ?thesis by (simp add: x)
qed

text \<open>
  Decoding its own encoding gives nothing but the program, even when the number of its
  operations does not fit into the 32 bits of the count: then operations are left over.
\<close>

lemma decode_own:
  assumes s: "small (cpu_encode p)" and d: "cpu_decode (cpu_encode p) = Ret (Ok q)"
  shows "q = p"
proof -
  let ?n = "length (cp_ops p) mod 2 ^ 32" and ?l = "length (cp_ops p)"
  have n: "?n \<le> ?l" "of_nat ?n = (of_nat ?l :: u32)"
    by (simp_all add: word_of_nat_eq_iff take_bit_eq_mod)
  let ?p = "p\<lparr>cp_ops := take ?n (cp_ops p)\<rparr>" and ?rest = "concat (map encode_op (drop ?n (cp_ops p)))"
  have e: "cpu_encode p = cpu_encode ?p @ ?rest" by (rule encode_take [OF n])
  have l: "length (cp_ops ?p) < 2 ^ 32" by simp
  have "cpu_decode (cpu_encode ?p @ ?rest) = Ret (Ok q)" using d unfolding e .
  moreover have "small (cpu_encode ?p @ ?rest)" using s unfolding e .
  ultimately have "?rest = []" "q = ?p" using cpu_decodes_before [OF _ l, of ?rest]
    by (simp_all only: eff.inject split: if_splits) simp_all
  then have "drop ?n (cp_ops p) = []" by (cases "drop ?n (cp_ops p)") (auto simp: encode_op_def w_u8_def)
  then have "take ?n (cp_ops p) = cp_ops p" by simp
  with \<open>q = ?p\<close> show ?thesis by simp
qed

lemma compile_code:
  assumes "cpu_compile fpu clock r = Ret (Ok out)"
  obtains src where "parseSource fpu (rq_source r) = Ret (Ok src)"
    "bo_executable out = cpu_encode (cpu_optimize (rq_optimizeLevel r) (specialize r src))"
  using assms by (auto simp: cpu_compile_def ebind_def compile_output_def Let_def split: eff.splits result.splits)

lemma validate_passed:
  assumes "cpu_validate fpu d bs = Ret (Ok vd)" "vd_passed vd"
  obtains p where "cpu_decode bs = Ret (Ok p)" "\<forall>x \<in> set (cpu_execute fpu p (key_seed d)). \<not> is_nan x"
  using assms by (auto simp: cpu_validate_def ebind_def cpu_reference_def same_values_self vd_default_def Let_def
      split: eff.splits result.splits)

text \<open>What the compiler reads of a request, apart from the optimisation level, is in its key.\<close>

lemma specialize_cong:
  assumes "rq_datatype r' = rq_datatype r" "rq_staticShape r' = rq_staticShape r" "rq_rank r' = rq_rank r"
    "rq_launchSpecialization r' = rq_launchSpecialization r"
  shows "specialize r' = specialize r"
  by (rule ext) (simp only: specialize_def assms)

lemma or_default_self [simp]: "or_default d x x = x"
  by (simp add: or_default_def)

lemma same_key_program:
  assumes "buildCompilationKey r p tc = buildCompilationKey r' p' tc'" "pl_request p = r" "pl_request p' = r'"
  shows "rq_source r' = rq_source r \<and> specialize r' = specialize r"
proof -
  have "same_inputs r p tc r' p' tc'" using assms(1) by (simp only: build_inputs_iff inputs_iff)
  then have "rq_source r = rq_source r'" "rq_datatype r = rq_datatype r'" "rq_staticShape r = rq_staticShape r'"
      "rq_rank r = rq_rank r'" "rq_launchSpecialization r = rq_launchSpecialization r'"
    unfolding same_inputs_def assms(2,3) or_default_self by blast+
  then show ?thesis using specialize_cong [of r' r] by simp
qed

lemma variant_program: "variant_of r r' \<Longrightarrow> rq_source r' = rq_source r \<and> specialize r' = specialize r"
  by (auto simp: variant_of_def variant_request_def intro!: specialize_cong)

section \<open>Results of compile\<close>

text \<open>
  Backends whose successful answers are those of the CPU code. The laws leave open how a
  call fails, and at which moments the clock is read.
\<close>

locale cpu_backends =
  fixes fpu :: Fpu and B :: "ICompilerBackend set"
  assumes compiled: "b \<in> B \<Longrightarrow> bk_compile b m r p tc = Ok out \<Longrightarrow> \<exists>clock. cpu_compile fpu clock r = Ret (Ok out)"
    and validated: "b \<in> B \<Longrightarrow> bk_validate b m d bs = Ok vd \<Longrightarrow> cpu_validate fpu d bs = Ret (Ok vd)"
begin

lemma built_program:
  assumes "built_by B (buildCompilationKey r p tc) bs" "pl_request p = r"
  obtains src level where "parseSource fpu (rq_source r) = Ret (Ok src)" "bs = cpu_encode (cpu_optimize level (specialize r src))"
proof -
  obtain b m r0 r' p0 tc0 out where b: "b \<in> B" "bk_compile b m r' p0 tc0 = Ok out" "bo_executable out = bs" "variant_of r0 r'"
      "pl_request p0 = r0" "buildCompilationKey r0 p0 tc0 = buildCompilationKey r p tc"
    using assms(1) unfolding built_by_def by blast
  obtain clock where "cpu_compile fpu clock r' = Ret (Ok out)" using compiled [OF b(1,2)] by blast
  then obtain src where "parseSource fpu (rq_source r') = Ret (Ok src)"
      "bo_executable out = cpu_encode (cpu_optimize (rq_optimizeLevel r') (specialize r' src))"
    by (rule compile_code)
  then show thesis using that variant_program [OF b(4)] same_key_program [OF b(6) b(5) assms(2)] b(3) by metis
qed

lemma proven_program:
  assumes "proven B (buildCompilationKey r p tc) art bs" "pl_request p = r" "small bs"
  obtains src level where "parseSource fpu (rq_source r) = Ret (Ok src)"
    "cpu_decode bs = Ret (Ok (cpu_optimize level (specialize r src)))"
    "\<forall>x \<in> set (cpu_execute fpu (cpu_optimize level (specialize r src)) (key_seed art)). \<not> is_nan x"
proof -
  let ?k = "buildCompilationKey r p tc"
  have "built_by B ?k bs" "validated_by B ?k bs (ad_validation art)" "vd_passed (ad_validation art)" "ad_keyDigest art = key_digest ?k"
    using assms(1) by (simp_all add: proven_def)
  then obtain src level b m d where src: "parseSource fpu (rq_source r) = Ret (Ok src)" "bs = cpu_encode (cpu_optimize level (specialize r src))"
      and b: "b \<in> B" "ad_keyDigest d = ad_keyDigest art" "bk_validate b m d bs = Ok (ad_validation art)"
    using built_program [OF _ assms(2)] unfolding validated_by_def by metis
  obtain q where q: "cpu_decode bs = Ret (Ok q)" "\<forall>x \<in> set (cpu_execute fpu q (key_seed d)). \<not> is_nan x"
    using validate_passed [OF validated [OF b(1,3)]] \<open>vd_passed (ad_validation art)\<close> by blast
  have "q = cpu_optimize level (specialize r src)" using decode_own assms(3) q(1) unfolding src(2) by blast
  moreover have "key_seed d = key_seed art" using b(2) by (simp add: key_seed_def)
  ultimately show thesis using that src(1) q by simp
qed

end

interpretation cpu: cpu_backends fpu "{cpu_backend fpu clock}" for fpu clock
  by unfold_locales (auto simp: cpu_backend_def settled_Ok)

lemma proven_mono: "proven B k art bs \<Longrightarrow> B \<subseteq> B' \<Longrightarrow> proven B' k art bs"
  unfolding proven_def built_by_def validated_by_def by blast

section \<open>A single caller\<close>

text \<open>The steps of one thread while no other acts.\<close>

fun drive :: "CompilationFabricConfig \<Rightarrow> Env \<Rightarrow> nat list \<Rightarrow> Thread \<Rightarrow> Impl \<Rightarrow> (Thread \<times> Impl) option" where
  "drive cfg env [] th i = Some (th, i)"
| "drive cfg env (m # ms) th i = Option.bind (thread_step cfg env m th i) (\<lambda>(th', i'). drive cfg env ms th' i')"

lemma run_drive:
  "wo_threads w = [th] \<Longrightarrow> run (wstep su) (map (LRun 0) ms) w =
     map_option (\<lambda>(th', i'). w\<lparr>wo_threads := [th'], wo_impl := i'\<rparr>) (drive (su_config su) (su_env su) ms th (wo_impl w))"
proof (induction ms arbitrary: th w)
  case Nil
  then show ?case by (cases w) simp
next
  case (Cons m ms)
  have "wstep su (LRun 0 m) w = map_option (\<lambda>(th', i'). w\<lparr>wo_threads := [th'], wo_impl := i'\<rparr>)
      (thread_step (su_config su) (su_env su) m th (wo_impl w))"
    using Cons.prems by (simp add: wstep_def)
  then show ?case using Cons.IH by (cases "thread_step (su_config su) (su_env su) m th (wo_impl w)") auto
qed

text \<open>The attempt of a caller that finds nothing in the cache and no other attempt.\<close>

lemma drive_alone:
  assumes "im_cache i = []" "im_inflight i = []" "im_heap i = []" "\<not> cf_persistenceEnabled cfg"
    and "owner_build env (im_backends i) (lo_request lv) (lo_plan lv) (lo_tc lv) (lo_key lv) m3 = BuildDone bt"
    and "map_of (im_backends i) (pl_backend (lo_plan lv)) = Some b"
    and v: "\<And>art. ad_keyDigest art = key_digest (lo_key lv) \<Longrightarrow> ad_contentDigest art = sha256 (bo_executable (bt_output bt)) \<Longrightarrow>
        \<exists>vd. bk_validate b m5 art (bo_executable (bt_output bt)) = Ok vd \<and> vd_passed vd"
  shows "\<exists>res lv' i'. drive cfg env [m1, m2, m3, m4, m5, m6, m7] (AtFast, lv) i = Some ((Returned (Ok res), lv'), i') \<and>
    lo_request lv' = lo_request lv \<and> rs_artifactBytes res = bo_executable (bt_output bt)"
proof -
  let ?n = "im_artifactCounter i + 1 + 1"
  define art where "art = new_artifact cfg (\<lambda>k. en_millis env (m5 + k)) (lo_request lv) (lo_plan lv) (lo_key lv) (fromU64 (im_artifactCounter i + 1)) ?n ?n (bt_output bt)"
  have "ad_keyDigest art = key_digest (lo_key lv)" "ad_contentDigest art = sha256 (bo_executable (bt_output bt))"
    by (simp_all add: art_def new_artifact_def)
  from v [OF this] obtain vd where "bk_validate b m5 art (bo_executable (bt_output bt)) = Ok vd" "vd_passed vd" by blast
  then have o: "owner_validate b m5 (lo_plan lv) art (bo_executable (bt_output bt)) = Inr (make_deployable (lo_plan lv) (art\<lparr>ad_validation := vd\<rparr>))"
    by (simp add: owner_validate_def)
  show ?thesis using assms(1-6) o
    by (simp add: thread_step_def fast_path_def join_flight_def validate_step_def to_name_def commit_def persist_artifact_def
        new_flight_def on_obs_def finish_flight_def fresh_result_def art_def Let_def)
qed

lemma cpu_plan:
  assumes "rq_backend r = [] \<or> rq_backend r = ''cpu''"
  shows "\<exists>p. plan cfg ok [''cpu''] ts n now r = Ok p \<and> pl_backend p = ''cpu'' \<and> td_vendor (pl_target p) = AV_CPU \<and> pl_request p = r"
  using assms by (auto simp: plan_def selectBackend_def planTarget_def is_cuda_def Let_def)

lemma cpu_answers:
  assumes "parseSource fpu (rq_source r) = Ret (Ok src)" "prog = cpu_optimize (rq_optimizeLevel r) (specialize r src)"
    and "length (cp_ops prog) \<le> 4096" "small (cpu_encode prog)"
    and nan: "\<And>seed. \<forall>x \<in> set (cpu_execute fpu (specialize r src) seed). \<not> is_nan x"
  shows "\<exists>out. cpu_compile fpu clock r = Ret (Ok out) \<and> bo_executable out = cpu_encode prog"
    and "ad_contentDigest d = sha256 (cpu_encode prog) \<Longrightarrow> \<exists>vd. cpu_validate fpu d (cpu_encode prog) = Ret (Ok vd) \<and> vd_passed vd"
proof -
  have l: "length (cp_ops prog) < 2 ^ 32" using assms(3) by simp
  have n: "cp_ops prog \<noteq> []" using parse_some_ops [OF assms(1)] by (simp add: assms(2) optimize_ops)
  have d: "cpu_decode (cpu_encode prog) = Ret (Ok prog)" using cpu_decodes [OF assms(4) l] assms(3) n by simp
  then show "\<exists>out. cpu_compile fpu clock r = Ret (Ok out) \<and> bo_executable out = cpu_encode prog"
    by (simp add: cpu_compile_def assms(1) assms(2) [symmetric] Let_def compile_output_def)
  have x: "\<forall>x \<in> set (cpu_execute fpu prog seed). \<not> is_nan x" for seed
    using nan [of seed] unfolding assms(2) no_nan_optimized .
  show "\<exists>vd. cpu_validate fpu d (cpu_encode prog) = Ret (Ok vd) \<and> vd_passed vd" if "ad_contentDigest d = sha256 (cpu_encode prog)"
    using x that by (simp add: cpu_validate_def d Let_def cpu_reference_def same_values_self)
qed

lemma serves_alone:
  assumes "fresh_world w" "im_backends (wo_impl w) = [(''cpu'', cpu_backend fpu clock)]"
    and "\<not> cf_persistenceEnabled (su_config su)" "rq_backend r = [] \<or> rq_backend r = ''cpu''" "\<not> rq_autotune r"
    and "parseSource fpu (rq_source r) = Ret (Ok src)" "prog = cpu_optimize (rq_optimizeLevel r) (specialize r src)"
    and "length (cp_ops prog) \<le> 4096" "small (cpu_encode prog)"
    and "\<forall>seed. \<forall>x \<in> set (cpu_execute fpu (specialize r src) seed). \<not> is_nan x"
  shows "\<exists>w' res lv. run (wstep su) (LCall n now r # map (LRun 0) [m1, m2, m3, m4, m5, m6, m7]) w = Some w' \<and>
    wo_threads w' = [(Returned (Ok res), lv)] \<and> lo_request lv = r \<and> rs_artifactBytes res = cpu_encode prog"
proof -
  let ?b = "cpu_backend fpu clock" and ?i = "wo_impl w"
  note nan = assms(10) [rule_format]
  have w: "wo_threads w = []" "im_cache ?i = []" "im_inflight ?i = []" "im_heap ?i = []"
    using assms(1) by (auto simp: fresh_world_def start_world_def)
  obtain p where p: "plan (su_config su) (su_cudaOk su) [''cpu''] (im_targets ?i) n now r = Ok p" "pl_backend p = ''cpu''"
      "td_vendor (pl_target p) = AV_CPU" "pl_request p = r"
    using cpu_plan [OF assms(4)] by blast
  obtain out where out: "cpu_compile fpu (clock (m3 + 1)) r = Ret (Ok out)" "bo_executable out = cpu_encode prog"
    using cpu_answers(1) [OF assms(6-9)] nan by blast
  let ?bt = "\<lparr>bt_output = out, bt_autotuned = False, bt_winner = [], bt_cands = []\<rparr>"
  have ne: "cpu_encode prog \<noteq> []" by (simp add: cpu_encode_def putU32BE_def)
  have build: "owner_build (su_env su) (im_backends ?i) r p tc k m3 = BuildDone ?bt" for tc k
    using p(2,3) assms(2,5) out ne by (simp add: owner_build_def cpu_backend_def cpu_checkCompatible_def Let_def)
  have v: "\<exists>vd. bk_validate ?b m5 art (cpu_encode prog) = Ok vd \<and> vd_passed vd" if "ad_contentDigest art = sha256 (cpu_encode prog)" for art
    using cpu_answers(2) [OF assms(6-9) _ that] nan by (auto simp: cpu_backend_def)
  obtain lv where lv: "start_compile (su_config su) (su_cudaOk su) n now r ?i = (AtFast, lv)" "lo_request lv = r" "lo_plan lv = p"
    using p(1) assms(2) by (simp add: start_compile_def Let_def)
  have "\<exists>res lv' i'. drive (su_config su) (su_env su) [m1, m2, m3, m4, m5, m6, m7] (AtFast, lv) ?i = Some ((Returned (Ok res), lv'), i') \<and>
      lo_request lv' = lo_request lv \<and> rs_artifactBytes res = bo_executable (bt_output ?bt)"
    by (rule drive_alone [where b = ?b]) (use w assms(2,3) lv(2,3) p(2) build v out(2) in simp_all)
  then show ?thesis using run_drive [of "w\<lparr>wo_threads := [(AtFast, lv)]\<rparr>" "(AtFast, lv)" su "[m1, m2, m3, m4, m5, m6, m7]"] w(1) lv(1,2) out(2)
    by (auto simp: wstep_def simp del: list.map)
qed

section \<open>A concrete fabric\<close>

text \<open>The program \<open>neg\<close> on an input of zeros.\<close>

definition neg64_request :: CompilationRequest where "neg64_request = rq_default\<lparr>rq_source := ''neg'', rq_datatype := DT_F64\<rparr>"

definition neg_world :: World where
  "neg_world = \<lparr>wo_impl = fabric_init (su_config demo_setup) False (cpu_backend zero_fpu (\<lambda>_ _. 0)) (cpu_backend zero_fpu (\<lambda>_ _. 0))
     tcd_default [] 0, wo_threads = [], wo_scans = []\<rparr>"

lemma neg_world_fresh: "fresh_world neg_world" "im_backends (wo_impl neg_world) = [(''cpu'', cpu_backend zero_fpu (\<lambda>_ _. 0))]"
  by (simp_all add: fresh_world_def start_world_def neg_world_def fabric_init_def smap_inv_def demo_setup_def)

lemma neg_no_nan: "\<forall>x \<in> set (cpu_execute zero_fpu (specialize neg64_request sample_program) seed). \<not> is_nan x"
  by (rule zero_execute) (simp add: specialize_def neg64_request_def rq_default_def sample_program_def Let_def)

lemma neg_prog:
  "let prog = cpu_optimize (rq_optimizeLevel neg64_request) (specialize neg64_request sample_program)
   in length (cp_ops prog) \<le> 4096 \<and> small (cpu_encode prog)"
proof -
  let ?p = "cpu_optimize (rq_optimizeLevel neg64_request) (specialize neg64_request sample_program)"
  have "length (cp_ops ?p) \<le> 1" using optimize_fewer [of "rq_optimizeLevel neg64_request" "specialize neg64_request sample_program"]
    by (simp add: sample_program_def)
  moreover from this obtain ops where "cp_ops ?p = ops" "ops = [] \<or> (\<exists>op. ops = [op])" by (auto simp: le_Suc_eq length_Suc_conv)
  moreover have "cp_name ?p = ''cf-kernel''" "cp_launchConfig ?p = []"
    by (simp_all add: cpu_optimize_def specialize_def Let_def sample_program_def neg64_request_def rq_default_def)
  ultimately have "small (cpu_encode ?p)"
    by (intro small_few) (auto simp: cpu_encode_def encode_op_def w_string_def w_f64_def w_u8_def)
  then show ?thesis using \<open>length (cp_ops ?p) \<le> 1\<close> by (simp add: Let_def)
qed

lemmas neg_facts = neg_world_fresh neg_no_nan neg_prog [unfolded Let_def]

lemma neg_simple: "\<not> cf_persistenceEnabled (su_config demo_setup)" "rq_backend neg64_request = []" "\<not> rq_autotune neg64_request" "rq_source neg64_request = ''neg''"
  by (simp_all add: demo_setup_def neg64_request_def rq_default_def)

section \<open>The theorems\<close>

text \<open>
  C1: In a runtime whose backends are the deterministic CPU backend, whatever the schedule of
  calls, threads and operations (recovery excepted), a result that compile returns computes
  what the source of the caller's own request says, even when it was compiled for another
  caller, at another optimisation level or as an autotuning variant: the source parses, the
  bytes load as a program, and that program yields, for every seed, the numbers that the
  caller's source yields when it is run as written, under the datatype, shape and launch
  specialisation of the caller's request. The smoke run of the loaded module meets no NaN and
  hashes exactly these numbers.
\<close>

theorem compile_correct:
  assumes "run (wstep su) ls w = Some w'" "fresh_world w" "\<forall>l \<in> set ls. \<not> recovers l"
    and "backends_of w ls \<subseteq> {cpu_backend fpu clock}"
    and "t < length (wo_threads w')" "wo_threads w' ! t = (Returned (Ok res), lv)" "small (rs_artifactBytes res)"
  shows "\<exists>src lm. parseSource fpu (rq_source (lo_request lv)) = Ret (Ok src) \<and>
    cpu_load (rs_artifact res) (rs_artifactBytes res) = Ret (Ok lm) \<and>
    (\<forall>seed. same_numbers (cpu_execute fpu (lm_prog lm) seed) (cpu_execute fpu (specialize (lo_request lv) src) seed)) \<and>
    (\<forall>x \<in> set (cpu_execute fpu (lm_prog lm) (lm_seed lm)). \<not> is_nan x) \<and>
    fst (cpu_executeSmoke fpu lm) = Ok (sha256 (memory_of (cpu_execute fpu (lm_prog lm) (lm_seed lm))))"
proof -
  have "thread_good (backends_of w ls) (Returned (Ok res), lv)" using returned_good [OF assms(1-3,5)] assms(6) by simp
  then have k: "pl_request (lo_plan lv) = lo_request lv"
    and "proven (backends_of w ls) (buildCompilationKey (lo_request lv) (lo_plan lv) (lo_tc lv)) (rs_artifact res) (rs_artifactBytes res)"
    by (auto simp: thread_good_def result_good_def Let_def)
  from proven_mono [OF this(2) assms(4)] obtain src level where src: "parseSource fpu (rq_source (lo_request lv)) = Ret (Ok src)"
    and prog: "cpu_decode (rs_artifactBytes res) = Ret (Ok (cpu_optimize level (specialize (lo_request lv) src)))"
      "\<forall>x \<in> set (cpu_execute fpu (cpu_optimize level (specialize (lo_request lv) src)) (key_seed (rs_artifact res))). \<not> is_nan x"
    using cpu.proven_program k assms(7) by blast
  show ?thesis using src prog(2) optimize_same
    by (simp add: cpu_load_def prog(1) cpu_executeSmoke_def Let_def)
qed

lemma compile_correct_witness:
  "\<exists>w' res lv src lm. run (wstep demo_setup) (LCall 1 0 neg64_request # map (LRun 0) [0, 1, 2, 3, 4, 5, 6]) neg_world = Some w' \<and>
     wo_threads w' = [(Returned (Ok res), lv)] \<and> parseSource zero_fpu ''neg'' = Ret (Ok src) \<and>
     cpu_load (rs_artifact res) (rs_artifactBytes res) = Ret (Ok lm) \<and>
     same_numbers (cpu_execute zero_fpu (lm_prog lm) 7) (cpu_execute zero_fpu (specialize neg64_request src) 7)"
proof -
  let ?ls = "LCall 1 0 neg64_request # map (LRun 0) [0, 1, 2, 3, 4, 5, 6]"
  obtain w' res lv where r: "run (wstep demo_setup) ?ls neg_world = Some w'" "wo_threads w' = [(Returned (Ok res), lv)]" "lo_request lv = neg64_request"
      "rs_artifactBytes res = cpu_encode (cpu_optimize (rq_optimizeLevel neg64_request) (specialize neg64_request sample_program))"
    using serves_alone [of neg_world zero_fpu "\<lambda>_ _. 0" demo_setup neg64_request, OF _ _ _ _ _ _ refl] neg_facts neg_simple sample_parse [of zero_fpu]
    by metis
  have n: "\<forall>l \<in> set ?ls. \<not> recovers l" and b: "backends_of neg_world ?ls \<subseteq> {cpu_backend zero_fpu (\<lambda>_ _. 0)}"
    using neg_world_fresh(2) by (auto simp: backends_of_def)
  have "0 < length (wo_threads w')" "wo_threads w' ! 0 = (Returned (Ok res), lv)" "small (rs_artifactBytes res)"
    using r(2,4) neg_prog by (simp_all add: Let_def)
  from compile_correct [OF r(1) neg_world_fresh(1) n b this] show ?thesis using r neg_simple(4) by metis
qed

text \<open>
  C8: A caller of a fresh runtime with the CPU backend is served: if its source parses, at most
  4096 operations are left after optimisation and the program yields no NaN, then its own
  seven steps end with a result, and the bytes in it are those of the specialised and
  optimised program. The clocks and the environment are arbitrary; persistence and autotuning are off.
\<close>

theorem compile_serves:
  assumes "fresh_world w" "im_backends (wo_impl w) = [(''cpu'', cpu_backend fpu clock)]"
    and "\<not> cf_persistenceEnabled (su_config su)" "rq_backend r = [] \<or> rq_backend r = ''cpu''" "\<not> rq_autotune r"
    and "parseSource fpu (rq_source r) = Ret (Ok src)" "prog = cpu_optimize (rq_optimizeLevel r) (specialize r src)"
    and "length (cp_ops prog) \<le> 4096" "small (cpu_encode prog)"
    and "\<forall>seed. \<forall>x \<in> set (cpu_execute fpu (specialize r src) seed). \<not> is_nan x"
  shows "\<exists>w' res lv. run (wstep su) (LCall n now r # map (LRun 0) [m1, m2, m3, m4, m5, m6, m7]) w = Some w' \<and>
    wo_threads w' = [(Returned (Ok res), lv)] \<and> lo_request lv = r \<and> rs_artifactBytes res = cpu_encode prog"
  using assms by (rule serves_alone)

lemma compile_serves_witness:
  "\<exists>w' res lv. run (wstep demo_setup) (LCall 1 0 neg64_request # map (LRun 0) [0, 1, 2, 3, 4, 5, 6]) neg_world = Some w' \<and>
     wo_threads w' = [(Returned (Ok res), lv)] \<and> lo_request lv = neg64_request"
  using compile_serves [of neg_world zero_fpu "\<lambda>_ _. 0" demo_setup neg64_request, OF _ _ _ _ _ _ refl] neg_facts neg_simple sample_parse [of zero_fpu]
  by metis

end
