(* ===== verification/CF_Generations.thy ===== *)
theory CF_Generations
  imports CF_Interleaving
begin

text \<open>
  Generations: an attempt remembers the generations under which it was opened and may
  publish only while they are current, so that what was compiled from before an
  invalidation never becomes reusable after it.
\<close>

section \<open>What a step does to the generations\<close>

fun invalidates :: "Label \<Rightarrow> bool" where
  "invalidates (LOp (OpInvalidateKey _ _)) = True"
| "invalidates (LOp (OpInvalidateId _)) = True"
| "invalidates (LOp (OpInvalidateOperation _)) = True"
| "invalidates (LOp (OpInvalidateCompiler _)) = True"
| "invalidates (LOp (OpInvalidateDependency _)) = True"
| "invalidates _ = False"

definition gen_delta :: "Label \<Rightarrow> u64" where
  "gen_delta l = (if invalidates l then 1 else 0)"

definition tool_delta :: "Label \<Rightarrow> u64" where
  "tool_delta l = (case l of LOp (OpInvalidateCompiler _) \<Rightarrow> 1 | _ \<Rightarrow> 0)"

definition anchors :: "Impl \<Rightarrow> (Id128 \<times> u64 \<times> u64) list" where
  "anchors i = map (\<lambda>e. (fe_attempt e, fe_baseCacheGen e, fe_baseToolchainGen e)) (im_heap i)"

lemma length_anchors [simp]: "length (anchors i) = length (im_heap i)"
  by (simp add: anchors_def)

lemma nth_anchors: "h < length (im_heap i) \<Longrightarrow>
  anchors i ! h = (fe_attempt (im_heap i ! h), fe_baseCacheGen (im_heap i ! h), fe_baseToolchainGen (im_heap i ! h))"
  by (simp add: anchors_def)

lemma anchors_update:
  "fe_attempt e = fe_attempt (im_heap i ! h) \<Longrightarrow> fe_baseCacheGen e = fe_baseCacheGen (im_heap i ! h) \<Longrightarrow>
   fe_baseToolchainGen e = fe_baseToolchainGen (im_heap i ! h) \<Longrightarrow> anchors (i\<lparr>im_heap := (im_heap i)[h := e]\<rparr>) = anchors i"
  by (cases "h < length (im_heap i)") (simp_all add: anchors_def map_update list_update_same_conv list_update_beyond)

lemma anchors_obs [simp]: "anchors (on_obs f i) = anchors i"
  by (simp add: anchors_def)

lemma anchors_fail [simp]: "anchors (fail_flight h c msg f i) = anchors i"
  by (simp add: fail_flight_def anchors_update)

lemma anchors_finish [simp]: "anchors (finish_flight h r i) = anchors i"
  by (simp add: finish_flight_def anchors_update)

lemma anchors_same: "im_heap i' = im_heap i \<Longrightarrow> anchors i' = anchors i"
  by (simp add: anchors_def)

lemma commit_anchors: "commit cfg env m h p k art g bs i = Some (ok, i') \<Longrightarrow> anchors i' = anchors i"
  by (auto simp: commit_def Let_def split: if_splits dest!: persist_simps intro: anchors_same)

lemma join_anchors:
  "join_flight k i = (r, i') \<Longrightarrow> im_cacheGen i' = im_cacheGen i \<and> im_toolchainGen i' = im_toolchainGen i \<and> im_cache i' = im_cache i \<and>
   (case r of Inl h \<Rightarrow> anchors i' = anchors i \<and> im_artifactCounter i' = im_artifactCounter i
    | Inr h \<Rightarrow> h = length (im_heap i) \<and> im_artifactCounter i' = im_artifactCounter i + 1 \<and>
        anchors i' = anchors i @ [(fromU64 (im_artifactCounter i + 1), im_cacheGen i, im_toolchainGen i)])"
  by (auto simp: join_flight_def Let_def anchors_update split: option.splits if_splits)
    (simp_all add: anchors_def new_flight_def)

text \<open>What a step of a thread keeps: the anchors, which only opening an attempt extends, and the generations.\<close>

definition opens :: "Thread \<Rightarrow> Thread \<Rightarrow> bool" where
  "opens th th' \<longleftrightarrow> fst th = AtJoin \<and> fst th' = AtBuild"

lemma thread_step_anchors:
  assumes "thread_step cfg env m th i = Some (th', i')"
  shows "im_cacheGen i' = im_cacheGen i \<and> im_toolchainGen i' = im_toolchainGen i \<and>
    (if opens th th' then lo_h (snd th') = length (im_heap i) \<and> im_artifactCounter i' = im_artifactCounter i + 1 \<and>
        anchors i' = anchors i @ [(fromU64 (im_artifactCounter i + 1), im_cacheGen i, im_toolchainGen i)]
     else anchors i' = anchors i \<and> im_artifactCounter i' \<in> {im_artifactCounter i, im_artifactCounter i + 1})"
proof (cases th)
  case (Pair pc lv)
  show ?thesis
  proof (cases pc)
    case AtFast
    then show ?thesis using assms Pair
      by (auto simp: thread_step_def opens_def dest!: fast_path_effect intro: anchors_same)
  next
    case AtJoin
    obtain r j where "join_flight (lo_key lv) i = (r, j)" by fastforce
    then show ?thesis using assms Pair AtJoin join_anchors [of "lo_key lv" i r j]
      by (cases r) (auto simp: thread_step_def opens_def)
  next
    case AtWait
    then show ?thesis using assms Pair by (auto simp: thread_step_def opens_def wake_def Let_def split: if_splits)
  next
    case AtBuild
    then show ?thesis using assms Pair by (auto simp: thread_step_def opens_def split: BuildResult.splits)
  next
    case AtCommit
    then show ?thesis using assms Pair
      by (auto simp: thread_step_def opens_def dest: commit_anchors commit_effect)
  qed (use assms Pair in \<open>auto simp: thread_step_def opens_def intro: anchors_same\<close>)
qed

lemma thread_step_grows:
  assumes "thread_step cfg env m th i = Some (th', i')"
  shows "length (im_heap i) \<le> length (im_heap i')" "h < length (im_heap i) \<Longrightarrow> anchors i' ! h = anchors i ! h"
  unfolding length_anchors [symmetric] using thread_step_anchors [OF assms]
  by (auto simp: nth_append simp del: length_anchors split: if_splits)

section \<open>Counting invalidations\<close>

lemma api_op_gens:
  assumes "api_op cfg op i = Some i'"
  shows "im_cacheGen i' = im_cacheGen i + gen_delta (LOp op) \<and> im_toolchainGen i' = im_toolchainGen i + tool_delta (LOp op)"
  using assms
  by (cases op) (auto simp: op_defs gen_delta_def tool_delta_def ebind_def split: option.splits eff.splits if_splits)

lemma wstep_gens:
  assumes "wstep su l w = Some w'"
  shows "im_cacheGen (wo_impl w') = im_cacheGen (wo_impl w) + gen_delta l"
    "im_toolchainGen (wo_impl w') = im_toolchainGen (wo_impl w) + tool_delta l"
proof -
  have "im_cacheGen (wo_impl w') = im_cacheGen (wo_impl w) + gen_delta l \<and> im_toolchainGen (wo_impl w') = im_toolchainGen (wo_impl w) + tool_delta l"
  proof (cases l)
    case (LOp op)
    then show ?thesis using assms by (auto elim!: wstep_LOp dest!: api_op_gens)
  qed (use assms in \<open>auto simp: wstep_def gen_delta_def tool_delta_def dest!: thread_step_anchors split: if_splits\<close>)
  then show "im_cacheGen (wo_impl w') = im_cacheGen (wo_impl w) + gen_delta l"
    "im_toolchainGen (wo_impl w') = im_toolchainGen (wo_impl w) + tool_delta l" by simp_all
qed

interpretation cache_gen: step_counter "wstep su" "\<lambda>w. im_cacheGen (wo_impl w)" gen_delta for su
  by unfold_locales (rule wstep_gens)

interpretation tool_gen: step_counter "wstep su" "\<lambda>w. im_toolchainGen (wo_impl w)" tool_delta for su
  by unfold_locales (rule wstep_gens)

definition invalidations :: "Label list \<Rightarrow> nat" where
  "invalidations ls = length (filter invalidates ls)"

lemma sum_gen_delta: "sum_list (map gen_delta ls) = of_nat (invalidations ls)"
  by (induction ls) (auto simp: gen_delta_def invalidations_def)

lemma no_tool_delta: "invalidations ls = 0 \<Longrightarrow> sum_list (map tool_delta ls) = 0"
  by (induction ls) (auto simp: tool_delta_def invalidations_def split: Label.splits ApiOp.splits if_splits)

lemma of_nat_u64_eq_0: "n < 2 ^ 64 \<Longrightarrow> (of_nat n :: u64) = 0 \<longleftrightarrow> n = 0"
  using dvd_imp_le [of "2 ^ 64" n] by (auto simp: word_of_nat_eq_0_iff)

section \<open>No stale publication\<close>

definition opened :: "nat \<Rightarrow> nat \<Rightarrow> CompilationKey \<Rightarrow> (Id128 \<times> u64 \<times> u64) \<Rightarrow> World \<Rightarrow> bool" where
  "opened t h k a w \<longleftrightarrow> t < length (wo_threads w) \<and> h < length (im_heap (wo_impl w)) \<and> anchors (wo_impl w) ! h = a \<and>
     ((\<exists>r. fst (wo_threads w ! t) = Returned r) \<or>
      owns (fst (wo_threads w ! t)) \<and> lo_h (snd (wo_threads w ! t)) = h \<and> lo_key (snd (wo_threads w ! t)) = k)"

lemma opened_step:
  assumes inv: "opened t h k a w" and step: "wstep su l w = Some w'"
  shows "opened t h k a w'"
proof (cases l)
  case (LCall n now r)
  then show ?thesis using inv step by (auto simp: opened_def wstep_def nth_append)
next
  case (LRun s m)
  then obtain th' i' where s: "s < length (wo_threads w)" and w': "w' = w\<lparr>wo_threads := (wo_threads w)[s := th'], wo_impl := i'\<rparr>"
    and th': "thread_step (su_config su) (su_env su) m (wo_threads w ! s) (wo_impl w) = Some (th', i')"
    using step by (auto simp: wstep_def split: if_splits)
  note heap = thread_step_grows [OF th']
  obtain ef where ef: "effect_of ef (wo_threads w ! s) th' (wo_impl w) i'" using thread_step_effect [OF th'] by blast
  have "\<not> (\<exists>r. fst (wo_threads w ! s) = Returned r)"
    using th' by (cases "fst (wo_threads w ! s)") (auto simp: thread_step_def)
  then have "(\<exists>r. fst th' = Returned r) \<or> owns (fst th') \<and> lo_h (snd th') = h \<and> lo_key (snd th') = k" if "s = t"
    using inv ef that by (auto simp: opened_def effect_of_def split: Effect.splits)
  then show ?thesis using inv heap s unfolding w' opened_def by (cases "s = t") (auto intro: order_less_le_trans)
next
  case (LOp op)
  obtain i' sc where o: "api_op (su_config su) op (wo_impl w) = Some i'" and w': "w' = w\<lparr>wo_impl := i', wo_scans := sc\<rparr>"
    using wstep_LOp step LOp by blast
  show ?thesis using inv api_op_flights(1) [OF o] anchors_same [OF api_op_flights(1) [OF o]] w' by (simp add: opened_def)
qed

interpretation opened: step_invariant "wstep su" "opened t h k a" for su t h k a
  by unfold_locales (rule opened_step)

lemma commit_stale_iff:
  assumes "commit cfg env m h p k art g bs i = Some (ok, i')"
  shows "(if fe_baseCacheGen (im_heap i ! h) = im_cacheGen i \<and> fe_baseToolchainGen (im_heap i ! h) = im_toolchainGen i
    then ok \<and> map_of (im_cache i') k = Some \<lparr>ce_key = k, ce_descriptor = art, ce_bytes = bs, ce_baseCacheGen = im_cacheGen i,
        ce_baseToolchainGen = im_toolchainGen i, ce_inCache = True\<rparr>
    else \<not> ok \<and> im_cache i' = im_cache i)"
  using assms by (auto simp: commit_def Let_def smap_get_put split: if_splits dest!: persist_simps)

text \<open>
  C5: A thread opens an attempt, other threads and operations run for as long as they like, then
  it reaches the commit. If no invalidation happened in between, its artifact is published
  under its key with the current generations; if one to 2^64 - 1 did, whatever they
  invalidated, the call returns a stale generation error and the cache is unchanged.
\<close>

theorem no_stale_publish:
  assumes "wstep su (LRun t m0) w0 = Some w1" "fst (wo_threads w0 ! t) = AtJoin" "fst (wo_threads w1 ! t) = AtBuild"
    and "run (wstep su) ls w1 = Some w2" "wo_threads w2 ! t = (AtCommit, lv)" "wstep su (LRun t m) w2 = Some w3"
    and "invalidations ls < 2 ^ 64"
  shows "if invalidations ls = 0
    then (\<exists>res. wo_threads w3 ! t = (AtFinish res, lv) \<and> rs_artifact res = lo_art lv) \<and>
      map_of (im_cache (wo_impl w3)) (lo_key lv) = Some \<lparr>ce_key = lo_key lv, ce_descriptor = lo_art lv,
        ce_bytes = bo_executable (bt_output (lo_built lv)), ce_baseCacheGen = im_cacheGen (wo_impl w3),
        ce_baseToolchainGen = im_toolchainGen (wo_impl w3), ce_inCache = True\<rparr>
    else wo_threads w3 ! t = (Returned (Err ErrStaleGeneration stale_message), lv) \<and> im_cache (wo_impl w3) = im_cache (wo_impl w2)"
proof -
  obtain th1 i1 where t: "t < length (wo_threads w0)" and w1: "w1 = w0\<lparr>wo_threads := (wo_threads w0)[t := th1], wo_impl := i1\<rparr>"
    and s1: "thread_step (su_config su) (su_env su) m0 (wo_threads w0 ! t) (wo_impl w0) = Some (th1, i1)"
    using assms(1) by (auto simp: wstep_def split: if_splits)
  have "opens (wo_threads w0 ! t) th1" using assms(2,3) w1 t by (simp add: opens_def)
  then have a: "anchors i1 = anchors (wo_impl w0) @ [(fromU64 (im_artifactCounter (wo_impl w0) + 1), im_cacheGen i1, im_toolchainGen i1)]"
    "lo_h (snd th1) = length (im_heap (wo_impl w0))" using thread_step_anchors [OF s1] by simp_all
  have "opened t (lo_h (snd th1)) (lo_key (snd th1)) (anchors i1 ! lo_h (snd th1)) w1"
    using a assms(3) t w1 length_anchors [of i1] unfolding opened_def by (auto simp del: length_anchors) (simp_all add: a(1))
  from opened.inv_run [OF this assms(4)] have o: "lo_h lv < length (im_heap (wo_impl w2))"
      "anchors (wo_impl w2) ! lo_h lv = anchors i1 ! length (im_heap (wo_impl w0))"
    using assms(5) a(2) by (auto simp: opened_def)
  let ?e = "im_heap (wo_impl w2) ! lo_h lv"
  have base: "fe_baseCacheGen ?e = im_cacheGen i1" "fe_baseToolchainGen ?e = im_toolchainGen i1"
    using o nth_anchors [OF o(1)] a(1) by (simp_all add: nth_append)
  have gens: "im_cacheGen (wo_impl w2) = im_cacheGen i1 + of_nat (invalidations ls)"
    "im_toolchainGen (wo_impl w2) = im_toolchainGen i1 + sum_list (map tool_delta ls)"
    using cache_gen.val_run [OF assms(4)] tool_gen.val_run [OF assms(4)] w1 by (simp_all add: sum_gen_delta)
  have fresh: "fe_baseCacheGen ?e = im_cacheGen (wo_impl w2) \<and> fe_baseToolchainGen ?e = im_toolchainGen (wo_impl w2) \<longleftrightarrow> invalidations ls = 0"
    using base gens no_tool_delta of_nat_u64_eq_0 [OF assms(7)] by auto
  obtain ok i3 where c: "commit (su_config su) (su_env su) m (lo_h lv) (lo_plan lv) (lo_key lv) (lo_art lv) (lo_gen lv)
        (bo_executable (bt_output (lo_built lv))) (wo_impl w2) = Some (ok, i3)" and "t < length (wo_threads w2)"
      and w3: "wo_impl w3 = i3" "wo_threads w3 ! t = (if ok
        then (AtFinish (fresh_result (lo_request lv) (lo_plan lv) (lo_key lv) (fe_attempt ?e) (lo_art lv)
                      (lo_gen lv) (lo_built lv) (lo_compileMs lv) (lo_validateMs lv)), lv)
        else (Returned (Err ErrStaleGeneration stale_message), lv))"
    using assms(5,6) by (auto simp: wstep_def thread_step_def split: if_splits)
  then show ?thesis using commit_stale_iff [OF c] commit_effect [OF c] fresh by (auto simp: fresh_result_def split: if_splits)
qed

section \<open>What an invalidation cuts off\<close>

text \<open>Attempts are numbered by the artifact counter; \<open>c\<close> is the counter, \<open>g\<close> the generation of an invalidation.\<close>

definition base_inv :: "World \<Rightarrow> bool" where
  "base_inv w \<longleftrightarrow> (\<forall>h < length (im_heap (wo_impl w)). fst (snd (anchors (wo_impl w) ! h)) \<le> im_cacheGen (wo_impl w)) \<and>
     (\<forall>th \<in> set (wo_threads w). owns (fst th) \<longrightarrow> lo_h (snd th) < length (im_heap (wo_impl w)) \<and>
        (fst th = AtCommit \<longrightarrow> pd_attemptId (ad_provenance (lo_art (snd th))) = fst (anchors (wo_impl w) ! lo_h (snd th))))"

definition attempt_after :: "u64 \<Rightarrow> Id128 \<Rightarrow> bool" where
  "attempt_after c a \<longleftrightarrow> (\<exists>n. a = fromU64 n \<and> c < n)"

definition cache_after :: "u64 \<Rightarrow> CompilationKey \<Rightarrow> (CompilationKey \<times> CacheEntry) list \<Rightarrow> bool" where
  "cache_after c k m \<longleftrightarrow> (\<forall>e. map_of m k = Some e \<and> ad_state (ce_descriptor e) = ''Deployable'' \<longrightarrow>
     attempt_after c (pd_attemptId (ad_provenance (ce_descriptor e))))"

definition since_inv :: "u64 \<Rightarrow> u64 \<Rightarrow> CompilationKey \<Rightarrow> World \<Rightarrow> bool" where
  "since_inv c g k w \<longleftrightarrow> base_inv w \<and> c \<le> im_artifactCounter (wo_impl w) \<and> g \<le> im_cacheGen (wo_impl w) \<and>
     cache_after c k (im_cache (wo_impl w)) \<and>
     (\<forall>h < length (im_heap (wo_impl w)). g \<le> fst (snd (anchors (wo_impl w) ! h)) \<longrightarrow> attempt_after c (fst (anchors (wo_impl w) ! h)))"

text \<open>The counters of one step, while they do not wrap.\<close>

definition room :: "nat \<Rightarrow> World \<Rightarrow> bool" where
  "room n w \<longleftrightarrow> unat (im_artifactCounter (wo_impl w)) + n < 2 ^ 64 \<and> unat (im_cacheGen (wo_impl w)) + n < 2 ^ 64"

lemma u64_suc: "unat (x :: u64) + Suc n < 2 ^ 64 \<Longrightarrow> unat (x + 1) = unat x + 1 \<and> x < x + 1 \<and> x \<le> x + 1"
  by (simp add: word_less_nat_alt word_le_nat_alt unat_word_ariths)

lemma wstep_counter:
  assumes "wstep su l w = Some w'"
  shows "im_artifactCounter (wo_impl w') \<in> {im_artifactCounter (wo_impl w), im_artifactCounter (wo_impl w) + 1}"
proof (cases l)
  case (LRun t m)
  then show ?thesis using assms by (auto simp: wstep_def dest!: thread_step_anchors split: if_splits)
next
  case (LOp op)
  then show ?thesis using assms by (auto dest: api_op_flights(3) elim!: wstep_LOp)
qed (use assms in \<open>auto simp: wstep_def\<close>)

lemma room_step:
  assumes "wstep su l w = Some w'" "room (Suc n) w"
  shows "room n w'" "im_artifactCounter (wo_impl w) \<le> im_artifactCounter (wo_impl w')" "im_cacheGen (wo_impl w) \<le> im_cacheGen (wo_impl w')"
  using wstep_counter [OF assms(1)] wstep_gens(1) [OF assms(1)] assms(2)
    u64_suc [of "im_artifactCounter (wo_impl w)" n] u64_suc [of "im_cacheGen (wo_impl w)" n]
  by (auto simp: room_def gen_delta_def)

lemma validate_step_attempt:
  "fst (validate_step cfg env m lv i) = AtCommit \<Longrightarrow>
   pd_attemptId (ad_provenance (lo_art (snd (validate_step cfg env m lv i)))) = fe_attempt (im_heap i ! lo_h lv)"
  by (auto simp: validate_step_def owner_validate_def make_deployable_def new_artifact_def Let_def
      split: option.splits result.splits if_splits)

lemma thread_step_attempt:
  assumes "thread_step cfg env m th i = Some (th', i')" "fst th' = AtCommit"
  shows "fst th = AtGen \<and> i' = i \<and> pd_attemptId (ad_provenance (lo_art (snd th'))) = fe_attempt (im_heap i ! lo_h (snd th)) \<and> lo_h (snd th') = lo_h (snd th)"
proof (cases th)
  case (Pair pc lv)
  show ?thesis
    using assms Pair validate_step_attempt [of cfg env m lv i] validate_step_effect(2) [of cfg env m lv i]
    by (cases pc) (auto simp: thread_step_def to_name_def split: option.splits prod.splits sum.splits BuildResult.splits if_splits)
qed

lemma base_inv_step:
  assumes inv: "base_inv w" and step: "wstep su l w = Some w'" and room: "room (Suc n) w"
  shows "base_inv w'"
proof (cases l)
  case (LCall n now r)
  then show ?thesis using inv step start_compile_idle by (auto simp: base_inv_def wstep_def)
next
  case (LOp op)
  obtain i' sc where o: "api_op (su_config su) op (wo_impl w) = Some i'" and w': "w' = w\<lparr>wo_impl := i', wo_scans := sc\<rparr>"
    using wstep_LOp step LOp by blast
  then show ?thesis using inv room_step(3) [OF step room] api_op_flights [OF o] anchors_same [OF api_op_flights(1) [OF o]]
    by (fastforce simp: base_inv_def)
next
  case (LRun s m)
  then obtain th' i' where s: "s < length (wo_threads w)" and w': "w' = w\<lparr>wo_threads := (wo_threads w)[s := th'], wo_impl := i'\<rparr>"
    and th': "thread_step (su_config su) (su_env su) m (wo_threads w ! s) (wo_impl w) = Some (th', i')"
    using step by (auto simp: wstep_def split: if_splits)
  note a = thread_step_anchors [OF th'] and grow = thread_step_grows [OF th']
  have old: "owns (fst (wo_threads w ! s)) \<Longrightarrow> lo_h (snd (wo_threads w ! s)) < length (im_heap (wo_impl w))"
    using inv s by (auto simp: base_inv_def)
  have bases: "fst (snd (anchors i' ! h)) \<le> im_cacheGen i'" if "h < length (im_heap i')" for h
    using that a inv length_anchors [of i'] by (cases "opens (wo_threads w ! s) th'") (auto simp: base_inv_def nth_append less_Suc_eq)
  have h: "lo_h (snd th') < length (im_heap i')" if o: "owns (fst th')"
  proof (cases "opens (wo_threads w ! s) th'")
    case True
    then show ?thesis using a length_anchors [of i'] by (auto simp del: length_anchors) simp
  next
    case False
    obtain ef where "effect_of ef (wo_threads w ! s) th' (wo_impl w) i'" using thread_step_effect [OF th'] by blast
    then have "owns (fst (wo_threads w ! s)) \<and> lo_h (snd th') = lo_h (snd (wo_threads w ! s))"
      using False o by (auto simp: effect_of_def opens_def split: Effect.splits)
    then show ?thesis using old grow(1) by fastforce
  qed
  have at: "pd_attemptId (ad_provenance (lo_art (snd th'))) = fst (anchors i' ! lo_h (snd th'))" if "fst th' = AtCommit"
    using thread_step_attempt [OF th' that] old by (auto simp: nth_anchors)
  have rest: "lo_h (snd th) < length (im_heap i') \<and> (fst th = AtCommit \<longrightarrow>
      pd_attemptId (ad_provenance (lo_art (snd th))) = fst (anchors i' ! lo_h (snd th)))" if "th \<in> set (wo_threads w)" "owns (fst th)" for th
    using inv that grow by (fastforce simp: base_inv_def)
  show ?thesis using bases h at rest unfolding w' base_inv_def
    by (auto dest!: set_update_subset_insert [THEN subsetD])
qed

text \<open>The cache: only a commit makes an entry reusable, and it takes the artifact from a current attempt.\<close>

lemma cache_after_put_other: "k' \<noteq> k \<Longrightarrow> cache_after c k (smap_put k' e m) = cache_after c k m"
  by (simp add: cache_after_def smap_get_put)

lemma cache_after_put:
  assumes "cache_after c k m" "k' = k \<Longrightarrow> ad_state (ce_descriptor e) = ''Deployable'' \<Longrightarrow>
    attempt_after c (pd_attemptId (ad_provenance (ce_descriptor e)))"
  shows "cache_after c k (smap_put k' e m)"
  using assms by (cases "k' = k") (auto simp: cache_after_def smap_get_put)

lemma cache_after_map:
  assumes "cache_after c k (im_cache i)" "\<And>e. f e = e \<or> ad_state (ce_descriptor (f e)) \<noteq> ''Deployable''"
  shows "cache_after c k (im_cache (map_entries f i))"
proof -
  have "map_of (im_cache (map_entries f i)) k = map_option f (map_of (im_cache i) k)"
    by (simp add: map_entries_def map_of_map)
  moreover have "attempt_after c (pd_attemptId (ad_provenance (ce_descriptor (f e))))"
    if "map_of (im_cache i) k = Some e" "ad_state (ce_descriptor (f e)) = ''Deployable''" for e
    using assms(2) [of e] assms(1) that by (auto simp: cache_after_def)
  ultimately show ?thesis unfolding cache_after_def by auto
qed

lemma marked_not_deployable [simp]: "ad_state (ce_descriptor (invalidate_entry e)) = ''Invalidated''"
  "ad_state (ce_descriptor (supersede_entry e)) = ''Superseded''"
  by (simp_all add: invalidate_entry_def supersede_entry_def)

lemma cache_after_op:
  assumes "api_op cfg op i = Some i'" "\<not> is_recover_op op" "cache_after c k (im_cache i)"
  shows "cache_after c k (im_cache i')"
  using assms
  by (cases op) (auto simp: op_defs split: option.splits if_splits eff.splits intro!: cache_after_put cache_after_map)

lemma invalidated_cache_after: "cache_after c k (im_cache (invalidateByKey now k i))"
  by (auto simp: invalidateByKey_def cache_after_def smap_get_put split: option.splits)

lemma fast_path_cache_after:
  assumes "fast_path cfg now r p k' i = Some (hit, i')" "cache_after c k (im_cache i)"
  shows "cache_after c k (im_cache i') \<and> (\<forall>res. k' = k \<and> hit = Some res \<longrightarrow> attempt_after c (rs_attemptId res))"
  using assms by (auto simp: fast_path_def Let_def cache_after_def smap_get_put reused_result_def split: option.splits if_splits)

lemma commit_cache_after:
  assumes "commit cfg env m h p k' art g bs i = Some (ok, i')" "cache_after c k (im_cache i)"
    and "fe_baseCacheGen (im_heap i ! h) = im_cacheGen i \<Longrightarrow> attempt_after c (pd_attemptId (ad_provenance art))"
  shows "cache_after c k (im_cache i')"
  using assms by (auto simp: commit_def Let_def split: if_splits dest!: persist_simps intro!: cache_after_put)

lemma thread_step_cache:
  assumes "thread_step cfg env m th i = Some (th', i')"
  shows "im_cache i' = im_cache i \<or> fst th = AtFast \<or> fst th = AtCommit"
  using assms join_anchors [of "lo_key (snd th)" i]
  by (cases th; cases "fst th") (auto simp: thread_step_def wake_def Let_def split: prod.splits sum.splits BuildResult.splits if_splits)

lemma since_inv_step:
  assumes inv: "since_inv c g k w" and step: "wstep su l w = Some w'" and room: "room (Suc n) w"
    and l: "\<And>op. l = LOp op \<Longrightarrow> \<not> is_recover_op op"
  shows "since_inv c g k w'"
proof -
  have base: "base_inv w'" using base_inv_step [OF _ step room] inv by (simp add: since_inv_def)
  have c: "c \<le> im_artifactCounter (wo_impl w)" and g: "g \<le> im_cacheGen (wo_impl w)"
    and cg: "c \<le> im_artifactCounter (wo_impl w')" "g \<le> im_cacheGen (wo_impl w')"
    using inv room_step [OF step room] by (auto simp: since_inv_def)
  have new: "attempt_after c (fromU64 (im_artifactCounter (wo_impl w) + 1))"
    using c u64_suc [of "im_artifactCounter (wo_impl w)" n] room by (auto simp: attempt_after_def room_def)
  have hs: "attempt_after c (fst (anchors (wo_impl w) ! h))"
    if "h < length (im_heap (wo_impl w))" "g \<le> fst (snd (anchors (wo_impl w) ! h))" for h
    using inv that by (simp add: since_inv_def)
  have "cache_after c k (im_cache (wo_impl w')) \<and>
     (\<forall>h < length (im_heap (wo_impl w')). g \<le> fst (snd (anchors (wo_impl w') ! h)) \<longrightarrow> attempt_after c (fst (anchors (wo_impl w') ! h)))"
  proof (cases l)
    case (LCall n now r)
    then show ?thesis using inv step by (auto simp: wstep_def since_inv_def)
  next
    case (LOp op)
    obtain i' sc where o: "api_op (su_config su) op (wo_impl w) = Some i'" and w': "w' = w\<lparr>wo_impl := i', wo_scans := sc\<rparr>"
      using wstep_LOp step LOp by blast
    then show ?thesis using inv hs cache_after_op [OF o l] LOp anchors_same [OF api_op_flights(1) [OF o]] api_op_flights(1) [OF o]
      by (simp add: since_inv_def)
  next
    case (LRun s m)
    then obtain th' i' where s: "s < length (wo_threads w)" and w': "w' = w\<lparr>wo_threads := (wo_threads w)[s := th'], wo_impl := i'\<rparr>"
      and th': "thread_step (su_config su) (su_env su) m (wo_threads w ! s) (wo_impl w) = Some (th', i')"
      using step by (auto simp: wstep_def split: if_splits)
    note a = thread_step_anchors [OF th']
    have "attempt_after c (fst (anchors i' ! h))" if "h < length (im_heap i')" "g \<le> fst (snd (anchors i' ! h))" for h
      using that a hs new length_anchors [of i']
      by (cases "opens (wo_threads w ! s) th'") (auto simp: nth_append less_Suc_eq split: if_splits)
    moreover have "cache_after c k (im_cache i')"
    proof -
      obtain pc lv where th: "wo_threads w ! s = (pc, lv)" by fastforce
      consider "im_cache i' = im_cache (wo_impl w)" | "pc = AtFast" | "pc = AtCommit" using thread_step_cache [OF th'] th by auto
      then show ?thesis
      proof cases
        case 1
        then show ?thesis using inv by (simp add: since_inv_def)
      next
        case 2
        then show ?thesis using th' th inv fast_path_cache_after [of "su_config su" _ _ _ "lo_key lv" "wo_impl w" _ i' c k]
          by (auto simp: thread_step_def since_inv_def)
      next
        case 3
        have "owns (fst (wo_threads w ! s))" "wo_threads w ! s \<in> set (wo_threads w)" using 3 th nth_mem [OF s] by simp_all
        then have lv: "lo_h lv < length (im_heap (wo_impl w))"
          "pd_attemptId (ad_provenance (lo_art lv)) = fst (anchors (wo_impl w) ! lo_h lv)"
          using inv th 3 unfolding since_inv_def base_inv_def by fastforce+
        then show ?thesis using th' th 3 hs [of "lo_h lv"] g inv nth_anchors [OF lv(1)]
          by (auto simp: thread_step_def since_inv_def intro: commit_cache_after)
      qed
    qed
    ultimately show ?thesis using w' by simp
  qed
  then show ?thesis using base cg by (simp add: since_inv_def)
qed

lemma base_inv_run: "run (wstep su) ls w = Some w' \<Longrightarrow> base_inv w \<Longrightarrow> room (n + length ls) w \<Longrightarrow> base_inv w' \<and> room n w'"
  by (induction ls arbitrary: w) (auto simp: bind_eq_Some_conv dest: base_inv_step room_step)

lemma since_inv_run:
  "run (wstep su) ls w = Some w' \<Longrightarrow> since_inv c g k w \<Longrightarrow> room (length ls) w \<Longrightarrow> \<forall>l \<in> set ls. \<not> recovers l \<Longrightarrow> since_inv c g k w'"
proof (induction ls arbitrary: w)
  case (Cons l ls)
  then obtain w1 where w1: "wstep su l w = Some w1" "run (wstep su) ls w1 = Some w'" by (auto simp: bind_eq_Some_conv)
  moreover have "\<not> is_recover_op op" if "l = LOp op" for op using Cons.prems that by simp
  ultimately have "since_inv c g k w1" using Cons.prems since_inv_step [of c g k w su l w1 "length ls"] by simp
  then show ?case using Cons w1 room_step(1) [OF w1(1)] by auto
qed simp

text \<open>
  C6: Once invalidateByKey has returned for a key, no call that looks the key up is answered
  from the cache with an older artifact: the result of such a hit, whatever ran before and
  after the invalidation (recovery excepted), comes from an attempt that was opened after
  it, as its attempt number is above the counter at the invalidation. The bound on the
  number of steps keeps the 64-bit counters from wrapping.
\<close>

theorem invalidated_not_served:
  assumes "start_world w0" "room (length ls0 + length ls1 + 1) w0" "run (wstep su) ls0 w0 = Some w1"
    and "wstep su (LOp (OpInvalidateKey now k)) w1 = Some w2" "run (wstep su) ls1 w2 = Some w3" "\<forall>l \<in> set ls1. \<not> recovers l"
    and "wo_threads w3 ! t = (AtFast, lv)" "lo_key lv = k" "wstep su (LRun t m) w3 = Some w4" "wo_threads w4 ! t = (Returned (Ok r), lv)"
  shows "\<exists>n. rs_attemptId r = fromU64 n \<and> im_artifactCounter (wo_impl w1) < n"
proof -
  let ?c = "im_artifactCounter (wo_impl w1)" and ?g = "im_cacheGen (wo_impl w2)"
  have "base_inv w0" using assms(1) by (auto simp: start_world_def base_inv_def)
  then have 1: "base_inv w1" "room (Suc (length ls1)) w1" using base_inv_run [OF assms(3), of "Suc (length ls1)"] assms(2) by (simp_all add: ac_simps)
  have w2: "w2 = w1\<lparr>wo_impl := invalidateByKey now k (wo_impl w1)\<rparr>" using assms(4) by (simp add: wstep_def api_op_def)
  have 2: "base_inv w2" "room (length ls1) w2" using base_inv_step [OF 1(1) assms(4) 1(2)] room_step(1) [OF assms(4) 1(2)] by simp_all
  have "im_cacheGen (wo_impl w1) < ?g" using wstep_gens(1) [OF assms(4)] u64_suc [of _ "length ls1"] 1(2)
    by (simp add: gen_delta_def room_def)
  moreover have same: "anchors (wo_impl w2) = anchors (wo_impl w1)" "length (im_heap (wo_impl w2)) = length (im_heap (wo_impl w1))"
    "im_artifactCounter (wo_impl w2) = ?c"
    using api_op_flights [of "su_config su" "OpInvalidateKey now k" "wo_impl w1"] by (auto simp: w2 api_op_def anchors_def)
  ultimately have "\<not> ?g \<le> fst (snd (anchors (wo_impl w2) ! h))" if "h < length (im_heap (wo_impl w2))" for h
    using 1(1) that unfolding base_inv_def by (auto simp: not_le intro: order_le_less_trans)
  then have "since_inv ?c ?g k w2" using 2 same invalidated_cache_after [of ?c k now "wo_impl w1"] by (auto simp: since_inv_def w2)
  then have "since_inv ?c ?g k w3" using since_inv_run [OF assms(5)] 2(2) assms(6) by blast
  then have "cache_after ?c k (im_cache (wo_impl w3))" by (simp add: since_inv_def)
  moreover obtain hit i' where "fast_path (su_config su) (en_millis (su_env su) m) (lo_request lv) (lo_plan lv) k (wo_impl w3) = Some (hit, i')"
      "hit = Some r"
    using assms(7-10) by (auto simp: wstep_def thread_step_def split: if_splits option.splits)
  ultimately show ?thesis using fast_path_cache_after [of "su_config su" _ _ _ k "wo_impl w3" hit i' ?c k] by (auto simp: attempt_after_def)
qed

section \<open>Both on the concrete fabric\<close>

lemma decide_same_key: "key_wf k \<Longrightarrow> ad_state d = ''Deployable'' \<Longrightarrow> \<exists>dec. decide k k d p = Some dec \<and> de_reusable dec"
  by (simp add: decide_def state_rejection_def key_eq_iff)

lemma decide_invalidated: "ad_state d = ''Invalidated'' \<Longrightarrow> \<exists>dec. decide k k' d p = Some dec"
  by (simp add: decide_def state_rejection_def)

text \<open>A world in which the next caller of the demonstration request has to compile.\<close>

definition demo_cold :: "World \<Rightarrow> bool" where
  "demo_cold w \<longleftrightarrow> im_backends (wo_impl w) = [(''cpu'', demo_backend)] \<and> im_targets (wo_impl w) = discoverTargets False tcd_default \<and>
     im_toolchain (wo_impl w) = tcd_default \<and> (\<forall>h. map_of (im_inflight (wo_impl w)) demo_key = Some h \<longrightarrow> fe_done (im_heap (wo_impl w) ! h)) \<and>
     (\<forall>e. map_of (im_cache (wo_impl w)) demo_key = Some e \<longrightarrow> ad_state (ce_descriptor e) = ''Invalidated'')"

lemma join_opens:
  assumes "\<And>h. map_of (im_inflight i) k = Some h \<Longrightarrow> fe_done (im_heap i ! h)"
  shows "join_flight k i = (Inr (length (im_heap i)), i\<lparr>im_artifactCounter := im_artifactCounter i + 1,
     im_heap := im_heap i @ [new_flight (fromU64 (im_artifactCounter i + 1)) (im_cacheGen i) (im_toolchainGen i)],
     im_inflight := smap_put k (length (im_heap i)) (im_inflight i)\<rparr>)"
  using assms by (auto simp: join_flight_def Let_def split: option.splits)

lemma demo_cold_opens:
  assumes c: "demo_cold w" and t: "t = length (wo_threads w)"
  shows "\<exists>w1 w2. run (wstep demo_setup) [LCall 1 0 rq_default, LRun t 0] w = Some w1 \<and> wstep demo_setup (LRun t 0) w1 = Some w2 \<and>
    wo_threads w1 = wo_threads w @ [(AtJoin, demo_local)] \<and>
    wo_threads w2 = wo_threads w @ [(AtBuild, demo_local\<lparr>lo_h := length (im_heap (wo_impl w))\<rparr>)] \<and>
    im_backends (wo_impl w2) = [(''cpu'', demo_backend)] \<and> im_targets (wo_impl w2) = discoverTargets False tcd_default \<and>
    im_toolchain (wo_impl w2) = tcd_default \<and> im_cacheGen (wo_impl w2) = im_cacheGen (wo_impl w) \<and>
    im_toolchainGen (wo_impl w2) = im_toolchainGen (wo_impl w) \<and> im_artifactCounter (wo_impl w2) = im_artifactCounter (wo_impl w) + 1 \<and>
    im_heap (wo_impl w2) = im_heap (wo_impl w) @ [new_flight (fromU64 (im_artifactCounter (wo_impl w) + 1)) (im_cacheGen (wo_impl w)) (im_toolchainGen (wo_impl w))] \<and>
    map_of (im_inflight (wo_impl w2)) demo_key = Some (length (im_heap (wo_impl w)))"
proof -
  have s: "wstep demo_setup (LCall 1 0 rq_default) w = Some (w\<lparr>wo_threads := wo_threads w @ [(AtFast, demo_local)]\<rparr>)"
    using demo_start [of "wo_impl w"] c by (simp add: wstep_def demo_cold_def)
  have f: "fast_path (su_config demo_setup) 0 rq_default demo_plan demo_key (wo_impl w) = Some (None, on_obs (obs_count ''cache_misses'') (wo_impl w))"
  proof (cases "map_of (im_cache (wo_impl w)) demo_key")
    case (Some e)
    then have e: "ad_state (ce_descriptor e) = ''Invalidated''" using c by (simp add: demo_cold_def)
    obtain dec where "decide (ce_key e) demo_key (ce_descriptor e) (cf_compatibilityPolicy (su_config demo_setup)) = Some dec"
      using decide_invalidated [OF e] by blast
    then show ?thesis using Some e by (simp add: fast_path_def Let_def)
  qed (simp add: fast_path_def Let_def)
  have e: "en_millis (su_env demo_setup) k = 0" for k by (simp add: demo_setup_def)
  have j: "join_flight demo_key (on_obs (obs_count ''cache_misses'') (wo_impl w)) = (Inr (length (im_heap (wo_impl w))),
      (on_obs (obs_count ''cache_misses'') (wo_impl w))\<lparr>im_artifactCounter := im_artifactCounter (wo_impl w) + 1,
         im_heap := im_heap (wo_impl w) @ [new_flight (fromU64 (im_artifactCounter (wo_impl w) + 1)) (im_cacheGen (wo_impl w)) (im_toolchainGen (wo_impl w))],
         im_inflight := smap_put demo_key (length (im_heap (wo_impl w))) (im_inflight (wo_impl w))\<rparr>)"
    using c join_opens [of "on_obs (obs_count ''cache_misses'') (wo_impl w)" demo_key] by (simp add: demo_cold_def)
  show ?thesis using c t
    by (simp add: s) (simp add: wstep_def thread_step_def demo_local_def f e j nth_append demo_cold_def smap_get_put Let_def)
qed

definition demo_compile :: "nat \<Rightarrow> Label list" where
  "demo_compile t = [LCall 1 0 rq_default, LRun t 0, LRun t 0] @ replicate 3 (LRun t 0) @ replicate 2 (LRun t 0)"

lemma demo_cold_compiles:
  assumes c: "demo_cold w" and t: "t = length (wo_threads w)"
  shows "\<exists>w' r lv d. run (wstep demo_setup) (demo_compile t) w = Some w' \<and> wo_threads w' = wo_threads w @ [(Returned (Ok r), lv)] \<and>
    map_of (im_cache (wo_impl w')) demo_key = Some d \<and> ce_key d = demo_key \<and> ad_state (ce_descriptor d) = ''Deployable'' \<and>
    im_backends (wo_impl w') = [(''cpu'', demo_backend)] \<and> im_targets (wo_impl w') = discoverTargets False tcd_default \<and>
    im_toolchain (wo_impl w') = tcd_default \<and> (\<exists>h. map_of (im_inflight (wo_impl w')) demo_key = Some h \<and> fe_done (im_heap (wo_impl w') ! h))"
proof -
  let ?h = "length (im_heap (wo_impl w))" and ?n = "im_artifactCounter (wo_impl w) + 1 + 1"
  obtain w1 w2 where w1: "run (wstep demo_setup) [LCall 1 0 rq_default, LRun t 0] w = Some w1" and w2: "wstep demo_setup (LRun t 0) w1 = Some w2"
    and th: "wo_threads w2 = wo_threads w @ [(AtBuild, demo_local\<lparr>lo_h := ?h\<rparr>)]"
    and b: "im_backends (wo_impl w2) = [(''cpu'', demo_backend)]" "im_targets (wo_impl w2) = discoverTargets False tcd_default"
    "im_toolchain (wo_impl w2) = tcd_default" "im_cacheGen (wo_impl w2) = im_cacheGen (wo_impl w)"
    "im_toolchainGen (wo_impl w2) = im_toolchainGen (wo_impl w)" "im_artifactCounter (wo_impl w2) = im_artifactCounter (wo_impl w) + 1"
    "im_heap (wo_impl w2) = im_heap (wo_impl w) @ [new_flight (fromU64 (im_artifactCounter (wo_impl w) + 1)) (im_cacheGen (wo_impl w)) (im_toolchainGen (wo_impl w))]"
    "map_of (im_inflight (wo_impl w2)) demo_key = Some ?h"
    using demo_cold_opens [OF c t] by blast
  let ?a = "fromU64 (im_artifactCounter (wo_impl w) + 1)"
  let ?w3 = "w2\<lparr>wo_threads := wo_threads w @ [(AtCommit, demo_ready ?h ?a ?n)], wo_impl := (wo_impl w2)\<lparr>im_artifactCounter := ?n\<rparr>\<rparr>"
  have w3: "run (wstep demo_setup) (replicate 3 (LRun t 0)) w2 = Some ?w3"
    using demo_build_steps [of t w2 ?h 0] t b th by (simp add: nth_append new_flight_def)
  obtain w4 r where w4: "run (wstep demo_setup) (replicate 2 (LRun t 0)) ?w3 = Some w4"
      "wo_threads w4 = wo_threads w @ [(Returned (Ok r), demo_ready ?h ?a ?n)]"
      "map_of (im_cache (wo_impl w4)) demo_key = Some \<lparr>ce_key = demo_key, ce_descriptor = demo_art ?a ?n, ce_bytes = [1],
        ce_baseCacheGen = im_cacheGen (wo_impl w), ce_baseToolchainGen = im_toolchainGen (wo_impl w), ce_inCache = True\<rparr>"
      "im_backends (wo_impl w4) = im_backends (wo_impl w2)" "im_targets (wo_impl w4) = im_targets (wo_impl w2)"
      "im_toolchain (wo_impl w4) = im_toolchain (wo_impl w2)" "im_inflight (wo_impl w4) = im_inflight (wo_impl w2)"
      "fe_done (im_heap (wo_impl w4) ! ?h)"
    using demo_commit_steps [of t ?w3 ?h ?a ?n 0] t b by (auto simp: nth_append new_flight_def)
  have "run (wstep demo_setup) (demo_compile t) w = Some w4"
    using w1 w2 w3 w4(1) unfolding demo_compile_def by (simp add: run_append bind_eq_Some_conv) blast
  moreover have "ad_state (demo_art ?a ?n) = ''Deployable''" by (simp add: demo_art_def make_deployable_def)
  ultimately show ?thesis using w4 b by (intro exI [of _ w4]) auto
qed

lemma demo_world_cold: "demo_cold demo_world"
  by (simp add: demo_cold_def demo_world_def fabric_init_def demo_setup_def)

lemma no_stale_publish_witness:
  "\<exists>w0 w1 w2 w3 lv. wstep demo_setup (LRun 0 0) w0 = Some w1 \<and>
     run (wstep demo_setup) (replicate 3 (LRun 0 0) @ [LOp (OpInvalidateKey 0 demo_key)]) w1 = Some w2 \<and> wstep demo_setup (LRun 0 0) w2 = Some w3 \<and>
     wo_threads w3 ! 0 = (Returned (Err ErrStaleGeneration stale_message), lv) \<and> im_cache (wo_impl w3) = im_cache (wo_impl w2)"
proof -
  let ?ls = "replicate 3 (LRun 0 0) @ [LOp (OpInvalidateKey 0 demo_key)]"
  obtain w0 w1 where w0: "wo_threads w0 = [(AtJoin, demo_local)]" and w1: "wstep demo_setup (LRun 0 0) w0 = Some w1"
    and th: "wo_threads w1 = [(AtBuild, demo_local\<lparr>lo_h := length (im_heap (wo_impl demo_world))\<rparr>)]"
    and b: "im_backends (wo_impl w1) = [(''cpu'', demo_backend)]"
    using demo_cold_opens [OF demo_world_cold, of 0] demo_start_world(3) by auto
  obtain w2 lv where w2: "run (wstep demo_setup) ?ls w1 = Some w2" "wo_threads w2 = [(AtCommit, lv)]"
    using demo_build_steps [of 0 w1 _ 0] th b by (auto simp: run_append wstep_def api_op_def)
  have c: "commit (su_config demo_setup) env m h p k art g bs i \<noteq> None" for env m h p k art g bs i
    by (auto simp: commit_def persist_artifact_def demo_setup_def Let_def)
  have "thread_step (su_config demo_setup) env m (AtCommit, lv) i \<noteq> None" for env m i
    using c by (simp add: thread_step_def Let_def del: not_None_eq)
  then obtain w3 where w3: "wstep demo_setup (LRun 0 0) w2 = Some w3" using w2(2) by (simp add: wstep_def) blast
  have at: "fst (wo_threads w0 ! 0) = AtJoin" "fst (wo_threads w1 ! 0) = AtBuild" "wo_threads w2 ! 0 = (AtCommit, lv)"
    and n: "invalidations ?ls < 2 ^ 64" "invalidations ?ls \<noteq> 0"
    using w0 th w2(2) by (simp_all add: invalidations_def)
  from no_stale_publish [OF w1 at(1,2) w2(1) at(3) w3 n(1)] n(2)
  have "wo_threads w3 ! 0 = (Returned (Err ErrStaleGeneration stale_message), lv)" "im_cache (wo_impl w3) = im_cache (wo_impl w2)" by simp_all
  then show ?thesis using w1 w2(1) w3 by blast
qed

lemma invalidated_not_served_witness:
  "\<exists>w1 w2 w3 w4 r. run (wstep demo_setup) (demo_compile 0) demo_world = Some w1 \<and>
     wstep demo_setup (LOp (OpInvalidateKey 0 demo_key)) w1 = Some w2 \<and>
     run (wstep demo_setup) (demo_compile 1 @ [LCall 1 0 rq_default]) w2 = Some w3 \<and> wstep demo_setup (LRun 2 0) w3 = Some w4 \<and>
     wo_threads w4 ! 2 = (Returned (Ok r), demo_local) \<and> (\<exists>n. rs_attemptId r = fromU64 n \<and> im_artifactCounter (wo_impl w1) < n)"
proof -
  obtain w1 th1 d1 where w1: "run (wstep demo_setup) (demo_compile 0) demo_world = Some w1" and c1: "wo_threads w1 = [th1]"
      "map_of (im_cache (wo_impl w1)) demo_key = Some d1"
      "im_backends (wo_impl w1) = [(''cpu'', demo_backend)]" "im_targets (wo_impl w1) = discoverTargets False tcd_default"
      "im_toolchain (wo_impl w1) = tcd_default" "\<exists>h. map_of (im_inflight (wo_impl w1)) demo_key = Some h \<and> fe_done (im_heap (wo_impl w1) ! h)"
    using demo_cold_compiles [OF demo_world_cold, of 0] demo_start_world(3) by auto
  let ?w2 = "w1\<lparr>wo_impl := invalidateByKey 0 demo_key (wo_impl w1)\<rparr>"
  have w2: "wstep demo_setup (LOp (OpInvalidateKey 0 demo_key)) w1 = Some ?w2" by (simp add: wstep_def api_op_def)
  have "demo_cold ?w2" using c1 by (auto simp: demo_cold_def invalidateByKey_def bump_cacheGen_def on_obs_def smap_get_put)
  then obtain w3 th3 d3 where w3: "run (wstep demo_setup) (demo_compile 1) ?w2 = Some w3" and c3: "wo_threads w3 = [th1, th3]"
      "map_of (im_cache (wo_impl w3)) demo_key = Some d3" "ce_key d3 = demo_key" "ad_state (ce_descriptor d3) = ''Deployable''"
      "im_backends (wo_impl w3) = [(''cpu'', demo_backend)]" "im_targets (wo_impl w3) = discoverTargets False tcd_default"
      "im_toolchain (wo_impl w3) = tcd_default"
    using demo_cold_compiles [of ?w2 1] c1(1) by auto
  let ?w3 = "w3\<lparr>wo_threads := [th1, th3, (AtFast, demo_local)]\<rparr>"
  have r3: "run (wstep demo_setup) (demo_compile 1 @ [LCall 1 0 rq_default]) ?w2 = Some ?w3"
    using w3 demo_start [of "wo_impl w3"] c3 by (simp add: run_append wstep_def)
  obtain dec where "decide demo_key demo_key (ce_descriptor d3) (cf_compatibilityPolicy (su_config demo_setup)) = Some dec" "de_reusable dec"
    using decide_same_key [OF key_wf_build c3(4)] unfolding demo_key_def by blast
  then obtain r i' where "fast_path (su_config demo_setup) (en_millis (su_env demo_setup) 0) rq_default demo_plan demo_key (wo_impl w3) = Some (Some r, i')"
    using c3 by (simp add: fast_path_def Let_def)
  then obtain w4 where w4: "wstep demo_setup (LRun 2 0) ?w3 = Some w4" "wo_threads w4 ! 2 = (Returned (Ok r), demo_local)"
    by (simp add: wstep_def thread_step_def demo_local_def)
  have room: "room (length (demo_compile 0) + length (demo_compile 1 @ [LCall 1 0 rq_default]) + 1) demo_world"
    by (simp add: room_def demo_world_def fabric_init_def demo_compile_def)
  have nr: "\<forall>l \<in> set (demo_compile 1 @ [LCall 1 0 rq_default]). \<not> recovers l" by (simp add: demo_compile_def)
  have at: "wo_threads ?w3 ! 2 = (AtFast, demo_local)" "lo_key demo_local = demo_key" by (simp_all add: demo_local_def)
  from invalidated_not_served [OF demo_start_world(1) room w1 w2 r3 nr at w4] show ?thesis using w1 w2 r3 w4 by blast
qed

end
