(* ===== verification/CF_Registry.thy ===== *)
theory CF_Registry
  imports CF_Generations
begin

text \<open>
  What the runtime promises to its callers, without threads, locks, plans or
  descriptors: a registry that serves artifacts, keeps one ticket per key while it is
  being compiled, and withdraws what is invalidated. Every schedule of the runtime,
  recovery included, is a run of the registry in which callers see the same.
\<close>

section \<open>The registry\<close>

record Offer =
  of_bytes :: bytes
  of_id :: Id128
  of_gen :: u64
  of_tool :: u64

text \<open>
  A ticket: its number, the caller that opened it, the generations under which the key is
  compiled, and the artifact once published. The registry counts the tickets it opened, and
  keeps how each ended and, for each caller that waits, the number of the ticket it joined.
\<close>

record Ticket =
  tk_no :: nat
  tk_owner :: nat
  tk_gens :: "u64 \<times> u64"
  tk_made :: "bytes option"

record Registry =
  rg_served :: "CompilationKey \<Rightarrow> Offer option"
  rg_open :: "CompilationKey \<Rightarrow> Ticket option"
  rg_gens :: "u64 \<times> u64"
  rg_opened :: nat
  rg_ended :: "nat \<Rightarrow> bytes result option"
  rg_joined :: "nat \<Rightarrow> nat option"

text \<open>What callers see; the first number of an action is the caller.\<close>

datatype Action =
    Quiet
  | Hit CompilationKey bytes | Miss CompilationKey
  | Join nat CompilationKey | Told nat "bytes result"
  | Open nat CompilationKey | Publish nat CompilationKey bytes Id128 u64 | Reject nat CompilationKey "bytes result"
  | Abandon nat CompilationKey ErrorCode string | Finish nat CompilationKey bytes
  | Withdraw ApiOp | Adopt "(CompilationKey \<times> Offer option) list"

definition allow :: "bool \<Rightarrow> 'a \<Rightarrow> 'a option" where
  "allow b x = (if b then Some x else None)"

lemma allow_simps [simp]: "allow b x = Some y \<longleftrightarrow> b \<and> y = x" "allow b x = None \<longleftrightarrow> \<not> b"
  by (auto simp: allow_def)

definition withdrawn_by :: "ApiOp \<Rightarrow> CompilationKey \<Rightarrow> Offer \<Rightarrow> bool" where
  "withdrawn_by op k x = (case op of
      OpInvalidateKey _ k' \<Rightarrow> k = k'
    | OpInvalidateId aid \<Rightarrow> of_id x = aid
    | OpInvalidateOperation oid \<Rightarrow> get_logicalOperation k = Some oid
    | OpInvalidateCompiler g \<Rightarrow> of_tool x \<le> g
    | OpInvalidateDependency g \<Rightarrow> (case getU64 KF_DependencyGenerations k of None \<Rightarrow> False | Some d \<Rightarrow> d \<le> g)
    | OpSupersede aid g \<Rightarrow> of_id x = aid \<and> of_gen x < g
    | _ \<Rightarrow> False)"

definition keep :: "('k \<Rightarrow> 'v \<Rightarrow> bool) \<Rightarrow> ('k \<Rightarrow> 'v option) \<Rightarrow> 'k \<Rightarrow> 'v option" where
  "keep P m k = (case m k of None \<Rightarrow> None | Some x \<Rightarrow> if P k x then Some x else None)"

text \<open>What a caller may do with a ticket that it opened, and the end of a ticket.\<close>

definition with_ticket :: "nat \<Rightarrow> CompilationKey \<Rightarrow> (Ticket \<Rightarrow> bool) \<Rightarrow> (Ticket \<Rightarrow> Registry) \<Rightarrow> Registry \<Rightarrow> Registry option" where
  "with_ticket t k P f r = (case rg_open r k of None \<Rightarrow> None | Some x \<Rightarrow> allow (tk_owner x = t \<and> P x) (f x))"

definition end_ticket :: "CompilationKey \<Rightarrow> bytes result \<Rightarrow> Registry \<Rightarrow> Ticket \<Rightarrow> Registry" where
  "end_ticket k y r x = r\<lparr>rg_open := (rg_open r)(k := None), rg_ended := (rg_ended r)(tk_no x := Some y)\<rparr>"

text \<open>
  The rules: a caller is served exactly when something is on offer; a ticket is opened
  only where there is none, with a number not used before; it publishes only under the
  generations of its opening and ends once, by the caller that opened it; a caller that
  joins a ticket is told how that very ticket ended, and waits for one ticket at a time.
\<close>

fun registry_step :: "Action \<Rightarrow> Registry \<Rightarrow> Registry option" where
  "registry_step Quiet r = Some r"
| "registry_step (Hit k bs) r = allow (map_option of_bytes (rg_served r k) = Some bs) r"
| "registry_step (Miss k) r = allow (rg_served r k = None) r"
| "registry_step (Join t k) r = (case rg_open r k of None \<Rightarrow> None
     | Some x \<Rightarrow> allow (rg_joined r t = None) (r\<lparr>rg_joined := (rg_joined r)(t := Some (tk_no x))\<rparr>))"
| "registry_step (Told t y) r = (case rg_joined r t of None \<Rightarrow> None
     | Some n \<Rightarrow> allow (rg_ended r n = Some y) (r\<lparr>rg_joined := (rg_joined r)(t := None)\<rparr>))"
| "registry_step (Open t k) r = allow (rg_open r k = None)
     (r\<lparr>rg_open := (rg_open r)(k := Some \<lparr>tk_no = rg_opened r, tk_owner = t, tk_gens = rg_gens r, tk_made = None\<rparr>),
        rg_opened := rg_opened r + 1\<rparr>)"
| "registry_step (Publish t k bs aid g) r = with_ticket t k (\<lambda>x. tk_gens x = rg_gens r \<and> tk_made x = None)
     (\<lambda>x. r\<lparr>rg_open := (rg_open r)(k := Some (x\<lparr>tk_made := Some bs\<rparr>)),
        rg_served := (rg_served r)(k := Some \<lparr>of_bytes = bs, of_id = aid, of_gen = g, of_tool = snd (rg_gens r)\<rparr>)\<rparr>) r"
| "registry_step (Reject t k y) r = with_ticket t k
     (\<lambda>x. tk_gens x \<noteq> rg_gens r \<and> tk_made x = None \<and> y = Err ErrStaleGeneration stale_message) (end_ticket k y r) r"
| "registry_step (Abandon t k c msg) r = with_ticket t k (\<lambda>x. tk_made x = None) (end_ticket k (Err c msg) r) r"
| "registry_step (Finish t k bs) r = with_ticket t k (\<lambda>x. tk_made x = Some bs) (end_ticket k (Ok bs) r) r"
| "registry_step (Withdraw op) r = Some (r\<lparr>rg_served := keep (\<lambda>k x. \<not> withdrawn_by op k x) (rg_served r),
     rg_gens := (fst (rg_gens r) + gen_delta (LOp op), snd (rg_gens r) + tool_delta (LOp op))\<rparr>)"
| "registry_step (Adopt xs) r = Some (r\<lparr>rg_served := fold (\<lambda>(k, x) m. m(k := x)) xs (rg_served r)\<rparr>)"

section \<open>What a step of the runtime shows\<close>

definition offer_of :: "CacheEntry \<Rightarrow> Offer option" where
  "offer_of e = (if ad_state (ce_descriptor e) = ''Deployable''
     then Some \<lparr>of_bytes = ce_bytes e, of_id = ad_id (ce_descriptor e), of_gen = ad_generation (ce_descriptor e), of_tool = ce_baseToolchainGen e\<rparr>
     else None)"

definition offered :: "(CompilationKey \<times> CacheEntry) list \<Rightarrow> CompilationKey \<Rightarrow> Offer option" where
  "offered m k = Option.bind (map_of m k) offer_of"

definition map_result :: "('a \<Rightarrow> 'b) \<Rightarrow> 'a result \<Rightarrow> 'b result" where
  "map_result f x = (case x of Ok y \<Rightarrow> Ok (f y) | Err c msg \<Rightarrow> Err c msg)"

definition thread_seen :: "nat \<Rightarrow> Thread \<Rightarrow> Pc \<Rightarrow> Action" where
  "thread_seen t th pc' = (let k = lo_key (snd th); bs = bo_executable (bt_output (lo_built (snd th))); art = lo_art (snd th) in
     case (fst th, pc') of
       (AtFast, Returned (Ok r)) \<Rightarrow> Hit k (rs_artifactBytes r)
     | (AtFast, _) \<Rightarrow> Miss k
     | (AtJoin, AtWait) \<Rightarrow> Join t k
     | (AtJoin, _) \<Rightarrow> Open t k
     | (AtWait, Returned x) \<Rightarrow> Told t (map_result rs_artifactBytes x)
     | (AtFail _ _ _, Returned (Err c msg)) \<Rightarrow> Abandon t k c msg
     | (AtCommit, Returned x) \<Rightarrow> Reject t k (map_result rs_artifactBytes x)
     | (AtCommit, _) \<Rightarrow> Publish t k bs (ad_id art) (ad_generation art)
     | (AtFinish _, Returned (Ok r)) \<Rightarrow> Finish t k (rs_artifactBytes r)
     | _ \<Rightarrow> Quiet)"

text \<open>The records that a recovery takes over; the toolchain generation is the current one.\<close>

definition adopted :: "RecoveryResult \<Rightarrow> Impl \<Rightarrow> (CompilationKey \<times> Offer option) list" where
  "adopted res i = map (\<lambda>r. (pr_key r, offer_of \<lparr>ce_key = pr_key r, ce_descriptor = pr_descriptor r, ce_bytes = pr_contentBytes r,
     ce_baseCacheGen = im_cacheGen i, ce_baseToolchainGen = im_toolchainGen i, ce_inCache = True\<rparr>)) (rr_valid res)"

definition world_seen :: "Setup \<Rightarrow> Label \<Rightarrow> World \<Rightarrow> World \<Rightarrow> Action" where
  "world_seen su l w w' = (case l of
      LCall _ _ _ \<Rightarrow> Quiet
    | LRun t m \<Rightarrow> thread_seen t (wo_threads w ! t) (fst (wo_threads w' ! t))
    | LOp (OpScan _ _) \<Rightarrow> Quiet
    | LOp (OpAdopt now res) \<Rightarrow> Adopt (adopted res (wo_impl w))
    | LOp op \<Rightarrow> Withdraw op)"

section \<open>The simulation\<close>

definition keyed :: "(CompilationKey \<times> CacheEntry) list \<Rightarrow> bool" where
  "keyed m \<longleftrightarrow> (\<forall>(k, e) \<in> set m. ce_key e = k)"

definition ticket_of :: "Impl \<Rightarrow> nat \<Rightarrow> Thread \<Rightarrow> Ticket" where
  "ticket_of i t th = \<lparr>tk_no = lo_h (snd th), tk_owner = t, tk_gens = snd (anchors i ! lo_h (snd th)),
     tk_made = (case fst th of AtFinish r \<Rightarrow> Some (rs_artifactBytes r) | _ \<Rightarrow> None)\<rparr>"

definition outcome :: "InflightEntry \<Rightarrow> bytes result" where
  "outcome e = (if fe_success e then Ok (rs_artifactBytes (fe_result e)) else Err (fe_failure e) (fe_failureMsg e))"

text \<open>Tickets are the entries of the attempts, in the order of their opening.\<close>

definition ended_of :: "Impl \<Rightarrow> nat \<Rightarrow> bytes result option" where
  "ended_of i = (\<lambda>n. if n < length (im_heap i) \<and> fe_done (im_heap i ! n) then Some (outcome (im_heap i ! n)) else None)"

definition joined_of :: "Thread list \<Rightarrow> nat \<Rightarrow> nat option" where
  "joined_of ths = (\<lambda>t. if t < length ths \<and> fst (ths ! t) = AtWait then Some (lo_h (snd (ths ! t))) else None)"

definition threads_match :: "Impl \<Rightarrow> Thread list \<Rightarrow> Registry \<Rightarrow> bool" where
  "threads_match i ths r \<longleftrightarrow>
     (\<forall>t < length ths. owns (fst (ths ! t)) \<longrightarrow> rg_open r (lo_key (snd (ths ! t))) = Some (ticket_of i t (ths ! t))) \<and>
     (\<forall>k. rg_open r k \<noteq> None \<longrightarrow> (\<exists>t < length ths. owns (fst (ths ! t)) \<and> lo_key (snd (ths ! t)) = k)) \<and>
     rg_joined r = joined_of ths \<and>
     (\<forall>t < length ths. (fst (ths ! t) = AtFast \<longrightarrow> key_wf (lo_key (snd (ths ! t)))) \<and>
        (fst (ths ! t) = AtCommit \<longrightarrow> ad_state (lo_art (snd (ths ! t))) = ''Deployable''))"

lemma threads_matchD:
  assumes "threads_match i ths r"
  shows "t < length ths \<Longrightarrow> owns (fst (ths ! t)) \<Longrightarrow> rg_open r (lo_key (snd (ths ! t))) = Some (ticket_of i t (ths ! t))"
    and "rg_open r k \<noteq> None \<Longrightarrow> \<exists>t < length ths. owns (fst (ths ! t)) \<and> lo_key (snd (ths ! t)) = k"
    and "rg_joined r = joined_of ths"
    and "t < length ths \<Longrightarrow> fst (ths ! t) = AtFast \<Longrightarrow> key_wf (lo_key (snd (ths ! t)))"
    and "t < length ths \<Longrightarrow> fst (ths ! t) = AtCommit \<Longrightarrow> ad_state (lo_art (snd (ths ! t))) = ''Deployable''"
  using assms unfolding threads_match_def by blast+

definition impl_matches :: "Impl \<Rightarrow> Registry \<Rightarrow> bool" where
  "impl_matches i r \<longleftrightarrow> rg_gens r = (im_cacheGen i, im_toolchainGen i) \<and> rg_served r = offered (im_cache i) \<and> keyed (im_cache i) \<and>
     rg_opened r = length (im_heap i) \<and> rg_ended r = ended_of i"

definition implements :: "World \<Rightarrow> Registry \<Rightarrow> bool" where
  "implements w r \<longleftrightarrow> impl_matches (wo_impl w) r \<and> threads_match (wo_impl w) (wo_threads w) r"

lemma ended_same: "im_heap i' = im_heap i \<Longrightarrow> ended_of i' = ended_of i"
  by (auto simp: ended_of_def fun_eq_iff)

lemma joined_update: "t < length ths \<Longrightarrow> joined_of (ths[t := th]) = (joined_of ths)(t := if fst th = AtWait then Some (lo_h (snd th)) else None)"
  by (rule ext) (auto simp: joined_of_def nth_list_update)

lemma joined_None: "fst (ths ! t) \<noteq> AtWait \<Longrightarrow> joined_of ths t = None"
  by (simp add: joined_of_def)

section \<open>What is on offer\<close>

lemma keep_Some [simp]: "keep P m k = Some x \<longleftrightarrow> m k = Some x \<and> P k x"
  by (auto simp: keep_def split: option.splits)

lemma keep_all: "(\<And>k x. P k x) \<Longrightarrow> keep P m = m"
  by (rule ext) (auto simp: keep_def split: option.splits)

lemma offered_put: "offered (smap_put k e m) = (offered m)(k := offer_of e)"
  by (rule ext) (simp add: offered_def smap_get_put)

lemma keyed_put: "keyed m \<Longrightarrow> ce_key e = k \<Longrightarrow> keyed (smap_put k e m)"
  using set_smap_put_sub [of k e m] by (fastforce simp: keyed_def)

lemma keyed_map: "keyed (im_cache i) \<Longrightarrow> (\<And>e. ce_key (f e) = ce_key e) \<Longrightarrow> keyed (im_cache (map_entries f i))"
  by (fastforce simp: keyed_def map_entries_def)

lemma keyed_find: "keyed m \<Longrightarrow> map_of m k = Some e \<Longrightarrow> ce_key e = k"
  by (auto simp: keyed_def dest: map_of_SomeD)

lemma offered_map: "offered (im_cache (map_entries f i)) k = Option.bind (map_of (im_cache i) k) (\<lambda>e. offer_of (f e))"
  by (simp add: offered_def map_entries_def map_of_map bind_map_option comp_def)

lemma marks [simp]: "offer_of (invalidate_entry e) = None" "offer_of (supersede_entry e) = None"
  "ce_key (invalidate_entry e) = ce_key e" "ce_key (supersede_entry e) = ce_key e"
  "offer_of (not_resident e) = offer_of e" "ce_key (not_resident e) = ce_key e"
  by (simp_all add: offer_of_def invalidate_entry_def supersede_entry_def not_resident_def)

lemma offer_of_Some: "offer_of e = Some x \<longleftrightarrow> ad_state (ce_descriptor e) = ''Deployable'' \<and>
    x = \<lparr>of_bytes = ce_bytes e, of_id = ad_id (ce_descriptor e), of_gen = ad_generation (ce_descriptor e), of_tool = ce_baseToolchainGen e\<rparr>"
  by (auto simp: offer_of_def)

text \<open>An operation that marks the entries of a set withdraws exactly what is on offer among them.\<close>

lemma offered_marked:
  assumes "\<And>e. offer_of (g e) = None" "keyed (im_cache i)"
    and "\<And>e x. offer_of e = Some x \<Longrightarrow> P e \<longleftrightarrow> withdrawn_by op (ce_key e) x"
  shows "offered (im_cache (map_entries (\<lambda>e. if P e then g e else e) i)) = keep (\<lambda>k x. \<not> withdrawn_by op k x) (offered (im_cache i))"
proof (rule ext)
  fix k
  show "offered (im_cache (map_entries (\<lambda>e. if P e then g e else e) i)) k = keep (\<lambda>k x. \<not> withdrawn_by op k x) (offered (im_cache i)) k"
    using assms(1,3) keyed_find [OF assms(2), of k]
    by (cases "map_of (im_cache i) k") (auto simp: offered_map, auto simp: offered_def keep_def split: option.splits)
qed

lemmas offered_invalidated = offered_marked [where g = invalidate_entry, OF marks(1)]
lemmas offered_superseded = offered_marked [where g = supersede_entry, OF marks(2)]

lemma bump_offered [simp]: "offered (im_cache (bump_cacheGen i)) = offered (im_cache i)"
  by simp

lemma adopt_offered:
  "offered (im_cache (fold adopt rs i)) = fold (\<lambda>(k, x) m. m(k := x)) (map (\<lambda>r. (pr_key r, offer_of \<lparr>ce_key = pr_key r,
     ce_descriptor = pr_descriptor r, ce_bytes = pr_contentBytes r, ce_baseCacheGen = im_cacheGen i,
     ce_baseToolchainGen = im_toolchainGen i, ce_inCache = True\<rparr>)) rs) (offered (im_cache i))"
  by (induction rs arbitrary: i) (simp_all add: adopt_def offered_put)

lemma keyed_adopt: "keyed (im_cache i) \<Longrightarrow> keyed (im_cache (fold adopt rs i))"
  by (induction rs arbitrary: i) (simp_all add: adopt_def keyed_put)

lemma adopt_all_offered:
  "offered (im_cache (adopt_all now res i)) = offered (im_cache (fold adopt (rr_valid res) i))"
  by (rule ext) (simp add: adopt_all_def Let_def offered_map, simp add: offered_def)

lemma keyed_adopt_all: "keyed (im_cache i) \<Longrightarrow> keyed (im_cache (adopt_all now res i))"
  by (simp add: adopt_all_def Let_def keyed_map keyed_adopt)

lemma op_matches:
  assumes m: "impl_matches i r" and o: "api_op cfg op i = Some i'" and n: "\<not> is_recover_op op"
  shows "\<exists>r'. registry_step (Withdraw op) r = Some r' \<and> impl_matches i' r' \<and> rg_open r' = rg_open r \<and> rg_joined r' = rg_joined r"
proof -
  have k: "keyed (im_cache i)" using m by (simp add: impl_matches_def)
  have off: "offered (im_cache i') = keep (\<lambda>k x. \<not> withdrawn_by op k x) (offered (im_cache i)) \<and> keyed (im_cache i')"
  proof (cases op)
    case (OpInvalidateKey now key)
    have "offered (im_cache i') = (offered (im_cache i))(key := None) \<and> keyed (im_cache i')"
      using o k OpInvalidateKey
      by (auto simp: api_op_def invalidateByKey_def offered_put keyed_put keyed_find split: option.splits)
        (rule fun_upd_idem [symmetric], simp add: offered_def)
    then show ?thesis using OpInvalidateKey by (auto simp: keep_def withdrawn_by_def fun_eq_iff split: option.splits)
  next
    case (OpInvalidateId aid)
    have "offered (im_cache (map_entries (\<lambda>e. if ad_id (ce_descriptor e) = aid then invalidate_entry e else e) i)) =
        keep (\<lambda>k x. \<not> withdrawn_by op k x) (offered (im_cache i))"
      by (rule offered_invalidated [OF k]) (auto simp: OpInvalidateId withdrawn_by_def offer_of_Some)
    then show ?thesis using o k OpInvalidateId by (auto simp: api_op_def invalidateById_def keyed_map)
  next
    case (OpInvalidateOperation oid)
    have "offered (im_cache (map_entries (\<lambda>e. if get_logicalOperation (ce_key e) = Some oid then invalidate_entry e else e) i)) =
        keep (\<lambda>k x. \<not> withdrawn_by op k x) (offered (im_cache i))"
      by (rule offered_invalidated [OF k]) (auto simp: OpInvalidateOperation withdrawn_by_def offer_of_Some)
    then show ?thesis using o k OpInvalidateOperation by (auto simp: api_op_def invalidateByLogicalOperation_def keyed_map)
  next
    case (OpInvalidateCompiler g)
    have "offered (im_cache (map_entries (\<lambda>e. if ce_baseToolchainGen e \<le> g then invalidate_entry e else e) i)) =
        keep (\<lambda>k x. \<not> withdrawn_by op k x) (offered (im_cache i))"
      by (rule offered_invalidated [OF k]) (auto simp: OpInvalidateCompiler withdrawn_by_def offer_of_Some)
    then show ?thesis using o k OpInvalidateCompiler by (auto simp: api_op_def invalidateByCompilerGeneration_def keyed_map Let_def)
  next
    case (OpInvalidateDependency g)
    let ?P = "\<lambda>e. case getU64 KF_DependencyGenerations (ce_key e) of None \<Rightarrow> False | Some d \<Rightarrow> d \<le> g"
    have p: "(\<lambda>e. case getU64 KF_DependencyGenerations (ce_key e) of None \<Rightarrow> e | Some d \<Rightarrow> if d \<le> g then invalidate_entry e else e)
        = (\<lambda>e. if ?P e then invalidate_entry e else e)" by (auto split: option.splits)
    have "offered (im_cache (map_entries (\<lambda>e. if ?P e then invalidate_entry e else e) i)) =
        keep (\<lambda>k x. \<not> withdrawn_by op k x) (offered (im_cache i))"
      by (rule offered_invalidated [OF k]) (simp add: OpInvalidateDependency withdrawn_by_def)
    then show ?thesis using o k OpInvalidateDependency
      by (auto simp: api_op_def invalidateByDependencyGeneration_def p intro!: keyed_map)
  next
    case (OpSupersede aid g)
    have "offered (im_cache (map_entries (\<lambda>e. if ad_id (ce_descriptor e) = aid \<and> ad_generation (ce_descriptor e) < g then supersede_entry e else e) i)) =
        keep (\<lambda>k x. \<not> withdrawn_by op k x) (offered (im_cache i))"
      by (rule offered_superseded [OF k]) (auto simp: OpSupersede withdrawn_by_def offer_of_Some)
    then show ?thesis using o k OpSupersede by (auto simp: api_op_def supersede_def keyed_map)
  qed (use o n k in \<open>auto simp: op_defs withdrawn_by_def keep_all split: option.splits if_splits eff.splits\<close>)
  then show ?thesis using m api_op_gens [OF o] api_op_flights(1) [OF o] ended_same [of i' i] by (simp add: impl_matches_def)
qed

lemma recover_matches:
  assumes m: "impl_matches i r"
  shows "\<exists>r'. registry_step (Adopt (adopted res i)) r = Some r' \<and> impl_matches (adopt_all now res i) r' \<and>
    rg_open r' = rg_open r \<and> rg_joined r' = rg_joined r"
  using m ended_same [of "adopt_all now res i" i]
  by (simp add: impl_matches_def adopted_def adopt_all_offered adopt_offered keyed_adopt_all)

lemma scan_matches:
  assumes m: "impl_matches i r" and o: "api_op cfg (OpScan gone names) i = Some i'"
  shows "impl_matches i' r"
proof -
  obtain d where "i' = i \<or> i' = i\<lparr>im_disk := d\<rparr>"
    using o by (auto simp: op_defs split: if_splits eff.splits)
  then show ?thesis using m by (auto simp: impl_matches_def ended_of_def)
qed

section \<open>One thread moves\<close>

lemma ended_fail: "h < length (im_heap i) \<Longrightarrow> ended_of (fail_flight h c msg f i) = (ended_of i)(h := Some (Err c msg))"
  by (rule ext) (auto simp: ended_of_def fail_flight_def nth_list_update outcome_def)

lemma ended_finish: "h < length (im_heap i) \<Longrightarrow> ended_of (finish_flight h r i) = (ended_of i)(h := Some (Ok (rs_artifactBytes r)))"
  by (rule ext) (auto simp: ended_of_def finish_flight_def nth_list_update outcome_def)

lemma length_heap [simp]:
  "length (im_heap (fail_flight h c msg f i)) = length (im_heap i)" "length (im_heap (finish_flight h r i)) = length (im_heap i)"
  by (simp_all add: fail_flight_def finish_flight_def)

lemma nth_update_at: "j < length xs \<Longrightarrow> xs[i := x] ! j = (if i = j then x else xs ! j)"
  by (cases "i = j") simp_all

lemma ended_join:
  assumes "join_flight k i = (x, i')"
  shows "ended_of i' = ended_of i" "length (im_heap i') = length (im_heap i) + (case x of Inl _ \<Rightarrow> 0 | Inr _ \<Rightarrow> 1)"
  using assms
  by (auto simp: fun_eq_iff ended_of_def join_flight_def new_flight_def Let_def nth_update_at nth_append outcome_def less_Suc_eq
      split: option.splits if_splits)

lemma ended_commit:
  assumes "commit cfg env m h p k art g bs i = Some (ok, i')" "h < length (im_heap i)"
  shows "ended_of i' = (if ok then ended_of i else (ended_of i)(h := Some (Err ErrStaleGeneration stale_message)))"
    and "length (im_heap i') = length (im_heap i)"
  using assms ended_same [of i' i] ended_fail [OF assms(2), of ErrStaleGeneration stale_message]
  by (auto simp: commit_def Let_def ended_of_def split: if_splits dest!: persist_simps)

lemma threads_match_update:
  assumes flights: "flights_ok kf (done_flags i) mp ths" and m: "threads_match i ths r" and t: "t < length ths"
    and k: "lo_key (snd th') = lo_key (snd (ths ! t))"
    and grow: "\<And>h. h < length (im_heap i) \<Longrightarrow> anchors i' ! h = anchors i ! h"
    and others: "\<And>k'. k' \<noteq> lo_key (snd (ths ! t)) \<Longrightarrow> rg_open r' k' = rg_open r k'"
    and here: "if owns (fst th') then rg_open r' (lo_key (snd th')) = Some (ticket_of i' t th') \<and>
        (owns (fst (ths ! t)) \<or> rg_open r (lo_key (snd th')) = None)
      else if owns (fst (ths ! t)) then rg_open r' (lo_key (snd th')) = None else rg_open r' = rg_open r"
    and joined: "rg_joined r' = (rg_joined r)(t := if fst th' = AtWait then Some (lo_h (snd th')) else None)"
    and fast: "fst th' \<noteq> AtFast"
    and commit: "fst th' = AtCommit \<Longrightarrow> ad_state (lo_art (snd th')) = ''Deployable''"
  shows "threads_match i' (ths[t := th']) r'"
proof -
  let ?th = "ths ! t"
  have inv: "thread_inv kf (done_flags i) mp (ths ! s)" if "s < length ths" for s using flights that by (simp add: flights_ok_def)
  have same_key: "s = t" if "s < length ths" "owns (fst (ths ! s))" "owns (fst ?th)" "lo_key (snd (ths ! s)) = lo_key (snd ?th)" for s
    using inv [OF that(1)] inv [OF t] that flights t by (auto simp: flights_ok_def thread_inv_def Let_def)
  have ticket: "ticket_of i' s (ths ! s) = ticket_of i s (ths ! s)" if "s < length ths" "owns (fst (ths ! s))" for s
    using inv [OF that(1)] that(2) grow by (simp add: ticket_of_def thread_inv_def done_flags_def Let_def)
  have own: "rg_open r' (lo_key (snd (ths ! s))) = Some (ticket_of i' s (ths ! s))" if "s < length ths" "s \<noteq> t" "owns (fst (ths ! s))" for s
  proof -
    have old: "rg_open r (lo_key (snd (ths ! s))) = Some (ticket_of i s (ths ! s))" by (rule threads_matchD(1) [OF m that(1,3)])
    show ?thesis
    proof (cases "lo_key (snd (ths ! s)) = lo_key (snd ?th)")
      case True
      then show ?thesis using old same_key that here k ticket by (auto split: if_splits)
    next
      case False
      then show ?thesis using old others that ticket by simp
    qed
  qed
  have cover: "\<exists>s < length ths. s \<noteq> t \<and> owns (fst (ths ! s)) \<and> lo_key (snd (ths ! s)) = k'"
    if "rg_open r' k' \<noteq> None" "\<not> (owns (fst th') \<and> lo_key (snd th') = k')" for k'
  proof -
    have "rg_open r k' \<noteq> None" using that others [of k'] here k by (cases "k' = lo_key (snd ?th)") (auto split: if_splits)
    then obtain s where s: "s < length ths" "owns (fst (ths ! s))" "lo_key (snd (ths ! s)) = k'" using threads_matchD(2) [OF m] by blast
    moreover have "s \<noteq> t" using that s here k by (auto split: if_splits)
    ultimately show ?thesis by blast
  qed
  show ?thesis unfolding threads_match_def
  proof (intro conjI allI impI)
    fix s assume s: "s < length (ths[t := th'])"
    show "rg_open r' (lo_key (snd (ths[t := th'] ! s))) = Some (ticket_of i' s (ths[t := th'] ! s))" if "owns (fst (ths[t := th'] ! s))"
      using s own here that by (cases "s = t") (auto split: if_splits)
    show "key_wf (lo_key (snd (ths[t := th'] ! s)))" if "fst (ths[t := th'] ! s) = AtFast"
      using s fast that threads_matchD(4) [OF m, of s] by (cases "s = t") auto
    show "ad_state (lo_art (snd (ths[t := th'] ! s))) = ''Deployable''" if "fst (ths[t := th'] ! s) = AtCommit"
      using s commit that threads_matchD(5) [OF m, of s] by (cases "s = t") auto
  next
    show "rg_joined r' = joined_of (ths[t := th'])" using joined threads_matchD(3) [OF m] joined_update [OF t] by simp
  next
    fix k' assume o: "rg_open r' k' \<noteq> None"
    show "\<exists>s < length (ths[t := th']). owns (fst (ths[t := th'] ! s)) \<and> lo_key (snd (ths[t := th'] ! s)) = k'"
    proof (cases "owns (fst th') \<and> lo_key (snd th') = k'")
      case True
      then show ?thesis using t by (intro exI [of _ t]) simp
    next
      case False
      then obtain s where "s < length ths" "s \<noteq> t" "owns (fst (ths ! s))" "lo_key (snd (ths ! s)) = k'" using cover o by blast
      then show ?thesis by (intro exI [of _ s]) simp
    qed
  qed
qed

section \<open>What a thread does\<close>

lemma fast_path_seen:
  assumes f: "fast_path cfg now rq p k i = Some (hit, i')" and c: "keyed (im_cache i)" and wf: "key_wf k"
  shows "offered (im_cache i') = offered (im_cache i) \<and> keyed (im_cache i') \<and>
    (case hit of Some x \<Rightarrow> map_option of_bytes (offered (im_cache i) k) = Some (rs_artifactBytes x) | None \<Rightarrow> offered (im_cache i) k = None)"
proof (cases "map_of (im_cache i) k")
  case None
  then show ?thesis using f c by (auto simp: fast_path_def offered_def Let_def)
next
  case (Some e)
  let ?e = "e\<lparr>ce_descriptor := (ce_descriptor e)\<lparr>ad_lastAccess := now, ad_reuseCount := ad_reuseCount (ce_descriptor e) + 1\<rparr>\<rparr>"
  have k: "ce_key e = k" using keyed_find [OF c Some] .
  have o: "offered (im_cache i) k = offer_of e" "offer_of ?e = offer_of e" using Some by (simp_all add: offered_def offer_of_def)
  have put: "offered (smap_put k ?e (im_cache i)) = offered (im_cache i) \<and> keyed (smap_put k ?e (im_cache i))"
    using o c k by (simp add: offered_put fun_upd_idem keyed_put)
  obtain dec where d: "decide k k (ce_descriptor e) (cf_compatibilityPolicy cfg) = Some dec" using f Some k
    by (auto simp: fast_path_def Let_def)
  have "ad_state (ce_descriptor e) = ''Deployable'' \<Longrightarrow> de_reusable dec"
    using decide_same_key [OF wf, of "ce_descriptor e" "cf_compatibilityPolicy cfg"] d by auto
  then show ?thesis using f Some k d put c o
    by (auto simp: fast_path_def Let_def offer_of_def reused_result_def split: if_splits)
qed

lemma join_seen:
  assumes "join_flight k i = (x, i')"
  shows "case x of Inl h \<Rightarrow> map_of (im_inflight i) k = Some h \<and> \<not> fe_done (im_heap i ! h) \<and> \<not> fe_done (im_heap i' ! h)
    | Inr h \<Rightarrow> \<forall>h. map_of (im_inflight i) k = Some h \<longrightarrow> fe_done (im_heap i ! h)"
  using assms
proof (cases "map_of (im_inflight i) k")
  case (Some h)
  then show ?thesis using assms by (cases "h < length (im_heap i)") (auto simp: join_flight_def Let_def list_update_beyond split: if_splits)
qed (auto simp: join_flight_def Let_def)

lemma map_result_simps [simp]: "map_result f (Ok x) = Ok (f x)" "map_result f (Err c msg) = Err c msg"
  by (simp_all add: map_result_def)

lemma wake_seen:
  "wake h i = Some (x, i') \<Longrightarrow> fe_done (im_heap i ! h) \<and> map_result rs_artifactBytes x = outcome (im_heap i ! h) \<and> i' = on_obs (obs_count ''singleflight_wait_completions'') i"
  by (auto simp: wake_def outcome_def Let_def split: if_splits)

lemma commit_seen:
  assumes "commit cfg env m h p k art g bs i = Some (ok, i')" "keyed (im_cache i)" "ad_state art = ''Deployable''" "h < length (im_heap i)"
  shows "if ok then snd (anchors i ! h) = (im_cacheGen i, im_toolchainGen i) \<and> keyed (im_cache i') \<and> offered (im_cache i') = (offered (im_cache i))
      (k := Some \<lparr>of_bytes = bs, of_id = ad_id art, of_gen = ad_generation art, of_tool = im_toolchainGen i\<rparr>)
    else snd (anchors i ! h) \<noteq> (im_cacheGen i, im_toolchainGen i) \<and> im_cache i' = im_cache i"
  using assms
  by (auto simp: commit_def Let_def nth_anchors offered_put offer_of_def intro!: keyed_put split: if_splits dest!: persist_simps)

lemma owners_open:
  assumes "flights_ok kf (done_flags i) mp ths" "threads_match i ths r" "mp k = Some h" "\<not> fe_done (im_heap i ! h)"
  shows "\<exists>x. rg_open r k = Some x \<and> tk_no x = h"
proof -
  have h: "h < length (done_flags i)" "kf h = k" "\<not> done_flags i ! h"
    using assms(1,3,4) by (auto simp: flights_ok_def done_flags_def)
  then obtain t where t: "t < length ths" "owns (fst (ths ! t))" "lo_h (snd (ths ! t)) = h"
    using assms(1) by (auto simp: flights_ok_def)
  then have "lo_key (snd (ths ! t)) = k" using assms(1) h by (auto simp: flights_ok_def thread_inv_def Let_def)
  then show ?thesis using threads_matchD(1) [OF assms(2) t(1,2)] t(3) by (simp add: ticket_of_def)
qed

lemma no_owner_closed:
  assumes "flights_ok kf (done_flags i) mp ths" "threads_match i ths r" "\<forall>h. mp k = Some h \<longrightarrow> fe_done (im_heap i ! h)"
  shows "rg_open r k = None"
proof (rule ccontr)
  assume "rg_open r k \<noteq> None"
  then obtain t where t: "t < length ths" "owns (fst (ths ! t))" "lo_key (snd (ths ! t)) = k"
    using threads_matchD(2) [OF assms(2)] by blast
  then have "thread_inv kf (done_flags i) mp (ths ! t)" using assms(1) by (simp add: flights_ok_def)
  then show False using t assms(3) by (auto simp: thread_inv_def done_flags_def Let_def)
qed

lemma validate_step_state:
  "fst (validate_step cfg env m lv i) = AtCommit \<Longrightarrow> ad_state (lo_art (snd (validate_step cfg env m lv i))) = ''Deployable''"
  by (auto simp: validate_step_def owner_validate_def make_deployable_def Let_def split: option.splits result.splits if_splits)

lemma validate_step_next: "\<exists>x y z. fst (validate_step cfg env m lv i) \<in> {AtCommit, AtFail x y z}"
  by (auto simp: validate_step_def Let_def split: option.splits sum.splits prod.splits)

text \<open>A step that keeps the ticket: the registry does not move.\<close>

lemma silent_step:
  assumes "flights_ok kf (done_flags i) mp ths" "threads_match i ths r" "t < length ths"
    and "lo_key (snd th') = lo_key (snd (ths ! t))" "im_heap i' = im_heap i" "fst th' \<notin> {AtWait, AtFast}"
    and "owns (fst th') = owns (fst (ths ! t))" "owns (fst th') \<Longrightarrow> ticket_of i t th' = ticket_of i t (ths ! t)"
    and "fst th' = AtCommit \<Longrightarrow> ad_state (lo_art (snd th')) = ''Deployable''"
    and r': "rg_open r' = rg_open r" "rg_joined r' = (rg_joined r)(t := None)"
  shows "threads_match i' (ths[t := th']) r'"
proof (rule threads_match_update [OF assms(1-4)])
  have "anchors i' = anchors i" using anchors_same [OF assms(5)] .
  then have tk: "ticket_of i' t th = ticket_of i t th" for th by (simp add: ticket_of_def)
  show "if owns (fst th') then rg_open r' (lo_key (snd th')) = Some (ticket_of i' t th') \<and>
        (owns (fst (ths ! t)) \<or> rg_open r (lo_key (snd th')) = None)
      else if owns (fst (ths ! t)) then rg_open r' (lo_key (snd th')) = None else rg_open r' = rg_open r"
    using threads_matchD(1) [OF assms(2,3)] assms(4,7,8) tk r'(1) by simp
qed (use assms(5,6,9) r' anchors_same [OF assms(5)] in simp_all)

text \<open>The registry as it is, and the registry whose caller no longer waits.\<close>

lemma quiet_step:
  assumes "flights_ok kf (done_flags i) mp ths" "threads_match i ths r" "t < length ths" "fst (ths ! t) \<noteq> AtWait"
    and "lo_key (snd th') = lo_key (snd (ths ! t))" "im_heap i' = im_heap i" "fst th' \<notin> {AtWait, AtFast}"
    and "owns (fst th') = owns (fst (ths ! t))" "owns (fst th') \<Longrightarrow> ticket_of i t th' = ticket_of i t (ths ! t)"
    and "fst th' = AtCommit \<Longrightarrow> ad_state (lo_art (snd th')) = ''Deployable''"
  shows "threads_match i' (ths[t := th']) r"
proof (rule silent_step [OF assms(1-3,5-10)])
  show "rg_joined r = (rg_joined r)(t := None)" using threads_matchD(3) [OF assms(2)] joined_None [of ths t, OF assms(4)] by (simp add: fun_upd_idem)
qed simp_all

lemma thread_step_seen:
  assumes flights: "flights_ok kf (done_flags i) (map_of (im_inflight i)) ths" and m: "threads_match i ths r" "impl_matches i r"
    and t: "t < length ths" and step: "thread_step cfg env m0 (ths ! t) i = Some (th', i')"
  shows "\<exists>r'. registry_step (thread_seen t (ths ! t) (fst th')) r = Some r' \<and> impl_matches i' r' \<and> threads_match i' (ths[t := th']) r'"
proof (cases "ths ! t")
  case (Pair pc lv)
  note grow = thread_step_grows(2) [OF step]
  note upd = threads_match_update [OF flights m(1) t _ grow] and quiet = quiet_step [OF flights m(1) t]
  have own: "lo_h lv < length (im_heap i) \<and> rg_open r (lo_key lv) = Some (ticket_of i t (ths ! t))" if "owns pc"
  proof -
    have "thread_inv kf (done_flags i) (map_of (im_inflight i)) (ths ! t)" using flights t by (simp add: flights_ok_def)
    moreover have "rg_open r (lo_key (snd (ths ! t))) = Some (ticket_of i t (ths ! t))"
      using threads_matchD(1) [OF m(1) t] that Pair by simp
    ultimately show ?thesis using that Pair by (auto simp: thread_inv_def done_flags_def Let_def)
  qed
  have joined: "rg_joined r t = (if pc = AtWait then Some (lo_h lv) else None)" "pc \<noteq> AtWait \<Longrightarrow> (rg_joined r)(t := None) = rg_joined r"
    using threads_matchD(3) [OF m(1)] t Pair by (auto simp: joined_of_def)
  have impl: "impl_matches j r" if "im_cache j = im_cache i" "im_cacheGen j = im_cacheGen i" "im_toolchainGen j = im_toolchainGen i" "im_heap j = im_heap i" for j
    using m(2) that ended_same [OF that(4)] by (simp add: impl_matches_def)
  show ?thesis
  proof (cases pc)
    case AtFast
    then obtain hit where f: "fast_path cfg (en_millis env m0) (lo_request lv) (lo_plan lv) (lo_key lv) i = Some (hit, i')"
      and th': "th' = (case hit of Some r \<Rightarrow> (Returned (Ok r), lv) | None \<Rightarrow> (AtJoin, lv))"
      using step Pair by (auto simp: thread_step_def)
    have wf: "key_wf (lo_key lv)" using threads_matchD(4) [OF m(1) t] AtFast Pair by simp
    have "threads_match i' (ths[t := th']) r"
      by (rule quiet) (use th' Pair AtFast fast_path_effect [OF f] in \<open>auto split: option.splits\<close>)
    then show ?thesis using fast_path_seen [OF f _ wf] m(2) th' Pair AtFast fast_path_effect [OF f] ended_same [of i' i]
      by (auto simp: thread_seen_def impl_matches_def Let_def split: option.splits)
  next
    case AtJoin
    obtain x j where j: "join_flight (lo_key lv) i = (x, j)" by fastforce
    note js = join_seen [OF j] and ja = join_anchors [OF j] and je = ended_join [OF j]
    show ?thesis
    proof (cases x)
      case (Inl h)
      then have th': "th' = (AtWait, lv\<lparr>lo_h := h\<rparr>)" "i' = j" using step Pair AtJoin j by (auto simp: thread_step_def)
      let ?r = "r\<lparr>rg_joined := (rg_joined r)(t := Some h)\<rparr>"
      obtain y where y: "rg_open r (lo_key lv) = Some y" "tk_no y = h" using owners_open [OF flights m(1)] js Inl by auto
      have "threads_match i' (ths[t := th']) ?r" by (rule upd) (use th' Pair AtJoin in auto)
      moreover have "impl_matches i' ?r" using m(2) ja je th' Inl by (simp add: impl_matches_def)
      ultimately show ?thesis using th' Pair AtJoin y joined(1) by (simp add: thread_seen_def Let_def)
    next
      case (Inr h)
      then have th': "th' = (AtBuild, lv\<lparr>lo_h := h\<rparr>)" "i' = j" using step Pair AtJoin j by (auto simp: thread_step_def)
      let ?tk = "\<lparr>tk_no = rg_opened r, tk_owner = t, tk_gens = rg_gens r, tk_made = None\<rparr>"
      let ?r = "r\<lparr>rg_open := (rg_open r)(lo_key lv := Some ?tk), rg_opened := rg_opened r + 1\<rparr>"
      have n: "rg_open r (lo_key lv) = None" using no_owner_closed [OF flights m(1)] js Inr by auto
      have "ticket_of i' t th' = ?tk" using th' ja Inr m(2)
        by (simp add: ticket_of_def impl_matches_def nth_append)
      then have "threads_match i' (ths[t := th']) ?r"
        by (intro upd) (use th' Pair AtJoin n joined(2) in auto)
      moreover have "impl_matches i' ?r" using m(2) ja je th' Inr by (simp add: impl_matches_def)
      ultimately show ?thesis using th' Pair AtJoin n by (simp add: thread_seen_def Let_def)
    qed
  next
    case AtWait
    then obtain x where w: "wake (lo_h lv) i = Some (x, i')" and th': "th' = (Returned x, lv)"
      using step Pair by (auto simp: thread_step_def)
    note ws = wake_seen [OF w]
    let ?r = "r\<lparr>rg_joined := (rg_joined r)(t := None)\<rparr>"
    have "thread_inv kf (done_flags i) (map_of (im_inflight i)) (ths ! t)" using flights t by (simp add: flights_ok_def)
    then have "lo_h lv < length (im_heap i)" using Pair AtWait by (simp add: thread_inv_def done_flags_def Let_def)
    then have "rg_ended r (lo_h lv) = Some (map_result rs_artifactBytes x)" using m(2) ws by (simp add: impl_matches_def ended_of_def)
    moreover have "threads_match i' (ths[t := th']) ?r"
      by (rule silent_step [OF flights m(1) t]) (use th' Pair AtWait ws in auto)
    moreover have "impl_matches i' ?r" using impl [of i'] ws by (simp add: impl_matches_def)
    ultimately show ?thesis using th' Pair AtWait joined(1) by (simp add: thread_seen_def Let_def)
  next
    case AtBuild
    then have "i' = i \<and> lo_key (snd th') = lo_key lv \<and> lo_h (snd th') = lo_h lv \<and> (fst th' = AtName \<or> (\<exists>c msg ops. fst th' = AtFail c msg ops))"
      using step Pair by (auto simp: thread_step_def to_name_def split: BuildResult.splits)
    then show ?thesis using quiet [of th' i'] Pair AtBuild m(2) by (auto simp: thread_seen_def ticket_of_def)
  next
    case (AtFail c msg ops)
    have th': "th' = (Returned (Err c msg), lv)" "i' = fail_flight (lo_h lv) c msg (fold obs_op ops) i"
      using step Pair AtFail by (auto simp: thread_step_def)
    have o: "lo_h lv < length (im_heap i)" "rg_open r (lo_key lv) = Some (ticket_of i t (ths ! t))" using own AtFail by auto
    let ?r = "end_ticket (lo_key lv) (Err c msg) r (ticket_of i t (ths ! t))"
    have "threads_match i' (ths[t := th']) ?r"
      by (rule upd) (use th' Pair AtFail joined(2) in \<open>auto simp: end_ticket_def\<close>)
    then show ?thesis using th' o Pair AtFail m(2) ended_fail [OF o(1)]
      by (simp add: thread_seen_def with_ticket_def ticket_of_def impl_matches_def end_ticket_def Let_def)
  next
    case AtName
    then have th': "th' = (AtGen, lv\<lparr>lo_idNo := im_artifactCounter i + 1\<rparr>)" "i' = i\<lparr>im_artifactCounter := im_artifactCounter i + 1\<rparr>"
      using step Pair by (auto simp: thread_step_def)
    then show ?thesis using quiet [of th' i'] Pair AtName impl [of i'] by (auto simp: thread_seen_def ticket_of_def)
  next
    case AtGen
    then have th': "th' = validate_step cfg env m0 lv i" "i' = i" using step Pair by (auto simp: thread_step_def)
    obtain x y z where n: "fst th' = AtCommit \<or> fst th' = AtFail x y z"
      using validate_step_next [of cfg env m0 lv i] th' by auto
    have "threads_match i' (ths[t := th']) r"
      by (rule quiet) (use th' n Pair AtGen validate_step_effect [of cfg env m0 lv i] validate_step_state [of cfg env m0 lv i]
        in \<open>auto simp: ticket_of_def\<close>)
    then show ?thesis using th'(2) Pair AtGen m(2) by (simp add: thread_seen_def Let_def)
  next
    case AtCommit
    let ?bs = "bo_executable (bt_output (lo_built lv))" and ?x = "ticket_of i t (ths ! t)"
    obtain ok res where c: "commit cfg env m0 (lo_h lv) (lo_plan lv) (lo_key lv) (lo_art lv) (lo_gen lv) ?bs i = Some (ok, i')"
      and th': "th' = (if ok then (AtFinish res, lv) else (Returned (Err ErrStaleGeneration stale_message), lv))" "rs_artifactBytes res = ?bs"
      using step Pair AtCommit by (auto simp: thread_step_def fresh_result_def)
    have o: "lo_h lv < length (im_heap i)" "rg_open r (lo_key lv) = Some ?x" using own AtCommit by auto
    have k: "keyed (im_cache i)" and d: "ad_state (lo_art lv) = ''Deployable''"
      using threads_matchD(5) [OF m(1) t] m(2) AtCommit Pair by (simp_all add: impl_matches_def)
    note cs = commit_seen [OF c k d o(1)] and ce = commit_effect [OF c] and en = ended_commit [OF c o(1)]
    show ?thesis
    proof (cases ok)
      case True
      let ?r = "r\<lparr>rg_open := (rg_open r)(lo_key lv := Some (?x\<lparr>tk_made := Some ?bs\<rparr>)),
          rg_served := (rg_served r)(lo_key lv := Some \<lparr>of_bytes = ?bs,
          of_id = ad_id (lo_art lv), of_gen = ad_generation (lo_art lv), of_tool = snd (rg_gens r)\<rparr>)\<rparr>"
      have "ticket_of i' t th' = ?x\<lparr>tk_made := Some ?bs\<rparr>" using th' True Pair anchors_same [of i' i] ce by (simp add: ticket_of_def)
      then have "threads_match i' (ths[t := th']) ?r" by (intro upd) (use th' True Pair AtCommit joined(2) in auto)
      moreover have "impl_matches i' ?r" using True cs m(2) ce en by (auto simp: impl_matches_def)
      ultimately show ?thesis using True th' o Pair AtCommit cs m(2)
        by (simp add: thread_seen_def with_ticket_def ticket_of_def impl_matches_def Let_def)
    next
      case False
      let ?r = "end_ticket (lo_key lv) (Err ErrStaleGeneration stale_message) r ?x"
      have "threads_match i' (ths[t := th']) ?r"
        by (rule upd) (use th' False Pair AtCommit joined(2) in \<open>auto simp: end_ticket_def\<close>)
      moreover have "impl_matches i' ?r" using False cs m(2) ce en Pair by (auto simp: impl_matches_def end_ticket_def ticket_of_def)
      ultimately show ?thesis using False th' o Pair AtCommit cs m(2)
        by (simp add: thread_seen_def with_ticket_def ticket_of_def impl_matches_def Let_def)
    qed
  next
    case (AtFinish res)
    have th': "th' = (Returned (Ok res), lv)" "i' = finish_flight (lo_h lv) res i"
      using step Pair AtFinish by (auto simp: thread_step_def)
    have o: "lo_h lv < length (im_heap i)" "rg_open r (lo_key lv) = Some (ticket_of i t (ths ! t))" using own AtFinish by auto
    let ?r = "end_ticket (lo_key lv) (Ok (rs_artifactBytes res)) r (ticket_of i t (ths ! t))"
    have "threads_match i' (ths[t := th']) ?r"
      by (rule upd) (use th' Pair AtFinish joined(2) in \<open>auto simp: end_ticket_def\<close>)
    then show ?thesis using th' o Pair AtFinish m(2) ended_finish [OF o(1)]
      by (simp add: thread_seen_def with_ticket_def ticket_of_def impl_matches_def end_ticket_def Let_def)
  next
    case (Returned x)
    then show ?thesis using step Pair by (simp add: thread_step_def)
  qed
qed

section \<open>The runtime is a registry\<close>

lemma threads_match_same:
  "im_heap i' = im_heap i \<Longrightarrow> rg_open r' = rg_open r \<Longrightarrow> rg_joined r' = rg_joined r \<Longrightarrow> threads_match i ths r \<Longrightarrow> threads_match i' ths r'"
  by (simp add: threads_match_def ticket_of_def anchors_same [of i' i])

lemma start_compile_key: "fst (start_compile c ok n now rq i) = AtFast \<Longrightarrow> key_wf (lo_key (snd (start_compile c ok n now rq i)))"
  by (auto simp: start_compile_def Let_def key_wf_build split: result.splits)

lemma start_compile_uncommitted: "fst (start_compile c ok n now rq i) \<noteq> AtCommit"
  by (simp add: start_compile_def Let_def split: result.splits)

lemma threads_match_call:
  assumes m: "threads_match i ths r"
  shows "threads_match i (ths @ [start_compile c ok n now rq j]) r"
proof -
  let ?th = "start_compile c ok n now rq j"
  have at: "(ths @ [?th]) ! t = (if t < length ths then ths ! t else ?th)" if "t < length (ths @ [?th])" for t
    using that by (auto simp: nth_append less_Suc_eq)
  show ?thesis unfolding threads_match_def
  proof (intro conjI allI impI)
    fix t assume t: "t < length (ths @ [?th])"
    show "rg_open r (lo_key (snd ((ths @ [?th]) ! t))) = Some (ticket_of i t ((ths @ [?th]) ! t))" if "owns (fst ((ths @ [?th]) ! t))"
      using that at [OF t] threads_matchD(1) [OF m, of t] start_compile_idle(1) by (auto split: if_splits)
    show "key_wf (lo_key (snd ((ths @ [?th]) ! t)))" if "fst ((ths @ [?th]) ! t) = AtFast"
      using that at [OF t] threads_matchD(4) [OF m, of t] start_compile_key by (auto split: if_splits)
    show "ad_state (lo_art (snd ((ths @ [?th]) ! t))) = ''Deployable''" if "fst ((ths @ [?th]) ! t) = AtCommit"
      using that at [OF t] threads_matchD(5) [OF m, of t] start_compile_uncommitted by (auto split: if_splits)
  next
    fix k assume "rg_open r k \<noteq> None"
    then obtain t where "t < length ths" "owns (fst (ths ! t))" "lo_key (snd (ths ! t)) = k" using threads_matchD(2) [OF m] by blast
    then show "\<exists>t < length (ths @ [?th]). owns (fst ((ths @ [?th]) ! t)) \<and> lo_key (snd ((ths @ [?th]) ! t)) = k"
      by (intro exI [of _ t]) (simp add: nth_append)
  next
    have "joined_of (ths @ [?th]) = joined_of ths" by (rule ext) (auto simp: joined_of_def nth_append start_compile_idle(2))
    then show "rg_joined r = joined_of (ths @ [?th])" using threads_matchD(3) [OF m] by simp
  qed
qed

lemma implements_step:
  assumes inv: "flight_inv w" and m: "implements w r" and step: "wstep su l w = Some w'"
  shows "\<exists>r'. registry_step (world_seen su l w w') r = Some r' \<and> implements w' r'"
proof (cases l)
  case (LCall n now rq)
  then show ?thesis using m step threads_match_call by (auto simp: wstep_def world_seen_def implements_def)
next
  case (LRun t m0)
  then obtain th' i' where t: "t < length (wo_threads w)" and w': "w' = w\<lparr>wo_threads := (wo_threads w)[t := th'], wo_impl := i'\<rparr>"
    and s: "thread_step (su_config su) (su_env su) m0 (wo_threads w ! t) (wo_impl w) = Some (th', i')"
    using step by (auto simp: wstep_def split: if_splits)
  obtain kf where "flights_ok kf (done_flags (wo_impl w)) (map_of (im_inflight (wo_impl w))) (wo_threads w)"
    using inv by (auto simp: flight_inv_def)
  from thread_step_seen [OF this _ _ t s] show ?thesis using m LRun w' t by (auto simp: world_seen_def implements_def)
next
  case (LOp op)
  obtain i' sc where o: "api_op (su_config su) op (wo_impl w) = Some i'" and w': "w' = w\<lparr>wo_impl := i', wo_scans := sc\<rparr>"
    using wstep_LOp step LOp by blast
  have m': "impl_matches (wo_impl w) r" "threads_match (wo_impl w) (wo_threads w) r" using m by (simp_all add: implements_def)
  have "\<exists>r'. registry_step (world_seen su l w w') r = Some r' \<and> impl_matches i' r' \<and> rg_open r' = rg_open r \<and> rg_joined r' = rg_joined r"
  proof (cases op)
    case (OpScan gone names)
    then show ?thesis using scan_matches [OF m'(1)] o LOp by (simp add: world_seen_def)
  next
    case (OpAdopt now res)
    then show ?thesis using recover_matches [OF m'(1), of res now] o LOp by (simp add: world_seen_def api_op_def)
  qed (use op_matches [OF m'(1) o] LOp in \<open>simp_all add: world_seen_def\<close>)
  then show ?thesis using w' m'(2) threads_match_same [OF api_op_flights(1) [OF o]] unfolding implements_def by fastforce
qed

interpretation registry: simulation "wstep su" flight_inv registry_step "world_seen su" implements for su
  by unfold_locales (rule implements_step)

definition registry_of :: "World \<Rightarrow> Registry" where
  "registry_of w = \<lparr>rg_served = offered (im_cache (wo_impl w)), rg_open = \<lambda>_. None,
     rg_gens = (im_cacheGen (wo_impl w), im_toolchainGen (wo_impl w)), rg_opened = 0, rg_ended = \<lambda>_. None, rg_joined = \<lambda>_. None\<rparr>"

lemma start_implements: "start_world w \<Longrightarrow> keyed (im_cache (wo_impl w)) \<Longrightarrow> implements w (registry_of w)"
  by (simp add: start_world_def implements_def impl_matches_def threads_match_def registry_of_def ended_of_def joined_of_def)

text \<open>
  C4: The runtime refines a registry that knows no threads, locks, plans or descriptors. Whatever
  the schedule of calls, thread steps and operations, recovery included, what its steps show
  can be replayed by the registry: a caller is answered from the cache exactly when an artifact
  is on offer for its key, and with the bytes on offer; a ticket is opened only for a key that
  has none, with a new number, publishes only under the generations of its opening, or is
  rejected exactly when they are no longer current, and ends once, by the caller that opened it
  and with the answer that caller gets; a caller that joined a ticket is told how the ticket of
  that number ended; each invalidation and supersession withdraws exactly the offers it names.
  At the end, cache, generations and attempts in flight are those of the registry.
\<close>

theorem runtime_refines:
  assumes "start_world w" "keyed (im_cache (wo_impl w))" "run (wstep su) ls w = Some w'"
  shows "\<exists>r. run registry_step (trace (wstep su) (world_seen su) ls w) (registry_of w) = Some r \<and> implements w' r"
  using registry.sim_run [OF start_flight_inv [OF assms(1)] start_implements [OF assms(1,2)] assms(3)] .

lemma runtime_refines_witness:
  "\<exists>w r x lv. run (wstep demo_setup) (demo_compile 0 @ [LOp (OpInvalidateKey 0 demo_key)]) demo_world = Some w \<and>
     wo_threads w = [(Returned (Ok x), lv)] \<and>
     run registry_step (trace (wstep demo_setup) (world_seen demo_setup) (demo_compile 0 @ [LOp (OpInvalidateKey 0 demo_key)]) demo_world)
       (registry_of demo_world) = Some r \<and> implements w r"
proof -
  obtain w1 x lv where w1: "run (wstep demo_setup) (demo_compile 0) demo_world = Some w1" "wo_threads w1 = [(Returned (Ok x), lv)]"
    using demo_cold_compiles [OF demo_world_cold, of 0] demo_start_world(3) by auto
  let ?w = "w1\<lparr>wo_impl := invalidateByKey 0 demo_key (wo_impl w1)\<rparr>"
  have r: "run (wstep demo_setup) (demo_compile 0 @ [LOp (OpInvalidateKey 0 demo_key)]) demo_world = Some ?w"
    using w1(1) by (simp add: run_append wstep_def api_op_def)
  have k: "keyed (im_cache (wo_impl demo_world))" using demo_start_world(2) by (simp add: keyed_def)
  show ?thesis using runtime_refines [OF demo_start_world(1) k r] r w1(2) by (intro exI [of _ ?w]) auto
qed

section \<open>What the registry guarantees\<close>

text \<open>
  Facts about runs of the registry carry over to the runtime: the tickets opened for a key
  are those that ended and the one that is open, and whatever is on offer was put there by
  a publication or a recovery and was not withdrawn since.
\<close>

fun begins :: "CompilationKey \<Rightarrow> Action \<Rightarrow> bool" where
  "begins k (Open _ k') = (k' = k)"
| "begins k _ = False"

fun ends :: "CompilationKey \<Rightarrow> Action \<Rightarrow> bool" where
  "ends k (Reject _ k' _) = (k' = k)"
| "ends k (Abandon _ k' _ _) = (k' = k)"
| "ends k (Finish _ k' _) = (k' = k)"
| "ends k _ = False"

definition ticket_delta :: "CompilationKey \<Rightarrow> Action \<Rightarrow> int" where
  "ticket_delta k a = (if begins k a then 1 else if ends k a then - 1 else 0)"

lemma registry_tickets:
  "registry_step a r = Some r' \<Longrightarrow> of_bool (rg_open r' k \<noteq> None) = of_bool (rg_open r k \<noteq> None) + ticket_delta k a"
  by (cases a) (auto simp: ticket_delta_def with_ticket_def end_ticket_def split: option.splits)

interpretation tickets: step_counter registry_step "\<lambda>r. of_bool (rg_open r k \<noteq> None)" "ticket_delta k" for k
  by unfold_locales (rule registry_tickets)

fun offers :: "CompilationKey \<Rightarrow> bytes \<Rightarrow> Action \<Rightarrow> bool" where
  "offers k bs (Publish _ k' bs' _ _) = (k' = k \<and> bs' = bs)"
| "offers k bs (Adopt xs) = (\<exists>x. (k, Some x) \<in> set xs \<and> of_bytes x = bs)"
| "offers k bs _ = False"

definition spares :: "CompilationKey \<Rightarrow> Offer \<Rightarrow> Action \<Rightarrow> bool" where
  "spares k x a \<longleftrightarrow> (\<forall>op. a = Withdraw op \<longrightarrow> \<not> withdrawn_by op k x)"

lemma fold_offers:
  "fold (\<lambda>(k, x) m. m(k := x)) xs m k = Some x \<Longrightarrow> m k = Some x \<or> (k, Some x) \<in> set xs"
proof (induction xs arbitrary: m)
  case (Cons a xs)
  obtain k' x' where a: "a = (k', x')" by fastforce
  then have "(m(k' := x')) k = Some x \<or> (k, Some x) \<in> set xs" using Cons.IH [of "m(k' := x')"] Cons.prems by simp
  then show ?case using a by (auto split: if_splits)
qed simp

lemma served_step:
  assumes "registry_step a r = Some r'" "rg_served r' k = Some x"
  shows "rg_served r k = Some x \<and> spares k x a \<or> offers k (of_bytes x) a"
proof (cases a)
  case (Adopt xs)
  then show ?thesis using assms fold_offers [of xs "rg_served r" k x] by (auto simp: spares_def)
qed (use assms in \<open>auto simp: spares_def with_ticket_def end_ticket_def split: option.splits if_splits\<close>)

lemma served_origin:
  assumes "run registry_step as r = Some r'" "rg_served r' k = Some x"
  shows "rg_served r k = Some x \<and> list_all (spares k x) as \<or>
    (\<exists>as1 a as2. as = as1 @ a # as2 \<and> offers k (of_bytes x) a \<and> list_all (spares k x) as2)"
  using assms
proof (induction as arbitrary: r' rule: rev_induct)
  case (snoc a as)
  then obtain r1 where r1: "run registry_step as r = Some r1" "registry_step a r1 = Some r'"
    by (auto simp: run_snoc bind_eq_Some_conv)
  from served_step [OF r1(2) snoc.prems(2)] show ?case
  proof
    assume "offers k (of_bytes x) a"
    then show ?case by (intro disjI2 exI [of _ as] exI [of _ a] exI [of _ "[]"]) simp
  next
    assume old: "rg_served r1 k = Some x \<and> spares k x a"
    then consider "rg_served r k = Some x" "list_all (spares k x) as"
      | as1 b as2 where "as = as1 @ b # as2" "offers k (of_bytes x) b" "list_all (spares k x) as2"
      using snoc.IH [OF r1(1)] by blast
    then show ?case
    proof cases
      case (2 as1 b as2)
      then show ?thesis using old by (intro disjI2 exI [of _ as1] exI [of _ b] exI [of _ "as2 @ [a]"]) simp
    qed (use old in simp)
  qed
qed simp

text \<open>Both for the runtime.\<close>

lemma attempts_balance:
  assumes "start_world w" "keyed (im_cache (wo_impl w))" "run (wstep su) ls w = Some w'"
  shows "sum_list (map (ticket_delta k) (trace (wstep su) (world_seen su) ls w)) =
    of_bool (\<exists>th \<in> set (wo_threads w'). owns (fst th) \<and> lo_key (snd th) = k)"
proof -
  obtain r where r: "run registry_step (trace (wstep su) (world_seen su) ls w) (registry_of w) = Some r" "implements w' r"
    using registry.sim_run [OF start_flight_inv [OF assms(1)] start_implements [OF assms(1,2)] assms(3)] by blast
  have "rg_open r k \<noteq> None \<longleftrightarrow> (\<exists>th \<in> set (wo_threads w'). owns (fst th) \<and> lo_key (snd th) = k)"
    using threads_matchD(1,2) r(2) unfolding implements_def by (metis (lifting) in_set_conv_nth not_None_eq)
  then show ?thesis using tickets.val_run [OF r(1), of k] by (simp add: registry_of_def)
qed

lemma offer_origin:
  assumes "start_world w" "im_cache (wo_impl w) = []" "run (wstep su) ls w = Some w'" "offered (im_cache (wo_impl w')) k = Some x"
  shows "\<exists>as1 a as2. trace (wstep su) (world_seen su) ls w = as1 @ a # as2 \<and> offers k (of_bytes x) a \<and> list_all (spares k x) as2"
proof -
  have k: "keyed (im_cache (wo_impl w))" using assms(2) by (simp add: keyed_def)
  obtain r where r: "run registry_step (trace (wstep su) (world_seen su) ls w) (registry_of w) = Some r" "implements w' r"
    using registry.sim_run [OF start_flight_inv [OF assms(1)] start_implements [OF assms(1) k] assms(3)] by blast
  then have "rg_served r k = Some x" using assms(4) by (simp add: implements_def impl_matches_def)
  from served_origin [OF r(1) this] show ?thesis using assms(2) by (simp add: registry_of_def offered_def)
qed

end
