(* ===== verification/CF_Progress.thy ===== *)
theory CF_Progress
  imports CF_Interleaving
begin

text \<open>
  Progress: no thread waits for ever on an attempt that nobody finishes. The owner of an
  entry can always take its next step, and a bounded number of them completes the entry.
\<close>

section \<open>The owner's way to completion\<close>

fun steps_left :: "Pc \<Rightarrow> nat" where
  "steps_left AtBuild = 5"
| "steps_left AtName = 4"
| "steps_left AtGen = 3"
| "steps_left AtCommit = 2"
| "steps_left (AtFinish _) = 1"
| "steps_left (AtFail _ _ _) = 1"
| "steps_left _ = 0"

lemma owner_step_left:
  assumes "thread_step cfg env m th i = Some (th', i')" "owns (fst th)"
  shows "owns (fst th') \<and> lo_h (snd th') = lo_h (snd th) \<and> steps_left (fst th') < steps_left (fst th) \<and> length (im_heap i') = length (im_heap i) \<or>
    (\<exists>r. fst th' = Returned r) \<and> done_flags i' = (done_flags i)[lo_h (snd th) := True]"
proof (cases th)
  case (Pair pc lv)
  have v: "steps_left (fst (validate_step cfg env m lv i)) < 3"
    by (auto simp: validate_step_def Let_def split: option.splits sum.splits prod.splits)
  show ?thesis
    using assms Pair v validate_step_effect [of cfg env m lv i]
    by (cases pc) (auto simp: thread_step_def to_name_def split: BuildResult.splits if_splits dest!: commit_effect)
qed

lemma owner_step_enabled:
  assumes "owns (fst th)" "fst th \<noteq> AtCommit"
  shows "thread_step cfg env m th i \<noteq> None"
  using assms by (cases th; cases "fst th") (auto simp: thread_step_def split: BuildResult.splits)

text \<open>
  A commit that is not enabled: the artifact is to be persisted and the text of its
  metadata is undefined, a number of it being out of the range of the cast that prints it.
\<close>

definition unwritable :: "CompilationFabricConfig \<Rightarrow> Local \<Rightarrow> bool" where
  "unwritable config lv \<longleftrightarrow> cf_persistenceEnabled config \<and> cf_persistOnCompile config \<and> cf_artifactRoot config \<noteq> [] \<and>
     encodeMeta (pr_default\<lparr>pr_id := ad_id (lo_art lv), pr_generation := lo_gen lv, pr_key := lo_key lv, pr_descriptor := lo_art lv,
       pr_contentBytes := bo_executable (bt_output (lo_built lv))\<rparr>) = None"

definition stuck_commit :: "Setup \<Rightarrow> nat \<Rightarrow> World \<Rightarrow> bool" where
  "stuck_commit su t w \<longleftrightarrow> fst (wo_threads w ! t) = AtCommit \<and> unwritable (su_config su) (snd (wo_threads w ! t))"

lemma commit_unwritable:
  assumes "thread_step cfg env m (AtCommit, lv) i = None"
  shows "unwritable cfg lv"
  using assms
  by (auto simp: thread_step_def commit_def persist_artifact_def ps_store_def unwritable_def Let_def split: if_splits)

lemma owner_completes:
  assumes "t < length (wo_threads w)" "owns (fst (wo_threads w ! t))" "lo_h (snd (wo_threads w ! t)) = h" "h < length (im_heap (wo_impl w))"
  shows "\<exists>n w'. n \<le> steps_left (fst (wo_threads w ! t)) \<and> run (wstep su) (replicate n (LRun t m)) w = Some w' \<and>
    length (wo_threads w') = length (wo_threads w) \<and> (\<forall>s. s \<noteq> t \<longrightarrow> wo_threads w' ! s = wo_threads w ! s) \<and>
    (fe_done (im_heap (wo_impl w') ! h) \<and> (\<exists>r. fst (wo_threads w' ! t) = Returned r) \<or> stuck_commit su t w')"
  using assms
proof (induction "steps_left (fst (wo_threads w ! t))" arbitrary: w rule: less_induct)
  case less
  show ?case
  proof (cases "thread_step (su_config su) (su_env su) m (wo_threads w ! t) (wo_impl w)")
    case None
    then have "fst (wo_threads w ! t) = AtCommit"
      using owner_step_enabled [OF less.prems(2), of "su_config su" "su_env su" m "wo_impl w"] by blast
    then have "stuck_commit su t w"
      using None commit_unwritable [of "su_config su" "su_env su" m "snd (wo_threads w ! t)" "wo_impl w"]
      by (cases "wo_threads w ! t") (simp add: stuck_commit_def)
    then show ?thesis by (intro exI [of _ 0] exI [of _ w]) simp
  next
    case (Some r)
    then obtain th' i' where st: "thread_step (su_config su) (su_env su) m (wo_threads w ! t) (wo_impl w) = Some (th', i')" by fastforce
    let ?w = "w\<lparr>wo_threads := (wo_threads w)[t := th'], wo_impl := i'\<rparr>"
    have step: "wstep su (LRun t m) w = Some ?w" using st less.prems(1) by (simp add: wstep_def)
    from owner_step_left [OF st less.prems(2)] show ?thesis
    proof
      assume l: "owns (fst th') \<and> lo_h (snd th') = lo_h (snd (wo_threads w ! t)) \<and>
        steps_left (fst th') < steps_left (fst (wo_threads w ! t)) \<and> length (im_heap i') = length (im_heap (wo_impl w))"
      then obtain n w' where n: "n \<le> steps_left (fst th')" "run (wstep su) (replicate n (LRun t m)) ?w = Some w'"
          "length (wo_threads w') = length (wo_threads w)" "\<forall>s. s \<noteq> t \<longrightarrow> wo_threads w' ! s = wo_threads w ! s"
          "fe_done (im_heap (wo_impl w') ! h) \<and> (\<exists>r. fst (wo_threads w' ! t) = Returned r) \<or> stuck_commit su t w'"
        using less.hyps [of ?w] less.prems by auto
      then show ?thesis using step l by (intro exI [of _ "Suc n"] exI [of _ w']) simp
    next
      assume r: "(\<exists>r. fst th' = Returned r) \<and> done_flags i' = (done_flags (wo_impl w))[lo_h (snd (wo_threads w ! t)) := True]"
      then have "length (im_heap i') = length (im_heap (wo_impl w))" by (metis done_flags_def length_list_update length_map)
      then have "fe_done (im_heap i' ! h)" using r less.prems(3,4) by (metis done_flags_def nth_list_update_eq nth_map length_map)
      moreover have "1 \<le> steps_left (fst (wo_threads w ! t))" using less.prems(2) by (cases "fst (wo_threads w ! t)") auto
      ultimately show ?thesis using step r less.prems(1) by (intro exI [of _ 1] exI [of _ ?w]) simp
    qed
  qed
qed

text \<open>
  C7: Every thread that waits on another's attempt can be released. In each world that can be
  reached, either the entry it waits on is done, and its own next step is enabled and its call
  returns; or a thread owns that very entry, opened for the same key, and at most five steps of
  that owner alone complete the entry and end its call, after which the waiter's step is enabled
  and its call returns. The only way the owner can stop short is a commit that is to persist an
  artifact whose metadata text is undefined.
\<close>

theorem waiter_released:
  assumes "reachable (wstep su) start_world w" "t < length (wo_threads w)" "fst (wo_threads w ! t) = AtWait"
    "lo_h (snd (wo_threads w ! t)) = h"
  shows "fe_done (im_heap (wo_impl w) ! h) \<and> (\<exists>r w''. wstep su (LRun t m) w = Some w'' \<and> fst (wo_threads w'' ! t) = Returned r) \<or>
    (\<exists>s n w'. is_owner w s \<and> lo_h (snd (wo_threads w ! s)) = h \<and> lo_key (snd (wo_threads w ! s)) = lo_key (snd (wo_threads w ! t)) \<and>
       n \<le> 5 \<and> run (wstep su) (replicate n (LRun s m)) w = Some w' \<and>
       (fe_done (im_heap (wo_impl w') ! h) \<and> (\<exists>r. fst (wo_threads w' ! s) = Returned r) \<and>
          (\<exists>r w''. wstep su (LRun t m) w' = Some w'' \<and> fst (wo_threads w'' ! t) = Returned r) \<or>
        stuck_commit su s w'))"
proof -
  have "flight_inv w" using assms(1) by (rule flights.inv_reachable) (rule start_flight_inv)
  then obtain kf where ok: "flights_ok kf (done_flags (wo_impl w)) (map_of (im_inflight (wo_impl w))) (wo_threads w)"
    by (auto simp: flight_inv_def)
  then have inv: "thread_inv kf (done_flags (wo_impl w)) (map_of (im_inflight (wo_impl w))) (wo_threads w ! s)"
    if "s < length (wo_threads w)" for s using that by (simp add: flights_ok_def)
  have h: "h < length (im_heap (wo_impl w))" "kf h = lo_key (snd (wo_threads w ! t))"
    using inv [OF assms(2)] assms(3,4) by (auto simp: thread_inv_def done_flags_def Let_def)
  have release: "\<exists>r w''. wstep su (LRun t m) w' = Some w'' \<and> fst (wo_threads w'' ! t) = Returned r"
    if "length (wo_threads w') = length (wo_threads w)" "wo_threads w' ! t = wo_threads w ! t" "fe_done (im_heap (wo_impl w') ! h)" for w'
    using that assms(2-4) by (cases "wo_threads w ! t") (simp add: wstep_def thread_step_def wake_def Let_def)
  show ?thesis
  proof (cases "fe_done (im_heap (wo_impl w) ! h)")
    case True
    then show ?thesis using release [of w] by blast
  next
    case False
    then obtain s where s: "s < length (wo_threads w)" "owns (fst (wo_threads w ! s))" "lo_h (snd (wo_threads w ! s)) = h"
      using ok h by (auto simp: flights_ok_def done_flags_def)
    have owner: "is_owner w s" "lo_key (snd (wo_threads w ! s)) = lo_key (snd (wo_threads w ! t))"
      using s inv [OF s(1)] h(2) by (auto simp: is_owner_def thread_inv_def Let_def)
    have ne: "s \<noteq> t" using s(2) assms(3) by auto
    have five: "steps_left (fst (wo_threads w ! s)) \<le> 5" by (cases "fst (wo_threads w ! s)") auto
    obtain n w' where n: "n \<le> steps_left (fst (wo_threads w ! s))" "run (wstep su) (replicate n (LRun s m)) w = Some w'"
        "length (wo_threads w') = length (wo_threads w)" "\<forall>s'. s' \<noteq> s \<longrightarrow> wo_threads w' ! s' = wo_threads w ! s'"
        "fe_done (im_heap (wo_impl w') ! h) \<and> (\<exists>r. fst (wo_threads w' ! s) = Returned r) \<or> stuck_commit su s w'"
      using owner_completes [OF s h(1), of su m] by blast
    have "n \<le> 5" "wo_threads w' ! t = wo_threads w ! t" using n(1,4) five ne by simp_all
    then show ?thesis using owner s(3) n(2,5) release [OF n(3)] by blast
  qed
qed

text \<open>One thread builds, another waits for it: the owner's steps release it.\<close>

lemma waiter_released_witness:
  "\<exists>w s n w' r w''. run (wstep demo_setup) (demo_open @ demo_wait) demo_world = Some w \<and> fst (wo_threads w ! 1) = AtWait \<and>
     is_owner w s \<and> n \<le> 5 \<and> run (wstep demo_setup) (replicate n (LRun s 9)) w = Some w' \<and>
     wstep demo_setup (LRun 1 9) w' = Some w'' \<and> fst (wo_threads w'' ! 1) = Returned r"
proof -
  obtain w where w: "run (wstep demo_setup) (demo_open @ demo_wait) demo_world = Some w"
    "wo_threads w = [(AtBuild, demo_local), (AtWait, demo_local)]" using demo_wait_run by blast
  then have r: "reachable (wstep demo_setup) start_world w" using demo_start_world(1) unfolding reachable_iff by blast
  have free: "\<not> stuck_commit demo_setup s w'" for s w' by (simp add: stuck_commit_def unwritable_def demo_setup_def)
  have o: "is_owner w 0" using w(2) by (simp add: is_owner_def)
  show ?thesis using waiter_released [OF r, of 1 0 9] w o free by (fastforce simp: demo_local_def intro: exI [of _ 0])
qed

end
