(* ===== verification/CF_Leases.thy ===== *)
theory CF_Leases
  imports CF_Interleaving
begin

text \<open>
  Leases against their specification, a counter per artifact, and the invalidation by
  dependency generation, which the encoding of the key makes ineffective.
\<close>

section \<open>Leases\<close>

datatype LeaseOp = LAcquire Id128 | LRelease CompilationLease

definition result_code :: "'a result \<Rightarrow> ErrorCode" where
  "result_code r = (case r of Ok _ \<Rightarrow> ErrOk | Err c _ \<Rightarrow> c)"

definition lease_step :: "LeaseOp \<Rightarrow> Impl \<Rightarrow> ErrorCode \<times> Impl" where
  "lease_step op i = (case op of
     LAcquire aid \<Rightarrow> (let (r, i') = acquire aid i in (result_code r, i'))
   | LRelease lease \<Rightarrow> (let (r, i') = release lease i in (result_code r, i')))"

text \<open>
  The specification: a number of leases per artifact. Taking a lease counts up, and
  beyond the maximum the count starts again from nothing; giving one back counts down and
  is an underflow at zero.
\<close>

definition spec_step :: "(Id128 \<Rightarrow> bool) \<Rightarrow> LeaseOp \<Rightarrow> (Id128 \<Rightarrow> nat) \<Rightarrow> ErrorCode \<times> (Id128 \<Rightarrow> nat)" where
  "spec_step present op c = (case op of
     LAcquire aid \<Rightarrow> if present aid then (ErrOk, c(aid := if kMaxLeases < c aid + 1 then 0 else c aid + 1)) else (ErrNotFound, c)
   | LRelease lease \<Rightarrow> (case ls_artifactId lease of
       None \<Rightarrow> (ErrInvalidArgument, c)
     | Some aid \<Rightarrow> if c aid = 0 then (ErrLeaseUnderflow, c) else (ErrOk, c(aid := c aid - 1))))"

fun codes :: "('o \<Rightarrow> 's \<Rightarrow> 'e \<times> 's) \<Rightarrow> 'o list \<Rightarrow> 's \<Rightarrow> 'e list \<times> 's" where
  "codes step [] s = ([], s)"
| "codes step (op # ops) s = (let (e, s') = step op s; (es, s'') = codes step ops s' in (e # es, s''))"

text \<open>A functional refinement, proved once: equal answers and abstracted states step by step.\<close>

locale refines =
  fixes step :: "'o \<Rightarrow> 's \<Rightarrow> 'e \<times> 's"
    and spec :: "'o \<Rightarrow> 'a \<Rightarrow> 'e \<times> 'a"
    and abs_of :: "'s \<Rightarrow> 'a"
    and inv :: "'s \<Rightarrow> bool"
  assumes step_refines: "inv s \<Longrightarrow> step op s = (e, s') \<Longrightarrow> spec op (abs_of s) = (e, abs_of s') \<and> inv s'"
begin

lemma codes_refines: "inv s \<Longrightarrow> codes step ops s = (es, s') \<Longrightarrow> codes spec ops (abs_of s) = (es, abs_of s') \<and> inv s'"
proof (induction ops arbitrary: s es)
  case (Cons op ops)
  obtain e s1 where s1: "step op s = (e, s1)" by fastforce
  obtain es1 where es: "codes step ops s1 = (es1, s')" "es = e # es1" using Cons.prems(2) s1 by (auto split: prod.splits)
  then show ?case using step_refines [OF Cons.prems(1) s1] Cons.IH [of s1 es1] by auto
qed simp

end

definition lease_count :: "Impl \<Rightarrow> Id128 \<Rightarrow> nat" where
  "lease_count i aid = length (leases_of aid i)"

definition has_artifact :: "(Id128 \<Rightarrow> bool) \<Rightarrow> Impl \<Rightarrow> bool" where
  "has_artifact present i \<longleftrightarrow> (\<forall>aid. present aid \<longleftrightarrow> find_artifact aid i \<noteq> None)"

lemma find_artifact_leases [simp]: "find_artifact aid (on_obs f (i\<lparr>im_leaseCounts := m\<rparr>)) = find_artifact aid i"
  by (simp add: find_artifact_def)

lemma lease_count_put:
  "lease_count (on_obs f (i\<lparr>im_leaseCounts := smap_put aid v (im_leaseCounts i)\<rparr>)) = (lease_count i)(aid := length v)"
  by (rule ext) (simp add: lease_count_def leases_of_def smap_get_put)

lemma acquire_refines:
  assumes "has_artifact present i" "lease_step (LAcquire aid) i = (e, i')"
  shows "spec_step present (LAcquire aid) (lease_count i) = (e, lease_count i') \<and> has_artifact present i'"
proof (cases "find_artifact aid i")
  case None
  then show ?thesis using assms by (auto simp: lease_step_def acquire_def spec_step_def has_artifact_def result_code_def)
next
  case (Some e')
  then have "present aid" using assms(1) by (simp add: has_artifact_def)
  moreover have "length (if kMaxLeases < length (leases_of aid i @ [0]) then [] else leases_of aid i @ [0]) =
      (if kMaxLeases < lease_count i aid + 1 then 0 else lease_count i aid + 1)" by (simp add: lease_count_def)
  ultimately show ?thesis using assms Some
    by (auto simp: lease_step_def acquire_def spec_step_def has_artifact_def result_code_def lease_count_put Let_def)
qed

lemma release_refines:
  assumes "has_artifact present i" "lease_step (LRelease l) i = (e, i')"
  shows "spec_step present (LRelease l) (lease_count i) = (e, lease_count i') \<and> has_artifact present i'"
  using assms
  by (auto simp: lease_step_def release_def spec_step_def has_artifact_def result_code_def lease_count_put lease_count_def leases_of_def
      Let_def split: option.splits if_splits)

interpretation leases: refines lease_step "spec_step present" lease_count "has_artifact present" for present
proof unfold_locales
  fix s op e s'
  assume "has_artifact present s" "lease_step op s = (e, s')"
  then show "spec_step present op (lease_count s) = (e, lease_count s') \<and> has_artifact present s'"
    by (cases op) (use acquire_refines release_refines in blast)+
qed

text \<open>
  C14: Leases refine a counter per artifact: over any sequence of acquire and release calls the
  error codes and the final counts are those of the specification, in which acquiring counts
  up for an artifact of the cache, in whatever state it is, giving back at zero is a lease
  underflow, and the 100001st lease silently resets the count to zero.
\<close>

theorem lease_refines:
  "codes (spec_step (\<lambda>aid. find_artifact aid i \<noteq> None)) ops (lease_count i) =
     (fst (codes lease_step ops i), lease_count (snd (codes lease_step ops i)))"
proof -
  have "has_artifact (\<lambda>aid. find_artifact aid i \<noteq> None) i" by (simp add: has_artifact_def)
  from leases.codes_refines [OF this prod.collapse [symmetric]] show ?thesis by blast
qed

text \<open>In every world the number of leases of an artifact stays within the maximum.\<close>

definition leases_bounded :: "World \<Rightarrow> bool" where
  "leases_bounded w \<longleftrightarrow> (\<forall>aid. lease_count (wo_impl w) aid \<le> kMaxLeases)"

lemma lease_count_same: "im_leaseCounts i' = im_leaseCounts i \<Longrightarrow> lease_count i' = lease_count i"
  by (rule ext) (simp add: lease_count_def leases_of_def)

lemma spec_bounded:
  assumes "spec_step present op c = (e, c')" "\<And>aid. c aid \<le> kMaxLeases"
  shows "c' aid \<le> kMaxLeases"
  using assms(1) assms(2) [of aid] by (cases op) (auto simp: spec_step_def split: option.splits if_splits)

lemma lease_step_bounded:
  assumes "\<And>aid. lease_count i aid \<le> kMaxLeases"
  shows "lease_count (snd (lease_step op i)) aid \<le> kMaxLeases"
proof -
  have "has_artifact (\<lambda>aid. find_artifact aid i \<noteq> None) i" by (simp add: has_artifact_def)
  from leases.step_refines [OF this prod.collapse [symmetric]] show ?thesis using assms by (blast intro: spec_bounded)
qed

lemma lease_step_snd: "snd (lease_step (LAcquire a) i) = snd (acquire a i)" "snd (lease_step (LRelease l) i) = snd (release l i)"
  by (simp_all add: lease_step_def split: prod.splits)

lemma fold_adopt_leases [simp]: "im_leaseCounts (fold adopt rs i) = im_leaseCounts i"
  by (induction rs arbitrary: i) (simp_all add: adopt_def)

lemma op_keeps_leases:
  assumes "api_op cfg op i = Some i'" "\<And>a. op \<noteq> OpAcquire a" "\<And>l. op \<noteq> OpRelease l"
  shows "im_leaseCounts i' = im_leaseCounts i"
  using assms by (cases op) (auto simp: op_defs adopt_all_def bump_cacheGen_def ebind_def split: option.splits eff.splits if_splits)

lemma thread_step_leases:
  assumes "thread_step cfg env m th i = Some (th', i')"
  shows "im_leaseCounts i' = im_leaseCounts i"
proof (cases th)
  case (Pair pc lv)
  show ?thesis
  proof (cases pc)
    case AtFast
    then show ?thesis using assms Pair by (auto simp: thread_step_def fast_path_def Let_def split: option.splits if_splits)
  next
    case AtJoin
    then show ?thesis using assms Pair
      by (auto simp: thread_step_def join_flight_def Let_def split: prod.splits sum.splits option.splits if_splits)
  next
    case AtCommit
    then show ?thesis using assms Pair
      by (auto simp: thread_step_def commit_def persist_artifact_def fail_flight_def Let_def split: if_splits)
  qed (use assms Pair in \<open>auto simp: thread_step_def wake_def fail_flight_def finish_flight_def Let_def split: BuildResult.splits if_splits\<close>)
qed

lemma leases_bounded_step:
  assumes inv: "leases_bounded w" and step: "wstep su l w = Some w'"
  shows "leases_bounded w'"
proof (cases l)
  case (LOp op)
  obtain i' sc where o: "api_op (su_config su) op (wo_impl w) = Some i'" and w': "w' = w\<lparr>wo_impl := i', wo_scans := sc\<rparr>"
    using wstep_LOp step LOp by blast
  have b: "lease_count (snd (lease_step lop (wo_impl w))) aid \<le> kMaxLeases" for lop aid
    using inv by (intro lease_step_bounded) (simp add: leases_bounded_def)
  consider a where "op = OpAcquire a" | r where "op = OpRelease r" | "\<And>a. op \<noteq> OpAcquire a" "\<And>l. op \<noteq> OpRelease l" by blast
  then show ?thesis
  proof cases
    case 1
    then show ?thesis using o w' b [of "LAcquire a"] by (simp add: leases_bounded_def api_op_def lease_step_snd)
  next
    case 2
    then show ?thesis using o w' b [of "LRelease r"] by (simp add: leases_bounded_def api_op_def lease_step_snd)
  next
    case 3
    then show ?thesis using inv w' lease_count_same [OF op_keeps_leases [OF o]] by (simp add: leases_bounded_def)
  qed
next
  case (LRun t m)
  then show ?thesis using inv step lease_count_same [OF thread_step_leases]
    by (fastforce simp: wstep_def leases_bounded_def split: if_splits)
qed (use inv step in \<open>auto simp: wstep_def leases_bounded_def\<close>)

interpretation leases_bounded: step_invariant "wstep su" leases_bounded for su
  by unfold_locales (rule leases_bounded_step)

text \<open>
  C15: Starting from a fabric without leases, no interleaving of calls, threads and operations
  makes an artifact hold more than 100000 leases.
\<close>

theorem lease_bounds:
  assumes "im_leaseCounts (wo_impl w) = []" "run (wstep su) ls w = Some w'"
  shows "lease_count (wo_impl w') aid \<le> 100000"
proof -
  have "leases_bounded w" using assms(1) by (simp add: leases_bounded_def lease_count_def leases_of_def)
  then have "leases_bounded w'" using assms(2) by (rule leases_bounded.inv_run)
  then show ?thesis by (simp add: leases_bounded_def kMaxLeases_def)
qed

lemma lease_bounds_witness:
  "\<exists>w'. run (wstep demo_setup) [LOp (OpAcquire (Id128 0 1))] demo_world = Some w' \<and> lease_count (wo_impl w') (Id128 0 1) \<le> 100000"
proof -
  obtain w' where w: "run (wstep demo_setup) [LOp (OpAcquire (Id128 0 1))] demo_world = Some w'"
    by (simp add: wstep_def api_op_def)
  have e: "im_leaseCounts (wo_impl demo_world) = []" by (simp add: demo_world_def fabric_init_def)
  show ?thesis using lease_bounds [OF e w] w by blast
qed

section \<open>Invalidation by dependency generation\<close>

lemma decU64_length: "decU64 s = Some x \<Longrightarrow> length s = 8"
  unfolding decU64_def consumed_all_def
  by (auto simp: rd_u64_def past_end_def reader_on_def skip_bytes_def split: rres.splits if_splits)

lemma length_encU64s: "length (encU64s vs) = 4 + 8 * length vs"
  by (induction vs) (auto simp: encU64s_def putU32BE_def putU64BE_def)

lemma dependency_field: "field_value (buildCompilationKey r p t) KF_DependencyGenerations =
  (if rq_dependencyGenerations r = [] then None else Some (encU64s (rq_dependencyGenerations r)))"
  unfolding field_value_inputs by (simp add: key_inputs_def unless_def)

lemma dependency_unread: "getU64 KF_DependencyGenerations (buildCompilationKey r p t) = None"
proof (cases "findField KF_DependencyGenerations (buildCompilationKey r p t)")
  case (Some e)
  then have "ke_value e = encU64s (rq_dependencyGenerations r)"
    using dependency_field [of r p t] by (auto simp: field_value_def split: if_splits)
  then have "length (ke_value e) \<noteq> 8" using length_encU64s by presburger
  then have "decU64 (ke_value e) = None" using decU64_length by (cases "decU64 (ke_value e)") auto
  then show ?thesis using Some by (simp add: getU64_def get_with_def)
qed (simp add: getU64_def get_with_def)

definition built_key :: "CompilationKey \<Rightarrow> bool" where
  "built_key k \<longleftrightarrow> (\<exists>r p t. k = buildCompilationKey r p t)"

definition cache_keys :: "(CompilationKey \<times> CacheEntry) list \<Rightarrow> CompilationKey set" where
  "cache_keys c = set (map (\<lambda>ke. ce_key (snd ke)) c)"

definition keys_built :: "World \<Rightarrow> bool" where
  "keys_built w \<longleftrightarrow> (\<forall>k \<in> cache_keys (im_cache (wo_impl w)). built_key k) \<and>
     (\<forall>th \<in> set (wo_threads w). (\<exists>r. fst th = Returned r) \<or> built_key (lo_key (snd th)))"

lemma cache_keys_map: "(\<And>e. ce_key (f e) = ce_key e) \<Longrightarrow> cache_keys (im_cache (map_entries f i)) = cache_keys (im_cache i)"
  by (simp add: cache_keys_def map_entries_def image_image case_prod_beta)

lemma cache_keys_put: "cache_keys (smap_put k e c) \<subseteq> insert (ce_key e) (cache_keys c)"
  using set_smap_put_sub [of k e c] by (fastforce simp: cache_keys_def)

lemma cache_keys_find: "map_of c k = Some e \<Longrightarrow> ce_key e \<in> cache_keys c"
  by (force simp: cache_keys_def dest: map_of_SomeD)

lemma marked_keys [simp]: "ce_key (invalidate_entry e) = ce_key e" "ce_key (supersede_entry e) = ce_key e"
  by (simp_all add: invalidate_entry_def supersede_entry_def)

lemma cache_keys_op:
  assumes "api_op cfg op i = Some i'" "\<not> is_recover_op op"
  shows "cache_keys (im_cache i') \<subseteq> cache_keys (im_cache i)"
proof (cases op)
  case (OpInvalidateKey now k)
  then show ?thesis using assms cache_keys_put [of k _ "im_cache i"] cache_keys_find [of "im_cache i" k]
    by (fastforce simp: op_defs split: option.splits)
qed (use assms in \<open>auto simp: op_defs cache_keys_map split: option.splits if_splits eff.splits\<close>)

lemma join_cache: "join_flight k i = (r, i') \<Longrightarrow> im_cache i' = im_cache i"
  by (auto simp: join_flight_def Let_def split: option.splits)

lemma thread_step_keys:
  assumes "thread_step cfg env m th i = Some (th', i')"
  shows "cache_keys (im_cache i') \<subseteq> insert (lo_key (snd th)) (cache_keys (im_cache i)) \<and> lo_key (snd th') = lo_key (snd th)"
proof -
  have "cache_keys (im_cache i') \<subseteq> insert (lo_key (snd th)) (cache_keys (im_cache i))"
  proof (cases th)
    case (Pair pc lv)
    show ?thesis
    proof (cases "pc = AtFast \<or> pc = AtCommit")
      case True
      then show ?thesis
      proof
        assume "pc = AtFast"
        then show ?thesis using assms Pair cache_keys_put [of "lo_key lv" _ "im_cache i"] cache_keys_find [of "im_cache i" "lo_key lv"]
          by (fastforce simp: thread_step_def fast_path_def Let_def split: option.splits if_splits)
      next
        assume "pc = AtCommit"
        then show ?thesis using assms Pair cache_keys_put [of "lo_key lv" _ "im_cache i"]
          by (auto simp: thread_step_def commit_def Let_def split: if_splits dest!: persist_simps) force
      qed
    next
      case False
      then have "im_cache i' = im_cache i" using assms Pair join_cache [of "lo_key lv" i]
        by (cases pc) (auto simp: thread_step_def wake_def Let_def split: prod.splits sum.splits BuildResult.splits if_splits)
      then show ?thesis by auto
    qed
  qed
  then show ?thesis using thread_step_effect [OF assms] by (auto simp: effect_of_def)
qed

lemma keys_built_step:
  assumes inv: "keys_built w" and step: "wstep su l w = Some w'" and l: "\<not> recovers l"
  shows "keys_built w'"
proof (cases l)
  case (LCall n now rq)
  have "(\<exists>r. fst (start_compile cfg ok n now rq i) = Returned r) \<or> built_key (lo_key (snd (start_compile cfg ok n now rq i)))" for cfg ok i
    by (auto simp: start_compile_def built_key_def Let_def split: result.splits)
  then show ?thesis using inv step LCall by (clarsimp simp: wstep_def keys_built_def)
next
  case (LOp op)
  obtain i' sc where o: "api_op (su_config su) op (wo_impl w) = Some i'" and w': "w' = w\<lparr>wo_impl := i', wo_scans := sc\<rparr>"
    using wstep_LOp step LOp by blast
  then show ?thesis using inv l LOp cache_keys_op [OF o] unfolding keys_built_def by auto
next
  case (LRun t m)
  then obtain th' i' where t: "t < length (wo_threads w)" and w': "w' = w\<lparr>wo_threads := (wo_threads w)[t := th'], wo_impl := i'\<rparr>"
    and st: "thread_step (su_config su) (su_env su) m (wo_threads w ! t) (wo_impl w) = Some (th', i')"
    using step by (auto simp: wstep_def split: if_splits)
  have "\<nexists>r. fst (wo_threads w ! t) = Returned r" using st by (cases "wo_threads w ! t") (auto simp: thread_step_def)
  then have "built_key (lo_key (snd (wo_threads w ! t)))" using inv nth_mem [OF t] by (auto simp: keys_built_def)
  then show ?thesis using inv thread_step_keys [OF st] unfolding keys_built_def w'
    by (auto dest!: set_update_subset_insert [THEN subsetD])
qed

interpretation keys: step_invariant "only (\<lambda>l. \<not> recovers l) (wstep su)" keys_built for su
  by unfold_locales (auto intro: keys_built_step)

text \<open>
  Invalidation by dependency generation never invalidates anything: in every world that a
  fabric with an empty cache reaches without recovery, it leaves all entries as they are,
  whatever dependency generations their requests named and whatever generation is given. It
  only advances the cache generation. The key stores the generations as a counted list, of
  4 + 8n bytes, and the operation reads the field as one 64-bit number.
\<close>

theorem dependency_invalidation_inert:
  assumes "im_cache (wo_impl w) = []" "wo_threads w = []" "run (wstep su) ls w = Some w'" "\<forall>l \<in> set ls. \<not> recovers l"
  shows "im_cache (invalidateByDependencyGeneration gen (wo_impl w')) = im_cache (wo_impl w') \<and>
    im_cacheGen (invalidateByDependencyGeneration gen (wo_impl w')) = im_cacheGen (wo_impl w') + 1"
proof -
  have "run (only (\<lambda>l. \<not> recovers l) (wstep su)) ls w = Some w'" using assms(3,4) run_only [of ls "\<lambda>l. \<not> recovers l" "wstep su" w] by simp
  moreover have "keys_built w" using assms(1,2) by (simp add: keys_built_def cache_keys_def)
  ultimately have "keys_built w'" by (blast intro: keys.inv_run)
  then have "getU64 KF_DependencyGenerations (ce_key e) = None" if "(k, e) \<in> set (im_cache (wo_impl w'))" for k e
    using that by (force simp: keys_built_def cache_keys_def built_key_def dependency_unread)
  then show ?thesis by (auto simp: invalidateByDependencyGeneration_def map_entries_def intro!: map_idI)
qed

lemma dependency_invalidation_inert_witness:
  "\<exists>w'. run (wstep demo_setup) demo_open demo_world = Some w' \<and>
     im_cacheGen (invalidateByDependencyGeneration 5 (wo_impl w')) = im_cacheGen (wo_impl w') + 1"
proof -
  obtain w' where w: "run (wstep demo_setup) demo_open demo_world = Some w'" using demo_open_run by blast
  have "\<forall>l \<in> set demo_open. \<not> recovers l" by (simp add: demo_open_def)
  from dependency_invalidation_inert [OF demo_start_world(2,3) w this] show ?thesis using w by blast
qed

end
