(* ===== verification/CF_Protocol.thy ===== *)
theory CF_Protocol
  imports CF_Persistence
begin

text \<open>
  The wire protocol of \<open>Protocol.hpp\<close> and \<open>Protocol.cpp\<close>: frame bodies, the
  authority envelope, the payloads of every message, and frames on a byte stream that the
  operating system delivers in pieces. \<open>send\<close> and \<open>recv\<close> are arguments: what each
  call returns. A payload whose JSON text C++ leaves undefined has no encoding.
\<close>

section \<open>Frames\<close>

definition kProtocolVersion :: u32 where "kProtocolVersion = 1"
definition kMaxFrameSize :: nat where "kMaxFrameSize = 2 ^ 20"

datatype MsgType = MsgType (msgType_value: u32)

abbreviation MT_Register :: MsgType where "MT_Register \<equiv> MsgType 1"
abbreviation MT_Capabilities :: MsgType where "MT_Capabilities \<equiv> MsgType 2"
abbreviation MT_Submit :: MsgType where "MT_Submit \<equiv> MsgType 3"
abbreviation MT_DispatchCompile :: MsgType where "MT_DispatchCompile \<equiv> MsgType 4"
abbreviation MT_CompileResult :: MsgType where "MT_CompileResult \<equiv> MsgType 5"
abbreviation MT_Result :: MsgType where "MT_Result \<equiv> MsgType 6"
abbreviation MT_CacheHit :: MsgType where "MT_CacheHit \<equiv> MsgType 7"
abbreviation MT_Invalidate :: MsgType where "MT_Invalidate \<equiv> MsgType 8"
abbreviation MT_Heartbeat :: MsgType where "MT_Heartbeat \<equiv> MsgType 9"
abbreviation MT_Shutdown :: MsgType where "MT_Shutdown \<equiv> MsgType 10"
abbreviation MT_Reject :: MsgType where "MT_Reject \<equiv> MsgType 11"
abbreviation MT_Control :: MsgType where "MT_Control \<equiv> MsgType 12"

definition msgTypeName :: "MsgType \<Rightarrow> string" where
  "msgTypeName t = (case map_of
     [(MT_Register, ''Register''), (MT_Capabilities, ''Capabilities''), (MT_Submit, ''Submit''),
      (MT_DispatchCompile, ''DispatchCompile''), (MT_CompileResult, ''CompileResult''), (MT_Result, ''Result''),
      (MT_CacheHit, ''CacheHit''), (MT_Invalidate, ''Invalidate''), (MT_Heartbeat, ''Heartbeat''),
      (MT_Shutdown, ''Shutdown''), (MT_Reject, ''Reject''), (MT_Control, ''Control'')] t of
     Some n \<Rightarrow> n | None \<Rightarrow> ''Unknown'')"

definition isValidType :: "u32 \<Rightarrow> bool" where
  "isValidType t \<longleftrightarrow> msgType_value MT_Register \<le> t \<and> t \<le> msgType_value MT_Control"

record ProtoFrame =
  pf_type :: MsgType
  pf_flags :: u32
  pf_seq :: u32
  pf_payload :: bytes

definition pf_default :: ProtoFrame where
  "pf_default = \<lparr>pf_type = MT_Heartbeat, pf_flags = 0, pf_seq = 0, pf_payload = []\<rparr>"

definition encodeFrameBody :: "ProtoFrame \<Rightarrow> bytes" where
  "encodeFrameBody f = putU32BE kProtocolVersion @ putU32BE (msgType_value (pf_type f)) @ putU32BE (pf_flags f) @
     putU32BE (pf_seq f) @ putU64BE (of_nat (length (pf_payload f))) @ pf_payload f"

text \<open>One read that a decoder gives up on; the readers of fixed width never throw.\<close>

definition rd_try :: "'a rres \<Rightarrow> ErrorCode \<Rightarrow> string \<Rightarrow> ('a \<Rightarrow> creader \<Rightarrow> 'b result) \<Rightarrow> 'b result" where
  "rd_try m c msg k = (case m of Got x r \<Rightarrow> k x r | Miss _ \<Rightarrow> Err c msg | Throw \<Rightarrow> Err c msg)"

definition decodeFrameBody :: "bytes \<Rightarrow> ProtoFrame result" where
  "decodeFrameBody body =
     rd_try (rd_u32 (reader_on body)) ErrTruncatedFrame ''truncated protocol version'' (\<lambda>v r.
       if v \<noteq> kProtocolVersion then Err ErrProtocolVersionMismatch ''protocol version mismatch''
       else rd_try (rd_u32 r) ErrTruncatedFrame ''truncated message type'' (\<lambda>type r.
         if \<not> isValidType type then Err ErrUnknownMessageType (''unknown message type '' @ dec_int (uint type))
         else rd_try (rd_u32 r) ErrTruncatedFrame ''truncated flags'' (\<lambda>flags r.
           rd_try (rd_u32 r) ErrTruncatedFrame ''truncated seq'' (\<lambda>seq r.
             rd_try (rd_bytesBlob r) ErrTruncatedFrame ''truncated payload'' (\<lambda>pd r.
               if hasRemaining r then Err ErrTrailingGarbage ''trailing garbage after frame''
               else Ok \<lparr>pf_type = MsgType type, pf_flags = flags, pf_seq = seq, pf_payload = pd\<rparr>)))))"

section \<open>The envelope\<close>

record ProtoEnvelope =
  pe_epoch :: u64
  pe_workerId :: u32
  pe_bootId :: Id128
  pe_cacheGen :: u64
  pe_toolchainGen :: u64
  pe_requestId :: Id128
  pe_attemptId :: Id128
  pe_artifactId :: Id128
  pe_artifactGen :: u64

definition pe_default :: ProtoEnvelope where
  "pe_default = \<lparr>pe_epoch = 0, pe_workerId = 0, pe_bootId = Id128 0 0, pe_cacheGen = 0, pe_toolchainGen = 0,
     pe_requestId = Id128 0 0, pe_attemptId = Id128 0 0, pe_artifactId = Id128 0 0, pe_artifactGen = 0\<rparr>"

definition kEnvelopeSize :: nat where
  "kEnvelopeSize = 8 + 4 + 16 + 8 + 8 + 16 + 16 + 16 + 8"

definition pe_encode :: "ProtoEnvelope \<Rightarrow> bytes" where
  "pe_encode e = putU64BE (pe_epoch e) @ putU32BE (pe_workerId e) @ w_u128 (pe_bootId e) @ putU64BE (pe_cacheGen e) @
     putU64BE (pe_toolchainGen e) @ w_u128 (pe_requestId e) @ w_u128 (pe_attemptId e) @ w_u128 (pe_artifactId e) @
     putU64BE (pe_artifactGen e)"

definition pe_decode :: "bytes \<Rightarrow> ProtoEnvelope result" where
  "pe_decode d =
     rd_try (rd_u64 (reader_on d)) ErrTruncatedFrame ''truncated epoch'' (\<lambda>epoch r.
     rd_try (rd_u32 r) ErrTruncatedFrame ''truncated worker id'' (\<lambda>workerId r.
     rd_try (rd_u128 r) ErrTruncatedFrame ''truncated boot id'' (\<lambda>boot r.
     rd_try (rd_u64 r) ErrTruncatedFrame ''truncated cache gen'' (\<lambda>cacheGen r.
     rd_try (rd_u64 r) ErrTruncatedFrame ''truncated toolchain gen'' (\<lambda>toolchainGen r.
     rd_try (rd_u128 r) ErrTruncatedFrame ''truncated request id'' (\<lambda>rid r.
     rd_try (rd_u128 r) ErrTruncatedFrame ''truncated attempt id'' (\<lambda>aid r.
     rd_try (rd_u128 r) ErrTruncatedFrame ''truncated artifact id'' (\<lambda>arid r.
     rd_try (rd_u64 r) ErrTruncatedFrame ''truncated artifact gen'' (\<lambda>artifactGen r.
       if hasRemaining r then Err ErrTrailingGarbage ''trailing garbage in envelope''
       else Ok \<lparr>pe_epoch = epoch, pe_workerId = workerId, pe_bootId = boot, pe_cacheGen = cacheGen, pe_toolchainGen = toolchainGen,
         pe_requestId = rid, pe_attemptId = aid, pe_artifactId = arid, pe_artifactGen = artifactGen\<rparr>)))))))))"

definition pe_toJson :: "ProtoEnvelope \<Rightarrow> Json" where
  "pe_toJson e = json_sets
     [(''epoch'', JNum (double_of_int (uint (pe_epoch e)))), (''worker_id'', JNum (double_of_int (uint (pe_workerId e)))),
      (''worker_boot'', JStr (toHex (pe_bootId e))), (''cache_gen'', JNum (double_of_int (uint (pe_cacheGen e)))),
      (''toolchain_gen'', JNum (double_of_int (uint (pe_toolchainGen e)))), (''request_id'', JStr (toHex (pe_requestId e))),
      (''attempt_id'', JStr (toHex (pe_attemptId e))), (''artifact_id'', JStr (toHex (pe_artifactId e))),
      (''artifact_gen'', JNum (double_of_int (uint (pe_artifactGen e))))]"

text \<open>\<open>readEnvelope\<close> advances the reader past the envelope and leaves it in place when it is not there.\<close>

definition readEnvelope :: "creader \<Rightarrow> (ProtoEnvelope option \<times> creader)" where
  "readEnvelope r = (case rd_rawBlob kEnvelopeSize r of
     Got es r' \<Rightarrow> (case pe_decode es of Ok e \<Rightarrow> (Some e, r') | Err _ _ \<Rightarrow> (None, r'))
   | Miss r' \<Rightarrow> (None, r') | Throw \<Rightarrow> (None, r))"

definition after_envelope :: "bytes \<Rightarrow> creader" where
  "after_envelope payload = snd (readEnvelope (reader_on payload))"

section \<open>Payloads\<close>

definition encodeRegister :: "ProtoEnvelope \<Rightarrow> Json \<Rightarrow> bytes option" where
  "encodeRegister env capabilities = map_option (\<lambda>caps. pe_encode env @ w_string caps) (json_dump capabilities)"

definition parse_or_empty :: "string \<Rightarrow> Json" where
  "parse_or_empty s = (case json_parse s of Some j \<Rightarrow> j | None \<Rightarrow> JObj [])"

definition decodeRegister :: "bytes \<Rightarrow> Json eff" where
  "decodeRegister payload = (case rd_str (after_envelope payload) of
     Got caps _ \<Rightarrow> Ret (parse_or_empty caps) | Miss _ \<Rightarrow> Ret (parse_or_empty []) | Throw \<Rightarrow> LengthError)"

definition encodeSubmit :: "ProtoEnvelope \<Rightarrow> CompilationRequest \<Rightarrow> bytes option" where
  "encodeSubmit env req = map_option (\<lambda>t. pe_encode env @ w_string t) (json_dump (rq_toJson req))"

definition rd_eff :: "'a rres \<Rightarrow> string \<Rightarrow> ('a \<Rightarrow> creader \<Rightarrow> 'b result eff) \<Rightarrow> 'b result eff" where
  "rd_eff m msg k = (case m of Got x r \<Rightarrow> k x r | Miss _ \<Rightarrow> Ret (Err ErrMalformedFrame msg) | Throw \<Rightarrow> LengthError)"

definition decodeSubmit :: "bytes \<Rightarrow> CompilationRequest result eff" where
  "decodeSubmit payload =
     rd_eff (rd_str (after_envelope payload)) ''truncated request payload'' (\<lambda>reqJson r.
       case json_parse reqJson of
         None \<Rightarrow> Ret (Err ErrMalformedFrame ''request JSON parse failed'')
       | Some j \<Rightarrow> (case rq_fromJson j of None \<Rightarrow> Undef | Some req \<Rightarrow> Ret (Ok req)))"

definition encodeDispatch :: "ProtoEnvelope \<Rightarrow> CompilationRequest \<Rightarrow> CompilationKey \<Rightarrow> bytes option" where
  "encodeDispatch env req key = map_option (\<lambda>t. let kbytes = makeCanonicalFields key
     in pe_encode env @ w_string t @ putU64BE (of_nat (length kbytes)) @ kbytes) (json_dump (rq_toJson req))"

definition decodeDispatch :: "bytes \<Rightarrow> (CompilationRequest \<times> CompilationKey) result eff" where
  "decodeDispatch payload =
     rd_eff (rd_str (after_envelope payload)) ''truncated dispatch request'' (\<lambda>reqJson r.
       case json_parse reqJson of
         None \<Rightarrow> Ret (Err ErrMalformedFrame ''dispatch JSON parse failed'')
       | Some j \<Rightarrow> (case rq_fromJson j of
           None \<Rightarrow> Undef
         | Some req \<Rightarrow> rd_eff (rd_u64 r) ''truncated key len'' (\<lambda>keyLen r.
             rd_eff (rd_rawBlob (unat keyLen) r) ''truncated key'' (\<lambda>kb r.
               if length kb \<noteq> unat keyLen then Ret (Err ErrMalformedFrame ''truncated key'')
               else (case fromCanonicalBytes kb of
                   None \<Rightarrow> Ret (Err ErrMalformedFrame ''dispatch key decode failed'')
                 | Some key \<Rightarrow> Ret (Ok (req, key)))))))"

definition encodeCompileResult :: "ProtoEnvelope \<Rightarrow> bool \<Rightarrow> Json \<Rightarrow> bytes option" where
  "encodeCompileResult env success res =
     map_option (\<lambda>t. pe_encode env @ w_u8 (if success then 1 else 0) @ w_string t) (json_dump res)"

definition decodeCompileResult :: "bytes \<Rightarrow> (Json \<times> bool) eff" where
  "decodeCompileResult payload = (case rd_u8 (after_envelope payload) of
     Got s r \<Rightarrow> (case rd_str r of
         Got res _ \<Rightarrow> Ret (parse_or_empty res, s \<noteq> 0) | Miss _ \<Rightarrow> Ret (JObj [], s \<noteq> 0) | Throw \<Rightarrow> LengthError)
   | _ \<Rightarrow> Ret (JObj [], False))"

definition encodeResult :: "ProtoEnvelope \<Rightarrow> CompilationResult \<Rightarrow> bytes option" where
  "encodeResult env res = map_option (\<lambda>t. pe_encode env @ w_string t @
     putU64BE (of_nat (length (rs_artifactBytes res))) @ rs_artifactBytes res) (json_dump (rs_toJson res))"

definition jid :: "Json \<Rightarrow> string \<Rightarrow> Id128" where
  "jid j k = (case json_get k j of None \<Rightarrow> Id128 0 0 | Some v \<Rightarrow> or_else (id_parse (asString v)) (Id128 0 0))"

definition jgeneration :: "Json \<Rightarrow> u64 option" where
  "jgeneration j = (case json_get ''generation'' j of None \<Rightarrow> Some 0 | Some g \<Rightarrow> to_u64 (asNumber g))"

definition jbool :: "Json \<Rightarrow> string \<Rightarrow> bool" where
  "jbool j k = (case json_get k j of None \<Rightarrow> False | Some v \<Rightarrow> asBool v)"

definition jstring :: "Json \<Rightarrow> string \<Rightarrow> string" where
  "jstring j k = (case json_get k j of None \<Rightarrow> [] | Some v \<Rightarrow> asString v)"

definition result_fields :: "Json \<Rightarrow> CompilationResult option" where
  "result_fields j =
     Option.bind (jgeneration j) (\<lambda>gen.
     Option.bind (jsub ad_fromJson ad_default (json_get ''artifact'' j)) (\<lambda>art.
       Some (rs_default\<lparr>rs_requestId := jid j ''request_id'', rs_planId := jid j ''plan_id'', rs_attemptId := jid j ''attempt_id'',
         rs_artifactId := jid j ''artifact_id'', rs_generation := gen, rs_artifact := art, rs_reused := jbool j ''reused'',
         rs_validated := jbool j ''validated'', rs_deployable := jbool j ''deployable'',
         rs_referenceMatched := jbool j ''reference_matched'', rs_backendUsed := jstring j ''backend_used''\<rparr>)))"

definition decodeResult :: "bytes \<Rightarrow> CompilationResult result eff" where
  "decodeResult payload =
     rd_eff (rd_str (after_envelope payload)) ''truncated result json'' (\<lambda>rjson r.
       case json_parse rjson of
         None \<Rightarrow> Ret (Err ErrMalformedFrame ''result JSON parse failed'')
       | Some j \<Rightarrow> (case result_fields j of
           None \<Rightarrow> Undef
         | Some res \<Rightarrow> rd_eff (rd_u64 r) ''truncated artifact len'' (\<lambda>byteLen r.
             rd_eff (rd_rawBlob (unat byteLen) r) ''truncated artifact bytes'' (\<lambda>ab r.
               if length ab \<noteq> unat byteLen then Ret (Err ErrMalformedFrame ''truncated artifact bytes'')
               else Ret (Ok (res\<lparr>rs_artifactBytes := ab\<rparr>))))))"

definition encodeReject :: "ProtoEnvelope \<Rightarrow> ErrorCode \<Rightarrow> string \<Rightarrow> bytes" where
  "encodeReject env reason msg = pe_encode env @ putU32BE (errorCode_value reason) @ w_string msg"

definition decodeRejectCode :: "bytes \<Rightarrow> ErrorCode" where
  "decodeRejectCode payload = (case rd_u32 (after_envelope payload) of Got c _ \<Rightarrow> ErrorCode c | _ \<Rightarrow> ErrMalformedFrame)"

datatype ControlKind = ControlKind (controlKind_value: u32)

abbreviation CK_RollEpoch :: ControlKind where "CK_RollEpoch \<equiv> ControlKind 1"
abbreviation CK_GetStats :: ControlKind where "CK_GetStats \<equiv> ControlKind 2"
abbreviation CK_Ping :: ControlKind where "CK_Ping \<equiv> ControlKind 3"
abbreviation CK_SetCacheGen :: ControlKind where "CK_SetCacheGen \<equiv> ControlKind 4"
abbreviation CK_SetToolchainGen :: ControlKind where "CK_SetToolchainGen \<equiv> ControlKind 5"

definition encodeControl :: "ControlKind \<Rightarrow> bytes" where
  "encodeControl k = putU32BE (controlKind_value k)"

definition decodeControl :: "bytes \<Rightarrow> ControlKind" where
  "decodeControl payload = (case rd_u32 (reader_on payload) of Got k _ \<Rightarrow> ControlKind k | _ \<Rightarrow> CK_Ping)"

definition encodeControlReply :: "string \<Rightarrow> bytes" where
  "encodeControlReply json = w_string json"

definition decodeControlReply :: "bytes \<Rightarrow> string result eff" where
  "decodeControlReply payload = rd_eff (rd_str (reader_on payload)) ''bad control reply'' (\<lambda>s _. Ret (Ok s))"

section \<open>Frames on a stream\<close>

text \<open>
  \<open>tx k n\<close> and \<open>rx k n a\<close> are what the k-th call of \<open>send\<close> and \<open>recv\<close>
  returns when it is given n bytes (and a are there to read). A loop that the system
  keeps at zero does not end: its value is \<open>None\<close>.
\<close>

type_synonym Send = "nat \<Rightarrow> nat \<Rightarrow> int"
type_synonym Recv = "nat \<Rightarrow> nat \<Rightarrow> nat \<Rightarrow> int"

partial_function (option) sendAll :: "Send \<Rightarrow> nat \<Rightarrow> bytes \<Rightarrow> bytes \<Rightarrow> (unit result \<times> nat \<times> bytes) option" where
  "sendAll tx k out d =
     (if d = [] then Some (Ok (), k, out)
      else if tx k (length d) < 0 then Some (Err ErrIOError ''send failed'', Suc k, out)
      else sendAll tx (Suc k) (out @ take (nat (tx k (length d))) d) (drop (nat (tx k (length d))) d))"

partial_function (option) recvAll :: "Recv \<Rightarrow> nat \<Rightarrow> bytes \<Rightarrow> nat \<Rightarrow> bytes \<Rightarrow> (bytes result \<times> nat \<times> bytes) option" where
  "recvAll rx k got n inp =
     (if n = 0 then Some (Ok got, k, inp)
      else if rx k n (length inp) = 0 then Some (Err ErrIOError ''connection closed'', Suc k, inp)
      else if rx k n (length inp) < 0 then Some (Err ErrIOError ''recv failed'', Suc k, inp)
      else recvAll rx (Suc k) (got @ take (nat (rx k n (length inp))) inp) (n - nat (rx k n (length inp)))
             (drop (nat (rx k n (length inp))) inp))"

definition sendFrame :: "Send \<Rightarrow> ProtoFrame \<Rightarrow> (unit result \<times> bytes) option" where
  "sendFrame tx f =
     (let body = encodeFrameBody f
      in if kMaxFrameSize < length body then Some (Err ErrFrameTooLarge ''frame exceeds max size'', [])
         else Option.bind (sendAll tx 0 [] (putU32BE (of_nat (length body)))) (\<lambda>(r, k, out).
           if \<not> result_ok r then Some (r, out)
           else map_option (\<lambda>(r, k, out). (r, out)) (sendAll tx k out body)))"

definition u32_of :: "bytes \<Rightarrow> u32" where
  "u32_of b = push_bit 24 (ucast (b ! 0)) OR push_bit 16 (ucast (b ! 1)) OR push_bit 8 (ucast (b ! 2)) OR ucast (b ! 3)"

definition recvFrame :: "Recv \<Rightarrow> bytes \<Rightarrow> (ProtoFrame result \<times> bytes) option" where
  "recvFrame rx inp =
     Option.bind (recvAll rx 0 [] 4 inp) (\<lambda>(r, k, inp).
       case r of
         Err c msg \<Rightarrow> Some (Err c msg, inp)
       | Ok lenb \<Rightarrow>
           let len = unat (u32_of lenb)
           in if len = 0 then Some (Err ErrMalformedFrame ''zero-length frame'', inp)
              else if kMaxFrameSize < len then Some (Err ErrOverSizedFrame ''frame exceeds maximum size'', inp)
              else map_option (\<lambda>(r, k, inp).
                  (case r of Err c msg \<Rightarrow> Err ErrTruncatedFrame (''truncated frame body: '' @ msg) | Ok body \<Rightarrow> decodeFrameBody body, inp))
                (recvAll rx k [] len inp))"

section \<open>Decoders accept exactly the encodings\<close>

lemma blob_to_end:
  assumes r: "rwf r" and d: "rd_bytesBlob r = Got pd r'" and e: "\<not> hasRemaining r'"
  shows "view r = blob_bytes pd"
proof -
  from d obtain len r1 where u: "rd_u64 r = Got len r1" and p: "\<not> past_end r1 (unat len)"
    and pd: "pd = take (unat len) (view r1)" and r': "r' = skip_bytes r1 (unat len)"
    by (auto simp: rd_bytesBlob_def rbind_Got split: if_splits)
  from c_u64.dec_sound [OF r u] have r1: "rwf r1" "view r = putU64BE len @ view r1" by auto
  obtain pre rest where at: "r1 = reader_at pre rest" and sm: "small (pre @ rest)" using rwf_cases [OF r1(1)] by blast
  have l: "length pre + length rest < 2 ^ 63" using small_length [OF sm] by simp
  have "length pre + unat len = length pre + length rest"
  proof (cases "length pre + unat len < 2 ^ 64")
    case True
    then show ?thesis using p e r' at l by (simp add: past_end_def hasRemaining_def skip_bytes_def reader_at_def)
  next
    case False
    have "unat len < 2 ^ 64" using unsigned_less [of len] by simp
    then have "(length pre + unat len) mod 2 ^ 64 = length pre + unat len - 2 ^ 64" using False l by (simp add: mod_if)
    then have "(length pre + unat len) mod 2 ^ 64 < length pre + length rest" using \<open>unat len < 2 ^ 64\<close> False by linarith
    then have "hasRemaining r'" by (simp add: r' at hasRemaining_def skip_bytes_def reader_at_def)
    then show ?thesis using e by blast
  qed
  then have n: "unat len = length rest" by simp
  then have "of_nat (length rest) = len" by (metis of_nat_unat ucast_id)
  then show ?thesis using r1(2) pd at n by (simp add: blob_bytes_def)
qed

lemma rd_try_Ok: "rd_try m c msg k = Ok y \<longleftrightarrow> (\<exists>x r. m = Got x r \<and> k x r = Ok y)"
  by (cases m) (simp_all add: rd_try_def)

lemma rd_try_Got [simp]: "rd_try (Got x r) c msg k = k x r"
  by (simp add: rd_try_def)

lemma frame_decodes:
  assumes "isValidType (msgType_value (pf_type f))" "small (encodeFrameBody f)"
  shows "decodeFrameBody (encodeFrameBody f) = Ok f"
proof -
  have "encodeFrameBody f = putU32BE kProtocolVersion @ putU32BE (msgType_value (pf_type f)) @ putU32BE (pf_flags f) @
      putU32BE (pf_seq f) @ blob_bytes (pf_payload f)" by (simp add: encodeFrameBody_def blob_bytes_def)
  then show ?thesis using assms unfolding decodeFrameBody_def reader_on_at
    by (simp add: codec)
qed

lemma frame_sound:
  assumes s: "small body" and d: "decodeFrameBody body = Ok f"
  shows "isValidType (msgType_value (pf_type f)) \<and> body = encodeFrameBody f"
proof -
  obtain ty fl sq pd r1 r2 r3 r4 r5 where
    r: "rd_u32 (reader_on body) = Got kProtocolVersion r1" "rd_u32 r1 = Got ty r2" "isValidType ty" "rd_u32 r2 = Got fl r3"
      "rd_u32 r3 = Got sq r4" "rd_bytesBlob r4 = Got pd r5" "\<not> hasRemaining r5"
    and f: "f = \<lparr>pf_type = MsgType ty, pf_flags = fl, pf_seq = sq, pf_payload = pd\<rparr>"
    using d by (auto simp: decodeFrameBody_def rd_try_Ok split: if_splits)
  note w = rwf_reader_on [OF s]
  note s1 = c_u32.dec_sound [OF w [THEN conjunct1] r(1)]
  note s2 = c_u32.dec_sound [OF s1 [THEN conjunct2, THEN conjunct1] r(2)]
  note s3 = c_u32.dec_sound [OF s2 [THEN conjunct2, THEN conjunct1] r(4)]
  note s4 = c_u32.dec_sound [OF s3 [THEN conjunct2, THEN conjunct1] r(5)]
  note s5 = blob_to_end [OF s4 [THEN conjunct2, THEN conjunct1] r(6,7)]
  show ?thesis using w s1 s2 s3 s4 s5 r(3) f by (simp add: encodeFrameBody_def blob_bytes_def)
qed

text \<open>
  C26: The frame decoder accepts exactly the encodings of frames with a known message type, and
  gives back the frame that was encoded: no other byte string decodes, whatever lengths it
  claims, and none of the fields is lost.
\<close>

theorem frame_exact:
  assumes "small body"
  shows "decodeFrameBody body = Ok f \<longleftrightarrow> isValidType (msgType_value (pf_type f)) \<and> body = encodeFrameBody f"
  using assms frame_decodes frame_sound by blast

lemma frame_exact_witness:
  "decodeFrameBody (encodeFrameBody \<lparr>pf_type = MT_Control, pf_flags = 0, pf_seq = 7, pf_payload = [1, 2]\<rparr>) =
     Ok \<lparr>pf_type = MT_Control, pf_flags = 0, pf_seq = 7, pf_payload = [1, 2]\<rparr>"
proof -
  let ?f = "\<lparr>pf_type = MT_Control, pf_flags = 0, pf_seq = 7, pf_payload = [1, 2]\<rparr>"
  have "small (encodeFrameBody ?f)" by (rule small_few) (simp add: encodeFrameBody_def)
  from frame_exact [OF this, of ?f] show ?thesis by (simp add: isValidType_def)
qed

lemma length_pe_encode [simp]: "length (pe_encode e) = kEnvelopeSize"
  by (simp add: pe_encode_def kEnvelopeSize_def)

lemma envelope_decodes: "pe_decode (pe_encode e) = Ok e"
proof -
  have "small (pe_encode e)" by (rule small_few) (simp add: kEnvelopeSize_def)
  then show ?thesis unfolding pe_decode_def pe_encode_def reader_on_at by (simp add: codec)
qed

lemma envelope_total:
  assumes "length d = kEnvelopeSize"
  shows "\<exists>e. d = pe_encode e"
proof -
  have u8: "\<exists>x. bs = putU64BE x" if "length bs = 8" for bs
    using be_bytes_be_join [of bs, where 'a = 64] that by (auto simp: putU64BE_be intro: exI [of _ "be_join bs"])
  have u4: "\<exists>x. bs = putU32BE x" if "length bs = 4" for bs
    using be_bytes_be_join [of bs, where 'a = 32] that by (auto simp: putU32BE_be intro: exI [of _ "be_join bs"])
  have u16: "\<exists>x. bs = w_u128 x" if l: "length bs = 16" for bs
  proof -
    obtain h k where "take 8 bs = putU64BE h" "drop 8 bs = putU64BE k" using u8 [of "take 8 bs"] u8 [of "drop 8 bs"] l by auto
    then have "bs = w_u128 (Id128 h k)" by (metis append_take_drop_id Id128.sel w_u128_def)
    then show ?thesis by blast
  qed
  let ?p = "\<lambda>a n. take n (drop a d)"
  have "d = ?p 0 8 @ ?p 8 4 @ ?p 12 16 @ ?p 28 8 @ ?p 36 8 @ ?p 44 16 @ ?p 60 16 @ ?p 76 16 @ ?p 92 8"
  proof -
    have *: "drop a d = ?p a n @ drop (a + n) d" for a n by (metis append_take_drop_id drop_drop add.commute)
    show ?thesis using *[of 0 8] *[of 8 4] *[of 12 16] *[of 28 8] *[of 36 8] *[of 44 16] *[of 60 16] *[of 76 16] *[of 92 8] assms
      by (simp add: kEnvelopeSize_def)
  qed
  moreover obtain a b c e f g h i j where
    "?p 0 8 = putU64BE a" "?p 8 4 = putU32BE b" "?p 12 16 = w_u128 c" "?p 28 8 = putU64BE e" "?p 36 8 = putU64BE f"
    "?p 44 16 = w_u128 g" "?p 60 16 = w_u128 h" "?p 76 16 = w_u128 i" "?p 92 8 = putU64BE j"
    using u8 [of "?p 0 8"] u4 [of "?p 8 4"] u16 [of "?p 12 16"] u8 [of "?p 28 8"] u8 [of "?p 36 8"] u16 [of "?p 44 16"]
      u16 [of "?p 60 16"] u16 [of "?p 76 16"] u8 [of "?p 92 8"] assms by (auto simp: kEnvelopeSize_def)
  ultimately have "d = pe_encode \<lparr>pe_epoch = a, pe_workerId = b, pe_bootId = c, pe_cacheGen = e, pe_toolchainGen = f,
      pe_requestId = g, pe_attemptId = h, pe_artifactId = i, pe_artifactGen = j\<rparr>" by (simp add: pe_encode_def)
  then show ?thesis by blast
qed

lemma readEnvelope_encode:
  assumes "small (pe_encode e @ rest)"
  shows "readEnvelope (reader_on (pe_encode e @ rest)) = (Some e, reader_at (pe_encode e) rest)"
  using rd_raw_enc [of "pe_encode e" kEnvelopeSize "[]" rest] assms
  by (simp add: readEnvelope_def reader_on_at envelope_decodes kEnvelopeSize_def)

section \<open>Transport\<close>

text \<open>What POSIX promises of \<open>send\<close> and \<open>recv\<close> on a connection that stays up.\<close>

definition tx_progress :: "Send \<Rightarrow> bool" where
  "tx_progress tx \<longleftrightarrow> (\<forall>k n. 0 < n \<longrightarrow> 0 < tx k n \<and> tx k n \<le> int n)"

definition rx_progress :: "Recv \<Rightarrow> bool" where
  "rx_progress rx \<longleftrightarrow> (\<forall>k n a. 0 < n \<and> 0 < a \<longrightarrow> 0 < rx k n a \<and> rx k n a \<le> int (min n a))"

lemma sendAll_ok:
  assumes "tx_progress tx"
  shows "\<exists>k'. sendAll tx k out d = Some (Ok (), k', out @ d)"
proof (induction "length d" arbitrary: k out d rule: less_induct)
  case less
  show ?case
  proof (cases "d = []")
    case False
    then have p: "0 < tx k (length d)" "tx k (length d) \<le> int (length d)" using assms by (auto simp: tx_progress_def)
    let ?n = "nat (tx k (length d))"
    have "length (drop ?n d) < length d" using p(1) False by (cases d) auto
    from less [OF this, of "Suc k" "out @ take ?n d"] show ?thesis using p False by (subst sendAll.simps) auto
  qed (subst sendAll.simps, simp)
qed

lemma sendAll_returns:
  assumes "\<forall>k n. 0 < n \<longrightarrow> tx k n \<noteq> 0"
  shows "\<exists>y. sendAll tx k out d = Some y"
proof (induction "length d" arbitrary: k out d rule: less_induct)
  case less
  show ?case
  proof (cases "d = [] \<or> tx k (length d) < 0")
    case False
    then have "0 < tx k (length d)" using assms by (metis length_greater_0_conv linorder_neqE)
    then have "length (drop (nat (tx k (length d))) d) < length d" using False by (cases d) auto
    from less [OF this] show ?thesis using False by (subst sendAll.simps) auto
  qed (subst sendAll.simps, auto)
qed

lemma recvAll_returns: "\<exists>y. recvAll rx k got n inp = Some y"
proof (induction n arbitrary: k got inp rule: less_induct)
  case (less n)
  show ?case
  proof (cases "n = 0 \<or> rx k n (length inp) \<le> 0")
    case False
    then have "n - nat (rx k n (length inp)) < n" by simp
    from less [OF this] show ?thesis using False by (subst recvAll.simps) auto
  qed (subst recvAll.simps, auto)
qed

lemma recvAll_ok:
  assumes "rx_progress rx" "n \<le> length inp"
  shows "\<exists>k'. recvAll rx k got n inp = Some (Ok (got @ take n inp), k', drop n inp)"
  using assms(2)
proof (induction n arbitrary: k got inp rule: less_induct)
  case (less n)
  show ?case
  proof (cases "n = 0")
    case False
    let ?r = "rx k n (length inp)"
    have p: "0 < ?r" "?r \<le> int (min n (length inp))"
      using assms(1) False less.prems unfolding rx_progress_def by (metis gr0I le_zero_eq)+
    then have "nat ?r \<le> n" "n - nat ?r < n" by linarith+
    moreover have "take (nat ?r) inp @ take (n - nat ?r) (drop (nat ?r) inp) = take n inp"
      using \<open>nat ?r \<le> n\<close> by (metis le_add_diff_inverse take_add)
    moreover have "drop (n - nat ?r) (drop (nat ?r) inp) = drop n inp" using \<open>nat ?r \<le> n\<close> by simp
    ultimately show ?thesis
      using less.IH [of "n - nat ?r" "drop (nat ?r) inp" "Suc k" "got @ take (nat ?r) inp"] p less.prems
      by (subst recvAll.simps) auto
  qed (subst recvAll.simps, simp)
qed

lemma u32_of_put: "u32_of (putU32BE x) = x"
proof -
  have "small (putU32BE x)" by (rule small_few) simp
  from c_u32.dec_whole [OF _ this] show ?thesis
    by (simp add: rd_u32_def past_end_def reader_on_def u32_of_def) (simp add: numeral_2_eq_2)
qed

lemma u32_of_length: "n < 2 ^ 32 \<Longrightarrow> unat (u32_of (putU32BE (of_nat n))) = n"
  by (simp add: u32_of_put unat_of_nat)

text \<open>
  C27: A frame with a known message type and a body of at most one mebibyte arrives unchanged: the
  sender puts its bytes on the stream however few bytes each send takes, and the receiver
  gets the frame and leaves what follows it, however the stream is cut into pieces.
\<close>

theorem frame_transport:
  assumes "tx_progress tx" "rx_progress rx" "isValidType (msgType_value (pf_type f))" "length (encodeFrameBody f) \<le> kMaxFrameSize"
  shows "\<exists>bs. sendFrame tx f = Some (Ok (), bs) \<and> (\<forall>rest. recvFrame rx (bs @ rest) = Some (Ok f, rest))"
proof -
  let ?b = "encodeFrameBody f" and ?l = "putU32BE (of_nat (length (encodeFrameBody f)))"
  obtain k where k: "sendAll tx 0 [] ?l = Some (Ok (), k, ?l)" using sendAll_ok [OF assms(1), of 0 "[]" ?l] by auto
  obtain k' where k': "sendAll tx k ?l ?b = Some (Ok (), k', ?l @ ?b)" using sendAll_ok [OF assms(1)] by blast
  have s: "sendFrame tx f = Some (Ok (), ?l @ ?b)" using assms(4) k k' by (simp add: sendFrame_def Let_def)
  have n: "unat (u32_of ?l) = length ?b" using assms(4) by (intro u32_of_length) (simp add: kMaxFrameSize_def)
  have b: "length ?b \<noteq> 0" by (simp add: encodeFrameBody_def)
  have small: "small ?b" using assms(4) by (simp add: small_def kMaxFrameSize_def)
  have "recvFrame rx ((?l @ ?b) @ rest) = Some (Ok f, rest)" for rest
  proof -
    obtain j where j: "recvAll rx 0 [] 4 ((?l @ ?b) @ rest) = Some (Ok ?l, j, ?b @ rest)"
      using recvAll_ok [OF assms(2), of 4 "(?l @ ?b) @ rest" 0 "[]"] by auto
    obtain j' where "recvAll rx j [] (length ?b) (?b @ rest) = Some (Ok ?b, j', rest)"
      using recvAll_ok [OF assms(2), of "length ?b" "?b @ rest" j "[]"] by auto
    then show ?thesis using j n b assms(4) frame_decodes [OF assms(3) small] by (simp add: recvFrame_def Let_def)
  qed
  then show ?thesis using s by blast
qed

lemma frame_transport_witness:
  "\<exists>bs. sendFrame (\<lambda>_ _. 1) pf_default = Some (Ok (), bs) \<and> recvFrame (\<lambda>_ _ a. int (min 1 a)) (bs @ [9]) = Some (Ok pf_default, [9])"
proof -
  have "tx_progress (\<lambda>_ _. 1)" "rx_progress (\<lambda>_ _ a. int (min 1 a))" by (auto simp: tx_progress_def rx_progress_def)
  moreover have "isValidType (msgType_value (pf_type pf_default))" "length (encodeFrameBody pf_default) \<le> kMaxFrameSize"
    by (simp_all add: pf_default_def isValidType_def encodeFrameBody_def kMaxFrameSize_def)
  ultimately show ?thesis using frame_transport [of "\<lambda>_ _. 1" "\<lambda>_ _ a. int (min 1 a)" pf_default] by blast
qed

text \<open>
  C28: Receiving a frame always comes to an end, whatever the system returns from recv; sending
  one comes to an end as soon as no send of a nonempty buffer returns zero.
\<close>

theorem transport_terminates:
  "(\<exists>y. recvFrame rx inp = Some y) \<and> ((\<forall>k n. 0 < n \<longrightarrow> tx k n \<noteq> 0) \<longrightarrow> (\<exists>y. sendFrame tx f = Some y))"
proof (intro conjI impI)
  obtain r k inp' where r: "recvAll rx 0 [] 4 inp = Some (r, k, inp')" using recvAll_returns [of rx 0 "[]" 4 inp] by auto
  show "\<exists>y. recvFrame rx inp = Some y"
  proof (cases r)
    case (Ok lenb)
    obtain y where "recvAll rx k [] (unat (u32_of lenb)) inp' = Some y" using recvAll_returns by blast
    then show ?thesis using r Ok by (simp add: recvFrame_def Let_def)
  qed (use r in \<open>simp add: recvFrame_def\<close>)
next
  assume tx: "\<forall>k n. 0 < n \<longrightarrow> tx k n \<noteq> 0"
  obtain r k out where "sendAll tx 0 [] (putU32BE (of_nat (length (encodeFrameBody f)))) = Some (r, k, out)"
    using sendAll_returns [OF tx] by (metis prod_cases3)
  moreover obtain y where "sendAll tx k out (encodeFrameBody f) = Some y" using sendAll_returns [OF tx] by blast
  ultimately show "\<exists>y. sendFrame tx f = Some y" by (simp add: sendFrame_def Let_def)
qed

lemma transport_terminates_witness: "\<exists>y. sendFrame (\<lambda>_ n. if n < 5 then 1 else - 1) pf_default = Some y"
  using transport_terminates [of "\<lambda>_ _ _. 0" "[]" "\<lambda>_ n. if n < 5 then 1 else - 1" pf_default] by simp

section \<open>Payloads\<close>

lemma after_envelope_encode: "small (pe_encode e @ rest) \<Longrightarrow> after_envelope (pe_encode e @ rest) = reader_at (pe_encode e) rest"
  by (simp add: after_envelope_def readEnvelope_encode)

lemma rd_eff_Got [simp]: "rd_eff (Got x r) msg k = k x r"
  by (simp add: rd_eff_def)

lemma request_text: "rq_ok req \<Longrightarrow> \<exists>t j. json_dump (rq_toJson req) = Some t \<and> json_parse t = Some j \<and> rq_fromJson j = Some (rq_kept req)"
  using json_ok_text [OF rq_to_ok] rq_from_to by blast

lemma submit_decodes:
  assumes "rq_ok req" "encodeSubmit env req = Some payload" "small payload"
  shows "decodeSubmit payload = Ret (Ok (rq_kept req))"
proof -
  obtain t j where t: "json_dump (rq_toJson req) = Some t" "json_parse t = Some j" "rq_fromJson j = Some (rq_kept req)"
    using request_text [OF assms(1)] by blast
  then have p: "payload = pe_encode env @ w_string t" using assms(2) by (simp add: encodeSubmit_def)
  then show ?thesis using t assms(3) by (simp add: decodeSubmit_def after_envelope_encode c_str.dec_enc_end)
qed

lemma dispatch_decodes:
  assumes "rq_ok req" "key_wf key" "\<forall>e \<in> set key. valid_tag (ke_tag e)"
    and "encodeDispatch env req key = Some payload" "small payload"
  shows "decodeDispatch payload = Ret (Ok (rq_kept req, key))"
proof -
  let ?k = "makeCanonicalFields key"
  obtain t j where t: "json_dump (rq_toJson req) = Some t" "json_parse t = Some j" "rq_fromJson j = Some (rq_kept req)"
    using request_text [OF assms(1)] by blast
  then have p: "payload = pe_encode env @ w_string t @ putU64BE (of_nat (length ?k)) @ ?k"
    using assms(4) by (simp add: encodeDispatch_def Let_def)
  then have k: "length ?k < 2 ^ 63" "unat (of_nat (length ?k) :: u64) = length ?k" "small ?k"
    using small_length [OF assms(5)] by (simp_all add: unat_length small_def)
  then show ?thesis using t assms(5) unfolding p
    by (simp add: decodeDispatch_def after_envelope_encode codec rd_raw_at key_bytes_back [OF assms(2,3)])
qed

text \<open>
  What the coordinator dispatches is what the worker decodes: the envelope and the key come
  back exactly, the request up to what its JSON form keeps, and the same request comes out
  of a submission by the client.
\<close>

theorem dispatch_roundtrip:
  assumes "rq_ok req" "key_wf key" "\<forall>e \<in> set key. valid_tag (ke_tag e)"
    and "encodeDispatch env req key = Some payload" "small payload" "encodeSubmit env req = Some payload'" "small payload'"
  shows "decodeDispatch payload = Ret (Ok (rq_kept req, key)) \<and> fst (readEnvelope (reader_on payload)) = Some env \<and>
    decodeSubmit payload' = Ret (Ok (rq_kept req))"
proof -
  obtain rest where "payload = pe_encode env @ rest" using assms(4) by (auto simp: encodeDispatch_def Let_def)
  then have "fst (readEnvelope (reader_on payload)) = Some env" using assms(5) by (simp add: readEnvelope_encode)
  then show ?thesis using dispatch_decodes [OF assms(1-5)] submit_decodes [OF assms(1,6,7)] by simp
qed

text \<open>Requests with a short source and otherwise default members fit into a frame.\<close>

definition short_request :: "string \<Rightarrow> CompilationRequest" where "short_request src = rq_default\<lparr>rq_source := src\<rparr>"

lemma short_request_ok: "rq_ok (short_request src)"
  by (simp add: short_request_def rq_ok_def rq_default_def num_ok_def zeroDigest_def)

lemma short_request_text:
  assumes "length src \<le> 10"
  shows "\<exists>t. json_dump (rq_toJson (short_request src)) = Some t \<and> length t \<le> 90000"
proof -
  let ?r = "short_request src"
  obtain t where t: "json_dump (rq_toJson ?r) = Some t" using request_text [OF short_request_ok] by blast
  have "length t \<le> jlen (rq_toJson ?r)" using dump_length [OF rq_to_ok [OF short_request_ok]] t by (simp add: json_dump_def)
  also have "jlen (rq_toJson ?r) \<le> 90000"
  proof -
    have names: "length (datatypeName DT_None) \<le> 99" "length (layoutName LO_None) \<le> 99" "length (quantizationName QM_None) \<le> 99"
      "length (precisionName PM_None) \<le> 99" "length (debugReleaseName DR_Release) \<le> 99" "length (determinismName DM_Unspecified) \<le> 99"
      "length (reproducibilityName RM_Unspecified) \<le> 99" "length (digestToHex zeroDigest) \<le> 99" by code_simp+
    show ?thesis unfolding rq_toJson_def
      by (rule order_trans [OF jlen_sets]) (use names assms in \<open>simp add: short_request_def rq_default_def toStrArray_def\<close>)
  qed
  finally show ?thesis using t by blast
qed

lemma small_mebibyte: "length d \<le> 2 ^ 20 \<Longrightarrow> small d"
  by (simp add: small_def)

definition short_key :: CompilationKey where "short_key = [KeyFieldEntry 1 [2]]"

lemma short_dispatch:
  assumes "length src \<le> 10"
  obtains d d' where "encodeDispatch env (short_request src) short_key = Some d" "small d"
    "encodeSubmit env (short_request src) = Some d'" "small d'"
proof -
  obtain t where t: "json_dump (rq_toJson (short_request src)) = Some t" and l: "length t \<le> 90000" using short_request_text [OF assms] by blast
  have m: "length (makeCanonicalFields short_key) \<le> 90000" by (simp add: makeCanonicalFields_def field_bytes_def short_key_def)
  let ?p = "pe_encode env @ w_string t @ putU64BE (of_nat (length (makeCanonicalFields short_key))) @ makeCanonicalFields short_key"
  let ?p' = "pe_encode env @ w_string t"
  have e: "encodeDispatch env (short_request src) short_key = Some ?p" "encodeSubmit env (short_request src) = Some ?p'"
    using t by (simp_all only: encodeDispatch_def encodeSubmit_def Let_def option.map)
  have "length (w_string t) \<le> 90008" using l by (simp add: w_string_def)
  then have "length ?p \<le> 2 ^ 20" "length ?p' \<le> 2 ^ 20" using m unfolding length_append length_pe_encode kEnvelopeSize_def by simp_all
  then show ?thesis using that e small_mebibyte by blast
qed

lemma short_key_wf: "key_wf short_key" "\<forall>e \<in> set short_key. valid_tag (ke_tag e)"
  unfolding short_key_def by (simp add: key_wf_def) code_simp

lemma dispatch_roundtrip_witness:
  "\<exists>d. encodeDispatch pe_default (short_request []) short_key = Some d \<and>
     decodeDispatch d = Ret (Ok (rq_kept (short_request []), short_key))"
proof -
  obtain d d' where d: "encodeDispatch pe_default (short_request []) short_key = Some d" "small d"
    "encodeSubmit pe_default (short_request []) = Some d'" "small d'" by (rule short_dispatch [of "[]" pe_default]) simp_all
  from dispatch_roundtrip [OF short_request_ok short_key_wf d] show ?thesis using d(1) by blast
qed

end
