(* ===== verification/CF_Distributed.thy ===== *)
theory CF_Distributed
  imports CF_Protocol CF_CpuBackend CF_Fabric
begin

text \<open>
  The distributed control plane of \<open>Distributed.cpp\<close>: the coordinator with one thread
  per connection, the worker's answer to a dispatch, and the client's calls. The coordinator's
  shared state is a record; every section under its mutex and every access to an atomic
  counter is one step of a thread, and threads interleave between steps. Frames arrive,
  connections break and sends fail as events. A step that lets an exception escape or has
  undefined behaviour ends the process.
\<close>

section \<open>Messages\<close>

definition readEnv :: "bytes \<Rightarrow> ProtoEnvelope" where
  "readEnv p =
     (if length p < kEnvelopeSize then pe_default
      else case pe_decode (take kEnvelopeSize p) of Ok e \<Rightarrow> e | Err _ _ \<Rightarrow> pe_default)"

definition resultFromJson :: "Json \<Rightarrow> CompilationResult option" where
  "resultFromJson j =
     Option.bind (jgeneration j) (\<lambda>gen.
     Option.bind (jsub ad_fromJson ad_default (json_get ''artifact'' j)) (\<lambda>art.
       Some (rs_default\<lparr>rs_requestId := jid j ''request_id'', rs_attemptId := jid j ''attempt_id'',
         rs_artifactId := jid j ''artifact_id'', rs_generation := gen, rs_artifact := art,
         rs_validated := jbool j ''validated'', rs_deployable := jbool j ''deployable'',
         rs_referenceMatched := jbool j ''reference_matched'', rs_backendUsed := jstring j ''backend_used'',
         rs_errorMessage := jstring j ''error_message''\<rparr>)))"

definition caps_string :: "string \<Rightarrow> string \<Rightarrow> Json \<Rightarrow> string" where
  "caps_string k d caps = (case json_get k caps of Some (JStr s) \<Rightarrow> s | _ \<Rightarrow> d)"

definition frame_of :: "MsgType \<Rightarrow> bytes \<Rightarrow> ProtoFrame" where
  "frame_of t payload = pf_default\<lparr>pf_type := t, pf_payload := payload\<rparr>"

section \<open>The coordinator's state\<close>

text \<open>
  A channel is the number of its connection. A promise is a cell of \<open>co_promises\<close>, empty
  until it is fulfilled; \<open>pending_\<close> holds the cell of a request.
\<close>

record Coord =
  co_epoch :: u64
  co_cacheGen :: u64
  co_toolchainGen :: u64
  co_workers :: "(u32, Json) smap"
  co_workerChannels :: "(u32, nat) smap"
  co_pending :: "(string, nat) smap"
  co_promises :: "CompilationResult option list"
  co_reqToKey :: "(string, string) smap"
  co_published :: "(string, Json) smap"
  co_artifactGen :: "(string, u64) smap"
  co_completed :: u64
  co_rejectedStale :: u64
  co_dispatched :: u64
  co_duplicateSuppressed :: u64

definition coord_init :: "u64 \<Rightarrow> u64 \<Rightarrow> u64 \<Rightarrow> Coord" where
  "coord_init epoch cacheGen toolchainGen = \<lparr>co_epoch = epoch, co_cacheGen = cacheGen, co_toolchainGen = toolchainGen,
     co_workers = [], co_workerChannels = [], co_pending = [], co_promises = [], co_reqToKey = [], co_published = [],
     co_artifactGen = [], co_completed = 0, co_rejectedStale = 0, co_dispatched = 0, co_duplicateSuppressed = 0\<rparr>"

definition rollEpoch :: "Coord \<Rightarrow> Coord" where "rollEpoch s = s\<lparr>co_epoch := co_epoch s + 1\<rparr>"

definition bumpCacheGeneration :: "Coord \<Rightarrow> Coord" where
  "bumpCacheGeneration s = s\<lparr>co_cacheGen := co_cacheGen s + 1\<rparr>"

definition bumpToolchainGeneration :: "Coord \<Rightarrow> Coord" where
  "bumpToolchainGeneration s = s\<lparr>co_toolchainGen := co_toolchainGen s + 1\<rparr>"

definition jcount :: "int \<Rightarrow> Json" where "jcount n = JNum (double_of_int n)"

definition coord_stats :: "Coord \<Rightarrow> Json" where
  "coord_stats s = json_sets
     [(''workers'', jcount (int (length (co_workers s)))), (''completed'', jcount (uint (co_completed s))),
      (''published_count'', jcount (int (length (co_published s)))), (''pending_count'', jcount (int (length (co_pending s)))),
      (''rejected_stale'', jcount (uint (co_rejectedStale s))), (''dispatched'', jcount (uint (co_dispatched s))),
      (''duplicate_suppressed'', jcount (uint (co_duplicateSuppressed s))), (''epoch'', jcount (uint (co_epoch s))),
      (''cache_gen'', jcount (uint (co_cacheGen s))), (''toolchain_gen'', jcount (uint (co_toolchainGen s))),
      (''worker_boots'', json_sets (map (\<lambda>(wid, caps). (dec_int (uint wid), JStr (caps_string ''boot_id'' [] caps))) (co_workers s)))]"

definition checkAuthority :: "ProtoEnvelope \<Rightarrow> bool \<Rightarrow> Coord \<Rightarrow> ErrorCode" where
  "checkAuthority env forWorker s =
     (if pe_epoch env \<noteq> co_epoch s then ErrStaleEpoch
      else if pe_cacheGen env \<noteq> co_cacheGen s \<or> pe_toolchainGen env \<noteq> co_toolchainGen s then ErrStaleGeneration
      else if forWorker then
        (case map_of (co_workers s) (pe_workerId env) of
           None \<Rightarrow> ErrStaleWorkerBoot
         | Some caps \<Rightarrow> if caps_string ''boot_id'' [] caps \<noteq> toHex (pe_bootId env) then ErrStaleWorkerBoot else ErrOk)
      else ErrOk)"

section \<open>The threads of the coordinator\<close>

text \<open>Where a worker's thread is between two accesses to the shared state.\<close>

datatype WPc =
    WRecv
  | WEpoch bytes
  | WCache bytes
  | WTool bytes
  | WLocked bytes
  | WKey ProtoEnvelope Json
  | WCount ProtoEnvelope Json string
  | WPublish ProtoEnvelope Json string

text \<open>What a client's thread has computed for a submission.\<close>

record Submission =
  sb_req :: CompilationRequest
  sb_plan :: CompilationPlan
  sb_key :: CompilationKey
  sb_worker :: u32
  sb_promise :: nat
  sb_env :: ProtoEnvelope
  sb_channel :: nat

datatype CPc =
    CRecv
  | CReply ControlKind
  | CMap Submission
  | CLookup Submission
  | CSelect Submission
  | CPend Submission
  | CEpoch Submission
  | CCache Submission
  | CTool Submission
  | CAttempt Submission
  | CChannel Submission
  | CDispatch Submission
  | CGiveUp Submission ErrorCode string
  | CWait Submission

datatype DPc = Fresh | Worker u32 WPc | Client CPc | Closed

text \<open>
  A step gives the new state, where the thread is, and the frames it sent with their
  connections. An exception that leaves a thread ends the process, as does, for all that
  can be said, undefined behaviour.
\<close>

datatype 'a fate = Goes 'a | Dies

definition after :: "'a eff \<Rightarrow> ('a \<Rightarrow> 'b fate) \<Rightarrow> 'b fate" where
  "after m k = (case m of Ret x \<Rightarrow> k x | _ \<Rightarrow> Dies)"

definition given :: "'a option \<Rightarrow> ('a \<Rightarrow> 'b fate) \<Rightarrow> 'b fate" where
  "given m k = (case m of Some x \<Rightarrow> k x | None \<Rightarrow> Dies)"

type_synonym DOut = "(Coord \<times> DPc \<times> (nat \<times> ProtoFrame) list) fate"

subsection \<open>Workers\<close>

definition register_worker :: "nat \<Rightarrow> bytes \<Rightarrow> Coord \<Rightarrow> DOut" where
  "register_worker c payload s =
     (if length payload < kEnvelopeSize then Goes (s, Closed, [])
      else let wid = pe_workerId (readEnv payload)
           in after (decodeRegister payload) (\<lambda>caps.
                Goes (s\<lparr>co_workers := smap_put wid caps (co_workers s), co_workerChannels := smap_put wid c (co_workerChannels s)\<rparr>,
                     Worker wid WRecv, [])))"

definition worker_lost :: "u32 \<Rightarrow> Coord \<Rightarrow> DOut" where
  "worker_lost wid s = Goes (s\<lparr>co_workers := smap_del wid (co_workers s), co_workerChannels := smap_del wid (co_workerChannels s)\<rparr>,
     Closed, [])"

definition worker_frame :: "nat \<Rightarrow> u32 \<Rightarrow> ProtoFrame \<Rightarrow> Coord \<Rightarrow> DOut" where
  "worker_frame c wid f s =
     (if pf_type f = MT_Shutdown then Goes (s, Closed, [])
      else if pf_type f = MT_Heartbeat then Goes (s, Worker wid WRecv, [(c, frame_of MT_Heartbeat [])])
      else if pf_type f \<noteq> MT_CompileResult \<or> length (pf_payload f) < kEnvelopeSize then Goes (s, Worker wid WRecv, [])
      else Goes (s, Worker wid (WEpoch (pf_payload f)), []))"

definition reject_stale :: "u32 \<Rightarrow> Coord \<Rightarrow> DOut" where
  "reject_stale wid s = Goes (s\<lparr>co_rejectedStale := co_rejectedStale s + 1\<rparr>, Worker wid WRecv, [])"

text \<open>The conditions that \<open>rejectStalePublication\<close> tests under the mutex.\<close>

definition stale_result :: "ProtoEnvelope \<Rightarrow> Coord \<Rightarrow> bool" where
  "stale_result env s \<longleftrightarrow>
     (case map_of (co_workers s) (pe_workerId env) of
        None \<Rightarrow> True
      | Some caps \<Rightarrow> json_get ''boot_id'' caps \<noteq> Some (JStr (toHex (pe_bootId env)))) \<or>
     pe_artifactGen env = 0 \<or>
     (case map_of (co_artifactGen s) (toHex (pe_artifactId env)) of None \<Rightarrow> False | Some g \<Rightarrow> pe_artifactGen env \<le> g) \<or>
     map_of (co_pending s) (toHex (pe_requestId env)) = None"

definition publish :: "u32 \<Rightarrow> ProtoEnvelope \<Rightarrow> Json \<Rightarrow> string \<Rightarrow> Coord \<Rightarrow> DOut" where
  "publish wid env j pubKey s =
     (let rid = toHex (pe_requestId env); aid = toHex (pe_artifactId env);
          newer = (case map_of (co_artifactGen s) aid of None \<Rightarrow> True | Some g \<Rightarrow> g < pe_artifactGen env);
          s1 = s\<lparr>co_published := smap_put pubKey j (co_published s),
                 co_artifactGen := (if newer then smap_put aid (pe_artifactGen env) (co_artifactGen s) else co_artifactGen s)\<rparr>
      in case map_of (co_pending s) rid of
           None \<Rightarrow> Goes (s1\<lparr>co_duplicateSuppressed := co_duplicateSuppressed s + 1\<rparr>, Worker wid WRecv, [])
         | Some h \<Rightarrow> given (resultFromJson j) (\<lambda>res.
               if co_promises s ! h \<noteq> None then Dies
               else Goes (s1\<lparr>co_promises := (co_promises s)[h := Some res], co_pending := smap_del rid (co_pending s)\<rparr>,
                      Worker wid WRecv, [])))"

fun worker_step :: "u32 \<Rightarrow> WPc \<Rightarrow> Coord \<Rightarrow> DOut option" where
  "worker_step wid WRecv s = None"
| "worker_step wid (WEpoch p) s = Some
     (if pe_epoch (readEnv p) \<noteq> co_epoch s then reject_stale wid s else Goes (s, Worker wid (WCache p), []))"
| "worker_step wid (WCache p) s = Some
     (if pe_cacheGen (readEnv p) \<noteq> co_cacheGen s then reject_stale wid s else Goes (s, Worker wid (WTool p), []))"
| "worker_step wid (WTool p) s = Some
     (if pe_toolchainGen (readEnv p) \<noteq> co_toolchainGen s then reject_stale wid s else Goes (s, Worker wid (WLocked p), []))"
| "worker_step wid (WLocked p) s = Some
     (if stale_result (readEnv p) s then reject_stale wid s
      else after (decodeCompileResult p) (\<lambda>(j, success).
        Goes (s, Worker wid (if success then WKey (readEnv p) j else WRecv), [])))"
| "worker_step wid (WKey env j) s = Some
     (let rid = toHex (pe_requestId env)
      in Goes (s, Worker wid (WCount env j (case map_of (co_reqToKey s) rid of Some k \<Rightarrow> k | None \<Rightarrow> rid)), []))"
| "worker_step wid (WCount env j k) s = Some
     (Goes (s\<lparr>co_completed := co_completed s + 1\<rparr>, Worker wid (WPublish env j k), []))"
| "worker_step wid (WPublish env j k) s = Some (publish wid env j k s)"


subsection \<open>Clients\<close>

text \<open>What planning takes from outside: the CUDA driver, the targets, the plan counter and the clock.\<close>

record PlanEnv =
  pn_cudaOk :: bool
  pn_targets :: "TargetDescriptor list"
  pn_no :: u64
  pn_now :: i64

definition submission :: "PlanEnv \<Rightarrow> CompilationRequest \<Rightarrow> Submission" where
  "submission pn req =
     (let config = cf_default\<lparr>cf_persistenceEnabled := False, cf_allowCuda := False\<rparr>;
          p = (case plan config (pn_cudaOk pn) [''cpu''] (pn_targets pn) (pn_no pn) (pn_now pn) req of Ok p \<Rightarrow> p | Err _ _ \<Rightarrow> pl_default);
          tc = tc_default\<lparr>tc_compiler := ''cf-cpu'', tc_backend := ''cpu'', tc_frontend := ''cf-frontend''\<rparr>
      in \<lparr>sb_req = req, sb_plan = p, sb_key = buildCompilationKey req p tc, sb_worker = 0, sb_promise = 0,
          sb_env = pe_default, sb_channel = 0\<rparr>)"

definition sb_rid :: "Submission \<Rightarrow> string" where "sb_rid sb = toHex (rq_requestId (sb_req sb))"

definition client_frame :: "PlanEnv \<Rightarrow> nat \<Rightarrow> ProtoFrame \<Rightarrow> Coord \<Rightarrow> DOut" where
  "client_frame pn c f s =
     (if pf_type f = MT_Control then
        let kind = decodeControl (pf_payload f)
        in Goes (if kind = CK_RollEpoch then rollEpoch s
                 else if kind = CK_SetCacheGen then bumpCacheGeneration s
                 else if kind = CK_SetToolchainGen then bumpToolchainGeneration s else s, Client (CReply kind), [])
      else if pf_type f = MT_Heartbeat then Goes (s, Client CRecv, [(c, frame_of MT_Heartbeat [])])
      else if pf_type f = MT_Invalidate then
        let env = readEnv (pf_payload f)
        in Goes (s\<lparr>co_published := smap_del (toHex (pe_requestId env)) (co_published s)\<rparr>, Client CRecv,
                 [(c, frame_of MT_Reject (encodeReject env ErrOk ''invalidated''))])
      else if pf_type f = MT_Submit then
        after (decodeSubmit (pf_payload f)) (\<lambda>dr. case dr of
          Err code msg \<Rightarrow> Goes (s, Client CRecv, [(c, frame_of MT_Reject (encodeReject pe_default code msg))])
        | Ok req \<Rightarrow> Goes (s, Client (CMap (submission pn req)), []))
      else Goes (s, Client CRecv, []))"

definition control_reply :: "ControlKind \<Rightarrow> Coord \<Rightarrow> Json" where
  "control_reply kind s =
     (if kind = CK_RollEpoch then json_sets [(''epoch'', jcount (uint (co_epoch s)))]
      else if kind = CK_SetCacheGen then json_sets [(''cache_gen'', jcount (uint (co_cacheGen s)))]
      else if kind = CK_SetToolchainGen then json_sets [(''toolchain_gen'', jcount (uint (co_toolchainGen s)))]
      else if kind = CK_GetStats then coord_stats s else JObj [])"

definition select_worker :: "string \<Rightarrow> (u32, Json) smap \<Rightarrow> u32 option" where
  "select_worker backend ws =
     map_option fst (find (\<lambda>(wid, caps). caps_string ''backend'' ''cpu'' caps =
       (if backend = ''cuda-nvrtc'' then ''cuda-nvrtc'' else ''cpu'')) ws)"

definition request_env :: "Submission \<Rightarrow> ProtoEnvelope" where
  "request_env sb = pe_default\<lparr>pe_requestId := rq_requestId (sb_req sb)\<rparr>"

definition answer :: "nat \<Rightarrow> Submission \<Rightarrow> CompilationResult \<Rightarrow> Coord \<Rightarrow> DOut" where
  "answer c sb res s =
     (if rs_error res = ErrOk
      then given (encodeResult (request_env sb) res) (\<lambda>p. Goes (s, Client CRecv, [(c, frame_of MT_Result p)]))
      else Goes (s, Client CRecv, [(c, frame_of MT_Reject (encodeReject (request_env sb) (rs_error res) (rs_errorMessage res)))]))"

definition dispatch :: "bool \<Rightarrow> bool \<Rightarrow> Submission \<Rightarrow> Coord \<Rightarrow> DOut" where
  "dispatch alive sent sb s =
     given (encodeDispatch (sb_env sb) (sb_req sb) (sb_key sb)) (\<lambda>p.
       let f = frame_of MT_DispatchCompile p
       in if \<not> alive then Dies
          else if sent \<and> length (encodeFrameBody f) \<le> kMaxFrameSize then Goes (s, Client (CWait sb), [(sb_channel sb, f)])
          else Goes (s, Client (CGiveUp sb ErrIOError ''dispatch failed''), []))"

fun client_step :: "(nat \<Rightarrow> bool) \<Rightarrow> bool \<Rightarrow> nat \<Rightarrow> CPc \<Rightarrow> Coord \<Rightarrow> DOut option" where
  "client_step alive sent c CRecv s = None"
| "client_step alive sent c (CReply kind) s = Some
     (given (json_dump (control_reply kind s)) (\<lambda>t. Goes (s, Client CRecv, [(c, frame_of MT_Control (encodeControlReply t))])))"
| "client_step alive sent c (CMap sb) s = Some
     (Goes (s\<lparr>co_reqToKey := smap_put (sb_rid sb) (key_toHex (sb_key sb)) (co_reqToKey s)\<rparr>, Client (CLookup sb), []))"
| "client_step alive sent c (CLookup sb) s = Some
     (case map_of (co_published s) (key_toHex (sb_key sb)) of
        None \<Rightarrow> Goes (s, Client (CSelect sb), [])
      | Some j \<Rightarrow> given (resultFromJson j) (\<lambda>cached.
          given (encodeResult (request_env sb) (cached\<lparr>rs_reused := True\<rparr>)) (\<lambda>p.
            Goes (s, Client CRecv, [(c, frame_of MT_Result p)]))))"
| "client_step alive sent c (CSelect sb) s = Some
     (case select_worker (pl_backend (sb_plan sb)) (co_workers s) of
        None \<Rightarrow> Goes (s, Client CRecv, [(c, frame_of MT_Reject (encodeReject (request_env sb) ErrNoBackend ''no capable worker''))])
      | Some wid \<Rightarrow> Goes (s, Client (CPend (sb\<lparr>sb_worker := wid\<rparr>)), []))"
| "client_step alive sent c (CPend sb) s = Some
     (let h = length (co_promises s)
      in Goes (s\<lparr>co_promises := co_promises s @ [None], co_pending := smap_put (sb_rid sb) h (co_pending s)\<rparr>,
           Client (CEpoch (sb\<lparr>sb_promise := h\<rparr>)), []))"
| "client_step alive sent c (CEpoch sb) s = Some
     (Goes (s, Client (CCache (sb\<lparr>sb_env := pe_default\<lparr>pe_epoch := co_epoch s, pe_workerId := sb_worker sb\<rparr>\<rparr>)), []))"
| "client_step alive sent c (CCache sb) s = Some
     (Goes (s, Client (CTool (sb\<lparr>sb_env := (sb_env sb)\<lparr>pe_cacheGen := co_cacheGen s\<rparr>\<rparr>)), []))"
| "client_step alive sent c (CTool sb) s = Some
     (Goes (s, Client (CAttempt (sb\<lparr>sb_env := (sb_env sb)\<lparr>pe_toolchainGen := co_toolchainGen s\<rparr>\<rparr>)), []))"
| "client_step alive sent c (CAttempt sb) s = Some
     (Goes (s\<lparr>co_dispatched := co_dispatched s + 1\<rparr>, Client (CChannel (sb\<lparr>sb_env := (sb_env sb)\<lparr>
        pe_requestId := rq_requestId (sb_req sb), pe_attemptId := fromU64 (co_dispatched s + 1)\<rparr>\<rparr>)), []))"
| "client_step alive sent c (CChannel sb) s = Some
     (case map_of (co_workerChannels s) (sb_worker sb) of
        None \<Rightarrow> Goes (s, Client (CGiveUp sb ErrNoBackend ''worker gone''), [])
      | Some ch \<Rightarrow> Goes (s, Client (CDispatch (sb\<lparr>sb_channel := ch\<rparr>)), []))"
| "client_step alive sent c (CDispatch sb) s = Some (dispatch (alive (sb_channel sb)) sent sb s)"
| "client_step alive sent c (CGiveUp sb code msg) s = Some
     (Goes (s\<lparr>co_pending := smap_del (sb_rid sb) (co_pending s)\<rparr>, Client CRecv,
        [(c, frame_of MT_Reject (encodeReject (sb_env sb) code msg))]))"
| "client_step alive sent c (CWait sb) s =
     map_option (\<lambda>res. answer c sb res s) (co_promises s ! sb_promise sb)"

section \<open>Connections\<close>

definition first_frame :: "PlanEnv \<Rightarrow> nat \<Rightarrow> ProtoFrame \<Rightarrow> Coord \<Rightarrow> DOut" where
  "first_frame pn c f s =
     (if pf_type f = MT_Register then register_worker c (pf_payload f) s
      else if pf_type f \<in> {MT_Submit, MT_Control, MT_Invalidate} then client_frame pn c f s
      else Goes (s, Closed, []))"

record DWorld =
  dw_coord :: Coord
  dw_threads :: "DPc list"
  dw_sent :: "(nat \<times> ProtoFrame) list"

datatype DEvent = Accept | Arrives nat ProtoFrame PlanEnv | Breaks nat | Runs nat bool

definition settle :: "DWorld \<Rightarrow> nat \<Rightarrow> DOut \<Rightarrow> DWorld fate" where
  "settle w c out = (case out of
     Dies \<Rightarrow> Dies
   | Goes (s, pc, fs) \<Rightarrow> Goes \<lparr>dw_coord = s, dw_threads = (dw_threads w)[c := pc], dw_sent = dw_sent w @ fs\<rparr>)"

definition alive :: "DWorld \<Rightarrow> nat \<Rightarrow> bool" where
  "alive w c \<longleftrightarrow> c < length (dw_threads w) \<and> dw_threads w ! c \<noteq> Closed"

fun event_of :: "DEvent \<Rightarrow> nat option" where
  "event_of Accept = None"
| "event_of (Arrives c f pn) = Some c"
| "event_of (Breaks c) = Some c"
| "event_of (Runs c sent) = Some c"

text \<open>What an event does to the thread it concerns, when the thread is waiting for it.\<close>

definition thread_out :: "(nat \<Rightarrow> bool) \<Rightarrow> DEvent \<Rightarrow> DPc \<Rightarrow> Coord \<Rightarrow> DOut option" where
  "thread_out al e pc s = (case e of
     Accept \<Rightarrow> None
   | Arrives c f pn \<Rightarrow> (case pc of
         Fresh \<Rightarrow> Some (first_frame pn c f s)
       | Worker wid w \<Rightarrow> if w = WRecv then Some (worker_frame c wid f s) else None
       | Client k \<Rightarrow> if k = CRecv then Some (client_frame pn c f s) else None
       | Closed \<Rightarrow> None)
   | Breaks c \<Rightarrow> (case pc of
         Fresh \<Rightarrow> Some (Goes (s, Closed, []))
       | Worker wid w \<Rightarrow> if w = WRecv then Some (worker_lost wid s) else None
       | Client k \<Rightarrow> if k = CRecv then Some (Goes (s, Closed, [])) else None
       | Closed \<Rightarrow> None)
   | Runs c sent \<Rightarrow> (case pc of
         Worker wid w \<Rightarrow> worker_step wid w s
       | Client k \<Rightarrow> client_step al sent c k s
       | _ \<Rightarrow> None))"

definition dstep :: "DWorld \<Rightarrow> DEvent \<Rightarrow> DWorld fate option" where
  "dstep w e = (case event_of e of
     None \<Rightarrow> Some (Goes (w\<lparr>dw_threads := dw_threads w @ [Fresh]\<rparr>))
   | Some c \<Rightarrow> if c < length (dw_threads w)
       then map_option (settle w c) (thread_out (alive w) e (dw_threads w ! c) (dw_coord w)) else None)"

inductive dreach :: "DWorld \<Rightarrow> DWorld \<Rightarrow> bool" where
  dreach_refl: "dreach w w"
| dreach_step: "dreach w w' \<Longrightarrow> dstep w' e = Some (Goes w'') \<Longrightarrow> dreach w w''"

definition dworld_init :: "u64 \<Rightarrow> u64 \<Rightarrow> u64 \<Rightarrow> DWorld" where
  "dworld_init epoch cacheGen toolchainGen =
     \<lparr>dw_coord = coord_init epoch cacheGen toolchainGen, dw_threads = [], dw_sent = []\<rparr>"

section \<open>The worker process\<close>

definition worker_registration :: "u32 \<Rightarrow> bool \<Rightarrow> bool \<Rightarrow> u64 \<Rightarrow> bytes option" where
  "worker_registration wid preferCuda cudaOk nanos =
     (let boot = fromU64 nanos
      in encodeRegister
           (pe_default\<lparr>pe_epoch := 1, pe_workerId := wid, pe_bootId := boot, pe_cacheGen := 1, pe_toolchainGen := 1\<rparr>)
           (json_sets [(''worker_id'', jcount (uint wid)), (''backend'', JStr (if preferCuda then ''cuda-nvrtc'' else ''cpu'')),
              (''target_architecture'', JStr (if preferCuda then ''sm_120'' else ''host-x86_64'')),
              (''compiler'', JStr (if preferCuda then ''nvrtc'' else ''cf-cpu'')), (''cuda'', JBool cudaOk),
              (''boot_id'', JStr (toHex boot))]))"

definition worker_result :: "Id128 \<Rightarrow> u64 \<Rightarrow> CompilationRequest \<Rightarrow> CompilationKey \<Rightarrow> BackendOutput result \<Rightarrow> CompilationResult \<times> bool" where
  "worker_result attempt nanos req key bo = (case bo of
     Err _ _ \<Rightarrow> (rs_default, False)
   | Ok out \<Rightarrow>
       let passed = vd_passed (bo_validation out)
       in (rs_default\<lparr>rs_requestId := rq_requestId req, rs_key := key, rs_attemptId := attempt,
             rs_artifactId := fromU64 (nanos AND 0x7FFFFFFFFFFFFFFF), rs_generation := 1, rs_validated := passed,
             rs_deployable := passed, rs_referenceMatched := vd_referenceComparison (bo_validation out),
             rs_backendUsed := ''cpu'', rs_artifactBytes := bo_executable out,
             rs_artifact := ad_default\<lparr>ad_backend := bo_backend out, ad_specialization := bo_specialization out,
               ad_validation := bo_validation out, ad_contentDigest := sha256 (bo_executable out)\<rparr>,
             rs_error := (if passed then ErrOk else ErrValidationFailed)\<rparr>, passed))"

definition worker_reply :: "u32 \<Rightarrow> Id128 \<Rightarrow> ProtoEnvelope \<Rightarrow> CompilationRequest \<Rightarrow> CompilationResult \<Rightarrow> ProtoEnvelope" where
  "worker_reply wid boot env req res = \<lparr>pe_epoch = pe_epoch env, pe_workerId = wid, pe_bootId = boot,
     pe_cacheGen = pe_cacheGen env, pe_toolchainGen = pe_toolchainGen env, pe_requestId = rq_requestId req,
     pe_attemptId = pe_attemptId env, pe_artifactId = rs_artifactId res, pe_artifactGen = rs_generation res\<rparr>"

text \<open>
  A dispatch: the result of decoding is dereferenced without a check, which throws when it
  is an error. The clocks are arguments.
\<close>

definition worker_compile :: "Fpu \<Rightarrow> (nat \<Rightarrow> i64) \<Rightarrow> u64 \<Rightarrow> u32 \<Rightarrow> Id128 \<Rightarrow> bytes \<Rightarrow> bytes fate" where
  "worker_compile fpu clk nanos wid boot payload =
     (let env = readEnv payload
      in after (decodeDispatch payload) (\<lambda>dr. case dr of
           Err _ _ \<Rightarrow> Dies
         | Ok (req, key) \<Rightarrow> after (cpu_compile fpu clk req) (\<lambda>bo.
             let (res, okFlag) = worker_result (pe_attemptId env) nanos req key bo
             in given (encodeCompileResult (worker_reply wid boot env req res) okFlag (rs_toJson res)) Goes)))"

datatype WorkerAct = Exits int | Answers "ProtoFrame list" | Aborts

definition worker_loop :: "Fpu \<Rightarrow> (nat \<Rightarrow> i64) \<Rightarrow> u64 \<Rightarrow> u32 \<Rightarrow> Id128 \<Rightarrow> ProtoFrame result \<Rightarrow> WorkerAct" where
  "worker_loop fpu clk nanos wid boot fr = (case fr of
     Err _ _ \<Rightarrow> Exits 1
   | Ok f \<Rightarrow>
       if pf_type f = MT_Shutdown then Exits 0
       else if pf_type f = MT_Heartbeat then Answers [frame_of MT_Heartbeat []]
       else if pf_type f \<noteq> MT_DispatchCompile then Answers []
       else case worker_compile fpu clk nanos wid boot (pf_payload f) of
           Dies \<Rightarrow> Aborts
         | Goes p \<Rightarrow> Answers [frame_of MT_CompileResult p])"

section \<open>The client\<close>

text \<open>
  The client's socket is moved into a channel for each exchange and moved back after it,
  except when sending fails: then it is gone.
\<close>

record DClient =
  dc_open :: bool
  dc_seq :: u32

text \<open>What the exchange of a frame came to: it could not be sent, or this was received.\<close>

datatype Exchange = SendFails | Receives "ProtoFrame result"

definition dc_after :: "Exchange \<Rightarrow> DClient \<Rightarrow> DClient" where
  "dc_after x c = c\<lparr>dc_open := (dc_open c \<and> x \<noteq> SendFails)\<rparr>"

definition roundTrip :: "Exchange \<Rightarrow> CompilationResult result eff" where
  "roundTrip x = (case x of
     SendFails \<Rightarrow> Ret (Err ErrIOError ''send failed'')
   | Receives (Err c m) \<Rightarrow> Ret (Err c m)
   | Receives (Ok f) \<Rightarrow>
       if pf_type f = MT_Reject then Ret (Err (decodeRejectCode (pf_payload f)) ''coordinator rejected'')
       else decodeResult (pf_payload f))"

definition client_submit :: "(ProtoFrame \<Rightarrow> Exchange) \<Rightarrow> CompilationRequest \<Rightarrow> DClient \<Rightarrow> (CompilationResult result \<times> DClient) fate" where
  "client_submit net req c =
     (let seq = dc_seq c + 1; env = pe_default\<lparr>pe_requestId := rq_requestId req, pe_attemptId := fromU64 (ucast seq)\<rparr>
      in given (encodeSubmit env req) (\<lambda>p.
           let x = net ((frame_of MT_Submit p)\<lparr>pf_seq := seq\<rparr>)
           in after (roundTrip x) (\<lambda>r. Goes (r, dc_after x (c\<lparr>dc_seq := seq\<rparr>)))))"

definition client_control :: "(ProtoFrame \<Rightarrow> Exchange) \<Rightarrow> ControlKind \<Rightarrow> DClient \<Rightarrow> (Json result \<times> DClient) fate" where
  "client_control net kind c =
     (let seq = dc_seq c + 1; x = net ((frame_of MT_Control (encodeControl kind))\<lparr>pf_seq := seq\<rparr>);
          c' = dc_after x (c\<lparr>dc_seq := seq\<rparr>)
      in case x of
          SendFails \<Rightarrow> Goes (Err ErrIOError ''send failed'', c')
        | Receives (Err _ m) \<Rightarrow> Goes (Err ErrIOError m, c')
        | Receives (Ok f) \<Rightarrow>
            if pf_type f \<noteq> MT_Control then Goes (Err ErrInternal ''bad control response'', c')
            else after (decodeControlReply (pf_payload f)) (\<lambda>s. Goes (case s of
                Err code m \<Rightarrow> Err code m
              | Ok t \<Rightarrow> (case json_parse t of None \<Rightarrow> Err ErrInternal ''control response parse failed'' | Some j \<Rightarrow> Ok j), c')))"

definition client_invalidate :: "(ProtoFrame \<Rightarrow> Exchange) \<Rightarrow> Id128 \<Rightarrow> DClient \<Rightarrow> unit result \<times> DClient" where
  "client_invalidate net i c =
     (let seq = dc_seq c + 1; env = pe_default\<lparr>pe_requestId := i\<rparr>;
          x = net ((frame_of MT_Invalidate (encodeReject env ErrOk ''invalidate''))\<lparr>pf_seq := seq\<rparr>)
      in ((case x of SendFails \<Rightarrow> Err ErrIOError ''send failed'' | Receives (Err _ m) \<Rightarrow> Err ErrIOError m | Receives (Ok _) \<Rightarrow> Ok ()),
          dc_after x (c\<lparr>dc_seq := seq\<rparr>)))"

end
