(* ===== verification/CF_Coordinator.thy ===== *)
theory CF_Coordinator
  imports CF_Distributed
begin

text \<open>
  What the coordinator keeps while its threads interleave. An invariant is a condition on the
  shared state and one on where each thread is; the locale \<open>thread_invariant\<close> asks
  that every step of a thread keeps both, its own and that of every other thread, and
  concludes for every world that can be reached. The locale \<open>state_order\<close> does the
  same for relations between an earlier and a later state.
\<close>

section \<open>Invariants of interleaved threads\<close>

lemma settle_Goes: "settle w c out = Goes w' \<longleftrightarrow>
    (\<exists>s pc fs. out = Goes (s, pc, fs) \<and> w' = \<lparr>dw_coord = s, dw_threads = (dw_threads w)[c := pc], dw_sent = dw_sent w @ fs\<rparr>)"
  by (cases out) (auto simp: settle_def)

lemma dstep_cases:
  assumes "dstep w e = Some (Goes w')"
  obtains (accept) "e = Accept" "w' = w\<lparr>dw_threads := dw_threads w @ [Fresh]\<rparr>"
  | (thread) c s pc fs where "c < length (dw_threads w)"
      "thread_out (alive w) e (dw_threads w ! c) (dw_coord w) = Some (Goes (s, pc, fs))"
      "w' = \<lparr>dw_coord = s, dw_threads = (dw_threads w)[c := pc], dw_sent = dw_sent w @ fs\<rparr>"
  using assms by (cases e) (auto simp: dstep_def settle_Goes split: if_splits)

locale thread_invariant =
  fixes S :: "Coord \<Rightarrow> bool" and T :: "Coord \<Rightarrow> DPc \<Rightarrow> bool"
  assumes fresh: "T s Fresh"
    and step: "thread_out al e pc s = Some (Goes (s', pc', fs)) \<Longrightarrow> S s \<Longrightarrow> T s pc \<Longrightarrow>
      S s' \<and> T s' pc' \<and> (\<forall>q. T s q \<longrightarrow> T s' q)"
begin

definition holds :: "DWorld \<Rightarrow> bool" where
  "holds w \<longleftrightarrow> S (dw_coord w) \<and> (\<forall>pc \<in> set (dw_threads w). T (dw_coord w) pc)"

lemma holds_step:
  assumes "dstep w e = Some (Goes w')" "holds w"
  shows "holds w'"
  using assms(1)
proof (cases rule: dstep_cases)
  case accept
  then show ?thesis using assms(2) fresh by (simp add: holds_def)
next
  case (thread c s' pc' fs)
  have "S s' \<and> T s' pc' \<and> (\<forall>q. T (dw_coord w) q \<longrightarrow> T s' q)"
    using step [OF thread(2)] assms(2) thread(1) by (simp add: holds_def)
  then show ?thesis using assms(2) unfolding thread(3) holds_def by (auto dest!: set_update_subset_insert [THEN subsetD])
qed

lemma holds_reach: "dreach w w' \<Longrightarrow> holds w \<Longrightarrow> holds w'"
  by (induction rule: dreach.induct) (auto intro: holds_step)

lemma reach_state: "dreach (dworld_init e c t) w \<Longrightarrow> S (coord_init e c t) \<Longrightarrow> S (dw_coord w)"
  using holds_reach [of "dworld_init e c t" w] by (simp add: holds_def dworld_init_def)

lemma reach_thread: "dreach (dworld_init e c t) w \<Longrightarrow> S (coord_init e c t) \<Longrightarrow> i < length (dw_threads w) \<Longrightarrow>
    T (dw_coord w) (dw_threads w ! i)"
  using holds_reach [of "dworld_init e c t" w] by (simp add: holds_def dworld_init_def)

end

locale state_order =
  fixes R :: "Coord \<Rightarrow> Coord \<Rightarrow> bool"
  assumes refl: "R s s"
    and trans: "R s s' \<Longrightarrow> R s' s'' \<Longrightarrow> R s s''"
    and step: "thread_out al e pc s = Some (Goes (s', pc', fs)) \<Longrightarrow> R s s'"
begin

lemma reach: "dreach w w' \<Longrightarrow> R (dw_coord w) (dw_coord w')"
proof (induction rule: dreach.induct)
  case (dreach_step w w' e w'')
  then have "R (dw_coord w') (dw_coord w'')"
    by (auto elim!: dstep_cases simp: refl intro: step)
  then show ?case using dreach_step.IH trans by blast
qed (rule refl)

end

section \<open>One step of a thread\<close>

text \<open>The parts of the state a step can write, by what the thread does.\<close>

lemmas step_defs = first_frame_def register_worker_def worker_lost_def worker_frame_def reject_stale_def publish_def
  client_frame_def answer_def dispatch_def after_def given_def Let_def rollEpoch_def bumpCacheGeneration_def
  bumpToolchainGeneration_def

lemmas step_splits = eff.splits option.splits if_splits result.splits prod.splits


text \<open>Every way a thread can step, one by one.\<close>

lemma thread_out_cases:
  assumes "thread_out al e pc s = Some (Goes (s', pc', fs))"
  obtains (register) c payload where "pc = Fresh" "register_worker c payload s = Goes (s', pc', fs)"
  | (frame) pn c f where "pc = Fresh \<or> pc = Client CRecv" "client_frame pn c f s = Goes (s', pc', fs)"
  | (stop) "s' = s" "pc' = Closed"
  | (message) c wid f where "pc = Worker wid WRecv" "worker_frame c wid f s = Goes (s', pc', fs)"
  | (lost) wid where "pc = Worker wid WRecv" "worker_lost wid s = Goes (s', pc', fs)"
  | (worker) wid w where "pc = Worker wid w" "worker_step wid w s = Some (Goes (s', pc', fs))"
  | (client) sent c k where "pc = Client k" "client_step al sent c k s = Some (Goes (s', pc', fs))"
  using assms by (cases e) (auto simp: thread_out_def first_frame_def split: DPc.splits if_splits)

section \<open>Generations of artifacts never go back\<close>

definition gens_grow :: "Coord \<Rightarrow> Coord \<Rightarrow> bool" where
  "gens_grow s s' \<longleftrightarrow> (\<forall>a g. map_of (co_artifactGen s) a = Some g \<longrightarrow> (\<exists>g'. map_of (co_artifactGen s') a = Some g' \<and> g \<le> g'))"

lemma client_step_gens: "client_step al sent c pc s = Some (Goes (s', pc', fs)) \<Longrightarrow> co_artifactGen s' = co_artifactGen s"
  by (cases pc) (auto simp: step_defs split: step_splits)

lemma frame_gens: "client_frame pn c f s = Goes (s', pc', fs) \<Longrightarrow> co_artifactGen s' = co_artifactGen s"
  by (auto simp: step_defs split: step_splits)

lemma worker_step_gens: "worker_step wid pc s = Some (Goes (s', pc', fs)) \<Longrightarrow> gens_grow s s'"
  by (cases pc) (auto simp: step_defs gens_grow_def split: step_splits)

interpretation gens: state_order gens_grow
proof
  show "gens_grow s s" for s by (simp add: gens_grow_def)
  show "gens_grow s s''" if "gens_grow s s'" "gens_grow s' s''" for s s' s''
    using that unfolding gens_grow_def by (meson order_trans)
  show "gens_grow s s'" if "thread_out al e pc s = Some (Goes (s', pc', fs))" for al e pc s s' pc' fs
    using that
  proof (cases rule: thread_out_cases)
    case worker
    then show ?thesis by (simp add: worker_step_gens)
  qed (auto simp: gens_grow_def register_worker_def worker_frame_def worker_lost_def after_def Let_def
      dest: frame_gens client_step_gens split: step_splits)
qed

section \<open>Promises\<close>

text \<open>The submission of a thread that has put its promise into the table of pending requests.\<close>

definition holder :: "DPc \<Rightarrow> Submission option" where
  "holder pc = (case pc of
     Client (CEpoch sb) \<Rightarrow> Some sb | Client (CCache sb) \<Rightarrow> Some sb | Client (CTool sb) \<Rightarrow> Some sb
   | Client (CAttempt sb) \<Rightarrow> Some sb | Client (CChannel sb) \<Rightarrow> Some sb | Client (CDispatch sb) \<Rightarrow> Some sb
   | Client (CGiveUp sb _ _) \<Rightarrow> Some sb | Client (CWait sb) \<Rightarrow> Some sb | _ \<Rightarrow> None)"

definition held :: "DPc \<Rightarrow> (string \<times> nat) option" where
  "held pc = map_option (\<lambda>sb. (sb_rid sb, sb_promise sb)) (holder pc)"

definition promises_ok :: "Coord \<Rightarrow> bool" where
  "promises_ok s \<longleftrightarrow>
     (\<forall>r h. map_of (co_pending s) r = Some h \<longrightarrow> h < length (co_promises s) \<and> co_promises s ! h = None) \<and>
     (\<forall>r r' h. map_of (co_pending s) r = Some h \<longrightarrow> map_of (co_pending s) r' = Some h \<longrightarrow> r = r')"

definition promise_of :: "Coord \<Rightarrow> DPc \<Rightarrow> bool" where
  "promise_of s pc \<longleftrightarrow> (\<forall>rid h. held pc = Some (rid, h) \<longrightarrow> h < length (co_promises s) \<and>
     (\<forall>r. map_of (co_pending s) r = Some h \<longrightarrow> r = rid))"

definition promise_inv :: "Coord \<Rightarrow> DPc \<Rightarrow> Coord \<Rightarrow> DPc \<Rightarrow> bool" where
  "promise_inv s pc s' pc' \<longleftrightarrow> promises_ok s \<longrightarrow> promise_of s pc \<longrightarrow>
     promises_ok s' \<and> promise_of s' pc' \<and> (\<forall>q. promise_of s q \<longrightarrow> promise_of s' q)"

lemma promise_inv_same:
  assumes "co_pending s' = co_pending s" "co_promises s' = co_promises s" "held pc' = None \<or> held pc' = held pc"
  shows "promise_inv s pc s' pc'"
  using assms by (auto simp: promise_inv_def promises_ok_def promise_of_def)

lemma promise_inv_del:
  assumes "co_pending s' = smap_del r (co_pending s)" "co_promises s' = co_promises s" "held pc' = None"
  shows "promise_inv s pc s' pc'"
  using assms by (auto simp: promise_inv_def promises_ok_def promise_of_def)

lemma promise_inv_pend:
  assumes "co_pending s' = smap_put (sb_rid sb) (length (co_promises s)) (co_pending s)"
    "co_promises s' = co_promises s @ [None]" "pc' = Client (CEpoch (sb\<lparr>sb_promise := length (co_promises s)\<rparr>))"
  shows "promise_inv s pc s' pc'"
proof -
  let ?n = "length (co_promises s)"
  have pc': "held pc' = Some (sb_rid sb, ?n)" by (simp add: assms(3) held_def holder_def sb_rid_def)
  have "promises_ok s'" if ok: "promises_ok s"
  proof -
    have lt: "h < ?n" "co_promises s ! h = None" if "map_of (co_pending s) r = Some h" for r h
      using ok that by (auto simp: promises_ok_def)
    have "h < length (co_promises s') \<and> co_promises s' ! h = None" if "map_of (co_pending s') r = Some h" for r h
      using that lt [of r h] by (auto simp: assms(1,2) nth_append split: if_splits)
    moreover have "r = r'" if "map_of (co_pending s') r = Some h" "map_of (co_pending s') r' = Some h" for r r' h
      using that lt [of r h] lt [of r' h] ok by (auto simp: assms(1) promises_ok_def split: if_splits)
    ultimately show ?thesis unfolding promises_ok_def by blast
  qed
  moreover have "promise_of s' q" if "promise_of s q" for q
    using that unfolding promise_of_def assms(1,2) by (auto split: if_splits)
  moreover have "promise_of s' pc'" if "promises_ok s"
    using that unfolding promise_of_def pc' by (auto simp: assms(1,2) promises_ok_def split: if_splits)
  ultimately show ?thesis by (simp add: promise_inv_def)
qed

lemma promise_inv_fulfil:
  assumes "map_of (co_pending s) r = Some h" "co_pending s' = smap_del r (co_pending s)"
    "co_promises s' = (co_promises s)[h := Some res]" "held pc' = None"
  shows "promise_inv s pc s' pc'"
  using assms unfolding promise_inv_def promises_ok_def promise_of_def
  by (auto simp: nth_list_update split: if_splits)

lemma promise_client: "client_step al sent c pc s = Some (Goes (s', pc', fs)) \<Longrightarrow> promise_inv s (Client pc) s' pc'"
proof (cases pc)
  case (CPend sb)
  assume "client_step al sent c pc s = Some (Goes (s', pc', fs))"
  then show ?thesis using CPend by (intro promise_inv_pend [of _ sb]) (auto simp: Let_def)
next
  case (CGiveUp sb code msg)
  assume "client_step al sent c pc s = Some (Goes (s', pc', fs))"
  then show ?thesis using CGiveUp by (intro promise_inv_del [of _ "sb_rid sb"]) (auto simp: held_def holder_def)
qed (auto simp: step_defs held_def holder_def sb_rid_def split: step_splits intro!: promise_inv_same)

lemma promise_worker: "worker_step wid w s = Some (Goes (s', pc', fs)) \<Longrightarrow> promise_inv s (Worker wid w) s' pc'"
proof (cases w)
  case (WPublish env j k)
  assume a: "worker_step wid w s = Some (Goes (s', pc', fs))"
  show ?thesis
  proof (cases "map_of (co_pending s) (toHex (pe_requestId env))")
    case None
    then show ?thesis using a WPublish by (intro promise_inv_same) (auto simp: publish_def Let_def held_def holder_def)
  next
    case (Some h)
    then show ?thesis using a WPublish
      by (auto simp: publish_def Let_def given_def held_def holder_def split: option.splits if_splits
          intro!: promise_inv_fulfil [OF Some])
  qed
qed (auto simp: step_defs held_def holder_def split: step_splits intro!: promise_inv_same)

lemma promise_frame: "client_frame pn c f s = Goes (s', pc', fs) \<Longrightarrow> promise_inv s pc s' pc'"
  by (auto simp: step_defs held_def holder_def split: step_splits intro!: promise_inv_same)

interpretation promises: thread_invariant promises_ok promise_of
proof
  show "promise_of s Fresh" for s by (simp add: promise_of_def held_def holder_def)
  show "promises_ok s' \<and> promise_of s' pc' \<and> (\<forall>q. promise_of s q \<longrightarrow> promise_of s' q)"
    if "thread_out al e pc s = Some (Goes (s', pc', fs))" "promises_ok s" "promise_of s pc" for al e pc s s' pc' fs
  proof -
    from that(1) have "promise_inv s pc s' pc'"
    proof (cases rule: thread_out_cases)
      case frame
      then show ?thesis by (simp add: promise_frame)
    next
      case worker
      then show ?thesis by (simp add: promise_worker)
    next
      case client
      then show ?thesis by (simp add: promise_client)
    qed (auto simp: register_worker_def worker_frame_def worker_lost_def after_def Let_def held_def holder_def
        split: step_splits intro!: promise_inv_same)
    then show ?thesis using that by (simp add: promise_inv_def)
  qed
qed

lemma promises_reach:
  assumes "dreach (dworld_init e c t) w"
  shows "promises_ok (dw_coord w)" "i < length (dw_threads w) \<Longrightarrow> promise_of (dw_coord w) (dw_threads w ! i)"
proof -
  have "promises_ok (coord_init e c t)" by (simp add: promises_ok_def coord_init_def)
  then show "promises_ok (dw_coord w)" "i < length (dw_threads w) \<Longrightarrow> promise_of (dw_coord w) (dw_threads w ! i)"
    using promises.reach_state [OF assms] promises.reach_thread [OF assms] by blast+
qed

section \<open>Published results are filed under key digests\<close>

definition long_key :: "string \<Rightarrow> bool" where "long_key k \<longleftrightarrow> length k = 64"

lemma long_key_toHex [simp]: "long_key (key_toHex k)"
  by (simp add: long_key_def key_toHex_def key_digest_def length_digestToHex)

lemma short_id [simp]: "\<not> long_key (toHex i)"
  by (simp add: long_key_def)

text \<open>The request a thread's further steps rely on to be in the table from requests to keys.\<close>

definition relies_on :: "DPc \<Rightarrow> string option" where
  "relies_on pc = (case pc of
     Client (CLookup sb) \<Rightarrow> Some (sb_rid sb) | Client (CSelect sb) \<Rightarrow> Some (sb_rid sb) | Client (CPend sb) \<Rightarrow> Some (sb_rid sb)
   | Worker _ (WKey env _) \<Rightarrow> Some (toHex (pe_requestId env)) | _ \<Rightarrow> None)"

definition files_under :: "DPc \<Rightarrow> string option" where
  "files_under pc = (case pc of Worker _ (WCount _ _ k) \<Rightarrow> Some k | Worker _ (WPublish _ _ k) \<Rightarrow> Some k | _ \<Rightarrow> None)"

definition keys_ok :: "Coord \<Rightarrow> bool" where
  "keys_ok s \<longleftrightarrow> (\<forall>r k. map_of (co_reqToKey s) r = Some k \<longrightarrow> long_key k) \<and>
     (\<forall>r h. map_of (co_pending s) r = Some h \<longrightarrow> map_of (co_reqToKey s) r \<noteq> None) \<and>
     (\<forall>k \<in> set (map fst (co_published s)). long_key k)"

definition keyed :: "Coord \<Rightarrow> DPc \<Rightarrow> bool" where
  "keyed s pc \<longleftrightarrow> (\<forall>r. relies_on pc = Some r \<longrightarrow> map_of (co_reqToKey s) r \<noteq> None) \<and>
     (\<forall>k. files_under pc = Some k \<longrightarrow> long_key k)"

definition key_inv :: "Coord \<Rightarrow> DPc \<Rightarrow> Coord \<Rightarrow> DPc \<Rightarrow> bool" where
  "key_inv s pc s' pc' \<longleftrightarrow> keys_ok s \<longrightarrow> keyed s pc \<longrightarrow>
     keys_ok s' \<and> keyed s' pc' \<and> (\<forall>q. keyed s q \<longrightarrow> keyed s' q)"

lemmas key_defs = key_inv_def keyed_def keys_ok_def relies_on_def files_under_def

lemma key_inv_same:
  assumes "co_reqToKey s' = co_reqToKey s" "co_pending s' = co_pending s" "co_published s' = co_published s"
    "relies_on pc' = None \<or> relies_on pc' = relies_on pc" "files_under pc' = None \<or> files_under pc' = files_under pc"
  shows "key_inv s pc s' pc'"
  using assms by (auto simp: key_inv_def keyed_def keys_ok_def)

lemma set_smap_del: "set (map fst (smap_del k m)) \<subseteq> set (map fst m)"
  by (auto simp: smap_del_def)

lemma smap_put_keys: "(a, b) \<in> set (smap_put k v m) \<Longrightarrow> a = k \<or> (\<exists>b'. (a, b') \<in> set m)"
  by (induction k v m rule: smap_put.induct) (auto split: if_splits)

lemma key_client: "client_step al sent c pc s = Some (Goes (s', pc', fs)) \<Longrightarrow> key_inv s (Client pc) s' pc'"
proof (cases pc)
  case (CMap sb)
  assume "client_step al sent c pc s = Some (Goes (s', pc', fs))"
  then show ?thesis using CMap by (auto simp: key_defs split: if_splits)
next
  case (CPend sb)
  assume "client_step al sent c pc s = Some (Goes (s', pc', fs))"
  then show ?thesis using CPend by (auto simp: key_defs Let_def split: if_splits)
next
  case (CGiveUp sb code msg)
  assume "client_step al sent c pc s = Some (Goes (s', pc', fs))"
  then show ?thesis using CGiveUp by (auto simp: key_defs split: if_splits)
qed (auto simp: step_defs relies_on_def files_under_def sb_rid_def split: step_splits intro!: key_inv_same)

lemma key_worker: "worker_step wid w s = Some (Goes (s', pc', fs)) \<Longrightarrow> key_inv s (Worker wid w) s' pc'"
proof (cases w)
  case (WLocked p)
  assume "worker_step wid w s = Some (Goes (s', pc', fs))"
  then show ?thesis using WLocked
    by (auto simp: key_defs stale_result_def reject_stale_def after_def split: if_splits eff.splits prod.splits)
next
  case (WKey env j)
  assume "worker_step wid w s = Some (Goes (s', pc', fs))"
  then show ?thesis using WKey by (auto simp: key_defs Let_def split: option.splits)
next
  case (WPublish env j k)
  assume "worker_step wid w s = Some (Goes (s', pc', fs))"
  then have "co_reqToKey s' = co_reqToKey s" "co_published s' = smap_put k j (co_published s)"
    "\<forall>r h. map_of (co_pending s') r = Some h \<longrightarrow> map_of (co_pending s) r = Some h" "pc' = Worker wid WRecv"
    using WPublish by (auto simp: publish_def Let_def given_def split: option.splits if_splits)
  then show ?thesis using WPublish by (fastforce simp: key_inv_def keyed_def keys_ok_def relies_on_def files_under_def dest: smap_put_keys)
qed (auto simp: step_defs relies_on_def files_under_def split: step_splits intro!: key_inv_same)

lemma key_frame: "client_frame pn c f s = Goes (s', pc', fs) \<Longrightarrow> key_inv s pc s' pc'"
  using set_smap_del by (fastforce simp: step_defs key_defs split: step_splits)

interpretation keys: thread_invariant keys_ok keyed
proof
  show "keyed s Fresh" for s by (simp add: keyed_def relies_on_def files_under_def)
  show "keys_ok s' \<and> keyed s' pc' \<and> (\<forall>q. keyed s q \<longrightarrow> keyed s' q)"
    if "thread_out al e pc s = Some (Goes (s', pc', fs))" "keys_ok s" "keyed s pc" for al e pc s s' pc' fs
  proof -
    from that(1) have "key_inv s pc s' pc'"
    proof (cases rule: thread_out_cases)
      case frame
      then show ?thesis by (simp add: key_frame)
    next
      case worker
      then show ?thesis by (simp add: key_worker)
    next
      case client
      then show ?thesis by (simp add: key_client)
    qed (auto simp: register_worker_def worker_frame_def worker_lost_def after_def Let_def relies_on_def files_under_def
        split: step_splits intro!: key_inv_same)
    then show ?thesis using that by (simp add: key_inv_def)
  qed
qed

lemma keys_reach: "dreach (dworld_init e c t) w \<Longrightarrow> keys_ok (dw_coord w)"
  using keys.reach_state [of e c t w] by (simp add: keys_ok_def coord_init_def)

end
