(* ===== verification/CF_Authority.thy ===== *)
theory CF_Authority
  imports CF_Coordinator
begin

text \<open>
  What the coordinator promises its clients and workers: results are checked against the
  current authority, a promise is fulfilled once and by the result for its request, recorded
  generations do not go back. A run of events, from workers that register and clients that
  submit to a published result, shows that the statements speak of worlds that occur.
\<close>

section \<open>Runs\<close>

text \<open>A run of events; an event that no thread waits for is skipped.\<close>

fun drun :: "DWorld \<Rightarrow> DEvent list \<Rightarrow> DWorld fate" where
  "drun w [] = Goes w"
| "drun w (e # es) = (case dstep w e of None \<Rightarrow> drun w es | Some Dies \<Rightarrow> Dies | Some (Goes w') \<Rightarrow> drun w' es)"

lemma dreach_trans: "dreach w' w'' \<Longrightarrow> dreach w w' \<Longrightarrow> dreach w w''"
  by (induction rule: dreach.induct) (auto intro: dreach.intros)

lemma drun_reach: "drun w es = Goes w' \<Longrightarrow> dreach w w'"
proof (induction es arbitrary: w)
  case (Cons e es)
  then show ?case
  proof (cases "dstep w e")
    case (Some out)
    then obtain v where v: "out = Goes v" using Cons.prems by (cases out) auto
    then have "dreach v w'" "dreach w v" using Cons Some by (auto intro: dreach.intros)
    then show ?thesis by (rule dreach_trans)
  qed (simp add: dreach.intros)
qed (simp add: dreach.intros)

lemma drun_append: "drun w (es @ fs) = (case drun w es of Dies \<Rightarrow> Dies | Goes w' \<Rightarrow> drun w' fs)"
  by (induction es arbitrary: w) (auto split: option.splits fate.splits)

lemma drun_step:
  assumes "i < length (dw_threads w)" "dw_threads w ! i = pc" "event_of e = Some i"
    and "thread_out (alive w) e pc (dw_coord w) = Some (Goes (s, pc', fs))"
  shows "drun w (e # es) = drun \<lparr>dw_coord = s, dw_threads = (dw_threads w)[i := pc'], dw_sent = dw_sent w @ fs\<rparr> es"
  using assms by (simp add: dstep_def settle_def)

lemma drun_idle:
  assumes "i < length (dw_threads w)" "dw_threads w ! i = Worker wid WRecv"
  shows "drun w (replicate n (Runs i b)) = Goes w"
  using assms by (induction n) (simp_all add: dstep_def thread_out_def)

section \<open>A result and its authority\<close>

lemma readEnv_encode: "readEnv (pe_encode e @ rest) = e"
  by (simp add: readEnv_def envelope_decodes)

definition up_to_date :: "ProtoEnvelope \<Rightarrow> Coord \<Rightarrow> bool" where
  "up_to_date env s \<longleftrightarrow> checkAuthority env True s = ErrOk \<and> 0 < pe_artifactGen env \<and>
     (\<forall>g. map_of (co_artifactGen s) (toHex (pe_artifactId env)) = Some g \<longrightarrow> g < pe_artifactGen env) \<and>
     map_of (co_pending s) (toHex (pe_requestId env)) \<noteq> None"

lemma boot_string: "caps_string ''boot_id'' [] caps = toHex b \<longleftrightarrow> json_get ''boot_id'' caps = Some (JStr (toHex b))"
proof -
  have "toHex b \<noteq> []" by (metis length_toHex list.size(3) zero_neq_numeral)
  then show ?thesis by (auto simp: caps_string_def split: option.splits Json.splits)
qed

lemma up_to_date_iff:
  "up_to_date env s \<longleftrightarrow> pe_epoch env = co_epoch s \<and> pe_cacheGen env = co_cacheGen s \<and>
     pe_toolchainGen env = co_toolchainGen s \<and> \<not> stale_result env s"
proof -
  have z: "0 < g \<longleftrightarrow> g \<noteq> 0" for g :: u64 by (simp add: word_neq_0_conv)
  have n: "ErrStaleEpoch \<noteq> ErrOk" "ErrStaleGeneration \<noteq> ErrOk" "ErrStaleWorkerBoot \<noteq> ErrOk" by simp_all
  show ?thesis unfolding up_to_date_def checkAuthority_def stale_result_def
    by (auto simp: z boot_string not_le split: option.splits)
qed

text \<open>A worker's thread that runs alone from a point of its loop.\<close>

definition put :: "nat \<Rightarrow> u32 \<Rightarrow> WPc \<Rightarrow> Coord \<Rightarrow> DWorld \<Rightarrow> DWorld" where
  "put i wid pc s w = w\<lparr>dw_coord := s, dw_threads := (dw_threads w)[i := Worker wid pc]\<rparr>"

lemma put_same: "i < length (dw_threads w) \<Longrightarrow> dw_threads w ! i = Worker wid pc \<Longrightarrow> put i wid pc (dw_coord w) w = w"
proof -
  assume "i < length (dw_threads w)" "dw_threads w ! i = Worker wid pc"
  then have "(dw_threads w)[i := Worker wid pc] = dw_threads w" by (metis list_update_id)
  then show ?thesis by (simp add: put_def)
qed

lemma drun_put:
  assumes "i < length (dw_threads w)" "worker_step wid pc s = Some (Goes (s', Worker wid pc', []))"
  shows "drun (put i wid pc s w) (Runs i b # es) = drun (put i wid pc' s' w) es"
proof -
  let ?v = "\<lparr>dw_coord = s', dw_threads = (dw_threads w)[i := Worker wid pc'], dw_sent = dw_sent w\<rparr>"
  have eq: "?v = put i wid pc' s' w" by (cases w) (simp add: put_def)
  have "drun (put i wid pc s w) (Runs i b # es) = drun ?v es"
    using assms drun_step [of i "put i wid pc s w" "Worker wid pc" "Runs i b" s' "Worker wid pc'" "[]" es]
    by (simp add: thread_out_def put_def del: drun.simps)
  then show ?thesis unfolding eq .
qed

lemma drun_put_idle: "i < length (dw_threads w) \<Longrightarrow> drun (put i wid WRecv s w) (replicate n (Runs i b)) = Goes (put i wid WRecv s w)"
  by (rule drun_idle [where wid = wid]) (simp_all add: put_def)

definition rejected :: "Coord \<Rightarrow> Coord" where "rejected s = s\<lparr>co_rejectedStale := co_rejectedStale s + 1\<rparr>"

text \<open>The four tests: in four steps the result is rejected, or its payload has been decoded.\<close>

lemma examine:
  assumes i: "i < length (dw_threads w)"
    and d: "\<not> up_to_date (readEnv p) s \<or> decodeCompileResult p = Ret (j, success)"
  shows "drun (put i wid (WEpoch p) s w) (replicate (n + 4) (Runs i b)) =
    (if up_to_date (readEnv p) s
     then drun (put i wid (if success then WKey (readEnv p) j else WRecv) s w) (replicate n (Runs i b))
     else Goes (put i wid WRecv (rejected s) w))"
proof -
  let ?r = "put i wid WRecv (rejected s) w"
  have e: "drun (put i wid (WEpoch p) s w) (Runs i b # es) =
      (if pe_epoch (readEnv p) = co_epoch s then drun (put i wid (WCache p) s w) es else drun ?r es)"
    "drun (put i wid (WCache p) s w) (Runs i b # es) =
      (if pe_cacheGen (readEnv p) = co_cacheGen s then drun (put i wid (WTool p) s w) es else drun ?r es)"
    "drun (put i wid (WTool p) s w) (Runs i b # es) =
      (if pe_toolchainGen (readEnv p) = co_toolchainGen s then drun (put i wid (WLocked p) s w) es else drun ?r es)"
    "stale_result (readEnv p) s \<Longrightarrow> drun (put i wid (WLocked p) s w) (Runs i b # es) = drun ?r es"
    "\<not> stale_result (readEnv p) s \<Longrightarrow> decodeCompileResult p = Ret (j, success) \<Longrightarrow>
      drun (put i wid (WLocked p) s w) (Runs i b # es) = drun (put i wid (if success then WKey (readEnv p) j else WRecv) s w) es"
    for es by (simp_all del: drun.simps add: drun_put [OF i] reject_stale_def rejected_def after_def)
  note idles = drun_put_idle [OF i, of _ _ n] drun_put_idle [OF i, of _ _ "Suc n", unfolded replicate_Suc]
    drun_put_idle [OF i, of _ _ "Suc (Suc n)", unfolded replicate_Suc]
    drun_put_idle [OF i, of _ _ "Suc (Suc (Suc n))", unfolded replicate_Suc]
  have r: "replicate (n + 4) (Runs i b) = Runs i b # Runs i b # Runs i b # Runs i b # replicate n (Runs i b)"
    by (simp add: numeral_eq_Suc)
  show ?thesis using d unfolding r up_to_date_iff
    by (cases "stale_result (readEnv p) s") (simp_all del: drun.simps add: e idles split: if_splits)
qed

text \<open>What a published result leaves behind.\<close>

definition published :: "ProtoEnvelope \<Rightarrow> Json \<Rightarrow> CompilationResult \<Rightarrow> Coord \<Rightarrow> Coord" where
  "published env j res s =
     (let rid = toHex (pe_requestId env); aid = toHex (pe_artifactId env)
      in s\<lparr>co_completed := co_completed s + 1,
           co_published := smap_put (case map_of (co_reqToKey s) rid of Some k \<Rightarrow> k | None \<Rightarrow> rid) j (co_published s),
           co_artifactGen := smap_put aid (pe_artifactGen env) (co_artifactGen s),
           co_promises := (co_promises s)[the (map_of (co_pending s) rid) := Some res],
           co_pending := smap_del rid (co_pending s)\<rparr>)"

lemma publish_run:
  assumes i: "i < length (dw_threads w)" and u: "up_to_date env s" and p: "promises_ok s" and j: "resultFromJson j = Some res"
  shows "drun (put i wid (WKey env j) s w) (replicate 3 (Runs i b)) = Goes (put i wid WRecv (published env j res s) w)"
proof -
  obtain h where h: "map_of (co_pending s) (toHex (pe_requestId env)) = Some h" "co_promises s ! h = None"
    using u p by (auto simp: up_to_date_def promises_ok_def)
  have g: "(case map_of (co_artifactGen s) (toHex (pe_artifactId env)) of None \<Rightarrow> True | Some g \<Rightarrow> g < pe_artifactGen env)"
    using u by (auto simp: up_to_date_def split: option.splits)
  show ?thesis using h g j
    by (simp del: drun.simps(2) add: numeral_eq_Suc drun_put [OF i] Let_def publish_def given_def published_def)
qed

lemma handle_run:
  assumes "promises_ok (dw_coord w)" "i < length (dw_threads w)" "dw_threads w ! i = Worker wid (WEpoch p)"
    and "decodeCompileResult p = Ret (j, success)" "resultFromJson j = Some res"
  shows "drun w (replicate 7 (Runs i b)) = Goes (put i wid WRecv
    (if \<not> up_to_date (readEnv p) (dw_coord w) then rejected (dw_coord w)
     else if success then published (readEnv p) j res (dw_coord w) else dw_coord w) w)"
proof -
  have w: "put i wid (WEpoch p) (dw_coord w) w = w" using assms by (intro put_same)
  have d: "\<not> up_to_date (readEnv p) (dw_coord w) \<or> decodeCompileResult p = Ret (j, success)" using assms(4) by simp
  show ?thesis
    using examine [OF assms(2) d, of wid 3 b] publish_run [OF assms(2) _ assms(1) assms(5)]
      drun_put_idle [OF assms(2), of wid "dw_coord w" 3 b] by (simp add: w)
qed

section \<open>A run that publishes\<close>

text \<open>
  The coordinator plans with a fabric that has no CUDA backend, so that a submission is never
  planned for CUDA: workers that advertise CUDA are not selected.
\<close>

lemma never_cuda: "pl_backend (sb_plan (submission pn req)) \<in> {[], ''cpu''}"
  by (auto simp: submission_def Let_def plan_def selectBackend_def pl_default_def split: result.splits)

definition demo_caps :: Json where "demo_caps = JObj [(''boot_id'', JStr (toHex (Id128 0 0)))]"

definition demo_register :: bytes where "demo_register = pe_encode pe_default @ w_string (the (json_dump demo_caps))"

definition demo_submit :: bytes where "demo_submit = the (encodeSubmit pe_default (short_request []))"

definition demo_env :: ProtoEnvelope where
  "demo_env = pe_default\<lparr>pe_epoch := 1, pe_cacheGen := 1, pe_toolchainGen := 1, pe_artifactGen := 1\<rparr>"

definition demo_result :: bytes where "demo_result = pe_encode demo_env @ w_u8 1 @ w_string ''{}''"

definition demo_pn :: PlanEnv where "demo_pn = \<lparr>pn_cudaOk = False, pn_targets = [], pn_no = 1, pn_now = 0\<rparr>"

definition demo_sb :: Submission where "demo_sb = submission demo_pn (rq_kept (short_request []))"

text \<open>A worker registers, a client submits, the worker answers while the client's thread has just filed its promise.\<close>

definition demo_events :: "bytes \<Rightarrow> DEvent list" where
  "demo_events payload = [Accept, Accept, Arrives 0 (frame_of MT_Register demo_register) demo_pn,
     Arrives 1 (frame_of MT_Submit demo_submit) demo_pn, Runs 1 True, Runs 1 True, Runs 1 True, Runs 1 True,
     Arrives 0 (frame_of MT_CompileResult payload) demo_pn]"

lemma demo_register_decodes: "decodeRegister demo_register = Ret demo_caps"
proof -
  have ok: "json_ok demo_caps" by (simp add: demo_caps_def smap_inv_def)
  obtain t where t: "json_dump demo_caps = Some t" "json_parse t = Some demo_caps"
    using json_ok_text [OF ok] by blast
  have "length t \<le> jlen demo_caps" using dump_length [OF ok] t by (simp add: json_dump_def)
  also have "jlen demo_caps \<le> 800" by (simp add: demo_caps_def)
  finally have "small demo_register"
    by (intro small_few) (simp add: demo_register_def t w_string_def kEnvelopeSize_def)
  then show ?thesis using t
    by (simp add: demo_register_def decodeRegister_def after_envelope_encode c_str.dec_enc_end parse_or_empty_def)
qed

lemma demo_submit_decodes: "decodeSubmit demo_submit = Ret (Ok (rq_kept (short_request [])))"
proof -
  obtain t where t: "json_dump (rq_toJson (short_request [])) = Some t" "length t \<le> 90000" using short_request_text [of "[]"] by auto
  have e: "encodeSubmit pe_default (short_request []) = Some demo_submit" using t by (simp add: demo_submit_def encodeSubmit_def)
  have "length demo_submit \<le> 2 ^ 20" using t by (simp add: demo_submit_def encodeSubmit_def w_string_def kEnvelopeSize_def)
  then show ?thesis using submit_decodes [OF short_request_ok e] by (simp add: small_mebibyte)
qed

lemma demo_result_decodes: "readEnv demo_result = demo_env" "decodeCompileResult demo_result = Ret (JObj [], True)"
proof -
  show "readEnv demo_result = demo_env" by (simp add: demo_result_def readEnv_encode)
  have "small demo_result" by (rule small_few) (simp add: demo_result_def w_u8_def w_string_def kEnvelopeSize_def)
  moreover have "parse_or_empty ''{}'' = JObj []" by code_simp
  ultimately show "decodeCompileResult demo_result = Ret (JObj [], True)"
    by (simp add: demo_result_def decodeCompileResult_def after_envelope_encode codec)
qed

definition demo_coord :: Coord where
  "demo_coord = (coord_init 1 1 1)\<lparr>co_workers := [(0, demo_caps)], co_workerChannels := [(0, 0)],
     co_reqToKey := [(sb_rid demo_sb, key_toHex (sb_key demo_sb))], co_pending := [(sb_rid demo_sb, 0)], co_promises := [None]\<rparr>"

definition demo_world :: "bytes \<Rightarrow> DWorld" where
  "demo_world payload = \<lparr>dw_coord = demo_coord, dw_threads = [Worker 0 (WEpoch payload), Client (CEpoch (demo_sb\<lparr>sb_worker := 0, sb_promise := 0\<rparr>))],
     dw_sent = []\<rparr>"

lemma demo_select: "select_worker (pl_backend (sb_plan demo_sb)) [(0, demo_caps)] = Some 0"
  using never_cuda [of demo_pn "rq_kept (short_request [])"]
  by (auto simp: select_worker_def demo_sb_def demo_caps_def caps_string_def json_get_def asObjectPtr_def)

lemma length_demo_register: "\<not> length demo_register < kEnvelopeSize" "readEnv demo_register = pe_default"
  by (simp_all add: demo_register_def readEnv_encode)

lemma sb_rid_worker: "sb_rid (sb\<lparr>sb_worker := x\<rparr>) = sb_rid sb"
  by (simp add: sb_rid_def)

lemma demo_run:
  assumes "kEnvelopeSize \<le> length payload"
  shows "drun (dworld_init 1 1 1) (demo_events payload) = Goes (demo_world payload)"
  using assms unfolding demo_events_def
  by (simp add: dstep_def thread_out_def settle_def dworld_init_def coord_init_def first_frame_def frame_of_def pf_default_def
      register_worker_def length_demo_register demo_register_decodes after_def pe_default_def client_frame_def demo_submit_decodes
      demo_sb_def [symmetric] demo_select worker_frame_def demo_world_def demo_coord_def Let_def sb_rid_worker)

lemma demo_reach: "kEnvelopeSize \<le> length payload \<Longrightarrow> dreach (dworld_init 1 1 1) (demo_world payload)"
  using drun_reach [OF demo_run] .

lemma demo_reach0: "dreach (dworld_init 1 1 1) (demo_world demo_result)"
  by (rule demo_reach) (simp add: demo_result_def)

lemma demo_rid: "sb_rid demo_sb = toHex (pe_requestId demo_env)"
  by (simp add: demo_sb_def sb_rid_def submission_def Let_def demo_env_def pe_default_def rq_kept_def short_request_def rq_default_def)

lemma demo_up_to_date: "up_to_date demo_env demo_coord"
proof -
  have "json_get ''boot_id'' demo_caps = Some (JStr (toHex (pe_bootId demo_env)))"
    by (simp add: demo_caps_def json_get_def asObjectPtr_def demo_env_def pe_default_def)
  then show ?thesis using demo_rid unfolding up_to_date_iff stale_result_def
    by (simp add: demo_coord_def coord_init_def demo_env_def pe_default_def)
qed

lemma demo_json: "\<exists>res. resultFromJson (JObj []) = Some res"
proof -
  have "json_get k (JObj []) = None" for k by (simp add: json_get_def asObjectPtr_def)
  then show ?thesis by (simp add: resultFromJson_def jgeneration_def jsub_def)
qed

lemma demo_published:
  obtains res where "dreach (dworld_init 1 1 1) (put 0 0 WRecv (published demo_env (JObj []) res demo_coord) (demo_world demo_result))"
proof -
  obtain res where res: "resultFromJson (JObj []) = Some res" using demo_json by blast
  have d: "dw_threads (demo_world demo_result) ! 0 = Worker 0 (WEpoch demo_result)" "0 < length (dw_threads (demo_world demo_result))" "dw_coord (demo_world demo_result) = demo_coord"
    by (simp_all add: demo_world_def)
  have "drun (demo_world demo_result) (replicate 7 (Runs 0 True)) = Goes (put 0 0 WRecv (published demo_env (JObj []) res demo_coord) (demo_world demo_result))"
    using handle_run [OF promises_reach(1) [OF demo_reach0] d(2,1) demo_result_decodes(2) res, of True] demo_up_to_date demo_result_decodes(1) d(3)
    by simp
  then show ?thesis using that dreach_trans [OF drun_reach demo_reach0] by blast
qed

text \<open>
  The identity of the attempt plays no part: a result of whatever attempt, also of one that
  was superseded or never dispatched, is judged and published alike.
\<close>

lemma attempt_ignored:
  "up_to_date (env\<lparr>pe_attemptId := a\<rparr>) s \<longleftrightarrow> up_to_date env s"
  "published (env\<lparr>pe_attemptId := a\<rparr>) j res s = published env j res s"
proof -
  have "pe_bootId (env\<lparr>pe_attemptId := a\<rparr>) = pe_bootId env" "pe_artifactGen (env\<lparr>pe_attemptId := a\<rparr>) = pe_artifactGen env" by simp_all
  then show "up_to_date (env\<lparr>pe_attemptId := a\<rparr>) s \<longleftrightarrow> up_to_date env s"
    by (simp add: up_to_date_iff stale_result_def cong: option.case_cong)
qed (simp add: published_def Let_def)

section \<open>Properties\<close>

text \<open>
  C32: A worker's result is judged by the authority of the moment. In every world the coordinator
  can reach, a worker's thread that examines a result undisturbed rejects and counts it,
  changing nothing else, unless checkAuthority accepts its envelope (epoch, both generations,
  registered worker and boot), its artifact generation is positive and newer than the one
  recorded, and its request is pending. An accepted successful result is published under the
  key of its request, its generation is recorded, the promise of the request is fulfilled and
  the request is no longer pending; an accepted failure changes nothing. The attempt named in
  the envelope is not among the tests: a result of another attempt at a pending request is
  accepted (lemma attempt_ignored), although the documentation says that it is rejected.
\<close>

theorem result_handled:
  assumes "dreach (dworld_init e c t) w" "i < length (dw_threads w)" "dw_threads w ! i = Worker wid (WEpoch p)"
    and "decodeCompileResult p = Ret (j, success)" "resultFromJson j = Some res"
  shows "drun w (replicate 7 (Runs i b)) = Goes (put i wid WRecv
    (if \<not> up_to_date (readEnv p) (dw_coord w) then rejected (dw_coord w)
     else if success then published (readEnv p) j res (dw_coord w) else dw_coord w) w)"
  by (rule handle_run [OF promises_reach(1) [OF assms(1)] assms(2-5)])

lemma result_handled_witness:
  "\<exists>res. drun (demo_world demo_result) (replicate 7 (Runs 0 True)) = Goes (put 0 0 WRecv (published demo_env (JObj []) res demo_coord) (demo_world demo_result))"
proof -
  obtain res where res: "resultFromJson (JObj []) = Some res" using demo_json by blast
  have "dw_threads (demo_world demo_result) ! 0 = Worker 0 (WEpoch demo_result)" "0 < length (dw_threads (demo_world demo_result))" "dw_coord (demo_world demo_result) = demo_coord"
    by (simp_all add: demo_world_def)
  then show ?thesis
    using result_handled [OF demo_reach0 _ _ demo_result_decodes(2) res, of 0 0 True] demo_up_to_date demo_result_decodes(1) by auto
qed

text \<open>
  C33: A promise is fulfilled at most once, and by the result for its own request. In every world
  the coordinator can reach, publishing a well-formed result never finds the promise of the
  request already fulfilled (which would throw), and when it changes what some client's thread
  is waiting for, that thread waits for the request named in the envelope and is given this
  result.
\<close>

theorem promise_once:
  assumes "dreach (dworld_init e c t) w" "i < length (dw_threads w)" "dw_threads w ! i = Worker wid (WPublish env j k)"
    and "resultFromJson j = Some res"
  shows "\<exists>s'. publish wid env j k (dw_coord w) = Goes (s', Worker wid WRecv, []) \<and>
    (\<forall>n sb. n < length (dw_threads w) \<and> dw_threads w ! n = Client (CWait sb) \<and>
       co_promises s' ! sb_promise sb \<noteq> co_promises (dw_coord w) ! sb_promise sb \<longrightarrow>
       rq_requestId (sb_req sb) = pe_requestId env \<and> co_promises s' ! sb_promise sb = Some res)"
proof (cases "map_of (co_pending (dw_coord w)) (toHex (pe_requestId env))")
  case None
  then show ?thesis by (simp add: publish_def Let_def)
next
  case (Some h)
  let ?s = "dw_coord w"
  have h: "h < length (co_promises ?s)" "co_promises ?s ! h = None"
    using promises_reach(1) [OF assms(1)] Some by (auto simp: promises_ok_def)
  obtain s' where s': "publish wid env j k ?s = Goes (s', Worker wid WRecv, [])" "co_promises s' = (co_promises ?s)[h := Some res]"
    using Some h(2) assms(4) by (simp add: publish_def Let_def given_def)
  have "rq_requestId (sb_req sb) = pe_requestId env \<and> co_promises s' ! sb_promise sb = Some res"
    if n: "n < length (dw_threads w)" "dw_threads w ! n = Client (CWait sb)"
      and d: "co_promises s' ! sb_promise sb \<noteq> co_promises ?s ! sb_promise sb" for n sb
  proof -
    have "sb_promise sb = h" using d s'(2) by (cases "sb_promise sb = h") auto
    moreover from this have "toHex (pe_requestId env) = sb_rid sb"
      using promises_reach(2) [OF assms(1) n(1)] n(2) Some by (auto simp: promise_of_def held_def holder_def)
    ultimately show ?thesis using s'(2) h(1) by (simp add: sb_rid_def)
  qed
  then show ?thesis using s'(1) by blast
qed

lemma demo_publishing:
  "\<exists>k s. dreach (dworld_init 1 1 1) (put 0 0 (WPublish demo_env (JObj []) k) s (demo_world demo_result))"
proof -
  have i: "0 < length (dw_threads (demo_world demo_result))" by (simp add: demo_world_def)
  have w: "put 0 0 (WEpoch demo_result) demo_coord (demo_world demo_result) = (demo_world demo_result)" by (simp add: put_def demo_world_def)
  have d: "\<not> up_to_date (readEnv demo_result) demo_coord \<or> decodeCompileResult demo_result = Ret (JObj [], True)"
    by (simp add: demo_result_decodes)
  have "drun (demo_world demo_result) (replicate 6 (Runs 0 True)) = drun (put 0 0 (WKey demo_env (JObj [])) demo_coord (demo_world demo_result)) (replicate 2 (Runs 0 True))"
    using examine [OF i d, of 0 2 True] demo_up_to_date by (simp add: w demo_result_decodes(1))
  also have "\<exists>k s. \<dots> = Goes (put 0 0 (WPublish demo_env (JObj []) k) s (demo_world demo_result))"
    by (simp del: drun.simps(2) add: numeral_eq_Suc drun_put [OF i] Let_def) blast
  finally obtain k s where "drun (demo_world demo_result) (replicate 6 (Runs 0 True)) = Goes (put 0 0 (WPublish demo_env (JObj []) k) s (demo_world demo_result))" by blast
  then show ?thesis using dreach_trans [OF drun_reach demo_reach0] by blast
qed

lemma promise_once_witness:
  "\<exists>k s s'. dreach (dworld_init 1 1 1) (put 0 0 (WPublish demo_env (JObj []) k) s (demo_world demo_result)) \<and>
     publish 0 demo_env (JObj []) k s = Goes (s', Worker 0 WRecv, [])"
proof -
  obtain res where res: "resultFromJson (JObj []) = Some res" using demo_json by blast
  obtain k s where r: "dreach (dworld_init 1 1 1) (put 0 0 (WPublish demo_env (JObj []) k) s (demo_world demo_result))"
    using demo_publishing by blast
  have "0 < length (dw_threads (put 0 0 (WPublish demo_env (JObj []) k) s (demo_world demo_result)))"
    "dw_threads (put 0 0 (WPublish demo_env (JObj []) k) s (demo_world demo_result)) ! 0 = Worker 0 (WPublish demo_env (JObj []) k)"
    by (simp_all add: put_def demo_world_def)
  from promise_once [OF r this res] show ?thesis using r by (auto simp: put_def)
qed

text \<open>
  C34: The generation recorded for an artifact never goes back: between any world and a later one,
  whatever the threads do in between, the coordinator still has a generation for the artifact
  and it is at least the earlier one.
\<close>

theorem generations_monotone:
  assumes "dreach w w'" "map_of (co_artifactGen (dw_coord w)) a = Some g"
  shows "\<exists>g'. map_of (co_artifactGen (dw_coord w')) a = Some g' \<and> g \<le> g'"
  using gens.reach [OF assms(1)] assms(2) by (simp add: gens_grow_def)

lemma generations_monotone_witness:
  "\<exists>w w' g'. dreach w w' \<and> map_of (co_artifactGen (dw_coord w)) ''a'' = Some 3 \<and>
     map_of (co_artifactGen (dw_coord w')) ''a'' = Some g' \<and> 3 \<le> g'"
proof -
  let ?w = "(dworld_init 1 1 1)\<lparr>dw_coord := (coord_init 1 1 1)\<lparr>co_artifactGen := [(''a'', 3)]\<rparr>\<rparr>"
  have r: "dreach ?w (?w\<lparr>dw_threads := [Fresh]\<rparr>)"
    using dreach_step [OF dreach_refl, of ?w Accept "?w\<lparr>dw_threads := [Fresh]\<rparr>"] by (simp add: dstep_def dworld_init_def)
  have "map_of (co_artifactGen (dw_coord ?w)) ''a'' = Some 3" by simp
  with generations_monotone [OF r this] r show ?thesis by blast
qed

text \<open>
  C35: An invalidation from a client removes nothing: results are published under the 64 digits of
  a key digest, the invalidation erases the 32 digits of a request identity. In every world
  the coordinator can reach, handling such a message leaves the published results as they
  were.
\<close>

theorem client_invalidation_inert:
  assumes "dreach (dworld_init e c t) w" "pf_type f = MT_Invalidate" "dstep w (Arrives i f pn) = Some (Goes w')"
  shows "co_published (dw_coord w') = co_published (dw_coord w)"
proof -
  have del: "smap_del (toHex r) (co_published (dw_coord w)) = co_published (dw_coord w)" for r
  proof -
    have "\<forall>x \<in> set (co_published (dw_coord w)). fst x \<noteq> toHex r" using keys_reach [OF assms(1)] by (fastforce simp: keys_ok_def)
    then show ?thesis by (simp add: smap_del_def filter_id_conv)
  qed
  show ?thesis using assms(3)
    by (cases rule: dstep_cases)
      (auto simp: thread_out_def first_frame_def worker_frame_def client_frame_def assms(2) del Let_def split: DPc.splits if_splits)
qed

lemma client_invalidation_inert_witness:
  "\<exists>w w' f. pf_type f = MT_Invalidate \<and> dstep w (Arrives 2 f demo_pn) = Some (Goes w') \<and>
     co_published (dw_coord w) \<noteq> [] \<and> co_published (dw_coord w') = co_published (dw_coord w)"
proof -
  obtain res where r: "dreach (dworld_init 1 1 1) (put 0 0 WRecv (published demo_env (JObj []) res demo_coord) (demo_world demo_result))"
    by (rule demo_published)
  define v where "v = put 0 0 WRecv (published demo_env (JObj []) res demo_coord) (demo_world demo_result)"
  define w where "w = v\<lparr>dw_threads := dw_threads v @ [Fresh]\<rparr>"
  define f where "f = frame_of MT_Invalidate (encodeReject pe_default ErrOk ''invalidate'')"
  have "dstep v Accept = Some (Goes w)" by (simp add: dstep_def w_def)
  then have reach: "dreach (dworld_init 1 1 1) w" using r dreach_step unfolding v_def by blast
  have f: "pf_type f = MT_Invalidate" by (simp add: f_def frame_of_def)
  have t: "2 < length (dw_threads w)" "dw_threads w ! 2 = Fresh"
    by (simp_all add: w_def v_def put_def demo_world_def numeral_eq_Suc)
  then obtain w' where s: "dstep w (Arrives 2 f demo_pn) = Some (Goes w')"
    by (simp add: dstep_def thread_out_def first_frame_def client_frame_def f settle_def Let_def)
  have "co_published (dw_coord w) \<noteq> []"
    by (simp add: w_def v_def put_def published_def demo_coord_def coord_init_def Let_def)
  then show ?thesis using client_invalidation_inert [OF reach f s] f s by blast
qed

end
