(* ===== verification/CF_Cluster.thy ===== *)
theory CF_Cluster
  imports CF_Authority
begin

text \<open>
  The worker process and the coordinator together: what a worker answers to a dispatch, and
  what the coordinator makes of the answer.
\<close>

section \<open>Results on the wire\<close>

definition rs_ok :: "CompilationResult \<Rightarrow> bool" where
  "rs_ok r \<longleftrightarrow> num_ok (rs_generation r) \<and> ad_ok (rs_artifact r) \<and> num_ok (rs_compileMs r) \<and> num_ok (rs_totalMs r) \<and>
     rs_autotuneCandidates r = []"

text \<open>What the coordinator keeps of a worker's result.\<close>

definition rs_kept :: "CompilationResult \<Rightarrow> CompilationResult" where
  "rs_kept r = rs_default\<lparr>rs_requestId := rs_requestId r, rs_attemptId := rs_attemptId r, rs_artifactId := rs_artifactId r,
     rs_generation := rs_generation r, rs_artifact := ad_kept (rs_artifact r), rs_validated := rs_validated r,
     rs_deployable := rs_deployable r, rs_referenceMatched := rs_referenceMatched r, rs_backendUsed := rs_backendUsed r,
     rs_errorMessage := rs_errorMessage r\<rparr>"

interpretation rsj: json_codec rs_toJson resultFromJson rs_kept rs_ok
proof
  show "resultFromJson (rs_toJson x) = Some (rs_kept x)" if "rs_ok x" for x
    using that ad_from_to [of "rs_artifact x"]
    by (simp add: resultFromJson_def rs_toJson_def rs_ok_def rs_kept_def json_reads jgeneration_def jid_def jbool_def jstring_def or_else_def asBool_def)
  show "json_ok (rs_toJson x)" if "rs_ok x" for x
    using that unfolding rs_toJson_def by (intro json_ok_sets) (simp add: rs_ok_def exact_double ad_to_ok)
qed

section \<open>What a worker answers\<close>

lemma worker_answer:
  assumes "decodeDispatch d = Ret (Ok (req, key))" "cpu_compile fpu clk req = Ret bo" "worker_compile fpu clk nanos wid boot d = Goes p"
    and "worker_result (pe_attemptId (readEnv d)) nanos req key bo = (res, success)"
  shows "readEnv p = worker_reply wid boot (readEnv d) req res"
    and "rs_ok res \<Longrightarrow> small p \<Longrightarrow> decodeCompileResult p = Ret (rs_toJson res, success)"
proof -
  let ?env = "worker_reply wid boot (readEnv d) req res"
  obtain t where t: "json_dump (rs_toJson res) = Some t" and p: "p = pe_encode ?env @ w_u8 (if success then 1 else 0) @ w_string t"
    using assms(3) by (auto simp: worker_compile_def assms(1,2,4) Let_def after_def given_def encodeCompileResult_def split: option.splits)
  show "readEnv p = ?env" unfolding p by (rule readEnv_encode)
  assume ok: "rs_ok res" and s: "small p"
  have "json_parse t = Some (rs_toJson res)" using json_ok_text [OF rsj.to_ok [OF ok]] t by auto
  then show "decodeCompileResult p = Ret (rs_toJson res, success)"
    using s unfolding p by (simp add: decodeCompileResult_def after_envelope_encode codec parse_or_empty_def)
qed

lemma parse_error_compile: "parseSource fpu (rq_source req) = Ret (Err code msg) \<Longrightarrow> cpu_compile fpu clk req = Ret (Err code msg)"
  by (simp add: cpu_compile_def)

text \<open>
  C36: A client whose source does not compile is never answered. The worker's reply to a dispatch
  whose source is rejected carries artifact generation 0; the coordinator's thread for that
  worker counts the reply as stale and otherwise changes nothing, in whatever state it reads
  it, so that a client's thread that waits for the request stays blocked.
\<close>

theorem failed_compile_unanswered:
  assumes "decodeDispatch d = Ret (Ok (req, key))" "parseSource fpu (rq_source req) = Ret (Err code msg)"
    and "worker_compile fpu clk nanos wid boot d = Goes p"
    and "i < length (dw_threads w)" "dw_threads w ! i = Worker wid' (WEpoch p)"
  shows "drun w (replicate 7 (Runs i b)) = Goes (put i wid' WRecv (rejected (dw_coord w)) w) \<and>
    (\<forall>n sb b'. n < length (dw_threads w) \<and> dw_threads w ! n = Client (CWait sb) \<and> co_promises (dw_coord w) ! sb_promise sb = None \<longrightarrow>
       dstep (put i wid' WRecv (rejected (dw_coord w)) w) (Runs n b') = None)"
proof -
  have "pe_artifactGen (readEnv p) = 0"
    using worker_answer(1) [OF assms(1) parse_error_compile [OF assms(2)] assms(3)]
    by (fastforce simp: worker_result_def worker_reply_def rs_default_def)
  then have u: "\<not> up_to_date (readEnv p) (dw_coord w)" by (simp add: up_to_date_def)
  have "put i wid' (WEpoch p) (dw_coord w) w = w" using assms(4,5) by (intro put_same)
  then have "drun w (replicate 7 (Runs i b)) = Goes (put i wid' WRecv (rejected (dw_coord w)) w)"
    using examine [OF assms(4), of p "dw_coord w" undefined undefined wid' 3 b] u by simp
  moreover have "dstep (put i wid' WRecv (rejected (dw_coord w)) w) (Runs n b') = None"
    if "n < length (dw_threads w)" "dw_threads w ! n = Client (CWait sb)" "co_promises (dw_coord w) ! sb_promise sb = None" for n sb b'
  proof -
    have "n \<noteq> i" using that(2) assms(5) by auto
    then show ?thesis using that by (simp add: dstep_def put_def thread_out_def rejected_def)
  qed
  ultimately show ?thesis by blast
qed

lemma empty_source: "parseSource fpu [] = Ret (Err ErrInvalidSource ''source produced no operations'')"
proof -
  have "split_lines [] = []" by (subst split_lines.simps) simp
  then show ?thesis by (simp add: parseSource_def parse_finish_def cp_default_def Let_def)
qed

lemma rs_default_ok: "rs_ok rs_default"
  by (simp add: rs_ok_def rs_default_def num_ok_def ad_ok_def ad_default_def td_ok_def td_default_def cd_ok_def bd_ok_def spd_ok_def
      spd_default_def vd_ok_def vd_default_def dd_ok_def dd_default_def pd_ok_def pd_default_def zeroDigest_def)

lemma failed_compile_unanswered_witness:
  "\<exists>p. worker_compile sample_fpu (\<lambda>_. 0) 7 0 (Id128 0 0) p \<noteq> Dies \<and>
     (\<exists>q w. worker_compile sample_fpu (\<lambda>_. 0) 7 0 (Id128 0 0) p = Goes q \<and> dw_threads w = [Worker 0 (WEpoch q)] \<and>
       drun w (replicate 7 (Runs 0 True)) = Goes (put 0 0 WRecv (rejected (dw_coord w)) w))"
proof -
  obtain d d' where d: "encodeDispatch pe_default (short_request []) short_key = Some d" "small d"
    by (rule short_dispatch [of "[]" pe_default]) simp_all
  note dec = dispatch_decodes [OF short_request_ok short_key_wf d]
  have e: "parseSource sample_fpu (rq_source (rq_kept (short_request []))) = Ret (Err ErrInvalidSource ''source produced no operations'')"
    by (simp add: rq_kept_def short_request_def empty_source)
  obtain q where q: "worker_compile sample_fpu (\<lambda>_. 0) 7 0 (Id128 0 0) d = Goes q"
    using json_ok_text [OF rsj.to_ok [OF rs_default_ok]]
    by (auto simp: worker_compile_def dec parse_error_compile [OF e] after_def given_def worker_result_def encodeCompileResult_def)
  let ?w = "\<lparr>dw_coord = coord_init 1 1 1, dw_threads = [Worker 0 (WEpoch q)], dw_sent = []\<rparr>"
  have "0 < length (dw_threads ?w)" "dw_threads ?w ! 0 = Worker 0 (WEpoch q)" by simp_all
  from failed_compile_unanswered [OF dec e q this, of True] q show ?thesis
    by (intro exI [of _ d] conjI exI [of _ q] exI [of _ ?w]) auto
qed

section \<open>From dispatch to answer\<close>

text \<open>
  C39: A compilation that succeeds at a worker reaches the client. In every world the coordinator
  can reach, when the worker's reply to a dispatch arrives, its envelope is accepted by
  checkAuthority, its artifact is new and the request is pending, then the worker's thread,
  undisturbed, publishes the result under the key of the request and fulfils the client's
  promise with the worker's result (up to what its JSON form keeps), marked validated.
\<close>

theorem distributed_answer:
  assumes "dreach (dworld_init e c t) w" "i < length (dw_threads w)" "dw_threads w ! i = Worker wid' (WEpoch p)"
    and "decodeDispatch d = Ret (Ok (req, key))" "cpu_compile fpu clk req = Ret (Ok out)" "vd_passed (bo_validation out)"
    and "worker_compile fpu clk nanos wid boot d = Goes p" "small p"
    and "res = fst (worker_result (pe_attemptId (readEnv d)) nanos req key (Ok out))" "rs_ok res"
    and "checkAuthority (worker_reply wid boot (readEnv d) req res) True (dw_coord w) = ErrOk"
    and "map_of (co_artifactGen (dw_coord w)) (toHex (rs_artifactId res)) = None"
    and "map_of (co_pending (dw_coord w)) (toHex (rq_requestId req)) = Some h"
    and "map_of (co_reqToKey (dw_coord w)) (toHex (rq_requestId req)) = Some k"
  shows "\<exists>w'. drun w (replicate 7 (Runs i b)) = Goes w' \<and> rs_validated (rs_kept res) \<and>
    co_promises (dw_coord w') ! h = Some (rs_kept res) \<and> map_of (co_pending (dw_coord w')) (toHex (rq_requestId req)) = None \<and>
    map_of (co_published (dw_coord w')) k = Some (rs_toJson res)"
proof -
  let ?s = "dw_coord w" and ?env = "worker_reply wid boot (readEnv d) req res"
  have r: "worker_result (pe_attemptId (readEnv d)) nanos req key (Ok out) = (res, True)" "rs_validated res" "rs_generation res = 1"
    using assms(6) by (simp_all add: assms(9) worker_result_def Let_def)
  have env: "readEnv p = ?env" by (rule worker_answer(1) [OF assms(4,5,7) r(1)])
  have dec: "decodeCompileResult p = Ret (rs_toJson res, True)" by (rule worker_answer(2) [OF assms(4,5,7) r(1) assms(10,8)])
  have ids: "pe_requestId ?env = rq_requestId req" "pe_artifactId ?env = rs_artifactId res" "pe_artifactGen ?env = 1"
    using r(3) by (simp_all add: worker_reply_def)
  have u: "up_to_date (readEnv p) ?s" using assms(11-13) by (simp add: up_to_date_def env ids)
  have h: "h < length (co_promises ?s)" using promises_reach(1) [OF assms(1)] assms(13) by (auto simp: promises_ok_def)
  have "drun w (replicate 7 (Runs i b)) = Goes (put i wid' WRecv (published ?env (rs_toJson res) (rs_kept res) ?s) w)"
    using handle_run [OF promises_reach(1) [OF assms(1)] assms(2,3) dec rsj.from_to [OF assms(10)], of b] u env by simp
  moreover have "rs_validated (rs_kept res)" using r(2) by (simp add: rs_kept_def)
  ultimately show ?thesis using h assms(13,14) by (simp add: put_def published_def Let_def ids)
qed

section \<open>A dispatch that succeeds\<close>

definition neg_request :: CompilationRequest where "neg_request = rq_kept (short_request ''neg'')"

definition neg_program :: CpuProgram where
  "neg_program = cpu_optimize (rq_optimizeLevel neg_request) (specialize neg_request sample_program)"

lemma neg_program_ops: "map op_kind (cp_ops neg_program) = [OP_Neg]" "cp_name neg_program = ''cf-kernel''"
  "cp_launchConfig neg_program = []" "cp_shapeN neg_program = 1024"
  by (simp_all add: neg_program_def cpu_optimize_def specialize_def Let_def neg_request_def rq_kept_def short_request_def rq_default_def
      sample_program_def foldable_def)

lemma neg_compile:
  obtains out where "cpu_compile zero_fpu (\<lambda>_. 0) neg_request = Ret (Ok out)" "vd_passed (bo_validation out)"
    "bo_backend out = bo_backend (compile_output zero_fpu (\<lambda>_. 0) 0 neg_program vd_default)"
    "bo_specialization out = bo_specialization (compile_output zero_fpu (\<lambda>_. 0) 0 neg_program vd_default)"
    "length (bo_executable out) \<le> 500" "vd_durationMs (bo_validation out) = 0" "vd_message (bo_validation out) = []"
    "vd_method (bo_validation out) = ''cpu-execute-reference''"
proof -
  let ?s = "ucast (makeSeedFrom neg_request)"
  have src: "rq_source neg_request = ''neg''" by (simp add: neg_request_def rq_kept_def short_request_def)
  have ops: "length (cp_ops neg_program) = 1" using neg_program_ops(1) by (metis length_map length_Cons list.size(3) One_nat_def)
  then obtain op where op: "cp_ops neg_program = [op]" by (auto simp: length_Suc_conv)
  have l: "length (cpu_encode neg_program) \<le> 500"
    by (simp add: cpu_encode_def op neg_program_ops encode_op_def w_string_def w_f64_def w_u8_def)
  then have "cpu_decode (cpu_encode neg_program) = Ret (Ok neg_program)"
    using cpu_decodes [of neg_program] op by (simp add: small_def)
  moreover have "same_values (cpu_execute zero_fpu neg_program ?s) (cpu_execute zero_fpu neg_program ?s)"
    using zero_execute [OF neg_program_ops(1)] by (simp add: same_values_self)
  ultimately show ?thesis using that l sample_parse [of zero_fpu]
    by (simp add: cpu_compile_def src neg_program_def [symmetric] compile_output_def compile_validation_def cpu_reference_def Let_def vd_default_def)
qed

definition neg_artifact :: "BackendOutput \<Rightarrow> ArtifactDescriptor" where
  "neg_artifact out = ad_default\<lparr>ad_backend := bo_backend out, ad_specialization := bo_specialization out,
     ad_validation := bo_validation out, ad_contentDigest := sha256 (bo_executable out)\<rparr>"

lemma neg_artifact_short:
  assumes "bo_backend out = bo_backend (compile_output zero_fpu (\<lambda>_. 0) 0 neg_program vd_default)"
    "bo_specialization out = bo_specialization (compile_output zero_fpu (\<lambda>_. 0) 0 neg_program vd_default)"
    "vd_durationMs (bo_validation out) = 0" "vd_message (bo_validation out) = []" "vd_method (bo_validation out) = ''cpu-execute-reference''"
  shows "ad_ok (neg_artifact out)" "jlen (ad_toJson (neg_artifact out)) \<le> 90000"
proof -
  have dt: "cp_datatype neg_program = DT_F32"
    by (simp add: neg_program_def cpu_optimize_def specialize_def Let_def neg_request_def rq_kept_def short_request_def rq_default_def
      sample_program_def cp_default_def)
  show "ad_ok (neg_artifact out)" using assms(3)
    by (simp add: neg_artifact_def ad_ok_def ad_default_def td_ok_def td_default_def cd_ok_def bd_ok_def spd_ok_def spd_default_def
        vd_ok_def dd_ok_def dd_default_def pd_ok_def pd_default_def num_ok_def zeroDigest_def assms(1,2) compile_output_def neg_program_ops)
  have n: "length (datatypeName DT_F32) \<le> 99" by code_simp
  have sub: "jlen (td_toJson td_default) \<le> 9000" "jlen (cd_toJson cd_default) \<le> 9000" "jlen (bd_toJson (bo_backend out)) \<le> 9000"
    "jlen (spd_toJson (bo_specialization out)) \<le> 9000" "jlen (vd_toJson (bo_validation out)) \<le> 9000" "jlen (dd_toJson dd_default) \<le> 9000"
    "jlen (pd_toJson pd_default) \<le> 9000"
    unfolding td_toJson_def cd_toJson_def bd_toJson_def spd_toJson_def vd_toJson_def dd_toJson_def pd_toJson_def
    using default_names_short n
    by (intro order_trans [OF jlen_sets], simp add: td_default_def cd_default_def bd_default_def spd_default_def dd_default_def pd_default_def
        length_digestToHex zeroDigest_def assms compile_output_def neg_program_ops dt toStrArray_def)+
  then show "jlen (ad_toJson (neg_artifact out)) \<le> 90000"
    unfolding ad_toJson_def using default_names_short
    by (intro order_trans [OF jlen_sets]) (simp add: neg_artifact_def ad_default_def length_digestToHex zeroDigest_def)
qed

definition neg_result :: "BackendOutput \<Rightarrow> CompilationResult" where
  "neg_result out = fst (worker_result (pe_attemptId demo_env) 7 neg_request short_key (Ok out))"

lemma neg_result_text:
  assumes "vd_passed (bo_validation out)" "ad_ok (neg_artifact out)" "jlen (ad_toJson (neg_artifact out)) \<le> 90000"
  obtains t where "rs_ok (neg_result out)" "json_dump (rs_toJson (neg_result out)) = Some t" "length t \<le> 200000"
proof -
  have r: "rs_artifact (neg_result out) = neg_artifact out" by (simp add: neg_result_def worker_result_def Let_def neg_artifact_def)
  then have ok: "rs_ok (neg_result out)"
    using assms(2) by (simp add: rs_ok_def neg_result_def worker_result_def Let_def rs_default_def num_ok_def)
  obtain t where t: "json_dump (rs_toJson (neg_result out)) = Some t" using json_ok_text [OF rsj.to_ok [OF ok]] by blast
  have n: "length (errorCodeName ErrOk) \<le> 99" by code_simp
  have "length t \<le> jlen (rs_toJson (neg_result out))" using dump_length [OF rsj.to_ok [OF ok]] t by (simp add: json_dump_def)
  also have "\<dots> \<le> 200000" unfolding rs_toJson_def r using assms(1,3) n
    by (intro order_trans [OF jlen_sets])
      (simp add: neg_result_def worker_result_def Let_def rs_default_def key_toHex_def key_digest_def length_digestToHex)
  finally show ?thesis using that ok t by blast
qed

lemma distributed_answer_witness:
  "\<exists>d p w w' res. worker_compile zero_fpu (\<lambda>_. 0) 7 0 (Id128 0 0) d = Goes p \<and> dw_threads w ! 0 = Worker 0 (WEpoch p) \<and>
     drun w (replicate 7 (Runs 0 True)) = Goes w' \<and> co_promises (dw_coord w') ! 0 = Some res \<and> rs_validated res"
proof -
  obtain d d' where d: "encodeDispatch demo_env (short_request ''neg'') short_key = Some d" "small d"
    by (rule short_dispatch [of "''neg''" demo_env]) simp_all
  have dec: "decodeDispatch d = Ret (Ok (neg_request, short_key))"
    using dispatch_decodes [OF short_request_ok short_key_wf d] by (simp add: neg_request_def)
  have env: "readEnv d = demo_env" using d(1) by (auto simp: encodeDispatch_def Let_def readEnv_encode)
  obtain out where out: "cpu_compile zero_fpu (\<lambda>_. 0) neg_request = Ret (Ok out)" "vd_passed (bo_validation out)"
    "bo_backend out = bo_backend (compile_output zero_fpu (\<lambda>_. 0) 0 neg_program vd_default)"
    "bo_specialization out = bo_specialization (compile_output zero_fpu (\<lambda>_. 0) 0 neg_program vd_default)"
    "vd_durationMs (bo_validation out) = 0" "vd_message (bo_validation out) = []"
    "vd_method (bo_validation out) = ''cpu-execute-reference''" by (rule neg_compile)
  note art = neg_artifact_short [OF out(3,4,5,6,7)]
  obtain t where t: "rs_ok (neg_result out)" "json_dump (rs_toJson (neg_result out)) = Some t" "length t \<le> 200000"
    by (rule neg_result_text [OF out(2) art])
  let ?env = "worker_reply 0 (Id128 0 0) demo_env neg_request (neg_result out)"
  define p where "p = pe_encode ?env @ w_u8 1 @ w_string t"
  have wr: "worker_result (pe_attemptId demo_env) 7 neg_request short_key (Ok out) = (neg_result out, True)"
    using out(2) by (simp add: neg_result_def worker_result_def Let_def)
  have wc: "worker_compile zero_fpu (\<lambda>_. 0) 7 0 (Id128 0 0) d = Goes p"
    by (simp add: worker_compile_def dec env out(1) wr after_def given_def encodeCompileResult_def t(2) p_def)
  have sm: "small p" using t(3) by (intro small_mebibyte) (simp add: p_def w_u8_def w_string_def kEnvelopeSize_def)
  have reach: "dreach (dworld_init 1 1 1) (demo_world p)" by (rule demo_reach) (simp add: p_def)
  have th: "0 < length (dw_threads (demo_world p))" "dw_threads (demo_world p) ! 0 = Worker 0 (WEpoch p)" "dw_coord (demo_world p) = demo_coord"
    by (simp_all add: demo_world_def)
  have rid: "toHex (rq_requestId neg_request) = sb_rid demo_sb"
    by (simp add: demo_rid demo_env_def pe_default_def neg_request_def rq_kept_def short_request_def rq_default_def)
  have auth: "checkAuthority ?env True demo_coord = ErrOk"
    by (simp add: checkAuthority_def worker_reply_def demo_env_def pe_default_def demo_coord_def coord_init_def demo_caps_def
        caps_string_def json_get_def asObjectPtr_def)
  have res: "neg_result out = fst (worker_result (pe_attemptId (readEnv d)) 7 neg_request short_key (Ok out))" by (simp add: neg_result_def env)
  have maps: "map_of (co_artifactGen demo_coord) (toHex (rs_artifactId (neg_result out))) = None"
    "map_of (co_pending demo_coord) (toHex (rq_requestId neg_request)) = Some 0"
    "map_of (co_reqToKey demo_coord) (toHex (rq_requestId neg_request)) = Some (key_toHex (sb_key demo_sb))"
    unfolding rid by (simp_all add: demo_coord_def coord_init_def)
  from distributed_answer [OF reach th(1,2) dec out(1,2) wc sm res t(1), of 0 _ True, unfolded th(3) env, OF auth maps(1,2,3)]
  show ?thesis using wc th(2) by blast
qed

end
