(* ===== verification/CF_Worker.thy ===== *)
theory CF_Worker
  imports CF_Distributed
begin

text \<open>
  A whole run of \<open>DistributedWorker::run\<close>: connecting, registering, the loop over what
  arrives and the temporary directory. The outcome of each receive, the clocks and whether
  the registration could be sent are arguments; replies are sent without looking at the
  result, as in the code.
\<close>

section \<open>The run\<close>

datatype WorkerEnd = Exited int | Aborted | Waiting

text \<open>The loop: \<open>clk k\<close> and \<open>nanos k\<close> are the clocks while the k-th frame is served.\<close>

fun worker_serve ::
  "Fpu \<Rightarrow> (nat \<Rightarrow> nat \<Rightarrow> i64) \<Rightarrow> (nat \<Rightarrow> u64) \<Rightarrow> u32 \<Rightarrow> Id128 \<Rightarrow> nat \<Rightarrow> ProtoFrame result list \<Rightarrow> ProtoFrame list \<times> WorkerEnd" where
  "worker_serve fpu clk nanos wid boot k [] = ([], Waiting)"
| "worker_serve fpu clk nanos wid boot k (fr # frs) =
     (case worker_loop fpu (clk k) (nanos k) wid boot fr of
        Exits code \<Rightarrow> ([], Exited code)
      | Aborts \<Rightarrow> ([], Aborted)
      | Answers out \<Rightarrow> let (sent, e) = worker_serve fpu clk nanos wid boot (Suc k) frs in (out @ sent, e))"

record WorkerRun =
  wn_sent :: "ProtoFrame list"
  wn_end :: WorkerEnd
  wn_root :: bool

text \<open>
  The result of connecting is not looked at: without a connection the registration cannot
  be sent. The temporary directory is removed wherever \<open>run\<close> returns after making it.
\<close>

definition worker_run ::
  "Fpu \<Rightarrow> bool \<Rightarrow> (nat \<Rightarrow> nat \<Rightarrow> i64) \<Rightarrow> (nat \<Rightarrow> u64) \<Rightarrow> u64 \<Rightarrow> u32 \<Rightarrow> bool \<Rightarrow> bool \<Rightarrow> ProtoFrame result list \<Rightarrow> WorkerRun option" where
  "worker_run fpu cudaOk clk nanos bootNanos wid preferCuda regSent frs =
     map_option (\<lambda>reg.
       if \<not> regSent then \<lparr>wn_sent = [], wn_end = Exited 1, wn_root = False\<rparr>
       else let (sent, e) = worker_serve fpu clk nanos wid (fromU64 bootNanos) 0 frs
            in \<lparr>wn_sent = frame_of MT_Register reg # sent, wn_end = e, wn_root = (case e of Exited _ \<Rightarrow> False | _ \<Rightarrow> True)\<rparr>)
     (worker_registration wid preferCuda cudaOk bootNanos)"

definition workerCount :: "Coord \<Rightarrow> nat" where "workerCount s = length (co_workers s)"

section \<open>What a run does\<close>

text \<open>The messages that the worker answers, each with a message of the same exchange.\<close>

definition calls_for :: "ProtoFrame \<Rightarrow> MsgType option" where
  "calls_for f = (if pf_type f = MT_Heartbeat then Some MT_Heartbeat
     else if pf_type f = MT_DispatchCompile then Some MT_CompileResult else None)"

lemma loop_answers:
  assumes "worker_loop fpu c n wid boot (Ok f) = Answers out"
  shows "map pf_type out = (case calls_for f of Some t \<Rightarrow> [t] | None \<Rightarrow> [])"
  using assms by (auto simp: worker_loop_def calls_for_def frame_of_def split: if_splits fate.splits)

lemma loop_shutdown: "pf_type f = MT_Shutdown \<Longrightarrow> worker_loop fpu c n wid boot (Ok f) = Exits 0"
  by (simp add: worker_loop_def)

lemma loop_exits: "worker_loop fpu c n wid boot fr = Exits code \<Longrightarrow>
    code = 0 \<and> (\<exists>f. fr = Ok f \<and> pf_type f = MT_Shutdown) \<or> code = 1 \<and> (\<exists>e m. fr = Err e m)"
  by (auto simp: worker_loop_def split: result.splits if_splits fate.splits)

text \<open>
  While nothing but answerable frames arrives, the worker sends one answer for each
  heartbeat and each dispatch, in the order of arrival, and nothing else.
\<close>

lemma serve_answers:
  assumes "worker_serve fpu clk nanos wid boot k (map Ok fs) = (sent, Waiting)"
  shows "map pf_type sent = List.map_filter calls_for fs"
  using assms
proof (induction fs arbitrary: k sent)
  case (Cons f fs)
  obtain out where out: "worker_loop fpu (clk k) (nanos k) wid boot (Ok f) = Answers out"
    using Cons.prems by (auto split: WorkerAct.splits)
  obtain sent' where s: "worker_serve fpu clk nanos wid boot (Suc k) (map Ok fs) = (sent', Waiting)" "sent = out @ sent'"
    using Cons.prems out by (auto split: prod.splits)
  show ?case using Cons.IH [OF s(1)] loop_answers [OF out] s(2)
    by (simp add: List.map_filter_simps split: option.splits)
qed (simp add: List.map_filter_simps)

text \<open>The exit code says why the worker left, and then its directory is gone.\<close>

lemma serve_exit:
  assumes "worker_serve fpu clk nanos wid boot k frs = (sent, Exited code)"
  shows "code = 0 \<and> (\<exists>f. Ok f \<in> set frs \<and> pf_type f = MT_Shutdown) \<or> code = 1 \<and> (\<exists>e m. Err e m \<in> set frs)"
  using assms
proof (induction frs arbitrary: k sent)
  case (Cons fr frs)
  then show ?case using loop_exits [of fpu "clk k" "nanos k" wid boot fr code]
    by (fastforce split: WorkerAct.splits prod.splits)
qed simp

lemma worker_exit_clean:
  assumes "worker_run fpu cudaOk clk nanos bootNanos wid preferCuda regSent frs = Some r" "wn_end r = Exited code"
  shows "\<not> wn_root r \<and> (code = 1 \<and> (\<not> regSent \<or> (\<exists>e m. Err e m \<in> set frs)) \<or>
    code = 0 \<and> (\<exists>f. Ok f \<in> set frs \<and> pf_type f = MT_Shutdown))"
proof -
  obtain reg where reg: "worker_registration wid preferCuda cudaOk bootNanos = Some reg" using assms(1) by (auto simp: worker_run_def)
  obtain sent e where s: "worker_serve fpu clk nanos wid (fromU64 bootNanos) 0 frs = (sent, e)" by fastforce
  show ?thesis
  proof (cases regSent)
    case True
    then have "r = \<lparr>wn_sent = frame_of MT_Register reg # sent, wn_end = e, wn_root = (case e of Exited _ \<Rightarrow> False | _ \<Rightarrow> True)\<rparr>"
      using assms(1) reg s by (simp add: worker_run_def)
    then show ?thesis using serve_exit [of fpu clk nanos wid "fromU64 bootNanos" 0 frs sent code] s assms(2) by auto
  next
    case False
    then show ?thesis using assms reg by (auto simp: worker_run_def)
  qed
qed

text \<open>
  A dispatch that does not decode ends the process with an exception, and its temporary
  directory stays.
\<close>

lemma malformed_dispatch_leaves_root:
  assumes "worker_registration wid preferCuda cudaOk bootNanos = Some reg" "pf_type f = MT_DispatchCompile"
    and "decodeDispatch (pf_payload f) = Ret (Err e m)"
  shows "\<exists>r. worker_run fpu cudaOk clk nanos bootNanos wid preferCuda True (Ok f # frs) = Some r \<and> wn_end r = Aborted \<and> wn_root r"
proof -
  have "worker_loop fpu (clk 0) (nanos 0) wid (fromU64 bootNanos) (Ok f) = Aborts"
    using assms(2,3) by (simp add: worker_loop_def worker_compile_def after_def)
  then show ?thesis using assms(1) by (simp add: worker_run_def)
qed

end
