(* ===== verification/CF_CudaSpec.thy ===== *)
theory CF_CudaSpec
  imports CF_CpuBackend "HOL-Library.Multiset"
begin

text \<open>
  The code generator of \<open>src/Cuda.cpp\<close>: the launch specification of a kernel and its
  text form, the CUDA source the backend hands to the compiler, and the meaning of the
  kernel it prints. The kernel functions are over an arbitrary element type and
  operation, so that the same definition describes \<open>float\<close> and \<open>double\<close> and can be run
  on symbolic elements. \<open>Cuda.cpp\<close> uses Win32 types throughout, so \<open>unsigned long\<close> has
  32 bits here.
\<close>

section \<open>Launch specifications\<close>

definition opKindFor :: "string \<Rightarrow> CpuOpKind" where
  "opKindFor s =
     (if s = ''add'' then OP_Add else if s = ''sub'' then OP_Sub else if s = ''mul'' then OP_Mul
      else if s = ''scale'' then OP_Scale else if s = ''abs'' then OP_Abs else if s = ''neg'' then OP_Neg
      else if s = ''sum'' then OP_Sum else if s = ''max'' then OP_Max else if s = ''min'' then OP_Min else OP_Id)"

definition opNameFor :: "CpuOpKind \<Rightarrow> string" where
  "opNameFor k =
     (if k = OP_Add then ''add'' else if k = OP_Sub then ''sub'' else if k = OP_Mul then ''mul''
      else if k = OP_Scale then ''scale'' else if k = OP_Abs then ''abs'' else if k = OP_Neg then ''neg''
      else if k = OP_Sum then ''sum'' else if k = OP_Max then ''max'' else if k = OP_Min then ''min'' else ''id'')"

record CudaSpec =
  sp_op :: string
  sp_scalar :: double
  sp_n :: u32
  sp_dt :: Datatype
  sp_block :: i32
  sp_reduce :: bool

definition sp_default :: CudaSpec where
  "sp_default = \<lparr>sp_op = ''scale'', sp_scalar = f_of_int 1, sp_n = 1024, sp_dt = DT_F32, sp_block = 256, sp_reduce = False\<rparr>"

text \<open>
  \<open>std::to_string (double)\<close>: six decimals, ties to even. The code builds on Windows only,
  whose library marks the default NaN of the processor and signalling NaNs in the text.
\<close>

definition nan_text :: "double \<Rightarrow> string" where
  "nan_text x = (if neg_bit x then ''-nan'' else ''nan'') @
     (if magn x < inf_bits + 2 ^ 51 then ''(snan)'' else if neg_bit x \<and> magn x = inf_bits + 2 ^ 51 then ''(ind)'' else [])"

definition fmt_f :: "double \<Rightarrow> string" where
  "fmt_f x = (case cls x of
     None \<Rightarrow> nan_text x
   | Some (Inf s) \<Rightarrow> if s then ''-inf'' else ''inf''
   | Some (Fin v) \<Rightarrow>
       let k = round_half_even (\<bar>v\<bar> * 10 ^ 6)
       in (if neg_bit x then ''-'' else []) @ dec_int (k div 10 ^ 6) @ ''.'' @ tl (dec_int (10 ^ 6 + k mod 10 ^ 6)))"

definition spec_encode :: "CudaSpec \<Rightarrow> string" where
  "spec_encode s =
     ''op='' @ sp_op s @ '';scalar='' @ fmt_f (sp_scalar s) @ '';n='' @ dec_int (uint (sp_n s)) @
     '';dt='' @ datatypeName (sp_dt s) @ '';block='' @ dec_int (sint (sp_block s)) @
     '';reduce='' @ (if sp_reduce s then ''1'' else ''0'')"

text \<open>\<open>std::getline\<close> with a separator until it fails.\<close>

function split_on :: "char \<Rightarrow> string \<Rightarrow> string list" where
  "split_on d s = (if s = [] then [] else takeWhile (\<lambda>c. c \<noteq> d) s # split_on d (tl (dropWhile (\<lambda>c. c \<noteq> d) s)))"
  by pat_completeness auto
termination
  by (relation "measure (length \<circ> snd)") (auto simp del: length_tl intro: tl_dropWhile_less)

declare split_on.simps [simp del]

definition spec_field :: "Fpu \<Rightarrow> CudaSpec \<Rightarrow> string \<Rightarrow> CudaSpec" where
  "spec_field fpu s tok =
     (if \<not> has_eq tok then s
      else let k = key_part tok; v = val_part tok
        in if k = ''op'' then s\<lparr>sp_op := v\<rparr>
           else if k = ''scalar'' then s\<lparr>sp_scalar := strtod64 fpu v\<rparr>
           else if k = ''n'' then s\<lparr>sp_n := strtoul10 v\<rparr>
           else if k = ''dt'' then (case datatypeFromName v of Some d \<Rightarrow> s\<lparr>sp_dt := d\<rparr> | None \<Rightarrow> s)
           else if k = ''block'' then s\<lparr>sp_block := strtoul10 v\<rparr>
           else if k = ''reduce'' then s\<lparr>sp_reduce := (v = ''1'')\<rparr>
           else s)"

definition spec_parse :: "Fpu \<Rightarrow> string \<Rightarrow> CudaSpec" where
  "spec_parse fpu s = foldl (spec_field fpu) sp_default (split_on (CHR '';'') s)"

section \<open>Kernel source\<close>

definition quoted :: "string \<Rightarrow> string" where "quoted s = CHR 0x22 # s @ [CHR 0x22]"

definition src_line :: "string \<Rightarrow> string" where "src_line s = s @ [newline]"

definition elementwiseMath :: "string \<Rightarrow> bool \<Rightarrow> string" where
  "elementwiseMath kind isDouble =
     (if kind = ''add'' then ''out[i] = in[i] + scalar;''
      else if kind = ''sub'' then ''out[i] = in[i] - scalar;''
      else if kind = ''mul'' then ''out[i] = in[i] * scalar;''
      else if kind = ''scale'' then ''out[i] = in[i] * scalar;''
      else if kind = ''abs'' then ''out[i] = '' @ (if isDouble then ''fabs('' else ''fabsf('') @ ''in[i]);''
      else if kind = ''neg'' then ''out[i] = -in[i];''
      else ''out[i] = in[i];'')"

definition generateKernel :: "CudaSpec \<Rightarrow> string" where
  "generateKernel s =
     (let wide = (sp_dt s = DT_F64); T = (if wide then ''double'' else ''float'');
          big = (if wide then ''DBL_MAX'' else ''FLT_MAX'');
          initv = (if sp_op s = ''max'' then ''-'' @ big else if sp_op s = ''min'' then big else ''0.0'')
      in src_line (''extern '' @ quoted ''C'' @ '' __global__ void cf_kernel(const '' @ T @ ''* in, '' @ T @ ''* out, int n, '' @
           T @ '' scalar) {'') @
         (if sp_reduce s
          then src_line (''  extern __shared__ '' @ T @ '' sh[];'') @
               src_line ''  int tid = threadIdx.x;'' @
               src_line (''  '' @ T @ '' acc = '' @ initv @ '';'') @
               src_line ''  for (int i = tid; i < n; i += blockDim.x) {'' @
               src_line (if sp_op s = ''sum'' then ''    acc += in[i];''
                         else if sp_op s = ''max'' then ''    acc = (acc > in[i]) ? acc : in[i];''
                         else ''    acc = (acc < in[i]) ? acc : in[i];'') @
               src_line ''  }'' @
               src_line ''  sh[tid] = acc;'' @ src_line ''  __syncthreads();'' @
               src_line ''  for (int st = blockDim.x/2; st > 0; st >>= 1) {'' @
               src_line ''    if (tid < st) {'' @
               src_line (if sp_op s = ''sum'' then ''      sh[tid] += sh[tid+st];''
                         else if sp_op s = ''max'' then ''      sh[tid] = (sh[tid] > sh[tid+st]) ? sh[tid] : sh[tid+st];''
                         else ''      sh[tid] = (sh[tid] < sh[tid+st]) ? sh[tid] : sh[tid+st];'') @
               src_line ''    }'' @ src_line ''    __syncthreads();'' @ src_line ''  }'' @
               src_line ''  if (tid == 0) out[0] = sh[0];''
          else src_line ''  int i = blockIdx.x*blockDim.x + threadIdx.x;'' @
               src_line (''  if (i < n) { '' @ elementwiseMath (sp_op s) wide @ '' }'')) @
         src_line ''}'')"

definition generateCudaSource :: "u32 \<Rightarrow> Datatype \<Rightarrow> i32 \<Rightarrow> string" where
  "generateCudaSource n dt blockSize = generateKernel (sp_default\<lparr>sp_op := ''scale'', sp_scalar := f_of_int 1, sp_n := n,
     sp_dt := dt, sp_block := (if blockSize \<noteq> 0 then blockSize else 256)\<rparr>)"

definition is_reduction :: "CpuOpKind \<Rightarrow> bool" where
  "is_reduction k \<longleftrightarrow> k = OP_Sum \<or> k = OP_Max \<or> k = OP_Min"

definition unit_scale :: "CudaSpec \<Rightarrow> CudaSpec" where
  "unit_scale s = (if f_eq (sp_scalar s) (f_of_int 0) \<and> sp_op s = ''scale'' then s\<lparr>sp_scalar := f_of_int 1\<rparr> else s)"

definition generateCudaSourceFromProgram :: "Fpu \<Rightarrow> string \<Rightarrow> u32 \<Rightarrow> Datatype \<Rightarrow> i32 \<Rightarrow> string eff" where
  "generateCudaSourceFromProgram fpu programText n dt blockSize =
     ebind (parseSource fpu programText) (\<lambda>prog. Ret (case prog of
         Err _ _ \<Rightarrow> generateCudaSource n dt blockSize
       | Ok p \<Rightarrow>
           if cp_ops p = [] then generateCudaSource n dt blockSize
           else let op = last (cp_ops p)
             in generateKernel (unit_scale \<lparr>sp_op = opNameFor (op_kind op), sp_scalar = op_scalar op,
                  sp_n = (if n \<noteq> 0 then n else 1024), sp_dt = dt, sp_block = (if blockSize \<noteq> 0 then blockSize else 256),
                  sp_reduce = is_reduction (op_kind op)\<rparr>)))"

section \<open>The meaning of the kernel\<close>

text \<open>
  One block of \<open>b\<close> threads. Between two barriers thread \<open>t\<close> writes only its own cell of
  the shared array and reads a cell that no thread of that round writes, so a round is a
  simultaneous update.
\<close>

function stride :: "nat \<Rightarrow> nat \<Rightarrow> nat \<Rightarrow> nat list" where
  "stride i b n = (if b = 0 \<or> n \<le> i then [] else i # stride (i + b) b n)"
  by pat_completeness auto
termination by (relation "measure (\<lambda>(i, b, n). n - i)") auto

declare stride.simps [simp del]

definition thread_acc :: "('a \<Rightarrow> 'a \<Rightarrow> 'a) \<Rightarrow> 'a \<Rightarrow> nat \<Rightarrow> 'a list \<Rightarrow> nat \<Rightarrow> 'a" where
  "thread_acc f init b xs t = foldl f init (map ((!) xs) (stride t b (length xs)))"

definition reduce_round :: "('a \<Rightarrow> 'a \<Rightarrow> 'a) \<Rightarrow> nat \<Rightarrow> 'a list \<Rightarrow> 'a list" where
  "reduce_round f st sh = map (\<lambda>t. if t < st then f (sh ! t) (sh ! (t + st)) else sh ! t) [0..<length sh]"

fun reduce_rounds :: "('a \<Rightarrow> 'a \<Rightarrow> 'a) \<Rightarrow> nat \<Rightarrow> 'a list \<Rightarrow> 'a list" where
  "reduce_rounds f st sh = (if st = 0 then sh else reduce_rounds f (st div 2) (reduce_round f st sh))"

declare reduce_rounds.simps [simp del]

definition kernel_reduce :: "('a \<Rightarrow> 'a \<Rightarrow> 'a) \<Rightarrow> 'a \<Rightarrow> nat \<Rightarrow> 'a list \<Rightarrow> 'a" where
  "kernel_reduce f init b xs = reduce_rounds f (b div 2) (map (thread_acc f init b xs) [0..<b]) ! 0"

definition kernel_map :: "('a \<Rightarrow> 'a) \<Rightarrow> nat \<Rightarrow> nat \<Rightarrow> 'a list \<Rightarrow> 'a list \<Rightarrow> 'a list" where
  "kernel_map f grid b xs out =
     foldl (\<lambda>out (bx, tx). let i = bx * b + tx in if i < length xs then out[i := f (xs ! i)] else out) out
       (List.product [0..<grid] [0..<b])"

section \<open>The text form of a specification\<close>

lemma op_names: "k \<in> {OP_Add, OP_Sub, OP_Mul, OP_Scale, OP_Abs, OP_Neg, OP_Sum, OP_Max, OP_Min, OP_Id} \<Longrightarrow> opKindFor (opNameFor k) = k"
  by (auto simp: opKindFor_def opNameFor_def)

lemma opNameFor_plain: "CHR '';'' \<notin> set (opNameFor k)"
  by (simp add: opNameFor_def)

lemma split_on_sep: "d \<notin> set t \<Longrightarrow> t \<noteq> [] \<or> s \<noteq> [] \<Longrightarrow> split_on d (t @ d # s) = t # split_on d s"
  by (subst split_on.simps) (auto simp: takeWhile_append dropWhile_append)

lemma split_on_last: "d \<notin> set t \<Longrightarrow> t \<noteq> [] \<Longrightarrow> split_on d t = [t]"
proof -
  assume t: "d \<notin> set t" "t \<noteq> []"
  then have "takeWhile (\<lambda>c. c \<noteq> d) t = t" "dropWhile (\<lambda>c. c \<noteq> d) t = []" by (auto simp: takeWhile_eq_all_conv dropWhile_eq_Nil_conv)
  then show ?thesis unfolding split_on.simps [of d t] using t(2) by (simp only: list.sel split_on.simps [of d "[]"]) simp
qed

lemma plain_dec: "CHR '';'' \<notin> set (dec_int n)"
proof -
  have d: "CHR '';'' \<notin> set (dec_pos k)" if "0 \<le> k" for k
    using digits_dec_pos [OF that] by (auto simp: list_all_iff is_digit_def)
  show ?thesis using d [of n] d [of "- n"] by (auto simp: dec_int_def)
qed

lemma plain_fmt_f: "CHR '';'' \<notin> set (fmt_f x)"
proof -
  have tl: "CHR '';'' \<notin> set (tl (dec_int n))" for n using plain_dec [of n] by (cases "dec_int n") auto
  show ?thesis
    by (cases "cls x"; cases "the (cls x)") (auto simp: fmt_f_def nan_text_def Let_def plain_dec tl)
qed

lemma plain_datatype: "CHR '';'' \<notin> set (datatypeName d)"
proof -
  have "list_all (\<lambda>x. CHR '';'' \<notin> set (snd x)) datatypeCases" by code_simp
  then show ?thesis
    by (fastforce simp: datatypeName_def table_name_def list_all_iff split: option.splits dest: map_of_SomeD)
qed

lemma strtoul10_digits:
  assumes ds: "list_all is_digit ds" "ds \<noteq> []" and small: "digits_value ds < 2 ^ 32"
  shows "strtoul10 ds = of_int (digits_value ds)" and "strtoul10 (CHR ''-'' # ds) = - of_int (digits_value ds)"
proof -
  have d: "is_digit c \<Longrightarrow> \<not> is_space c \<and> (of_char c :: nat) \<noteq> 0 \<and> c \<noteq> CHR ''-'' \<and> c \<noteq> CHR ''+''" for c
    by (auto simp: is_digit_def is_space_def Let_def)
  have cs: "c_string ds = ds" using ds(1) d by (auto simp: c_string_def takeWhile_eq_all_conv list_all_iff)
  have tw: "takeWhile is_digit ds = ds" using ds(1) by (auto simp: takeWhile_eq_all_conv list_all_iff)
  obtain c r where c: "ds = c # r" using ds(2) by (cases ds) auto
  then have h: "is_digit c" using ds(1) by simp
  have sc: "scan_sign ds = (False, ds)" "dropWhile is_space ds = ds" using d [OF h] by (simp_all add: scan_sign_def c)
  show "strtoul10 ds = of_int (digits_value ds)" using small by (simp add: strtoul10_def cs sc tw)
  have m: "c_string (CHR ''-'' # ds) = CHR ''-'' # ds" "\<not> is_space (CHR ''-'')"
    using cs by (simp_all add: c_string_def is_space_def)
  show "strtoul10 (CHR ''-'' # ds) = - of_int (digits_value ds)"
    using small by (simp add: strtoul10_def m scan_sign_def [of "CHR ''-'' # ds"] tw)
qed

lemma dec_pos_digits: "0 \<le> n \<Longrightarrow> list_all is_digit (dec_pos n) \<and> dec_pos n \<noteq> [] \<and> digits_value (dec_pos n) = n"
  using digits_dec_pos [of n] digits_value_dec_pos [of n] by (simp, subst dec_pos.simps) simp

lemma strtoul10_dec: "- (2 ^ 31) \<le> n \<Longrightarrow> n < 2 ^ 32 \<Longrightarrow> strtoul10 (dec_int n) = of_int n"
  using dec_pos_digits [of n] dec_pos_digits [of "- n"] strtoul10_digits [of "dec_pos n"] strtoul10_digits [of "dec_pos (- n)"]
  by (auto simp: dec_int_def)

lemma field_parts: "CHR ''='' \<notin> set k \<Longrightarrow> has_eq (k @ CHR ''='' # v) \<and> key_part (k @ CHR ''='' # v) = k \<and> val_part (k @ CHR ''='' # v) = v"
  by (auto simp: has_eq_def key_part_def val_part_def takeWhile_append dropWhile_append)

lemma spec_field_parts:
  "spec_field fpu s (''op='' @ v) = s\<lparr>sp_op := v\<rparr>"
  "spec_field fpu s (''scalar='' @ v) = s\<lparr>sp_scalar := strtod64 fpu v\<rparr>"
  "spec_field fpu s (''n='' @ v) = s\<lparr>sp_n := strtoul10 v\<rparr>"
  "spec_field fpu s (''dt='' @ v) = (case datatypeFromName v of Some d \<Rightarrow> s\<lparr>sp_dt := d\<rparr> | None \<Rightarrow> s)"
  "spec_field fpu s (''block='' @ v) = s\<lparr>sp_block := strtoul10 v\<rparr>"
  "spec_field fpu s (''reduce='' @ v) = s\<lparr>sp_reduce := (v = ''1'')\<rparr>"
  using field_parts [of "''op''" v] field_parts [of "''scalar''" v] field_parts [of "''n''" v] field_parts [of "''dt''" v]
    field_parts [of "''block''" v] field_parts [of "''reduce''" v]
  by (simp_all add: spec_field_def)

lemma split_six:
  assumes "d \<notin> set a" "d \<notin> set b" "d \<notin> set c" "d \<notin> set e" "d \<notin> set f" "d \<notin> set g" "g \<noteq> []"
  shows "split_on d (a @ d # b @ d # c @ d # e @ d # f @ d # g) = [a, b, c, e, f, g]"
  using assms split_on_last [of d g] by (simp add: split_on_sep)

lemma spec_split:
  assumes "CHR '';'' \<notin> set (sp_op s)"
  shows "split_on (CHR '';'') (spec_encode s) =
    [''op='' @ sp_op s, ''scalar='' @ fmt_f (sp_scalar s), ''n='' @ dec_int (uint (sp_n s)), ''dt='' @ datatypeName (sp_dt s),
     ''block='' @ dec_int (sint (sp_block s)), ''reduce='' @ (if sp_reduce s then ''1'' else ''0'')]"
  using split_six [of "CHR '';''" "''op='' @ sp_op s" "''scalar='' @ fmt_f (sp_scalar s)" "''n='' @ dec_int (uint (sp_n s))"
      "''dt='' @ datatypeName (sp_dt s)" "''block='' @ dec_int (sint (sp_block s))" "''reduce='' @ (if sp_reduce s then ''1'' else ''0'')"]
    assms plain_fmt_f plain_dec plain_datatype
  by (simp add: spec_encode_def)

text \<open>
  A specification printed and parsed back keeps its operation, element count, block size
  (negative ones too) and reduction flag; the datatype comes back as F32 unless the printed
  name is one the parser knows, and the scalar as the number its six decimals denote.
\<close>

lemma launch_spec_parsed:
  assumes "CHR '';'' \<notin> set (sp_op s)"
  shows "spec_parse fpu (spec_encode s) = s\<lparr>sp_scalar := strtod64 fpu (fmt_f (sp_scalar s)),
    sp_dt := (case datatypeFromName (datatypeName (sp_dt s)) of Some d \<Rightarrow> d | None \<Rightarrow> DT_F32)\<rparr>"
proof -
  have n: "strtoul10 (dec_int (uint (sp_n s))) = sp_n s"
    using strtoul10_dec [of "uint (sp_n s)"] unsigned_less [of "sp_n s", where 'a = int]
      unsigned_greater_eq [of "sp_n s", where 'a = int] by (simp del: unsigned_greater_eq)
  have "- (2 ^ 31) \<le> sint (sp_block s)" "sint (sp_block s) < 2 ^ 31"
    using sint_ge [of "sp_block s"] sint_lt [of "sp_block s"] by simp_all
  then have b: "strtoul10 (dec_int (sint (sp_block s))) = sp_block s" using strtoul10_dec [of "sint (sp_block s)"] by simp
  show ?thesis unfolding spec_parse_def spec_split [OF assms]
    by (cases "datatypeFromName (datatypeName (sp_dt s))"; cases "sp_reduce s")
      (simp_all only: foldl.simps spec_field_parts n b, simp_all add: sp_default_def)
qed

definition tiny_spec :: CudaSpec where
  "tiny_spec = \<lparr>sp_op = ''add'', sp_scalar = enc False (1 / 10000000), sp_n = 7, sp_dt = DT_F64, sp_block = - 5, sp_reduce = False\<rparr>"

text \<open>A scalar below half a millionth is printed as zero, and the datatype F64 comes back as F32.\<close>

lemma tiny_printed: "fmt_f (sp_scalar tiny_spec) = ''0.000000''"
  by code_simp

lemma tiny_read: "strtod64 sample_fpu ''0.000000'' = enc False 0"
  by code_simp

lemma tiny_datatype: "datatypeFromName (datatypeName DT_F64) = None"
  by code_simp

lemma launch_spec_parsed_tiny:
  "CHR '';'' \<notin> set (sp_op tiny_spec) \<and>
   spec_parse sample_fpu (spec_encode tiny_spec) = tiny_spec\<lparr>sp_scalar := enc False 0, sp_dt := DT_F32\<rparr>"
proof
  show op: "CHR '';'' \<notin> set (sp_op tiny_spec)" by (simp add: tiny_spec_def)
  have "sp_dt tiny_spec = DT_F64" by (simp add: tiny_spec_def)
  then show "spec_parse sample_fpu (spec_encode tiny_spec) = tiny_spec\<lparr>sp_scalar := enc False 0, sp_dt := DT_F32\<rparr>"
    using launch_spec_parsed [OF op, of sample_fpu] by (simp only: tiny_printed tiny_read tiny_datatype option.case)
qed

section \<open>What the reduction covers\<close>

lemma length_reduce_round [simp]: "length (reduce_round f st sh) = length sh"
  by (simp add: reduce_round_def)

lemma length_reduce_rounds [simp]: "length (reduce_rounds f st sh) = length sh"
  by (induction f st sh rule: reduce_rounds.induct) (subst reduce_rounds.simps, simp)

text \<open>The threads whose partial results reach cell 0 when the rounds start with stride \<open>st\<close>.\<close>

fun covered :: "nat \<Rightarrow> nat set" where
  "covered st = (if st = 0 then {0} else covered (st div 2) \<union> (\<lambda>t. t + st) ` covered (st div 2))"

declare covered.simps [simp del]

lemma covered_bound: "covered st \<subseteq> {..<max 1 (2 * st)}"
proof (induction st rule: covered.induct)
  case (1 st)
  show ?case
  proof (cases "st = 0")
    case False
    then have "covered (st div 2) \<subseteq> {..<max 1 st}" using 1 by (auto simp: subset_iff)
    then show ?thesis using False by (subst covered.simps) (auto simp: subset_iff)
  qed (simp add: covered.simps)
qed

lemma card_covered: "\<exists>k. card (covered st) = 2 ^ k"
proof (induction st rule: covered.induct)
  case (1 st)
  show ?case
  proof (cases "st = 0")
    case False
    have b: "covered (st div 2) \<subseteq> {..<st}" using covered_bound [of "st div 2"] False by (auto simp: subset_iff)
    then have fin: "finite (covered (st div 2))" by (rule finite_subset) simp
    have "card (covered st) = card (covered (st div 2)) + card ((\<lambda>t. t + st) ` covered (st div 2))"
      using False b fin by (subst covered.simps) (auto intro!: card_Un_disjoint)
    then have "card (covered st) = 2 * card (covered (st div 2))" by (simp add: card_image inj_on_def)
    then show ?thesis using 1 False by (metis power_Suc)
  qed (simp add: covered.simps exI [of _ 0])
qed

lemma covered_power: "covered (2 ^ k div 2) = {..<2 ^ k}"
proof (induction k)
  case (Suc k)
  have "(\<lambda>t. t + 2 ^ k) ` {..<2 ^ k} = {2 ^ k..<2 * 2 ^ k :: nat}"
    by (auto simp: image_iff) (metis add.commute le_Suc_ex lessThan_iff mult_2 nat_add_left_cancel_less)
  then have "covered (2 ^ k) = {..<2 ^ k} \<union> {2 ^ k..<2 * 2 ^ k}" using Suc by (subst covered.simps) simp
  then show ?case by (simp add: ivl_disj_un)
qed (simp add: covered.simps lessThan_Suc)

lemma rounds_cover:
  fixes sh :: "'a multiset list"
  shows "sh \<noteq> [] \<Longrightarrow> 2 * st \<le> length sh \<Longrightarrow> reduce_rounds (+) st sh ! 0 = (\<Sum>t \<in> covered st. sh ! t)"
proof (induction "(+) :: 'a multiset \<Rightarrow> _" st sh rule: reduce_rounds.induct)
  case (1 st sh)
  show ?case
  proof (cases "st = 0")
    case False
    let ?C = "covered (st div 2)" and ?r = "reduce_round (+) st sh"
    have b: "?C \<subseteq> {..<st}" using covered_bound [of "st div 2"] False by (auto simp: subset_iff)
    then have fin: "finite ?C" by (rule finite_subset) simp
    have "?r ! t = sh ! t + sh ! (t + st)" if "t \<in> ?C" for t
      using that b 1(3) by (auto simp: reduce_round_def subset_iff)
    then have "(\<Sum>t \<in> ?C. ?r ! t) = (\<Sum>t \<in> ?C. sh ! t) + (\<Sum>t \<in> (\<lambda>t. t + st) ` ?C. sh ! t)"
      by (simp add: sum.distrib sum.reindex inj_on_def)
    also have "\<dots> = (\<Sum>t \<in> covered st. sh ! t)"
      using False b fin by (subst covered.simps [of st]) (auto intro!: sum.union_disjoint [symmetric])
    finally show ?thesis using 1 False by (subst reduce_rounds.simps) (auto simp: length_0_conv [symmetric] simp del: length_0_conv)
  qed (simp add: covered.simps reduce_rounds.simps)
qed

lemma set_stride: "set (stride i b n) = {j. i \<le> j \<and> j < n \<and> b \<noteq> 0 \<and> j mod b = i mod b}"
proof (induction i b n rule: stride.induct)
  case (1 i b n)
  show ?case
  proof (cases "b = 0 \<or> n \<le> i")
    case False
    have key: "i \<le> j \<and> j mod b = i mod b \<longleftrightarrow> j = i \<or> i + b \<le> j \<and> j mod b = (i + b) mod b" for j
    proof
      assume j: "i \<le> j \<and> j mod b = i mod b"
      then have d: "b dvd j - i" by (metis mod_eq_dvd_iff_nat)
      have "i + b \<le> j" if "j \<noteq> i" using dvd_imp_le [OF d] that j by linarith
      then show "j = i \<or> i + b \<le> j \<and> j mod b = (i + b) mod b" using j by (metis mod_add_self2)
    qed auto
    have "set (stride i b n) = insert i (set (stride (i + b) b n))" using False by (simp add: stride.simps [of i b n])
    also have "\<dots> = {j. j < n \<and> b \<noteq> 0 \<and> (j = i \<or> i + b \<le> j \<and> j mod b = (i + b) mod b)}"
      unfolding "1.IH" [OF False] using False by (auto simp del: mod_add_self2)
    also have "\<dots> = {j. i \<le> j \<and> j < n \<and> b \<noteq> 0 \<and> j mod b = i mod b}" unfolding key [symmetric] by blast
    finally show ?thesis .
  next
    case True
    then have "stride i b n = []" by (simp add: stride.simps [of i b n])
    then show ?thesis using True by auto
  qed
qed

lemma distinct_stride: "distinct (stride i b n)"
proof (induction i b n rule: stride.induct)
  case (1 i b n)
  then show ?case by (subst stride.simps) (auto simp: set_stride)
qed

text \<open>Run on symbolic elements, the kernel returns the multiset of the indices that reach its output.\<close>

definition tags :: "nat \<Rightarrow> nat multiset list" where "tags n = map (\<lambda>i. {#i#}) [0..<n]"

lemma thread_acc_tags: "thread_acc (+) {#} b (tags n) t = mset (stride t b n)"
proof -
  have "foldl (+) M (map ((!) (tags n)) is) = M + mset is" if "set is \<subseteq> {..<n}" for M "is"
    using that by (induction "is" arbitrary: M) (auto simp: tags_def)
  from this [of "stride t b n" "{#}"] show ?thesis by (simp add: thread_acc_def tags_def set_stride subset_iff)
qed

lemma count_share: "count (mset (stride t b n)) i = (if t \<le> i \<and> i < n \<and> b \<noteq> 0 \<and> i mod b = t mod b then 1 else 0)"
  using distinct_stride [of t b n] by (simp add: distinct_count_atmost_1 set_stride)

lemma count_upt: "count (mset [0..<n]) i = (if i < n then 1 else 0)"
  by (simp add: distinct_count_atmost_1)

lemma shares_partition: "0 < b \<Longrightarrow> (\<Sum>t<b. mset (stride t b n)) = mset [0..<n]"
proof (rule multiset_eqI)
  fix i assume b: "0 < b"
  have "count (\<Sum>t<b. mset (stride t b n)) i = (\<Sum>t<b. if t = i mod b then (if i < n then 1 else 0) else 0)"
    unfolding count_sum by (rule sum.cong) (use b in \<open>auto simp: count_share\<close>)
  also have "\<dots> = count (mset [0..<n]) i" using b unfolding count_upt by simp
  finally show "count (\<Sum>t<b. mset (stride t b n)) i = count (mset [0..<n]) i" .
qed

lemma kernel_covers:
  assumes "0 < b"
  shows "kernel_reduce (+) {#} b (tags n) = (\<Sum>t \<in> covered (b div 2). mset (stride t b n))"
proof -
  have "covered (b div 2) \<subseteq> {..<b}" using covered_bound [of "b div 2"] assms by (auto simp: subset_iff)
  then show ?thesis using assms
    by (auto simp: kernel_reduce_def rounds_cover thread_acc_tags subset_iff intro!: sum.cong)
qed

text \<open>
  C22: The reduction kernel combines every input element exactly once if and only if the number of
  threads in its block is a power of two. In any other block the halving rounds skip threads, and
  the elements those threads accumulated never reach the result.
\<close>

theorem reduction_complete:
  assumes "0 < b" "b \<le> n"
  shows "kernel_reduce (+) {#} b (tags n) = mset [0..<n] \<longleftrightarrow> (\<exists>k. b = 2 ^ k)"
proof
  assume "\<exists>k. b = 2 ^ k"
  then show "kernel_reduce (+) {#} b (tags n) = mset [0..<n]"
    using assms covered_power shares_partition by (auto simp: kernel_covers)
next
  assume all: "kernel_reduce (+) {#} b (tags n) = mset [0..<n]"
  let ?C = "covered (b div 2)"
  have sub: "?C \<subseteq> {..<b}" using covered_bound [of "b div 2"] assms(1) by (auto simp: subset_iff)
  have "t \<in> ?C" if "t < b" for t
  proof (rule ccontr)
    assume "t \<notin> ?C"
    then have "count (\<Sum>u \<in> ?C. mset (stride u b n)) t = 0"
      using sub that assms by (auto simp: count_sum count_share subset_iff intro!: sum.neutral)
    then show False using all that assms by (metis kernel_covers count_upt less_le_trans zero_neq_one)
  qed
  then have "?C = {..<b}" using sub by auto
  then show "\<exists>k. b = 2 ^ k" using card_covered [of "b div 2"] by simp
qed

text \<open>Three threads: the third element is lost.\<close>

theorem reduction_complete_witness:
  "kernel_reduce (+) {#} 3 (tags 3) \<noteq> mset [0..<3] \<and> kernel_reduce (+) {#} 4 (tags 7) = mset [0..<7]"
proof
  have "(3 :: nat) \<noteq> 2 ^ k" for k by (cases k) (simp_all, presburger)
  then show "kernel_reduce (+) {#} 3 (tags 3) \<noteq> mset [0..<3]" using reduction_complete [of 3 3] by simp
  show "kernel_reduce (+) {#} 4 (tags 7) = mset [0..<7]" proof -
    have "\<exists>k. (4 :: nat) = 2 ^ k" by (rule exI [of _ 2]) simp
    then show ?thesis using reduction_complete [of 4 7] by simp
  qed
qed

section \<open>What the elementwise kernel writes\<close>

lemma kernel_map_step:
  "foldl (\<lambda>out (bx, tx). let i = bx * b + tx in if i < length xs then out[i := f (xs ! i)] else out) out ps =
   map (\<lambda>i. if i < length xs \<and> i \<in> (\<lambda>(bx, tx). bx * b + tx) ` set ps then f (xs ! i) else out ! i) [0..<length out]"
proof (induction ps arbitrary: out)
  case (Cons p ps)
  then show ?case by (cases p) (auto simp: Let_def nth_list_update intro!: nth_equalityI)
qed (simp add: map_nth)

text \<open>A grid that has a thread for every element applies the operation to all of them and writes nothing else.\<close>

lemma kernel_map_complete:
  assumes "0 < b" "length xs \<le> grid * b" "length xs \<le> length out"
  shows "kernel_map f grid b xs out = map f xs @ drop (length xs) out"
proof -
  have hit: "i \<in> (\<lambda>(bx, tx). bx * b + tx) ` set (List.product [0..<grid] [0..<b])" if "i < length xs" for i
  proof -
    have "i div b < grid" using that assms by (simp add: div_less_iff_less_mult order_less_le_trans)
    then show ?thesis using assms(1) by (intro image_eqI [of _ _ "(i div b, i mod b)"]) auto
  qed
  show ?thesis unfolding kernel_map_def kernel_map_step
    by (rule nth_equalityI) (use assms hit in \<open>auto simp: nth_append\<close>)
qed

section \<open>Only the last operation is compiled\<close>

text \<open>
  Two programs that end in the same operation give the same CUDA source, whatever the
  operations before it are.
\<close>

lemma source_of_last_op:
  assumes "parseSource fpu s = Ret (Ok p)" "parseSource fpu t = Ret (Ok q)" "last (cp_ops p) = last (cp_ops q)"
    and "cp_ops p \<noteq> []" "cp_ops q \<noteq> []"
  shows "generateCudaSourceFromProgram fpu s n dt blk = generateCudaSourceFromProgram fpu t n dt blk"
  using assms by (simp add: generateCudaSourceFromProgram_def)

end
