(* ===== verification/CF_CudaApi.thy ===== *)
theory CF_CudaApi
  imports CF_CudaSpec
begin

text \<open>
  The runtime-loaded compiler and driver of \<open>Cuda.hpp\<close> and \<open>Cuda.cpp\<close>. NVRTC and the
  CUDA driver are not part of the repository: an entry point is an optional function
  (a null pointer is \<open>None\<close>, and calling it is undefined behaviour) from its arguments
  and the state of the world, of an arbitrary type, to its result code, what it leaves in
  its out-parameters and the next world. \<open>traced\<close> turns any such library into one that
  also records what was acquired, launched, copied back and released, so that statements
  about the order of driver calls hold for every driver. \<open>cuGetErrorName\<close> is resolved but never
  called and is left out.
\<close>

section \<open>Actions\<close>

type_synonym ('w, 'a) act = "'w \<Rightarrow> ('a \<times> 'w) eff"
type_synonym ('a, 'r, 'w) entry = "('a \<Rightarrow> 'w \<Rightarrow> 'r \<times> 'w) option"

definition act_ret :: "'a \<Rightarrow> ('w, 'a) act" where "act_ret x w = Ret (x, w)"

definition act_bind :: "('w, 'a) act \<Rightarrow> ('a \<Rightarrow> ('w, 'b) act) \<Rightarrow> ('w, 'b) act" where
  "act_bind m k w = ebind (m w) (\<lambda>(x, v). k x v)"

definition act_eff :: "'a eff \<Rightarrow> ('w, 'a) act" where "act_eff m w = ebind m (\<lambda>x. Ret (x, w))"

definition call :: "('a, 'r, 'w) entry \<Rightarrow> 'a \<Rightarrow> ('w, 'r) act" where
  "call p x w = (case p of None \<Rightarrow> Undef | Some f \<Rightarrow> Ret (f x w))"

definition act_when :: "bool \<Rightarrow> ('w, unit) act \<Rightarrow> ('w, unit) act" where
  "act_when b m = (if b then m else act_ret ())"

definition discard :: "('a, i32, 'w) entry \<Rightarrow> 'a \<Rightarrow> ('w, unit) act" where
  "discard p x = act_bind (call p x) (\<lambda>_. act_ret ())"

section \<open>Entry points\<close>

record KernelArgs =
  ka_in :: u64
  ka_out :: u64
  ka_n :: i32
  ka_scalar :: bytes

record LaunchConfig =
  lc_grid :: "u32 \<times> u32 \<times> u32"
  lc_block :: "u32 \<times> u32 \<times> u32"
  lc_shared :: u32

text \<open>A call yields its result code, with the value of its out-parameter where it has one.\<close>

record 'w Entries =
  en_createProgram :: "(string \<times> string, i32 \<times> u64, 'w) entry"
  en_compileProgram :: "(u64 \<times> string list, i32, 'w) entry"
  en_getPTXSize :: "(u64, i32 \<times> u64, 'w) entry"
  en_getPTX :: "(u64 \<times> u64, i32 \<times> bytes, 'w) entry"
  en_getCUBINSize :: "(u64, i32 \<times> u64, 'w) entry"
  en_getCUBIN :: "(u64 \<times> u64, i32 \<times> bytes, 'w) entry"
  en_getLogSize :: "(u64, i32 \<times> u64, 'w) entry"
  en_getProgramLog :: "(u64 \<times> u64, i32 \<times> string, 'w) entry"
  en_destroyProgram :: "(u64, i32, 'w) entry"
  en_getVersion :: "(unit, i32 \<times> i32 \<times> i32, 'w) entry"
  en_cuInit :: "(u32, i32, 'w) entry"
  en_cuDeviceGetCount :: "(unit, i32 \<times> i32, 'w) entry"
  en_cuDeviceGet :: "(i32, i32 \<times> i32, 'w) entry"
  en_cuDeviceGetName :: "(i32, i32 \<times> string, 'w) entry"
  en_cuDeviceGetAttribute :: "(i32 \<times> i32, i32 \<times> i32, 'w) entry"
  en_cuCtxCreate :: "(u32 \<times> i32, i32 \<times> u64, 'w) entry"
  en_cuModuleLoadData :: "(bytes, i32 \<times> u64, 'w) entry"
  en_cuModuleGetFunction :: "(u64 \<times> string, i32 \<times> u64, 'w) entry"
  en_cuMemAlloc :: "(u64, i32 \<times> u64, 'w) entry"
  en_cuMemFree :: "(u64, i32, 'w) entry"
  en_cuMemcpyHtoD :: "(u64 \<times> bytes, i32, 'w) entry"
  en_cuMemcpyDtoH :: "(u64 \<times> u64, i32 \<times> bytes, 'w) entry"
  en_cuLaunchKernel :: "(u64 \<times> LaunchConfig \<times> KernelArgs, i32, 'w) entry"
  en_cuCtxSynchronize :: "(unit, i32, 'w) entry"
  en_cuModuleUnload :: "(u64, i32, 'w) entry"
  en_cuCtxDestroy :: "(u64, i32, 'w) entry"
  en_cuGetErrorString :: "(i32, string option, 'w) entry"

definition no_entries :: "'w Entries" where
  "no_entries = \<lparr>en_createProgram = None, en_compileProgram = None, en_getPTXSize = None, en_getPTX = None,
     en_getCUBINSize = None, en_getCUBIN = None, en_getLogSize = None, en_getProgramLog = None, en_destroyProgram = None,
     en_getVersion = None, en_cuInit = None, en_cuDeviceGetCount = None, en_cuDeviceGet = None, en_cuDeviceGetName = None,
     en_cuDeviceGetAttribute = None, en_cuCtxCreate = None, en_cuModuleLoadData = None, en_cuModuleGetFunction = None,
     en_cuMemAlloc = None, en_cuMemFree = None, en_cuMemcpyHtoD = None, en_cuMemcpyDtoH = None, en_cuLaunchKernel = None,
     en_cuCtxSynchronize = None, en_cuModuleUnload = None, en_cuCtxDestroy = None, en_cuGetErrorString = None\<rparr>"

section \<open>Loading\<close>

text \<open>
  What the process finds: the variable \<open>CUDA_PATH\<close>, the modules \<open>LoadLibraryA\<close> yields
  when the given directory is on the search path, the symbols of a module, and the code
  behind them.
\<close>

record 'w Host =
  ho_cudaPath :: "string option"
  ho_loadLibrary :: "string \<Rightarrow> string \<Rightarrow> u64"
  ho_hasSymbol :: "u64 \<Rightarrow> string \<Rightarrow> bool"
  ho_code :: "u64 \<Rightarrow> 'w Entries"

record 'w CudaApi =
  api_avail :: bool
  api_error :: string
  api_nvrtcVersion :: string
  api_driverVersion :: string
  api_impl_errorString :: "(i32, string option, 'w) entry"
  api_entries :: "'w Entries"

definition api_default :: "'w CudaApi" where
  "api_default = \<lparr>api_avail = False, api_error = [], api_nvrtcVersion = [], api_driverVersion = [],
     api_impl_errorString = None, api_entries = no_entries\<rparr>"

fun loadFirst :: "(string \<Rightarrow> u64) \<Rightarrow> string list \<Rightarrow> u64" where
  "loadFirst ld [] = 0"
| "loadFirst ld (n # ns) = (let h = ld n in if h \<noteq> 0 then h else loadFirst ld ns)"

definition nvrtc_names :: "string list" where
  "nvrtc_names = map (\<lambda>v. ''nvrtc64_'' @ v @ ''_0.dll'')
     [''130'', ''129'', ''128'', ''127'', ''126'', ''121'', ''120'', ''117'', ''116'', ''115'', ''114'', ''113'', ''112'', ''111'', ''110'']"

definition backslash :: char where "backslash = CHR 0x5C"

definition default_cuda_path :: string where
  "default_cuda_path = ''C:'' @ [backslash] @ ''Program Files'' @ [backslash] @ ''NVIDIA GPU Computing Toolkit'' @ [backslash] @
     ''CUDA'' @ [backslash] @ ''v13.1''"

definition dll_directory :: "'w Host \<Rightarrow> string" where
  "dll_directory h =
     (let p = (case ho_cudaPath h of Some p \<Rightarrow> if p = [] then default_cuda_path else p | None \<Rightarrow> default_cuda_path)
      in p @ [backslash] @ ''bin'' @ [backslash] @ ''x64'')"

definition sym :: "'w Host \<Rightarrow> u64 \<Rightarrow> string \<Rightarrow> 'b option \<Rightarrow> 'b option" where
  "sym h m s p = (if ho_hasSymbol h m s then p else None)"

definition nvrtc_symbols :: "'w Host \<Rightarrow> u64 \<Rightarrow> 'w Entries \<Rightarrow> 'w Entries" where
  "nvrtc_symbols h m e = (let c = ho_code h m in e\<lparr>
     en_createProgram := sym h m ''nvrtcCreateProgram'' (en_createProgram c),
     en_compileProgram := sym h m ''nvrtcCompileProgram'' (en_compileProgram c),
     en_getPTXSize := sym h m ''nvrtcGetPTXSize'' (en_getPTXSize c), en_getPTX := sym h m ''nvrtcGetPTX'' (en_getPTX c),
     en_getCUBINSize := sym h m ''nvrtcGetCUBINSize'' (en_getCUBINSize c), en_getCUBIN := sym h m ''nvrtcGetCUBIN'' (en_getCUBIN c),
     en_getLogSize := sym h m ''nvrtcGetProgramLogSize'' (en_getLogSize c),
     en_getProgramLog := sym h m ''nvrtcGetProgramLog'' (en_getProgramLog c),
     en_destroyProgram := sym h m ''nvrtcDestroyProgram'' (en_destroyProgram c),
     en_getVersion := sym h m ''nvrtcVersion'' (en_getVersion c)\<rparr>)"

definition driver_symbols :: "'w Host \<Rightarrow> u64 \<Rightarrow> 'w Entries \<Rightarrow> 'w Entries" where
  "driver_symbols h m e = (let c = ho_code h m in e\<lparr>
     en_cuInit := sym h m ''cuInit'' (en_cuInit c),
     en_cuDeviceGetCount := sym h m ''cuDeviceGetCount'' (en_cuDeviceGetCount c),
     en_cuDeviceGet := sym h m ''cuDeviceGet'' (en_cuDeviceGet c),
     en_cuDeviceGetName := sym h m ''cuDeviceGetName'' (en_cuDeviceGetName c),
     en_cuDeviceGetAttribute := sym h m ''cuDeviceGetAttribute'' (en_cuDeviceGetAttribute c),
     en_cuCtxCreate := sym h m ''cuCtxCreate'' (en_cuCtxCreate c),
     en_cuModuleLoadData := sym h m ''cuModuleLoadData'' (en_cuModuleLoadData c),
     en_cuModuleGetFunction := sym h m ''cuModuleGetFunction'' (en_cuModuleGetFunction c),
     en_cuMemAlloc := sym h m ''cuMemAlloc'' (en_cuMemAlloc c), en_cuMemFree := sym h m ''cuMemFree'' (en_cuMemFree c),
     en_cuMemcpyHtoD := sym h m ''cuMemcpyHtoD'' (en_cuMemcpyHtoD c),
     en_cuMemcpyDtoH := sym h m ''cuMemcpyDtoH'' (en_cuMemcpyDtoH c),
     en_cuLaunchKernel := sym h m ''cuLaunchKernel'' (en_cuLaunchKernel c),
     en_cuCtxSynchronize := sym h m ''cuCtxSynchronize'' (en_cuCtxSynchronize c),
     en_cuModuleUnload := sym h m ''cuModuleUnload'' (en_cuModuleUnload c),
     en_cuCtxDestroy := sym h m ''cuCtxDestroy'' (en_cuCtxDestroy c),
     en_cuGetErrorString := sym h m ''cuGetErrorString'' (en_cuGetErrorString c)\<rparr>)"

definition nvrtc_complete :: "'w Entries \<Rightarrow> bool" where
  "nvrtc_complete e \<longleftrightarrow> en_createProgram e \<noteq> None \<and> en_compileProgram e \<noteq> None \<and> en_getLogSize e \<noteq> None \<and> en_getProgramLog e \<noteq> None"

definition driver_complete :: "'w Entries \<Rightarrow> bool" where
  "driver_complete e \<longleftrightarrow> en_cuInit e \<noteq> None \<and> en_cuDeviceGetCount e \<noteq> None \<and> en_cuModuleLoadData e \<noteq> None \<and>
     en_cuLaunchKernel e \<noteq> None \<and> en_cuCtxSynchronize e \<noteq> None"

definition version_text :: "'w Entries \<Rightarrow> ('w, string) act" where
  "version_text e = (if en_getVersion e = None then act_ret []
     else act_bind (call (en_getVersion e) ()) (\<lambda>(_, maj, min). act_ret (dec_int (sint maj) @ ''.'' @ dec_int (sint min))))"

definition api_ensure :: "'w Host \<Rightarrow> 'w CudaApi \<Rightarrow> ('w, 'w CudaApi) act" where
  "api_ensure h a =
     (if api_avail a \<or> api_error a \<noteq> [] then act_ret a
      else let ld = ho_loadLibrary h (dll_directory h); n = loadFirst ld nvrtc_names in
        if n = 0 then act_ret (a\<lparr>api_error := ''NVRTC library not found on module load path''\<rparr>)
        else let e = nvrtc_symbols h n no_entries in
          if \<not> nvrtc_complete e then act_ret (a\<lparr>api_error := ''NVRTC symbols missing''\<rparr>)
          else act_bind (version_text e) (\<lambda>v.
            let b = a\<lparr>api_nvrtcVersion := v\<rparr>; d = loadFirst ld [''nvcuda.dll''] in
            if d = 0 then act_ret (b\<lparr>api_error := ''CUDA driver (nvcuda.dll) not found''\<rparr>)
            else let f = driver_symbols h d e; c = b\<lparr>api_impl_errorString := en_cuGetErrorString f\<rparr> in
              if \<not> driver_complete f then act_ret (c\<lparr>api_error := ''CUDA driver symbols missing''\<rparr>)
              else act_bind (call (en_cuInit f) 0) (\<lambda>r.
                if r \<noteq> 0 then act_ret (c\<lparr>api_error := ''cuInit failed''\<rparr>)
                else act_ret (c\<lparr>api_entries := f, api_avail := True, api_driverVersion := ''driver-present''\<rparr>))))"

definition api_errorString :: "'w CudaApi \<Rightarrow> i32 \<Rightarrow> ('w, string) act" where
  "api_errorString a r =
     act_bind (if api_impl_errorString a = None then act_ret None else call (api_impl_errorString a) r) (\<lambda>s.
       act_ret (case s of Some t \<Rightarrow> t | None \<Rightarrow> ''CUDA error '' @ dec_int (sint r)))"

definition api_new :: "'w Host \<Rightarrow> ('w, 'w CudaApi) act" where
  "api_new h = api_ensure h api_default"

section \<open>Properties of loading\<close>

lemmas act_simps = act_bind_def act_ret_def call_def act_eff_def

text \<open>
  Construction always ends, either available with the nine entry points that are checked
  or with an error text, never both; asking again changes nothing.
\<close>

lemma api_ensure_outcome:
  fixes h :: "'w Host"
  assumes "\<not> api_avail a" "api_error a = []"
  shows "\<exists>b v. api_ensure h a w = Ret (b, v) \<and> (api_avail b \<longleftrightarrow> api_error b = []) \<and>
    (api_avail b \<longrightarrow> nvrtc_complete (api_entries b) \<and> driver_complete (api_entries b)) \<and> api_ensure h b v = Ret (b, v)"
proof -
  have keep: "nvrtc_complete (driver_symbols h m e) = nvrtc_complete e" for m and e :: "'w Entries"
    by (simp add: nvrtc_complete_def driver_symbols_def Let_def)
  have version: "\<exists>t v. version_text e w = Ret (t, v)" for e :: "'w Entries" and w
    by (cases "en_getVersion e") (auto simp: version_text_def act_simps split: prod.splits)
  have init: "\<exists>r v. call (en_cuInit e) 0 w = Ret (r, v)" if "driver_complete e" for e :: "'w Entries" and w
    using that by (auto simp: driver_complete_def call_def)
  let ?n = "loadFirst (ho_loadLibrary h (dll_directory h)) nvrtc_names"
  let ?e = "nvrtc_symbols h ?n no_entries"
  let ?d = "loadFirst (ho_loadLibrary h (dll_directory h)) [''nvcuda.dll'']"
  let ?f = "driver_symbols h ?d ?e"
  obtain t v where t: "version_text ?e w = Ret (t, v)" using version by blast
  have r: "driver_complete ?f \<Longrightarrow> \<exists>r u. call (en_cuInit ?f) 0 v = Ret (r, u)" using init by blast
  consider "?n = 0" | "?n \<noteq> 0" "\<not> nvrtc_complete ?e" | "?n \<noteq> 0" "nvrtc_complete ?e" "?d = 0"
    | "?n \<noteq> 0" "nvrtc_complete ?e" "?d \<noteq> 0" "\<not> driver_complete ?f"
    | r u where "?n \<noteq> 0" "nvrtc_complete ?e" "?d \<noteq> 0" "driver_complete ?f" "call (en_cuInit ?f) 0 v = Ret (r, u)"
    using r by blast
  then show ?thesis
  proof cases
    case 5
    then show ?thesis using assms t keep by (cases "r = 0") (auto simp: api_ensure_def act_bind_def act_ret_def Let_def)
  qed (use assms t in \<open>auto simp: api_ensure_def act_bind_def act_ret_def Let_def\<close>)
qed

end
