(* ===== verification/CF_Cuda.thy ===== *)
theory CF_Cuda
  imports CF_CudaApi
begin

text \<open>
  The CUDA backend of \<open>src/Cuda.cpp\<close>: target discovery, compilation through NVRTC or an
  offline nvcc, validation by launching the kernel against the CPU reference, and loading.
  The temporary directory, the command interpreter and the clock of the offline compiler
  are functions of the world like the driver's entry points.
\<close>

section \<open>float in memory\<close>

text \<open>\<open>static_cast<float>\<close> of a double as 32 bits, and a \<open>float\<close> widened to a double.\<close>

definition f32_bits :: "Fpu \<Rightarrow> double \<Rightarrow> u32" where
  "f32_bits fpu x =
     (let y = f_single fpu x
      in of_int ((if neg_bit y then 2 ^ 31 else 0) +
           (case cls y of
              None \<Rightarrow> 255 * 2 ^ 23 + (2 ^ 22 OR (magn y mod 2 ^ 52) div 2 ^ 29)
            | Some (Inf _) \<Rightarrow> 255 * 2 ^ 23
            | Some (Fin v) \<Rightarrow> if v = 0 then 0 else fmant 24 (- 149) \<bar>v\<bar> + (fexp 24 (- 149) \<bar>v\<bar> + 149) * 2 ^ 23)))"

definition mag32 :: "int \<Rightarrow> rat" where
  "mag32 m = (if m < 2 ^ 23 then of_int m * 2 powi (- 149) else of_int (2 ^ 23 + m mod 2 ^ 23) * 2 powi (m div 2 ^ 23 - 150))"

definition f32_widen :: "u32 \<Rightarrow> double" where
  "f32_widen b =
     (let s = (2 ^ 31 \<le> uint b); m = uint b mod 2 ^ 31
      in if 255 * 2 ^ 23 < m then mk s (inf_bits + (2 ^ 51 OR (m mod 2 ^ 23) * 2 ^ 29))
         else if m = 255 * 2 ^ 23 then mk s inf_bits
         else enc s (signed_val s (mag32 m)))"

definition elem_size :: "Datatype \<Rightarrow> nat" where "elem_size dt = (if dt = DT_F64 then 8 else 4)"

definition device_input :: "Fpu \<Rightarrow> Datatype \<Rightarrow> double list \<Rightarrow> bytes" where
  "device_input fpu dt xs =
     (if dt = DT_F64 then concat (map (\<lambda>x. rev (putU64BE x)) xs) else concat (map (\<lambda>x. rev (putU32BE (f32_bits fpu x))) xs))"

definition output_elem :: "Datatype \<Rightarrow> bytes \<Rightarrow> nat \<Rightarrow> double eff" where
  "output_elem dt out i =
     (if length out < (i + 1) * elem_size dt then Undef
      else let bs = rev (take (elem_size dt) (drop (i * elem_size dt) out))
        in Ret (if dt = DT_F64 then be_join bs else f32_widen (be_join bs)))"

section \<open>The backend\<close>

definition cuda_caps :: BackendCapabilities where
  "cuda_caps = \<lparr>bc_id = ''cuda-nvrtc'', bc_name = ''cuda-nvrtc'', bc_targetArchitecture = ''sm_120'',
     bc_compiler = ''nvrtc'', bc_compilerVersion = ''13.1'', bc_vendor = AV_Nvidia, bc_family = AF_NvidiaBlackwell,
     bc_datatypes = [''f32'', ''f64''], bc_layouts = [''row_major''], bc_featureFlags = [''nvrtc'', ''sm_120'', ''blackwell''],
     bc_synthetic = False, bc_supportsNVRTC = True, bc_supportsOffline = False, bc_supportsExecution = True\<rparr>"

definition cuda_checkCompatible :: "'w CudaApi \<Rightarrow> CompilationPlan \<Rightarrow> unit result" where
  "cuda_checkCompatible a p =
     (if \<not> api_avail a then Err ErrNoToolchain (api_error a)
      else if td_vendor (pl_target p) \<noteq> AV_Nvidia then Err ErrTargetUnsupported ''CUDA backend requires NVIDIA target''
      else let arch = (if td_architecture (pl_target p) = [] then rq_targetArchitecture (pl_request p) else td_architecture (pl_target p))
        in if arch \<noteq> [] \<and> arch \<notin> set [''sm_120'', ''sm_121'', ''sm_100'', ''sm_110'', ''sm_103'', ''sm_90'']
           then Err ErrTargetUnsupported (''CUDA backend does not support architecture '' @ arch)
           else Ok ())"

definition describe_device :: "'w CudaApi \<Rightarrow> i32 \<Rightarrow> ('w, TargetDescriptor) act" where
  "describe_device a dev = (let e = api_entries a in
     act_bind (call (en_cuDeviceGetName e) dev) (\<lambda>(_, name).
     act_bind (call (en_cuDeviceGetAttribute e) (75, dev)) (\<lambda>(_, maj).
     act_bind (call (en_cuDeviceGetAttribute e) (76, dev)) (\<lambda>(_, min).
     act_bind (call (en_cuDeviceGetAttribute e) (1, dev)) (\<lambda>(_, mem).
       act_ret (td_default\<lparr>td_vendor := AV_Nvidia, td_family := AF_NvidiaBlackwell, td_deviceName := c_string name,
         td_deviceCount := 1, td_computeCapability := dec_int (sint maj) @ ''.'' @ dec_int (sint min),
         td_architecture := ''sm_'' @ dec_int (sint maj) @ dec_int (sint min),
         td_isa := ''sm_'' @ dec_int (sint maj) @ dec_int (sint min), td_kernelABI := ''nvrtc'', td_abi := ''cuda'',
         td_deviceMemoryBytes := of_int (sint mem), td_driverVersion := api_nvrtcVersion a,
         td_runtimeVersion := ''cuda-umd''\<rparr>))))))"

fun list_devices :: "'w CudaApi \<Rightarrow> int list \<Rightarrow> ('w, TargetDescriptor list) act" where
  "list_devices a [] = act_ret []"
| "list_devices a (i # is) =
     act_bind (call (en_cuDeviceGet (api_entries a)) (of_int i)) (\<lambda>(r, dev).
       if r \<noteq> 0 then list_devices a is
       else act_bind (describe_device a dev) (\<lambda>t. act_bind (list_devices a is) (\<lambda>ts. act_ret (t # ts))))"

definition cuda_listTargets :: "'w CudaApi \<Rightarrow> ('w, TargetDescriptor list result) act" where
  "cuda_listTargets a =
     (if \<not> api_avail a then act_ret (Err ErrNoToolchain (api_error a))
      else act_bind (call (en_cuDeviceGetCount (api_entries a)) ()) (\<lambda>(r, count).
        if r \<noteq> 0 \<or> sint count \<le> 0 then act_ret (Err ErrNoToolchain ''no CUDA devices'')
        else act_bind (list_devices a [0..sint count - 1]) (\<lambda>ts. act_ret (Ok ts))))"

definition cuda_defaultTarget :: "'w CudaApi \<Rightarrow> ('w, TargetDescriptor result) act" where
  "cuda_defaultTarget a = (let e = api_entries a in
     if \<not> api_avail a then act_ret (Err ErrNoToolchain (api_error a))
     else act_bind (call (en_cuDeviceGetCount e) ()) (\<lambda>(r, count).
       if r \<noteq> 0 \<or> sint count \<le> 0 then act_ret (Err ErrNoToolchain ''no CUDA devices'')
       else act_bind (call (en_cuDeviceGet e) 0) (\<lambda>(r, dev).
         if r \<noteq> 0 then act_ret (Err ErrNoToolchain ''cuDeviceGet'')
         else
           act_bind (call (en_cuDeviceGetAttribute e) (75, dev)) (\<lambda>(_, maj).
           act_bind (call (en_cuDeviceGetAttribute e) (76, dev)) (\<lambda>(_, min).
           act_bind (call (en_cuDeviceGetAttribute e) (1, dev)) (\<lambda>(_, mem).
           act_bind (call (en_cuDeviceGetName e) dev) (\<lambda>(_, name).
             act_ret (Ok (td_default\<lparr>td_vendor := AV_Nvidia, td_family := AF_NvidiaBlackwell, td_deviceName := c_string name,
               td_deviceCount := 1, td_computeCapability := dec_int (sint maj) @ ''.'' @ dec_int (sint min),
               td_architecture := ''sm_'' @ dec_int (sint maj) @ dec_int (sint min),
               td_isa := ''sm_'' @ dec_int (sint maj) @ dec_int (sint min), td_kernelABI := ''nvrtc'', td_abi := ''cuda'',
               td_deviceMemoryBytes := of_int (sint mem), td_driverVersion := api_nvrtcVersion a,
               td_runtimeVersion := ''cuda-umd''\<rparr>)))))))))"

section \<open>Compilation\<close>

text \<open>The offline compiler's environment: \<open>of_read\<close> is \<open>exists\<close> followed by reading the file.\<close>

record 'w Offline =
  of_tempDir :: string
  of_nanos :: "'w \<Rightarrow> i64 \<times> 'w"
  of_mkdir :: "string \<Rightarrow> 'w \<Rightarrow> i32 \<times> 'w"
  of_write :: "string \<times> string \<Rightarrow> 'w \<Rightarrow> i32 \<times> 'w"
  of_run :: "string \<Rightarrow> 'w \<Rightarrow> string \<times> 'w"
  of_read :: "string \<Rightarrow> 'w \<Rightarrow> bytes option \<times> 'w"
  of_removeAll :: "string \<Rightarrow> 'w \<Rightarrow> i32 \<times> 'w"

definition path_join :: "string \<Rightarrow> string \<Rightarrow> string" where
  "path_join p q = (if p = [] \<or> last p = backslash \<or> last p = CHR ''/'' then p @ q else p @ [backslash] @ q)"

definition win_path :: "string list \<Rightarrow> string" where "win_path ps = foldl path_join [] ps"

definition nvcc_command :: "string \<Rightarrow> string \<Rightarrow> string \<Rightarrow> string" where
  "nvcc_command arch out cu =
     (let nvcc = win_path [''C:'', ''Program Files'', ''NVIDIA GPU Computing Toolkit'', ''CUDA'', ''v13.1'', ''bin'', ''nvcc.exe''];
          vcvars = win_path [''C:'', ''Program Files (x86)'', ''Microsoft Visual Studio'', ''2022'', ''BuildTools'', ''VC'', ''Auxiliary'',
            ''Build'', ''vcvars64.bat'']
      in ''call '' @ quoted vcvars @ '' >nul 2>&1 && '' @ quoted nvcc @ '' -cubin -arch='' @ arch @ '' -o '' @ quoted out @ '' '' @ quoted cu)"

definition nvcc_output :: "string \<Rightarrow> CompilationRequest \<Rightarrow> i64 \<Rightarrow> bytes \<Rightarrow> BackendOutput" where
  "nvcc_output arch r ms cubin = bo_default\<lparr>bo_format := FMT_CUBIN, bo_executable := cubin,
     bo_backend := bd_default\<lparr>bd_id := ''cuda-nvcc'', bd_name := ''cuda-nvcc'', bd_compilerId := ''nvcc'',
       bd_compilerVersion := ''13.1.80'', bd_codeGenerator := ''nvcc'', bd_optimizer := ''nvcc-opt'', bd_linker := ''nvcc'',
       bd_runtime := ''cuda-driver'', bd_targetArchitecture := arch, bd_supportsOffline := True\<rparr>,
     bo_compiler := \<lparr>cd_id = ''nvcc'', cd_version = ''13.1.80'', cd_vendor = ''NVIDIA'', cd_backendType = ''offline''\<rparr>,
     bo_specialization := spd_default\<lparr>spd_datatype := (if rq_datatype r \<noteq> DT_None then rq_datatype r else DT_F32),
       spd_shape := rq_staticShape r, spd_architecture := arch, spd_launchSpecialization := ''nvcc-offline''\<rparr>,
     bo_deterministic := False,
     bo_stages := [stage SK_Assemble True 0 (''nvcc -cubin '' @ arch @ '' ('' @ dec_int (sint ms) @ '' ms)'')]\<rparr>"

definition io :: "('a \<Rightarrow> 'w \<Rightarrow> 'b \<times> 'w) \<Rightarrow> 'a \<Rightarrow> ('w, 'b) act" where "io f x w = Ret (f x w)"

text \<open>C++ division of a signed 64-bit count of nanoseconds truncates towards zero.\<close>

definition millis :: "i64 \<Rightarrow> i64" where
  "millis ns = of_int (sgn (sint ns) * (\<bar>sint ns\<bar> div 1000000))"

definition compileWithNvcc :: "'w Offline \<Rightarrow> string \<Rightarrow> string \<Rightarrow> CompilationRequest \<Rightarrow> ('w, BackendOutput result) act" where
  "compileWithNvcc f source arch r =
     act_bind (io (\<lambda>_. of_nanos f) ()) (\<lambda>stamp.
     let tmp = path_join (of_tempDir f) (''cfnvcc_'' @ dec_int (sint stamp)); cu = path_join tmp ''k.cu''; out = path_join tmp ''k.cubin'' in
     act_bind (io (of_mkdir f) tmp) (\<lambda>_.
     act_bind (io (of_write f) (cu, source)) (\<lambda>_.
     act_bind (io (\<lambda>_. of_nanos f) ()) (\<lambda>t0.
     act_bind (io (of_run f) (nvcc_command arch out cu)) (\<lambda>log.
     act_bind (io (\<lambda>_. of_nanos f) ()) (\<lambda>t1.
     act_bind (io (of_read f) out) (\<lambda>res.
     act_bind (io (of_removeAll f) tmp) (\<lambda>_.
       act_ret (case res of
          None \<Rightarrow> Err ErrBuildFailed (''nvcc offline compile failed: '' @ log)
        | Some cubin \<Rightarrow> Ok (nvcc_output arch r (millis (t1 - t0)) cubin))))))))))"

definition cuda_spec :: "CompilationRequest \<Rightarrow> CpuProgram result \<Rightarrow> CudaSpec" where
  "cuda_spec r prog =
     (let base = (case prog of
            Ok p \<Rightarrow> if cp_ops p = [] then sp_default
              else let op = last (cp_ops p) in sp_default\<lparr>sp_op := opNameFor (op_kind op), sp_scalar := op_scalar op,
                sp_reduce := is_reduction (op_kind op)\<rparr>
          | Err _ _ \<Rightarrow> sp_default)
      in unit_scale (base\<lparr>
           sp_n := (case rq_staticShape r of [] \<Rightarrow> ucast (if rq_rank r \<noteq> 0 then rq_rank r else 1024) | s # _ \<Rightarrow> ucast s),
           sp_dt := (if rq_datatype r \<noteq> DT_None then rq_datatype r else DT_F32),
           sp_block := (if rq_blockSize r \<noteq> 0 then rq_blockSize r else 256)\<rparr>))"

definition fill :: "'a \<Rightarrow> u64 \<Rightarrow> 'a list \<Rightarrow> 'a list" where
  "fill z n buf = take (unat n) (buf @ replicate (unat n - length buf) z)"

definition ask_size :: "(u64, i32 \<times> u64, 'w) entry \<Rightarrow> u64 \<Rightarrow> ('w, u64) act" where
  "ask_size p prog = (if p = None then act_ret 0 else act_bind (call p prog) (\<lambda>(_, n). act_ret n))"

definition ask_image :: "(u64 \<times> u64, i32 \<times> bytes, 'w) entry \<Rightarrow> u64 \<Rightarrow> u64 \<Rightarrow> ('w, bytes option) act" where
  "ask_image p prog n =
     (if n = 0 \<or> p = None then act_ret None
      else act_bind (call p (prog, n)) (\<lambda>(r, buf). act_ret (if r = 0 then Some (fill 0 n buf) else None)))"

definition cleanupProg :: "'w CudaApi \<Rightarrow> u64 \<Rightarrow> ('w, unit) act" where
  "cleanupProg a prog =
     (let p = en_destroyProgram (api_entries a) in act_when (prog \<noteq> 0 \<and> p \<noteq> None) (discard p prog))"

definition program_log :: "'w CudaApi \<Rightarrow> u64 \<Rightarrow> ('w, string) act" where
  "program_log a prog = (let e = api_entries a in
     act_bind (ask_size (en_getLogSize e) prog) (\<lambda>n.
       if n = 0 \<or> en_getProgramLog e = None then act_ret []
       else act_bind (call (en_getProgramLog e) (prog, n)) (\<lambda>(_, buf). act_ret (fill (CHR 0x00) n buf))))"

definition nvrtc_output :: "'w CudaApi \<Rightarrow> CudaSpec \<Rightarrow> ArtifactFormat \<Rightarrow> bytes \<Rightarrow> BackendOutput" where
  "nvrtc_output a spec fmt img = bo_default\<lparr>
     bo_backend := bd_default\<lparr>bd_id := ''cuda-nvrtc'', bd_name := ''cuda-nvrtc'', bd_compilerId := ''nvrtc'',
       bd_compilerVersion := api_nvrtcVersion a, bd_codeGenerator := ''nvrtc'', bd_optimizer := ''nvrtc-opt'', bd_linker := ''nvrtc'',
       bd_runtime := ''cuda-driver'', bd_targetArchitecture := ''sm_120'', bd_supportsNVRTC := True\<rparr>,
     bo_compiler := \<lparr>cd_id = ''nvrtc'', cd_version = api_nvrtcVersion a, cd_vendor = ''NVIDIA'', cd_backendType = ''nvrtc''\<rparr>,
     bo_format := fmt, bo_executable := img,
     bo_specialization := spd_default\<lparr>spd_datatype := sp_dt spec, spd_shape := [ucast (sp_n spec)], spd_architecture := ''sm_120'',
       spd_launchSpecialization := spec_encode spec\<rparr>,
     bo_deterministic := False,
     bo_stages := [stage SK_Codegen True 0 (''nvrtc '' @ api_nvrtcVersion a),
       stage SK_Assemble True 0 ((if fmt = FMT_CUBIN then ''CUBIN'' else ''PTX'') @ '' '' @ dec_int (int (length img)) @ '' bytes'')]\<rparr>"

definition compile_nvrtc :: "'w CudaApi \<Rightarrow> CudaSpec \<Rightarrow> ('w, BackendOutput result) act" where
  "compile_nvrtc a spec = (let e = api_entries a in
     act_bind (call (en_createProgram e) (c_string (generateKernel spec), ''cf_kernel.cpp'')) (\<lambda>(r, prog).
       if r \<noteq> 0 then act_ret (Err ErrBuildFailed ''nvrtcCreateProgram failed'')
       else act_bind (call (en_compileProgram e) (prog, [''--gpu-architecture=sm_120'', ''--std=c++17'', ''-default-device''])) (\<lambda>cr.
         if cr \<noteq> 0
         then act_bind (program_log a prog) (\<lambda>log. act_bind (cleanupProg a prog) (\<lambda>_.
           act_ret (Err ErrBuildFailed (''nvrtcCompileProgram failed: '' @ log))))
         else
           act_bind (ask_size (en_getCUBINSize e) prog) (\<lambda>cubinSize.
           act_bind (ask_size (en_getPTXSize e) prog) (\<lambda>ptxSize.
           act_bind (ask_image (en_getCUBIN e) prog cubinSize) (\<lambda>cubin.
           act_bind (if cubin = None then ask_image (en_getPTX e) prog ptxSize else act_ret None) (\<lambda>ptx.
           act_bind (cleanupProg a prog) (\<lambda>_.
             act_ret (case cubin of
                Some img \<Rightarrow> Ok (nvrtc_output a spec FMT_CUBIN img)
              | None \<Rightarrow> (case ptx of
                    Some img \<Rightarrow> Ok (nvrtc_output a spec FMT_PTX img)
                  | None \<Rightarrow> Err ErrBuildFailed ''nvrtc produced no PTX/CUBIN''))))))))))"

definition cuda_compile :: "Fpu \<Rightarrow> 'w Offline \<Rightarrow> 'w CudaApi \<Rightarrow> CompilationRequest \<Rightarrow> ('w, BackendOutput result) act" where
  "cuda_compile fpu f a r =
     (if \<not> api_avail a then act_ret (Err ErrNoToolchain (api_error a))
      else act_bind (act_eff (parseSource fpu (rq_source r))) (\<lambda>prog.
        let spec = cuda_spec r prog; arch = (if rq_targetArchitecture r = [] then ''sm_120'' else rq_targetArchitecture r) in
        if rq_backend r = ''cuda-nvcc'' \<or> rq_offlinePreferred r
        then act_bind (compileWithNvcc f (generateKernel spec) arch r) (\<lambda>nv. act_ret (case nv of
            Err c m \<Rightarrow> Err c m
          | Ok bo \<Rightarrow> Ok (bo\<lparr>bo_specialization := (bo_specialization bo)\<lparr>spd_datatype := sp_dt spec, spd_shape := [ucast (sp_n spec)],
              spd_architecture := arch, spd_launchSpecialization := spec_encode spec\<rparr>\<rparr>)))
        else compile_nvrtc a spec))"

section \<open>Validation\<close>

definition computeCudaReference :: "Fpu \<Rightarrow> ArtifactDescriptor \<Rightarrow> u64 \<Rightarrow> u32 \<Rightarrow> Datatype \<Rightarrow> double list" where
  "computeCudaReference fpu d seed n dt =
     (let spec = spec_parse fpu (spd_launchSpecialization (ad_specialization d));
          op = \<lparr>op_kind = opKindFor (sp_op spec), op_scalar = sp_scalar spec, op_n = n\<rparr>
      in cpu_execute fpu (cp_default\<lparr>cp_shapeN := ucast n, cp_datatype := (if dt \<noteq> DT_None then dt else sp_dt spec), cp_ops := [op]\<rparr>) seed)"

definition launch_config :: "CudaSpec \<Rightarrow> u32 \<Rightarrow> Datatype \<Rightarrow> LaunchConfig" where
  "launch_config spec n dt =
     (let block = (if sp_block spec \<noteq> 0 then sp_block spec else 256)
      in if sp_reduce spec
         then let b = min n 1024 in \<lparr>lc_grid = (1, 1, 1), lc_block = (b, 1, 1), lc_shared = b * of_nat (elem_size dt)\<rparr>
         else \<lparr>lc_grid = ((n + block - 1) div block, 1, 1), lc_block = (block, 1, 1), lc_shared = 0\<rparr>)"

definition kernel_args :: "Fpu \<Rightarrow> CudaSpec \<Rightarrow> u64 \<Rightarrow> u64 \<Rightarrow> u32 \<Rightarrow> Datatype \<Rightarrow> KernelArgs" where
  "kernel_args fpu spec inBuf outBuf n dt = \<lparr>ka_in = inBuf, ka_out = outBuf, ka_n = n,
     ka_scalar = (if dt = DT_F64 then rev (putU64BE (sp_scalar spec)) else rev (putU32BE (f32_bits fpu (sp_scalar spec))))\<rparr>"

definition close_enough :: "Fpu \<Rightarrow> Datatype \<Rightarrow> double \<Rightarrow> double \<Rightarrow> bool" where
  "close_enough fpu dt got ex \<longleftrightarrow>
     \<not> f_less (f_mul fpu (enc False (if dt = DT_F64 then 1 / 10 ^ 9 else 1 / 10 ^ 3)) (f_add fpu (f_of_int 1) (f_abs ex)))
        (f_abs (f_sub fpu got ex))"

fun compare_outputs :: "Fpu \<Rightarrow> Datatype \<Rightarrow> bytes \<Rightarrow> nat \<Rightarrow> double list \<Rightarrow> bool eff" where
  "compare_outputs fpu dt out i [] = Ret True"
| "compare_outputs fpu dt out i (r # rs) =
     ebind (output_elem dt out i) (\<lambda>got. if close_enough fpu dt got r then compare_outputs fpu dt out (Suc i) rs else Ret False)"

definition outputs_match :: "Fpu \<Rightarrow> Datatype \<Rightarrow> u32 \<Rightarrow> bytes \<Rightarrow> double list \<Rightarrow> bool eff" where
  "outputs_match fpu dt n out ref =
     (if length ref = unat n \<or> length ref = 1 then compare_outputs fpu dt out 0 ref else Ret False)"

definition launch_and_compare :: "Fpu \<Rightarrow> 'w CudaApi \<Rightarrow> Datatype \<Rightarrow> u32 \<Rightarrow> u64 \<Rightarrow> u64 \<Rightarrow> LaunchConfig \<Rightarrow> KernelArgs \<Rightarrow>
    double list \<Rightarrow> ('w, i32 \<times> bool) act" where
  "launch_and_compare fpu a dt n nbytes func lc ka ref = (let e = api_entries a in
     act_bind (call (en_cuLaunchKernel e) (func, lc, ka)) (\<lambda>l.
     act_bind (if l = 0 then call (en_cuCtxSynchronize e) () else act_ret l) (\<lambda>result.
       if result \<noteq> 0 then act_ret (result, False)
       else act_bind (call (en_cuMemcpyDtoH e) (ka_out ka, nbytes)) (\<lambda>(d2h, buf).
         if d2h \<noteq> 0 then act_ret (result, False)
         else act_bind (act_eff (outputs_match fpu dt n (fill 0 nbytes buf) ref)) (\<lambda>m. act_ret (result, m))))))"

definition cuda_verdict :: "'w CudaApi \<Rightarrow> ValidationDescriptor \<Rightarrow> i32 \<Rightarrow> bool \<Rightarrow> ('w, ValidationDescriptor) act" where
  "cuda_verdict a vd result matched =
     (let success = (result = 0); passed = (success \<and> vd_contentDigestOk vd \<and> matched);
          v = vd\<lparr>vd_executionSmoke := success, vd_loadable := success, vd_referenceComparison := matched, vd_passed := passed\<rparr>
      in if passed then act_ret v
         else act_bind (if success then act_ret (if matched then ''content-digest mismatch'' else ''reference mismatch'')
                        else api_errorString a result) (\<lambda>m. act_ret (v\<lparr>vd_message := ''CUDA validation failed: '' @ m\<rparr>)))"

definition llabs :: "i64 \<Rightarrow> u64 eff" where
  "llabs x = (if sint x = - (2 ^ 63) then Undef else Ret (of_int \<bar>sint x\<bar>))"

definition cuda_static_checks :: "ArtifactDescriptor \<Rightarrow> bytes \<Rightarrow> ValidationDescriptor" where
  "cuda_static_checks d exe = vd_default\<lparr>vd_executed := True, vd_method := ''load-launch-reference'',
     vd_contentDigestOk := (ad_contentDigest d = zeroDigest \<or> ad_contentDigest d = sha256 exe),
     vd_formatOk := True, vd_architectureOk := True, vd_abiOk := True, vd_dependencyOk := True, vd_metadataConsistent := True\<rparr>"

definition unload_module :: "'w CudaApi \<Rightarrow> u64 \<Rightarrow> u64 \<Rightarrow> ('w, unit) act" where
  "unload_module a mdl ctx =
     act_bind (discard (en_cuModuleUnload (api_entries a)) mdl) (\<lambda>_. discard (en_cuCtxDestroy (api_entries a)) ctx)"

definition run_kernel :: "Fpu \<Rightarrow> 'w CudaApi \<Rightarrow> ArtifactDescriptor \<Rightarrow> ValidationDescriptor \<Rightarrow> CudaSpec \<Rightarrow> Datatype \<Rightarrow> u32 \<Rightarrow>
    u64 \<Rightarrow> u64 \<Rightarrow> u64 \<Rightarrow> u64 \<Rightarrow> u64 \<Rightarrow> ('w, ValidationDescriptor result) act" where
  "run_kernel fpu a d vd spec dt n ctx mdl func inBuf outBuf =
     (let e = api_entries a; nbytes = ucast n * of_nat (elem_size dt); seed = key_seed d;
          hIn = device_input fpu dt (hostInput fpu n dt seed) in
      act_bind (discard (en_cuMemcpyHtoD e) (inBuf, hIn)) (\<lambda>_.
      act_bind (launch_and_compare fpu a dt n nbytes func (launch_config spec n dt) (kernel_args fpu spec inBuf outBuf n dt)
        (computeCudaReference fpu d seed n dt)) (\<lambda>(result, matched).
      act_bind (cuda_verdict a vd result matched) (\<lambda>v.
      act_bind (discard (en_cuMemFree e) inBuf) (\<lambda>_.
      act_bind (discard (en_cuMemFree e) outBuf) (\<lambda>_.
      act_bind (unload_module a mdl ctx) (\<lambda>_. act_ret (Ok v))))))))"

definition validate_kernel :: "Fpu \<Rightarrow> 'w CudaApi \<Rightarrow> ArtifactDescriptor \<Rightarrow> ValidationDescriptor \<Rightarrow> CudaSpec \<Rightarrow> Datatype \<Rightarrow> u32 \<Rightarrow>
    u64 \<Rightarrow> u64 \<Rightarrow> u64 \<Rightarrow> ('w, ValidationDescriptor result) act" where
  "validate_kernel fpu a d vd spec dt n ctx mdl func =
     (let e = api_entries a; nbytes = ucast n * of_nat (elem_size dt) in
      act_bind (call (en_cuMemAlloc e) nbytes) (\<lambda>(r, inBuf).
      if r \<noteq> 0 then act_bind (unload_module a mdl ctx) (\<lambda>_. act_ret (Ok (vd\<lparr>vd_message := ''cuMemAlloc(in)''\<rparr>)))
      else act_bind (call (en_cuMemAlloc e) nbytes) (\<lambda>(r, outBuf).
      if r \<noteq> 0
      then act_bind (discard (en_cuMemFree e) inBuf) (\<lambda>_. act_bind (unload_module a mdl ctx) (\<lambda>_.
        act_ret (Ok (vd\<lparr>vd_message := ''cuMemAlloc(out)''\<rparr>))))
      else run_kernel fpu a d vd spec dt n ctx mdl func inBuf outBuf)))"

definition cuda_validate :: "Fpu \<Rightarrow> 'w CudaApi \<Rightarrow> ArtifactDescriptor \<Rightarrow> bytes \<Rightarrow> ('w, ValidationDescriptor result) act" where
  "cuda_validate fpu a d exe =
     (if \<not> api_avail a
      then act_ret (Ok (vd_default\<lparr>vd_executed := True, vd_method := ''load-launch-reference'', vd_message := api_error a\<rparr>))
      else let vd = cuda_static_checks d exe; e = api_entries a; spec = spec_parse fpu (spd_launchSpecialization (ad_specialization d));
          dt = (if spd_datatype (ad_specialization d) \<noteq> DT_None then spd_datatype (ad_specialization d) else sp_dt spec) in
        act_bind (act_eff (case spd_shape (ad_specialization d) of [] \<Rightarrow> Ret (ucast (sp_n spec)) | s # _ \<Rightarrow> llabs s)) (\<lambda>count.
        act_bind (call (en_cuDeviceGet e) 0) (\<lambda>(r, dev).
        if r \<noteq> 0 then act_ret (Ok (vd\<lparr>vd_message := ''cuDeviceGet''\<rparr>))
        else act_bind (call (en_cuCtxCreate e) (0, dev)) (\<lambda>(r, ctx).
        if r \<noteq> 0 then act_ret (Ok (vd\<lparr>vd_message := ''cuCtxCreate''\<rparr>))
        else act_bind (call (en_cuModuleLoadData e) exe) (\<lambda>(r, mdl).
        if r \<noteq> 0
        then act_bind (discard (en_cuCtxDestroy e) ctx) (\<lambda>_. act_ret (Ok (vd\<lparr>vd_message := ''cuModuleLoadData''\<rparr>)))
        else act_bind (call (en_cuModuleGetFunction e) (mdl, ''cf_kernel'')) (\<lambda>(r, func).
        if r \<noteq> 0
        then act_bind (unload_module a mdl ctx) (\<lambda>_. act_ret (Ok (vd\<lparr>vd_message := ''cuModuleGetFunction''\<rparr>)))
        else validate_kernel fpu a d vd spec dt (ucast count) ctx mdl func))))))"

section \<open>Loading\<close>

record CudaLoadedModule =
  clm_ctx :: u64
  clm_module :: u64
  clm_func :: u64
  clm_in :: u64
  clm_out :: u64
  clm_bytes :: u64
  clm_digest :: string

definition load_finish :: "'w CudaApi \<Rightarrow> bytes \<Rightarrow> u64 \<Rightarrow> u64 \<Rightarrow> u64 \<Rightarrow> u64 \<Rightarrow> i32 \<Rightarrow> u64 \<Rightarrow> i32 \<Rightarrow> u64 \<Rightarrow> ('w, CudaLoadedModule result) act" where
  "load_finish a exe nbytes ctx mdl func r1 inBuf r2 outBuf = (let e = api_entries a in
     if r1 \<noteq> 0 \<or> r2 \<noteq> 0
     then act_bind (act_when (inBuf \<noteq> 0) (discard (en_cuMemFree e) inBuf)) (\<lambda>_.
       act_bind (act_when (outBuf \<noteq> 0) (discard (en_cuMemFree e) outBuf)) (\<lambda>_.
       act_bind (unload_module a mdl ctx) (\<lambda>_. act_ret (Err ErrLoadFailed ''cuMemAlloc''))))
     else act_ret (Ok \<lparr>clm_ctx = ctx, clm_module = mdl, clm_func = func, clm_in = inBuf, clm_out = outBuf, clm_bytes = nbytes,
       clm_digest = digestToHex (sha256 exe)\<rparr>))"

definition load_buffers :: "'w CudaApi \<Rightarrow> bytes \<Rightarrow> u64 \<Rightarrow> u64 \<Rightarrow> u64 \<Rightarrow> u64 \<Rightarrow> ('w, CudaLoadedModule result) act" where
  "load_buffers a exe nbytes ctx mdl func = (let e = api_entries a in
     act_bind (call (en_cuMemAlloc e) nbytes) (\<lambda>(r1, inBuf).
     if r1 \<noteq> 0 then load_finish a exe nbytes ctx mdl func r1 inBuf r1 0
     else act_bind (call (en_cuMemAlloc e) nbytes) (\<lambda>(r2, outBuf). load_finish a exe nbytes ctx mdl func r1 inBuf r2 outBuf)))"

definition cuda_load :: "'w CudaApi \<Rightarrow> ArtifactDescriptor \<Rightarrow> bytes \<Rightarrow> ('w, CudaLoadedModule result) act" where
  "cuda_load a d exe = (let e = api_entries a in
     if \<not> api_avail a then act_ret (Err ErrNoToolchain (api_error a))
     else act_bind (call (en_cuDeviceGet e) 0) (\<lambda>(r, dev).
       if r \<noteq> 0 then act_ret (Err ErrLoadFailed ''cuDeviceGet'')
       else act_bind (call (en_cuCtxCreate e) (0, dev)) (\<lambda>(r, ctx).
       if r \<noteq> 0 then act_ret (Err ErrLoadFailed ''cuCtxCreate'')
       else act_bind (call (en_cuModuleLoadData e) exe) (\<lambda>(r, mdl).
       if r \<noteq> 0 then act_bind (discard (en_cuCtxDestroy e) ctx) (\<lambda>_. act_ret (Err ErrLoadFailed ''cuModuleLoadData''))
       else act_bind (call (en_cuModuleGetFunction e) (mdl, ''cf_kernel'')) (\<lambda>(r, func).
       if r \<noteq> 0
       then act_bind (unload_module a mdl ctx) (\<lambda>_. act_ret (Err ErrLoadFailed ''cuModuleGetFunction''))
       else act_bind (act_eff (case spd_shape (ad_specialization d) of [] \<Rightarrow> Ret 1024 | s # _ \<Rightarrow> llabs s)) (\<lambda>n.
         let dt = (if spd_datatype (ad_specialization d) \<noteq> DT_None then spd_datatype (ad_specialization d) else DT_F32)
         in load_buffers a exe (n * of_nat (elem_size dt)) ctx mdl func))))))"

definition cuda_unload :: "'w CudaApi \<Rightarrow> CudaLoadedModule \<Rightarrow> ('w, unit) act" where
  "cuda_unload a m = (let e = api_entries a in
     act_bind (act_when (clm_in m \<noteq> 0) (discard (en_cuMemFree e) (clm_in m))) (\<lambda>_.
     act_bind (act_when (clm_out m \<noteq> 0) (discard (en_cuMemFree e) (clm_out m))) (\<lambda>_.
     act_bind (act_when (clm_module m \<noteq> 0) (discard (en_cuModuleUnload e) (clm_module m))) (\<lambda>_.
     act_when (clm_ctx m \<noteq> 0) (discard (en_cuCtxDestroy e) (clm_ctx m))))))"

definition cuda_executeSmoke :: "CudaLoadedModule \<Rightarrow> Digest result" where
  "cuda_executeSmoke m = (if clm_func m = 0 then Err ErrLoadFailed ''module not loaded'' else Ok (sha256 (bytes_of (clm_digest m))))"

end
