(* ===== verification/CF_CudaTrace.thy ===== *)
theory CF_CudaTrace
  imports CF_Cuda
begin

text \<open>
  The order of driver calls. A traced library behaves as the given one and appends to a
  log what each call acquired, released, launched or copied; \<open>held\<close> replays a log and
  fails on a release of something that is not held and on a context destroyed while
  anything else is. \<open>traces m m' Q\<close> says that the traced action \<open>m'\<close> follows the plain
  action \<open>m\<close> step by step and that the events it logs satisfy \<open>Q\<close>.
\<close>

section \<open>Events\<close>

datatype Resource = RCtx u64 | RMod u64 | RMem u64 | RProg u64

datatype event = Acquired Resource | Released Resource | Launched LaunchConfig KernelArgs i32 | Synced i32
  | CopiedIn u64 bytes | CopiedOut i32 u64 bytes

fun held :: "event list \<Rightarrow> Resource multiset \<Rightarrow> Resource multiset option" where
  "held [] M = Some M"
| "held (Acquired r # es) M = held es (add_mset r M)"
| "held (Released r # es) M =
     (if r \<in># M \<and> (case r of RCtx _ \<Rightarrow> M = {#r#} | _ \<Rightarrow> True) then held es (M - {#r#}) else None)"
| "held (_ # es) M = held es M"

definition resource_event :: "event \<Rightarrow> bool" where
  "resource_event e = (case e of Acquired _ \<Rightarrow> True | Released _ \<Rightarrow> True | _ \<Rightarrow> False)"

lemma held_quiet: "list_all (\<lambda>e. \<not> resource_event e) es \<Longrightarrow> held (es @ fs) M = held fs M"
  by (induction es) (auto simp: resource_event_def split: event.splits)

lemma held_release:
  "held (Released (RMem i) # es) (add_mset (RMem i) M) = held es M"
  "held (Released (RMem i) # es) (add_mset r (add_mset (RMem i) M)) = held es (add_mset r M)"
  "held (Released (RMod i) # es) (add_mset (RMod i) M) = held es M"
  "held (Released (RMod i) # es) (add_mset r (add_mset (RMod i) M)) = held es (add_mset r M)"
  "held (Released (RProg i) # es) (add_mset (RProg i) M) = held es M"
  "held (Released (RCtx i) # es) {#RCtx i#} = held es {#}"
  by (simp_all add: add_mset_commute [of r])

definition traced_entry :: "('a \<Rightarrow> 'r \<Rightarrow> event list) \<Rightarrow> ('a, 'r, 'w) entry \<Rightarrow> ('a, 'r, event list \<times> 'w) entry" where
  "traced_entry ev p = map_option (\<lambda>f x (l, w). let (r, v) = f x w in (r, (l @ ev x r, v))) p"

definition got :: "(u64 \<Rightarrow> Resource) \<Rightarrow> 'a \<Rightarrow> i32 \<times> u64 \<Rightarrow> event list" where
  "got R x r = (if fst r = 0 then [Acquired (R (snd r))] else [])"

definition gone :: "(u64 \<Rightarrow> Resource) \<Rightarrow> u64 \<Rightarrow> 'r \<Rightarrow> event list" where "gone R x r = [Released (R x)]"

definition silent :: "'a \<Rightarrow> 'r \<Rightarrow> event list" where "silent x r = []"

definition traced :: "'w Entries \<Rightarrow> (event list \<times> 'w) Entries" where
  "traced e = \<lparr>
     en_createProgram = traced_entry (got RProg) (en_createProgram e), en_compileProgram = traced_entry silent (en_compileProgram e),
     en_getPTXSize = traced_entry silent (en_getPTXSize e), en_getPTX = traced_entry silent (en_getPTX e),
     en_getCUBINSize = traced_entry silent (en_getCUBINSize e), en_getCUBIN = traced_entry silent (en_getCUBIN e),
     en_getLogSize = traced_entry silent (en_getLogSize e), en_getProgramLog = traced_entry silent (en_getProgramLog e),
     en_destroyProgram = traced_entry (gone RProg) (en_destroyProgram e), en_getVersion = traced_entry silent (en_getVersion e),
     en_cuInit = traced_entry silent (en_cuInit e), en_cuDeviceGetCount = traced_entry silent (en_cuDeviceGetCount e),
     en_cuDeviceGet = traced_entry silent (en_cuDeviceGet e), en_cuDeviceGetName = traced_entry silent (en_cuDeviceGetName e),
     en_cuDeviceGetAttribute = traced_entry silent (en_cuDeviceGetAttribute e),
     en_cuCtxCreate = traced_entry (got RCtx) (en_cuCtxCreate e), en_cuModuleLoadData = traced_entry (got RMod) (en_cuModuleLoadData e),
     en_cuModuleGetFunction = traced_entry silent (en_cuModuleGetFunction e), en_cuMemAlloc = traced_entry (got RMem) (en_cuMemAlloc e),
     en_cuMemFree = traced_entry (gone RMem) (en_cuMemFree e),
     en_cuMemcpyHtoD = traced_entry (\<lambda>(p, b) r. [CopiedIn p b]) (en_cuMemcpyHtoD e),
     en_cuMemcpyDtoH = traced_entry (\<lambda>(p, n) (r, b). [CopiedOut r p b]) (en_cuMemcpyDtoH e),
     en_cuLaunchKernel = traced_entry (\<lambda>(_, lc, ka) r. [Launched lc ka r]) (en_cuLaunchKernel e),
     en_cuCtxSynchronize = traced_entry (\<lambda>_ r. [Synced r]) (en_cuCtxSynchronize e),
     en_cuModuleUnload = traced_entry (gone RMod) (en_cuModuleUnload e), en_cuCtxDestroy = traced_entry (gone RCtx) (en_cuCtxDestroy e),
     en_cuGetErrorString = traced_entry silent (en_cuGetErrorString e)\<rparr>"

definition traced_api :: "'w CudaApi \<Rightarrow> (event list \<times> 'w) CudaApi" where
  "traced_api a = \<lparr>api_avail = api_avail a, api_error = api_error a, api_nvrtcVersion = api_nvrtcVersion a,
     api_driverVersion = api_driverVersion a, api_impl_errorString = traced_entry silent (api_impl_errorString a),
     api_entries = traced (api_entries a)\<rparr>"

lemma traced_None [simp]: "traced_entry ev p = None \<longleftrightarrow> p = None"
  by (simp add: traced_entry_def)

lemma traced_api_simps [simp]:
  "api_avail (traced_api a) = api_avail a" "api_error (traced_api a) = api_error a"
  "api_nvrtcVersion (traced_api a) = api_nvrtcVersion a" "api_entries (traced_api a) = traced (api_entries a)"
  "api_impl_errorString (traced_api a) = traced_entry silent (api_impl_errorString a)"
  by (simp_all add: traced_api_def)

lemma traced_simps [simp]:
  "en_createProgram (traced e) = traced_entry (got RProg) (en_createProgram e)"
  "en_compileProgram (traced e) = traced_entry silent (en_compileProgram e)"
  "en_getPTXSize (traced e) = traced_entry silent (en_getPTXSize e)"
  "en_getPTX (traced e) = traced_entry silent (en_getPTX e)"
  "en_getCUBINSize (traced e) = traced_entry silent (en_getCUBINSize e)"
  "en_getCUBIN (traced e) = traced_entry silent (en_getCUBIN e)"
  "en_getLogSize (traced e) = traced_entry silent (en_getLogSize e)"
  "en_getProgramLog (traced e) = traced_entry silent (en_getProgramLog e)"
  "en_destroyProgram (traced e) = traced_entry (gone RProg) (en_destroyProgram e)"
  "en_getVersion (traced e) = traced_entry silent (en_getVersion e)"
  "en_cuInit (traced e) = traced_entry silent (en_cuInit e)"
  "en_cuDeviceGetCount (traced e) = traced_entry silent (en_cuDeviceGetCount e)"
  "en_cuDeviceGet (traced e) = traced_entry silent (en_cuDeviceGet e)"
  "en_cuDeviceGetName (traced e) = traced_entry silent (en_cuDeviceGetName e)"
  "en_cuDeviceGetAttribute (traced e) = traced_entry silent (en_cuDeviceGetAttribute e)"
  "en_cuCtxCreate (traced e) = traced_entry (got RCtx) (en_cuCtxCreate e)"
  "en_cuModuleLoadData (traced e) = traced_entry (got RMod) (en_cuModuleLoadData e)"
  "en_cuModuleGetFunction (traced e) = traced_entry silent (en_cuModuleGetFunction e)"
  "en_cuMemAlloc (traced e) = traced_entry (got RMem) (en_cuMemAlloc e)"
  "en_cuMemFree (traced e) = traced_entry (gone RMem) (en_cuMemFree e)"
  "en_cuMemcpyHtoD (traced e) = traced_entry (\<lambda>(p, b) r. [CopiedIn p b]) (en_cuMemcpyHtoD e)"
  "en_cuMemcpyDtoH (traced e) = traced_entry (\<lambda>(p, n) (r, b). [CopiedOut r p b]) (en_cuMemcpyDtoH e)"
  "en_cuLaunchKernel (traced e) = traced_entry (\<lambda>(_, lc, ka) r. [Launched lc ka r]) (en_cuLaunchKernel e)"
  "en_cuCtxSynchronize (traced e) = traced_entry (\<lambda>_ r. [Synced r]) (en_cuCtxSynchronize e)"
  "en_cuModuleUnload (traced e) = traced_entry (gone RMod) (en_cuModuleUnload e)"
  "en_cuCtxDestroy (traced e) = traced_entry (gone RCtx) (en_cuCtxDestroy e)"
  "en_cuGetErrorString (traced e) = traced_entry silent (en_cuGetErrorString e)"
  by (simp_all add: traced_def)

section \<open>Following a plain run\<close>

definition traces :: "('w, 'a) act \<Rightarrow> (event list \<times> 'w, 'a) act \<Rightarrow> ('a \<Rightarrow> event list \<Rightarrow> bool) \<Rightarrow> bool" where
  "traces m m' Q \<longleftrightarrow> (\<forall>w x v. m w = Ret (x, v) \<longrightarrow> (\<forall>l. \<exists>es. m' (l, w) = Ret (x, (l @ es, v)) \<and> Q x es))"

lemma traces_ret: "Q x [] \<Longrightarrow> traces (act_ret x) (act_ret x) Q"
  by (simp add: traces_def act_ret_def)

lemma traces_eff: "(\<And>x. m = Ret x \<Longrightarrow> Q x []) \<Longrightarrow> traces (act_eff m) (act_eff m) Q"
  by (cases m) (simp_all add: traces_def act_eff_def)

lemma traces_call: "(\<And>r. Q r (ev x r)) \<Longrightarrow> traces (call p x) (call (traced_entry ev p) x) Q"
  by (auto simp: traces_def call_def traced_entry_def split: option.splits)

lemma traces_bind:
  assumes m: "traces m m' P" and k: "\<And>x es. P x es \<Longrightarrow> traces (k x) (k' x) (\<lambda>y fs. Q y (es @ fs))"
  shows "traces (act_bind m k) (act_bind m' k') Q"
  unfolding traces_def
proof (intro allI impI)
  fix w y v l assume "act_bind m k w = Ret (y, v)"
  then obtain x u where x: "m w = Ret (x, u)" "k x u = Ret (y, v)" by (cases "m w") (auto simp: act_bind_def)
  then obtain es where es: "m' (l, w) = Ret (x, (l @ es, u))" "P x es" using m unfolding traces_def by blast
  then obtain fs where "k' x (l @ es, u) = Ret (y, ((l @ es) @ fs, v))" "Q y (es @ fs)"
    using k [OF es(2)] x(2) unfolding traces_def by blast
  then show "\<exists>es. act_bind m' k' (l, w) = Ret (y, (l @ es, v)) \<and> Q y es" using es by (auto simp: act_bind_def)
qed

lemma traces_if: "(b \<Longrightarrow> traces m m' Q) \<Longrightarrow> (\<not> b \<Longrightarrow> traces k k' Q) \<Longrightarrow> traces (if b then m else k) (if b then m' else k') Q"
  by simp

lemma traces_mono: "traces m m' P \<Longrightarrow> (\<And>x es. P x es \<Longrightarrow> Q x es) \<Longrightarrow> traces m m' Q"
  unfolding traces_def by blast

text \<open>Binding a call: the continuation starts with the events of the call.\<close>

lemma traces_bind_call:
  "(\<And>r. traces (k r) (k' r) (\<lambda>y fs. Q y (ev x r @ fs))) \<Longrightarrow> traces (act_bind (call p x) k) (act_bind (call (traced_entry ev p) x) k') Q"
  by (rule traces_bind [OF traces_call [of "\<lambda>r es. es = ev x r"]]) simp_all

lemma traces_bind_call2:
  "(\<And>r u. traces (k r u) (k' r u) (\<lambda>y fs. Q y (ev x (r, u) @ fs))) \<Longrightarrow>
   traces (act_bind (call p x) (\<lambda>(r, u). k r u)) (act_bind (call (traced_entry ev p) x) (\<lambda>(r, u). k' r u)) Q"
  by (rule traces_bind_call) (simp only: split_paired_all prod.case)

lemma traces_bind_discard:
  "traces (k ()) (k' ()) (\<lambda>y fs. Q y (Released (R x) # fs)) \<Longrightarrow>
   traces (act_bind (discard p x) k) (act_bind (discard (traced_entry (gone R) p) x) k') Q"
  unfolding discard_def
  by (rule traces_bind [of _ _ "\<lambda>_ es. es = [Released (R x)]"], rule traces_bind_call, rule traces_ret) (simp_all add: gone_def)

lemma traces_bind_eff:
  "(\<And>x. m = Ret x \<Longrightarrow> traces (k x) (k' x) Q) \<Longrightarrow> traces (act_bind (act_eff m) k) (act_bind (act_eff m) k') Q"
  by (rule traces_bind [OF traces_eff [of m "\<lambda>x es. m = Ret x \<and> es = []"]]) simp_all

section \<open>Validation\<close>

lemma launch_traces:
  "traces (launch_and_compare fpu a dt n nb func lc ka ref) (launch_and_compare fpu (traced_api a) dt n nb func lc ka ref)
     (\<lambda>(res, m) es. list_all (\<lambda>e. \<not> resource_event e) es \<and>
        (res = 0 \<and> m \<longrightarrow> (\<exists>buf. es = [Launched lc ka 0, Synced 0, CopiedOut 0 (ka_out ka) buf] \<and>
          outputs_match fpu dt n (fill 0 nb buf) ref = Ret True)))"
proof -
  have copy: "traces (act_bind (call (en_cuMemcpyDtoH (api_entries a)) (ka_out ka, nb)) (\<lambda>(d2h, buf).
        if d2h \<noteq> 0 then act_ret (0, False)
        else act_bind (act_eff (outputs_match fpu dt n (fill 0 nb buf) ref)) (\<lambda>m. act_ret (0, m))))
      (act_bind (call (traced_entry (\<lambda>(p, n) (r, b). [CopiedOut r p b]) (en_cuMemcpyDtoH (api_entries a))) (ka_out ka, nb)) (\<lambda>(d2h, buf).
        if d2h \<noteq> 0 then act_ret (0, False)
        else act_bind (act_eff (outputs_match fpu dt n (fill 0 nb buf) ref)) (\<lambda>m. act_ret (0, m))))
      (\<lambda>(res :: i32, m) fs. list_all (\<lambda>e. \<not> resource_event e) fs \<and>
        (m \<longrightarrow> (\<exists>buf. fs = [CopiedOut 0 (ka_out ka) buf] \<and> outputs_match fpu dt n (fill 0 nb buf) ref = Ret True)))"
    by (rule traces_bind_call) (auto simp: resource_event_def intro!: traces_ret traces_bind_eff)
  have sync: "traces (if l = 0 then call (en_cuCtxSynchronize (api_entries a)) () else act_ret l)
      (if l = 0 then call (traced_entry (\<lambda>_ r. [Synced r]) (en_cuCtxSynchronize (api_entries a))) () else act_ret l)
      (\<lambda>r es. list_all (\<lambda>e. \<not> resource_event e) es \<and> (r = 0 \<longrightarrow> l = 0 \<and> es = [Synced 0]))" for l
    by (auto simp: resource_event_def intro!: traces_call traces_ret)
  show ?thesis unfolding launch_and_compare_def Let_def traced_api_simps traced_simps
    by (rule traces_bind_call, rule traces_bind [OF sync])
      (auto simp: resource_event_def intro!: traces_ret intro: traces_mono [OF copy])
qed

lemma verdict_traces:
  "traces (cuda_verdict a vd res m) (cuda_verdict (traced_api a) vd res m)
     (\<lambda>v es. es = [] \<and> vd_passed v = (res = 0 \<and> vd_contentDigestOk vd \<and> m))"
proof -
  have err: "traces (api_errorString a r) (api_errorString (traced_api a) r) (\<lambda>_ es. es = [])" for r
    unfolding api_errorString_def traced_api_simps traced_None
    by (rule traces_bind [of _ _ "\<lambda>_ es. es = []"]) (auto intro!: traces_ret traces_call simp: silent_def)
  have msg: "traces (if s then act_ret t else api_errorString a res) (if s then act_ret t else api_errorString (traced_api a) res) (\<lambda>_ es. es = [])"
    for s t by (simp add: err traces_ret)
  show ?thesis
  proof (cases "res = 0 \<and> vd_contentDigestOk vd \<and> m")
    case False
    then have "vd_passed (v\<lparr>vd_message := t\<rparr>) = (res = 0 \<and> vd_contentDigestOk vd \<and> m) \<longleftrightarrow> \<not> vd_passed v" for v t by auto
    then show ?thesis unfolding cuda_verdict_def Let_def if_not_P [OF False]
      by (intro traces_bind [OF msg] traces_ret) (use False in auto)
  qed (simp add: cuda_verdict_def traces_ret)
qed

lemma unload_traces: "traces (unload_module a mdl ctx) (unload_module (traced_api a) mdl ctx)
    (\<lambda>_ es. es = [Released (RMod mdl), Released (RCtx ctx)])"
proof -
  have "traces (discard p x) (discard (traced_entry (gone RCtx) p) x) (\<lambda>_ es. es = [Released (RCtx x)])"
    for p :: "(u64, i32, 'a) entry" and x
    unfolding discard_def by (rule traces_bind_call) (auto simp: gone_def intro: traces_ret)
  then show ?thesis unfolding unload_module_def traced_api_simps traced_simps
    by (rule traces_bind_discard [OF traces_mono]) simp
qed

definition launched :: "Fpu \<Rightarrow> ArtifactDescriptor \<Rightarrow> CudaSpec \<Rightarrow> Datatype \<Rightarrow> u32 \<Rightarrow> u64 \<Rightarrow> u64 \<Rightarrow> event list \<Rightarrow> bool" where
  "launched fpu d spec dt n i j ls \<longleftrightarrow> (\<exists>buf.
     ls = [Launched (launch_config spec n dt) (kernel_args fpu spec i j n dt) 0, Synced 0, CopiedOut 0 j buf] \<and>
     outputs_match fpu dt n (fill 0 (ucast n * of_nat (elem_size dt)) buf) (computeCudaReference fpu d (key_seed d) n dt) = Ret True)"

lemma run_kernel_traces:
  "traces (run_kernel fpu a d vd spec dt n ctx mdl func i j) (run_kernel fpu (traced_api a) d vd spec dt n ctx mdl func i j)
     (\<lambda>r es. \<exists>v ls. r = Ok v \<and>
        es = CopiedIn i (device_input fpu dt (hostInput fpu n dt (key_seed d))) # ls @
          [Released (RMem i), Released (RMem j), Released (RMod mdl), Released (RCtx ctx)] \<and>
        list_all (\<lambda>e. \<not> resource_event e) ls \<and> (vd_passed v \<longrightarrow> vd_contentDigestOk vd \<and> launched fpu d spec dt n i j ls))"
proof -
  have copy: "traces (discard p (i, b)) (discard (traced_entry (\<lambda>(p, b) r. [CopiedIn p b]) p) (i, b)) (\<lambda>_ es. es = [CopiedIn i b])"
    for p :: "(u64 \<times> bytes, i32, 'a) entry" and i b
    unfolding discard_def by (rule traces_bind_call) (auto intro: traces_ret)
  show ?thesis unfolding run_kernel_def Let_def traced_api_simps traced_simps
    apply (rule traces_bind [OF copy], rule traces_bind [OF launch_traces])
    apply (clarify, rule traces_bind [OF verdict_traces], intro traces_bind_discard traces_bind [OF unload_traces] traces_ret)
    apply (auto simp: launched_def kernel_args_def)
    done
qed

lemma validate_kernel_traces:
  "traces (validate_kernel fpu a d vd spec dt n ctx mdl func) (validate_kernel fpu (traced_api a) d vd spec dt n ctx mdl func)
     (\<lambda>r es. held es {#RMod mdl, RCtx ctx#} = Some {#} \<and> (\<exists>v. r = Ok v \<and> (vd_passed v \<and> \<not> vd_passed vd \<longrightarrow>
        vd_contentDigestOk vd \<and> (\<exists>i j b ls. launched fpu d spec dt n i j ls \<and>
        es = [Acquired (RMem i), Acquired (RMem j), CopiedIn i b] @ ls @
          [Released (RMem i), Released (RMem j), Released (RMod mdl), Released (RCtx ctx)]))))"
  unfolding validate_kernel_def Let_def traced_api_simps traced_simps
  apply (rule traces_bind_call2, rule traces_if)
  apply (rule traces_bind [OF unload_traces], rule traces_ret)
  apply (simp add: got_def held_release)
  apply (rule traces_bind_call2, rule traces_if)
  apply (rule traces_bind_discard, rule traces_bind [OF unload_traces], rule traces_ret)
  apply (simp add: got_def held_release)
  apply (rule traces_mono [OF run_kernel_traces])
  apply (auto simp: got_def held_quiet held_release)
  done

text \<open>The number of elements and the datatype that validation derives from a descriptor.\<close>

definition val_spec :: "Fpu \<Rightarrow> ArtifactDescriptor \<Rightarrow> CudaSpec" where
  "val_spec fpu d = spec_parse fpu (spd_launchSpecialization (ad_specialization d))"

definition val_dt :: "Fpu \<Rightarrow> ArtifactDescriptor \<Rightarrow> Datatype" where
  "val_dt fpu d = (if spd_datatype (ad_specialization d) \<noteq> DT_None then spd_datatype (ad_specialization d) else sp_dt (val_spec fpu d))"

definition val_count :: "Fpu \<Rightarrow> ArtifactDescriptor \<Rightarrow> u32" where
  "val_count fpu d = (case spd_shape (ad_specialization d) of [] \<Rightarrow> sp_n (val_spec fpu d) | s # _ \<Rightarrow> of_int \<bar>sint s\<bar>)"

lemma narrow_of_int: "(ucast (of_int k :: u64) :: u32) = of_int k"
  by transfer simp

lemma narrow_widen: "(ucast (ucast (x :: u32) :: u64) :: u32) = x"
  by transfer simp

lemma widen_uint: "uint (ucast (x :: u32) :: u64) = uint x"
  by transfer simp

lemma widen_sint: "sint (ucast (x :: u32) :: i64) = uint x"
proof -
  have "signed_take_bit 63 k = k" if "0 \<le> k" "k < 2 ^ 32" for k :: int
    by (rule signed_take_bit_int_eq_self) (use that in simp_all)
  from this [of "uint x"] show ?thesis
    unfolding sint_uint widen_uint using unsigned_less [of x, where 'a = int] by simp
qed

lemma count_cases:
  "(case spd_shape (ad_specialization d) of [] \<Rightarrow> Ret (ucast (sp_n (val_spec fpu d))) | s # _ \<Rightarrow> llabs s) = Ret c \<Longrightarrow>
   ucast c = val_count fpu d"
  by (cases "spd_shape (ad_specialization d)")
    (auto simp: val_count_def llabs_def narrow_of_int narrow_widen simp del: of_int_abs split: if_splits)

lemma validate_traces:
  "traces (cuda_validate fpu a d exe) (cuda_validate fpu (traced_api a) d exe)
     (\<lambda>r es. held es {#} = Some {#} \<and> (\<exists>v. r = Ok v \<and> (vd_passed v \<longrightarrow>
        (ad_contentDigest d = zeroDigest \<or> ad_contentDigest d = sha256 exe) \<and>
        (\<exists>c m i j b ls. launched fpu d (val_spec fpu d) (val_dt fpu d) (val_count fpu d) i j ls \<and>
          es = [Acquired (RCtx c), Acquired (RMod m), Acquired (RMem i), Acquired (RMem j), CopiedIn i b] @ ls @
            [Released (RMem i), Released (RMem j), Released (RMod m), Released (RCtx c)]))))"
  unfolding cuda_validate_def Let_def traced_api_simps traced_simps val_spec_def [symmetric] val_dt_def [symmetric]
  apply (rule traces_if, rule traces_ret, simp add: vd_default_def)
  apply (rule traces_bind_eff, drule count_cases)
  apply (rule traces_bind_call2, rule traces_if, rule traces_ret, simp add: cuda_static_checks_def vd_default_def silent_def)
  apply (rule traces_bind_call2, rule traces_if, rule traces_ret, simp add: cuda_static_checks_def vd_default_def silent_def got_def)
  apply (rule traces_bind_call2, rule traces_if, rule traces_bind_discard, rule traces_ret,
      simp add: cuda_static_checks_def vd_default_def silent_def got_def)
  apply (rule traces_bind_call2, rule traces_if, rule traces_bind [OF unload_traces], rule traces_ret,
      simp add: cuda_static_checks_def vd_default_def silent_def got_def held_release)
  apply (rule traces_mono [OF validate_kernel_traces])
  apply (auto simp: cuda_static_checks_def vd_default_def silent_def got_def)
  done

text \<open>An accepting comparison read every reference element's output and found it close enough.\<close>

lemma compare_outputs_True:
  "compare_outputs fpu dt out i rs = Ret True \<Longrightarrow> k < length rs \<Longrightarrow>
   \<exists>g. output_elem dt out (i + k) = Ret g \<and> close_enough fpu dt g (rs ! k)"
proof (induction rs arbitrary: i k)
  case (Cons r rs)
  from Cons.prems(1) obtain g where g: "output_elem dt out i = Ret g" "close_enough fpu dt g r"
      "compare_outputs fpu dt out (Suc i) rs = Ret True"
    by (cases "output_elem dt out i") (auto split: if_splits)
  then show ?case using Cons.IH [OF g(3), of "k - 1"] Cons.prems(2) by (cases k) auto
qed simp

lemma outputs_match_True:
  "outputs_match fpu dt n out ref = Ret True \<longleftrightarrow>
     (length ref = unat n \<or> length ref = 1) \<and> compare_outputs fpu dt out 0 ref = Ret True"
  by (simp add: outputs_match_def)

text \<open>
  What the comparison means for numbers: the tolerance at a finite reference value and the
  distance of an output value from it, both rounded to doubles the way the code computes them.
\<close>

definition tolerance_at :: "Datatype \<Rightarrow> rat \<Rightarrow> dbl option" where
  "tolerance_at dt y = dbl_mul (round_double (if dt = DT_F64 then 1 / 10 ^ 9 else 1 / 10 ^ 3)) (round_double (1 + \<bar>y\<bar>))"

fun apart :: "dbl \<Rightarrow> rat \<Rightarrow> dbl" where
  "apart (Fin x) y = round_double \<bar>x - y\<bar>"
| "apart (Inf s) y = Inf False"

text \<open>The comparison looks at classes only: equal finite values pass, and so does every NaN.\<close>

lemma round_double_nonneg: "0 \<le> x \<Longrightarrow> \<not> dbl_less (round_double x) (Fin 0)"
  using fround_nonneg [of x 53 "- 1074"] by (auto simp: round_double_def round_pos_eq Let_def not_less)

lemma dbl_mul_nonneg: "\<not> dbl_less u (Fin 0) \<Longrightarrow> \<not> dbl_less v (Fin 0) \<Longrightarrow> dbl_mul u v = Some t \<Longrightarrow> \<not> dbl_less t (Fin 0)"
  by (cases u; cases v) (auto simp: round_double_nonneg not_less split: if_splits)

lemma close_same:
  assumes "cls g = Some (Fin x)" "cls r = Some (Fin x)"
  shows "close_enough fpu dt g r"
proof -
  have d: "cls (f_abs (f_sub fpu g r)) = Some (Fin 0)" using assms by (simp add: cls_ops round_double_def)
  have "\<not> dbl_less u (Fin 0)" if u: "cls (f_mul fpu (enc False t) (f_add fpu (f_of_int 1) (f_abs r))) = Some u" and t: "0 \<le> t" for t u
  proof -
    have "dbl_mul (round_double t) (round_double (1 + \<bar>x\<bar>)) = Some u"
      using u assms by (simp add: cls_ops cls_enc cls_zero_one)
    then show ?thesis by (rule dbl_mul_nonneg [rotated 2]) (simp_all add: round_double_nonneg t)
  qed
  then show ?thesis by (auto simp: close_enough_def f_less_def d split: option.splits)
qed

lemma tolerance_factor:
  "\<exists>z. round_double (1 / 10 ^ 3) = Fin z \<and> z \<noteq> 0" "\<exists>z. round_double (1 / 10 ^ 9) = Fin z \<and> z \<noteq> 0"
proof -
  have "case round_double (1 / 10 ^ 3) of Fin z \<Rightarrow> z \<noteq> 0 | Inf _ \<Rightarrow> False" by code_simp
  then show "\<exists>z. round_double (1 / 10 ^ 3) = Fin z \<and> z \<noteq> 0" by (simp split: dbl.splits)
  have "case round_double (1 / 10 ^ 9) of Fin z \<Rightarrow> z \<noteq> 0 | Inf _ \<Rightarrow> False" by code_simp
  then show "\<exists>z. round_double (1 / 10 ^ 9) = Fin z \<and> z \<noteq> 0" by (simp split: dbl.splits)
qed

lemma tolerance_defined: "\<exists>t. tolerance_at dt y = Some t"
  using tolerance_factor by (cases "round_double (1 + \<bar>y\<bar>)") (auto simp: tolerance_at_def)

lemma abs_round: "dbl_abs (round_double x) = round_double \<bar>x\<bar>"
proof -
  have "0 \<le> round_pos z" if "0 < z" for z using fround_nonneg [of z 53 "- 1074"] that by (simp add: round_pos_eq)
  then show ?thesis by (auto simp: round_double_def Let_def)
qed

text \<open>For an output that is no NaN and a finite reference the comparison is that of the numbers.\<close>

lemma close_enough_finite:
  assumes "cls g = Some u" "cls r = Some (Fin y)" "tolerance_at dt y = Some t"
  shows "close_enough fpu dt g r \<longleftrightarrow> \<not> dbl_less t (apart u y)"
proof -
  have "cls (f_mul fpu (enc False (if dt = DT_F64 then 1 / 10 ^ 9 else 1 / 10 ^ 3)) (f_add fpu (f_of_int 1) (f_abs r))) = Some t"
    using assms(2,3) by (simp add: cls_ops cls_enc cls_zero_one tolerance_at_def)
  moreover have "cls (f_abs (f_sub fpu g r)) = Some (apart u y)"
    using assms(1,2) by (cases u) (simp_all add: cls_ops abs_round)
  ultimately show ?thesis by (simp add: close_enough_def f_less_def)
qed

lemma nan_accepted: "is_nan g \<Longrightarrow> close_enough fpu dt g r"
proof -
  assume "is_nan g"
  then have "cls (f_abs (f_sub fpu g r)) = None" by (simp add: is_nan_cls cls_ops)
  then show ?thesis by (auto simp: close_enough_def f_less_def split: option.splits)
qed

section \<open>A driver that accepts everything\<close>

text \<open>Handles are numbered; the buffer copied back is given.\<close>

definition fresh :: "'a \<Rightarrow> nat \<Rightarrow> (i32 \<times> u64) \<times> nat" where "fresh x w = ((0, of_nat (Suc (w mod 1000))), Suc w)"

definition fine :: "'a \<Rightarrow> nat \<Rightarrow> i32 \<times> nat" where "fine x w = (0, w)"

definition demo_entries :: "bytes \<Rightarrow> nat Entries" where
  "demo_entries out = no_entries\<lparr>en_cuDeviceGet := Some (\<lambda>i w. ((0, i), w)), en_cuCtxCreate := Some fresh,
     en_cuModuleLoadData := Some fresh, en_cuModuleGetFunction := Some fresh, en_cuMemAlloc := Some fresh,
     en_cuMemFree := Some fine, en_cuMemcpyHtoD := Some fine, en_cuMemcpyDtoH := Some (\<lambda>x w. ((0, out), w)),
     en_cuLaunchKernel := Some fine, en_cuCtxSynchronize := Some fine, en_cuModuleUnload := Some fine,
     en_cuCtxDestroy := Some fine\<rparr>"

definition demo_api :: "bytes \<Rightarrow> nat CudaApi" where
  "demo_api out = api_default\<lparr>api_avail := True, api_entries := demo_entries out\<rparr>"

definition demo_artifact :: ArtifactDescriptor where
  "demo_artifact = ad_default\<lparr>ad_specialization := spd_default\<lparr>spd_shape := [1], spd_datatype := DT_F32,
     spd_launchSpecialization := ''op=id;n=1''\<rparr>\<rparr>"

definition verdict_of :: "(ValidationDescriptor result \<times> 'w) eff \<Rightarrow> bool option" where
  "verdict_of r = (case r of Ret (Ok v, _) \<Rightarrow> Some (vd_passed v) | _ \<Rightarrow> None)"

definition zero_fpu :: Fpu where "zero_fpu = sample_fpu\<lparr>fp_sin := \<lambda>_. 0\<rparr>"

lemma zero_sin: "fp_sin zero_fpu x = 0"
  by (simp add: zero_fpu_def)

lemma demo_spec: "spec_parse zero_fpu ''op=id;n=1'' = sp_default\<lparr>sp_op := ''id'', sp_n := 1\<rparr>"
  by code_simp

lemma zero_elem: "output_elem DT_F32 (fill 0 4 [0, 0, 0, 0]) 0 = Ret 0"
  by code_simp

lemma nan_elem: "output_elem DT_F32 (fill 0 4 [0, 0, 0xC0, 0x7F]) 0 = Ret quiet_nan"
  by code_simp

lemma cls_0: "cls 0 = Some (Fin 0)"
  by (simp add: cls_def magn_def neg_bit_def mag_def signed_val_def inf_bits_def)

lemma demo_reference: "\<exists>r. computeCudaReference zero_fpu demo_artifact seed 1 DT_F32 = [r] \<and> cls r = Some (Fin 0)"
proof -
  have thousand: "round_double 1000 = Fin 1000" using double_of_int_exact [of 1000] by (simp add: double_of_int_def)
  have z: "cls (f_mul zero_fpu 0 (f_of_int 1000)) = Some (Fin 0)"
    using thousand by (simp add: cls_mul f_of_int_def cls_enc cls_0 round_double_def)
  have "opKindFor ''id'' = OP_Id" by (simp add: opKindFor_def)
  then have "computeCudaReference zero_fpu demo_artifact seed 1 DT_F32 =
      [rr zero_fpu DT_F32 (rr zero_fpu DT_F32 (f_mul zero_fpu 0 (f_of_int 1000)))]"
    by (simp add: computeCudaReference_def demo_artifact_def ad_default_def spd_default_def demo_spec cpu_execute_def cp_default_def
        hostInput_def run_op_def map_op_def zero_sin Let_def)
  moreover have "cls (rr zero_fpu DT_F32 (rr zero_fpu DT_F32 (f_mul zero_fpu 0 (f_of_int 1000)))) = Some (Fin 0)"
    by (simp add: rr_def cls_single z)
  ultimately show ?thesis by blast
qed

text \<open>The demonstration artifact passes whatever bits come back, if they read as zero or as a NaN.\<close>

lemma demo_outputs:
  assumes "output_elem DT_F32 (fill 0 4 bits) 0 = Ret g" "cls g = Some (Fin 0) \<or> is_nan g"
  shows "outputs_match zero_fpu DT_F32 1 (fill 0 4 bits) (computeCudaReference zero_fpu demo_artifact seed 1 DT_F32) = Ret True"
  using demo_reference [of seed] assms close_same [of g 0] nan_accepted [of g] by (auto simp: outputs_match_def)

lemmas demo_defs = cuda_validate_def validate_kernel_def run_kernel_def launch_and_compare_def cuda_verdict_def unload_module_def
  cuda_static_checks_def demo_api_def demo_entries_def discard_def fresh_def fine_def verdict_of_def
  act_bind_def act_ret_def act_eff_def call_def

lemma demo_passes:
  assumes "output_elem DT_F32 (fill 0 4 bits) 0 = Ret g" "cls g = Some (Fin 0) \<or> is_nan g"
  shows "verdict_of (cuda_validate zero_fpu (demo_api bits) demo_artifact exe w) = Some True"
proof -
  have d: "ad_specialization demo_artifact = spd_default\<lparr>spd_shape := [1], spd_datatype := DT_F32, spd_launchSpecialization := ''op=id;n=1''\<rparr>"
      "ad_contentDigest demo_artifact = zeroDigest"
    by (simp_all add: demo_artifact_def ad_default_def)
  have c: "llabs 1 = Ret 1" by (simp add: llabs_def)
  have e: "elem_size DT_F32 = 4" by (simp add: elem_size_def)
  show ?thesis
    by (simp add: demo_defs d c e demo_spec demo_outputs [OF assms] spd_default_def Let_def kernel_args_def)
qed

text \<open>A kernel whose output is not a number passes validation.\<close>

lemma nan_validates: "verdict_of (cuda_validate zero_fpu (demo_api [0, 0, 0xC0, 0x7F]) demo_artifact exe w) = Some True"
  by (rule demo_passes [OF nan_elem]) code_simp

section \<open>What a passed validation means\<close>

lemma tracesD: "traces m m' Q \<Longrightarrow> m w = Ret (x, v) \<Longrightarrow> \<exists>es. m' (l, w) = Ret (x, (l @ es, v)) \<and> Q x es"
  unfolding traces_def by blast

text \<open>
  C23: When the CUDA backend reports a passed validation, the artifact's content digest is unset or
  matches the bytes, and the driver calls made, in this order, a successful launch of the kernel
  with the geometry and arguments of the artifact's specification, a successful synchronisation
  and a successful copy of the output buffer, in which every element of the CPU reference has a
  counterpart that the code's comparison accepts. An element that is no NaN, compared with a
  finite reference value, is then not farther from it than the tolerance, distance and tolerance
  computed in doubles. Nothing is said of an element that is a NaN or whose reference value is
  not finite: the comparison lets a NaN pass (lemma nan_validates). This holds for every driver.
\<close>

theorem cuda_validated:
  assumes "cuda_validate fpu a d exe w = Ret (Ok vd, v)" "vd_passed vd"
    and "spec = val_spec fpu d" "dt = val_dt fpu d" "n = val_count fpu d" "ref = computeCudaReference fpu d (key_seed d) n dt"
  shows "(ad_contentDigest d = zeroDigest \<or> ad_contentDigest d = sha256 exe) \<and>
    (\<exists>pre post i j out. cuda_validate fpu (traced_api a) d exe ([], w) =
       Ret (Ok vd, (pre @ [Launched (launch_config spec n dt) (kernel_args fpu spec i j n dt) 0, Synced 0, CopiedOut 0 j out] @ post, v)) \<and>
       (length ref = unat n \<or> length ref = 1) \<and>
       (\<forall>k < length ref. \<exists>g. output_elem dt (fill 0 (ucast n * of_nat (elem_size dt)) out) k = Ret g \<and> close_enough fpu dt g (ref ! k) \<and>
          (\<forall>u y. cls g = Some u \<longrightarrow> cls (ref ! k) = Some (Fin y) \<longrightarrow> (\<exists>t. tolerance_at dt y = Some t \<and> \<not> dbl_less t (apart u y)))))"
proof -
  obtain es c m i j b ls where es: "cuda_validate fpu (traced_api a) d exe ([], w) = Ret (Ok vd, (es, v))"
      and dig: "ad_contentDigest d = zeroDigest \<or> ad_contentDigest d = sha256 exe"
      and ls: "launched fpu d spec dt n i j ls"
      and e: "es = [Acquired (RCtx c), Acquired (RMod m), Acquired (RMem i), Acquired (RMem j), CopiedIn i b] @ ls @
        [Released (RMem i), Released (RMem j), Released (RMod m), Released (RCtx c)]"
    using tracesD [OF validate_traces assms(1), of "[]"] assms(2-5) by auto
  obtain out where out: "ls = [Launched (launch_config spec n dt) (kernel_args fpu spec i j n dt) 0, Synced 0, CopiedOut 0 j out]"
      and m: "outputs_match fpu dt n (fill 0 (ucast n * of_nat (elem_size dt)) out) ref = Ret True"
    using ls assms(6) by (auto simp: launched_def)
  have "length ref = unat n \<or> length ref = 1" using m by (simp add: outputs_match_True)
  moreover have "\<exists>g. output_elem dt (fill 0 (ucast n * of_nat (elem_size dt)) out) k = Ret g \<and> close_enough fpu dt g (ref ! k) \<and>
      (\<forall>u y. cls g = Some u \<longrightarrow> cls (ref ! k) = Some (Fin y) \<longrightarrow> (\<exists>t. tolerance_at dt y = Some t \<and> \<not> dbl_less t (apart u y)))"
    if k: "k < length ref" for k
  proof -
    obtain g where g: "output_elem dt (fill 0 (ucast n * of_nat (elem_size dt)) out) k = Ret g" "close_enough fpu dt g (ref ! k)"
      using m k compare_outputs_True [of fpu dt _ 0 ref k] by (auto simp: outputs_match_True)
    have "\<exists>t. tolerance_at dt y = Some t \<and> \<not> dbl_less t (apart u y)" if u: "cls g = Some u" "cls (ref ! k) = Some (Fin y)" for u y
    proof -
      obtain t where t: "tolerance_at dt y = Some t" using tolerance_defined by blast
      then show ?thesis using close_enough_finite [OF u t, of fpu] g(2) by simp
    qed
    then show ?thesis using g by blast
  qed
  ultimately show ?thesis using es dig unfolding e out by blast
qed

text \<open>A kernel whose output is the zero that the reference has.\<close>

theorem cuda_validated_witness:
  "\<exists>vd v. cuda_validate zero_fpu (demo_api [0, 0, 0, 0]) demo_artifact [] 0 = Ret (Ok vd, v) \<and> vd_passed vd \<and>
     (ad_contentDigest demo_artifact = zeroDigest \<or> ad_contentDigest demo_artifact = sha256 [])"
proof -
  obtain vd v where run: "cuda_validate zero_fpu (demo_api [0, 0, 0, 0]) demo_artifact [] 0 = Ret (Ok vd, v)" "vd_passed vd"
    using demo_passes [OF zero_elem, of "[]" 0] cls_0 by (auto simp: verdict_of_def split: eff.splits result.splits)
  show ?thesis using run cuda_validated [OF run refl refl refl refl, THEN conjunct1] by blast
qed

section \<open>Everything acquired is released\<close>

text \<open>
  What the driver documents about handles: a call that succeeds stores a handle that is
  not null, and an allocation that fails leaves its out-parameter as it was, null.
\<close>

definition handles_ok :: "'w Entries \<Rightarrow> bool" where
  "handles_ok e \<longleftrightarrow>
     (\<forall>f x w. en_createProgram e = Some f \<longrightarrow> fst (fst (f x w)) = 0 \<longrightarrow> snd (fst (f x w)) \<noteq> 0) \<and>
     (\<forall>f x w. en_cuCtxCreate e = Some f \<longrightarrow> fst (fst (f x w)) = 0 \<longrightarrow> snd (fst (f x w)) \<noteq> 0) \<and>
     (\<forall>f x w. en_cuModuleLoadData e = Some f \<longrightarrow> fst (fst (f x w)) = 0 \<longrightarrow> snd (fst (f x w)) \<noteq> 0) \<and>
     (\<forall>f x w. en_cuMemAlloc e = Some f \<longrightarrow> (fst (fst (f x w)) = 0 \<longleftrightarrow> snd (fst (f x w)) \<noteq> 0))"

lemma traces_call_handle:
  assumes "\<And>f w. p = Some f \<Longrightarrow> H (fst (f x w))"
  shows "traces (call p x) (call (traced_entry ev p) x) (\<lambda>r es. H r \<and> es = ev x r)"
proof (cases p)
  case (Some f)
  then have "f x w = (r, v) \<Longrightarrow> H r" for w r v using assms [of f w] by simp
  then show ?thesis by (auto simp: traces_def call_def traced_entry_def Some)
qed (simp add: traces_def call_def)

lemma traces_bind_handle:
  assumes "\<And>f w. p = Some f \<Longrightarrow> H (fst (f x w))"
    and "\<And>r u. H (r, u) \<Longrightarrow> traces (k r u) (k' r u) (\<lambda>y fs. Q y (ev x (r, u) @ fs))"
  shows "traces (act_bind (call p x) (\<lambda>(r, u). k r u)) (act_bind (call (traced_entry ev p) x) (\<lambda>(r, u). k' r u)) Q"
  by (rule traces_bind, rule traces_call_handle [of p H], rule assms(1)) (use assms(2) in auto)

lemma act_bind_ret: "act_bind (act_ret x) k = k x"
  by (simp add: fun_eq_iff act_bind_def act_ret_def)

definition load_outcome :: "u64 \<Rightarrow> u64 \<Rightarrow> CudaLoadedModule result \<Rightarrow> event list \<Rightarrow> bool" where
  "load_outcome ctx mdl r es = (case r of
     Err _ _ \<Rightarrow> held es {#RMod mdl, RCtx ctx#} = Some {#}
   | Ok m \<Rightarrow> clm_ctx m = ctx \<and> clm_module m = mdl \<and> clm_in m \<noteq> 0 \<and> clm_out m \<noteq> 0 \<and>
       held es {#RMod mdl, RCtx ctx#} = Some {#RMem (clm_out m), RMem (clm_in m), RMod mdl, RCtx ctx#})"

lemma load_finish_traces:
  assumes "r1 \<noteq> 0 \<and> i = 0 \<and> j = 0 \<and> pre = [] \<or> r1 = 0 \<and> i \<noteq> 0 \<and> r2 \<noteq> 0 \<and> j = 0 \<and> pre = [Acquired (RMem i)] \<or>
    r1 = 0 \<and> i \<noteq> 0 \<and> r2 = 0 \<and> j \<noteq> 0 \<and> pre = [Acquired (RMem i), Acquired (RMem j)]"
  shows "traces (load_finish a exe nb ctx mdl func r1 i r2 j) (load_finish (traced_api a) exe nb ctx mdl func r1 i r2 j)
    (\<lambda>r es. load_outcome ctx mdl r (pre @ es))"
proof -
  have fail: "traces (act_bind (unload_module a mdl ctx) (\<lambda>_. act_ret (Err c t)))
      (act_bind (unload_module (traced_api a) mdl ctx) (\<lambda>_. act_ret (Err c t))) (\<lambda>r es. load_outcome ctx mdl r (ev @ es))"
    if "held (ev @ [Released (RMod mdl), Released (RCtx ctx)]) {#RMod mdl, RCtx ctx#} = Some {#}" for ev c t
    by (rule traces_bind [OF unload_traces], rule traces_ret) (use that in \<open>simp add: load_outcome_def\<close>)
  consider "r1 \<noteq> 0" "i = 0" "j = 0" "pre = []" | "r1 = 0" "i \<noteq> 0" "r2 \<noteq> 0" "j = 0" "pre = [Acquired (RMem i)]"
    | "r1 = 0" "i \<noteq> 0" "r2 = 0" "j \<noteq> 0" "pre = [Acquired (RMem i), Acquired (RMem j)]" using assms by blast
  then show ?thesis
  proof cases
    case 1
    then show ?thesis using fail [of "[]"] by (simp add: load_finish_def act_bind_ret act_when_def held_release)
  next
    case 2
    have "traces (act_bind (discard (en_cuMemFree (api_entries a)) i) (\<lambda>_. act_bind (unload_module a mdl ctx) (\<lambda>_. act_ret (Err c t))))
      (act_bind (discard (traced_entry (gone RMem) (en_cuMemFree (api_entries a))) i) (\<lambda>_. act_bind (unload_module (traced_api a) mdl ctx)
        (\<lambda>_. act_ret (Err c t)))) (\<lambda>r es. load_outcome ctx mdl r (pre @ es))" for c t
      by (rule traces_bind_discard) (use fail [of "[Acquired (RMem i), Released (RMem i)]"] in \<open>simp add: 2 held_release\<close>)
    with 2 show ?thesis by (simp add: load_finish_def act_bind_ret act_when_def)
  next
    case 3
    then show ?thesis by (auto simp: load_finish_def load_outcome_def intro!: traces_ret)
  qed
qed

lemma load_buffers_traces:
  assumes "handles_ok (api_entries a)"
  shows "traces (load_buffers a exe nb ctx mdl func) (load_buffers (traced_api a) exe nb ctx mdl func) (load_outcome ctx mdl)"
proof -
  let ?H = "\<lambda>r. fst r = (0 :: i32) \<longleftrightarrow> snd r \<noteq> (0 :: u64)"
  have mem: "?H (fst (f nb w))" if "en_cuMemAlloc (api_entries a) = Some f" for f w
    using assms that unfolding handles_ok_def by metis
  show ?thesis unfolding load_buffers_def Let_def traced_api_simps traced_simps
    apply (rule traces_bind_handle [where H = ?H], erule mem)
    apply (rule traces_if, rule load_finish_traces, simp add: got_def)
    apply (rule traces_bind_handle [where H = ?H], erule mem)
    apply (rule load_finish_traces [of _ _ _ "_ @ _", unfolded append_assoc], simp add: got_def)
    done
qed

lemma held_append: "held (es @ fs) M = Option.bind (held es M) (held fs)"
  by (induction es M rule: held.induct) auto

lemma load_traces:
  assumes "handles_ok (api_entries a)"
  shows "traces (cuda_load a d exe) (cuda_load (traced_api a) d exe) (\<lambda>r es. case r of
     Err _ _ \<Rightarrow> held es {#} = Some {#}
   | Ok m \<Rightarrow> clm_in m \<noteq> 0 \<and> clm_out m \<noteq> 0 \<and> clm_module m \<noteq> 0 \<and> clm_ctx m \<noteq> 0 \<and>
       held es {#} = Some {#RMem (clm_out m), RMem (clm_in m), RMod (clm_module m), RCtx (clm_ctx m)#})"
proof -
  let ?H = "\<lambda>r. fst r = (0 :: i32) \<longrightarrow> snd r \<noteq> (0 :: u64)"
  have ctx: "?H (fst (f (0, dev) w))" if "en_cuCtxCreate (api_entries a) = Some f" for f w dev
    using assms that unfolding handles_ok_def by metis
  have mdl: "?H (fst (f exe w))" if "en_cuModuleLoadData (api_entries a) = Some f" for f w
    using assms that unfolding handles_ok_def by metis
  show ?thesis unfolding cuda_load_def Let_def traced_api_simps traced_simps
    apply (rule traces_if, rule traces_ret, simp)
    apply (rule traces_bind_call2, rule traces_if, rule traces_ret, simp add: silent_def)
    apply (rule traces_bind_handle [where H = ?H], erule ctx, rule traces_if, rule traces_ret, simp add: silent_def got_def)
    apply (rule traces_bind_handle [where H = ?H], erule mdl, rule traces_if, rule traces_bind_discard, rule traces_ret,
        simp add: silent_def got_def)
    apply (rule traces_bind_call2, rule traces_if, rule traces_bind [OF unload_traces], rule traces_ret,
        simp add: silent_def got_def held_release)
    apply (rule traces_bind_eff, rule traces_mono [OF load_buffers_traces [OF assms]])
    apply (auto simp: load_outcome_def silent_def got_def split: result.splits)
    done
qed

lemma cuda_unload_full:
  assumes "clm_in m \<noteq> 0" "clm_out m \<noteq> 0" "clm_module m \<noteq> 0" "clm_ctx m \<noteq> 0"
  shows "cuda_unload a m = act_bind (discard (en_cuMemFree (api_entries a)) (clm_in m)) (\<lambda>_.
    act_bind (discard (en_cuMemFree (api_entries a)) (clm_out m)) (\<lambda>_. unload_module a (clm_module m) (clm_ctx m)))"
  using assms by (simp add: cuda_unload_def act_when_def unload_module_def Let_def)

lemma destructor_traces:
  assumes "clm_in m \<noteq> 0" "clm_out m \<noteq> 0" "clm_module m \<noteq> 0" "clm_ctx m \<noteq> 0"
  shows "traces (cuda_unload a m) (cuda_unload (traced_api a) m)
    (\<lambda>_ es. es = [Released (RMem (clm_in m)), Released (RMem (clm_out m)), Released (RMod (clm_module m)), Released (RCtx (clm_ctx m))])"
  unfolding cuda_unload_full [OF assms] traced_api_simps traced_simps
  by (intro traces_bind_discard traces_mono [OF unload_traces]) simp

lemma nvrtc_output_traced: "nvrtc_output (traced_api a) = nvrtc_output a"
  by (simp add: fun_eq_iff nvrtc_output_def)

lemma program_traces:
  assumes "handles_ok (api_entries a)" "en_destroyProgram (api_entries a) \<noteq> None"
  shows "traces (compile_nvrtc a spec) (compile_nvrtc (traced_api a) spec) (\<lambda>_ es. held es {#} = Some {#})"
proof -
  let ?H = "\<lambda>r. fst r = (0 :: i32) \<longrightarrow> snd r \<noteq> (0 :: u64)"
  have prog: "?H (fst (f x w))" if "en_createProgram (api_entries a) = Some f" for f w x
    using assms that unfolding handles_ok_def by metis
  have sizes: "traces (ask_size q h) (ask_size (traced_entry silent q) h) (\<lambda>_ es. es = [])" for q :: "(u64, i32 \<times> u64, 'a) entry" and h
    unfolding ask_size_def traced_None by (intro traces_if traces_ret traces_bind_call2) (simp_all add: silent_def)
  have imgs: "traces (ask_image q h n) (ask_image (traced_entry silent q) h n) (\<lambda>_ es. es = [])" for q :: "(u64 \<times> u64, i32 \<times> bytes, 'a) entry" and h n
    unfolding ask_image_def traced_None by (intro traces_if traces_ret traces_bind_call2) (simp_all add: silent_def)
  have log: "traces (program_log a h) (program_log (traced_api a) h) (\<lambda>_ es. es = [])" for h
    unfolding program_log_def Let_def traced_api_simps traced_simps traced_None
    by (rule traces_bind [OF sizes], intro traces_if traces_ret traces_bind_call2) (simp_all add: silent_def)
  have clean: "traces (cleanupProg a h) (cleanupProg (traced_api a) h) (\<lambda>_ es. es = [Released (RProg h)])" if "h \<noteq> 0" for h
    unfolding cleanupProg_def Let_def traced_api_simps traced_simps traced_None discard_def act_when_def
    using that assms(2) by (simp, intro traces_bind_call traces_ret) (simp add: gone_def)
  have ptx: "traces (if c then ask_image q h n else act_ret None) (if c then ask_image (traced_entry silent q) h n else act_ret None) (\<lambda>_ es. es = [])"
    for c and q :: "(u64 \<times> u64, i32 \<times> bytes, 'a) entry" and h n by (intro traces_if imgs traces_ret) simp
  show ?thesis unfolding compile_nvrtc_def Let_def traced_api_simps traced_simps nvrtc_output_traced
    apply (rule traces_bind_handle [where H = ?H], erule prog, rule traces_if, rule traces_ret, simp add: got_def)
    apply (rule traces_bind_call, rule traces_if)
     apply (rule traces_bind [OF log], rule traces_bind [OF clean], simp, rule traces_ret, simp add: got_def silent_def)
    apply (rule traces_bind [OF sizes], rule traces_bind [OF sizes], rule traces_bind [OF imgs], rule traces_bind [OF ptx],
        rule traces_bind [OF clean], simp, rule traces_ret, simp add: got_def silent_def)
    done
qed

text \<open>
  C24: With a driver whose successful calls return handles that are not null and whose failed
  allocations store nothing, every context, module, device buffer and compiler program that the
  CUDA backend acquires is released exactly once, each context after everything in it: by
  validation on each of its paths, by a load that fails, by a loaded module's destructor after a
  load that succeeds, and by a compilation when the compiler library exports its destructor.
\<close>

theorem cuda_resources_released:
  assumes ok: "handles_ok (api_entries a)"
  shows "(\<forall>res v. cuda_validate fpu a d exe w = Ret (res, v) \<longrightarrow>
      (\<exists>log. cuda_validate fpu (traced_api a) d exe ([], w) = Ret (res, (log, v)) \<and> held log {#} = Some {#})) \<and>
    (\<forall>c t v. cuda_load a d exe w = Ret (Err c t, v) \<longrightarrow>
      (\<exists>log. cuda_load (traced_api a) d exe ([], w) = Ret (Err c t, (log, v)) \<and> held log {#} = Some {#})) \<and>
    (\<forall>m v u x. cuda_load a d exe w = Ret (Ok m, v) \<and> cuda_unload a m u = Ret ((), x) \<longrightarrow>
      (\<exists>log log'. cuda_load (traced_api a) d exe ([], w) = Ret (Ok m, (log, v)) \<and>
        cuda_unload (traced_api a) m (log, u) = Ret ((), (log', x)) \<and> held log' {#} = Some {#})) \<and>
    (\<forall>spec res v. en_destroyProgram (api_entries a) \<noteq> None \<and> compile_nvrtc a spec w = Ret (res, v) \<longrightarrow>
      (\<exists>log. compile_nvrtc (traced_api a) spec ([], w) = Ret (res, (log, v)) \<and> held log {#} = Some {#}))"
proof (intro conjI allI impI, goal_cases)
  case (1 res v)
  then show ?case using tracesD [OF validate_traces 1, of "[]"] by auto
next
  case (2 c t v)
  then show ?case using tracesD [OF load_traces [OF ok] 2, of "[]"] by auto
next
  case (3 m v u x)
  then obtain log where log: "cuda_load (traced_api a) d exe ([], w) = Ret (Ok m, (log, v))"
      "clm_in m \<noteq> 0" "clm_out m \<noteq> 0" "clm_module m \<noteq> 0" "clm_ctx m \<noteq> 0"
      "held log {#} = Some {#RMem (clm_out m), RMem (clm_in m), RMod (clm_module m), RCtx (clm_ctx m)#}"
    using tracesD [OF load_traces [OF ok] conjunct1 [OF 3], of "[]"] by auto
  then show ?case using tracesD [OF destructor_traces [OF log(2-5)] conjunct2 [OF 3], of log]
    by (auto simp: held_append held_release)
next
  case (4 spec res v)
  then show ?case using tracesD [OF program_traces [OF ok] conjunct2 [OF 4], of "[]"] by auto
qed

lemma demo_handles: "handles_ok (api_entries (demo_api bits))"
proof -
  have "(of_nat (Suc (w mod 1000)) :: u64) \<noteq> 0" for w
  proof -
    have "Suc (w mod 1000) < 2 ^ 64" using mod_less_divisor [of 1000 w] by simp
    then have "\<not> 2 ^ 64 dvd Suc (w mod 1000)" by (rule nat_dvd_not_less [rotated]) simp
    then show ?thesis by (simp add: word_of_nat_eq_0_iff del: of_nat_Suc)
  qed
  then show ?thesis by (simp add: handles_ok_def demo_api_def demo_entries_def no_entries_def fresh_def)
qed

lemma demo_free:
  "act_when b (discard (en_cuMemFree (api_entries (demo_api bits))) x) v = Ret ((), v)"
  "act_when b (discard (en_cuModuleUnload (api_entries (demo_api bits))) x) v = Ret ((), v)"
  "act_when b (discard (en_cuCtxDestroy (api_entries (demo_api bits))) x) v = Ret ((), v)"
  by (simp_all add: act_when_def demo_defs)

theorem cuda_resources_released_witness:
  "handles_ok (api_entries (demo_api [])) \<and>
   (\<exists>m v x log log'. cuda_load (demo_api []) demo_artifact [] 0 = Ret (Ok m, v) \<and>
      cuda_load (traced_api (demo_api [])) demo_artifact [] ([], 0) = Ret (Ok m, (log, v)) \<and>
      cuda_unload (traced_api (demo_api [])) m (log, v) = Ret ((), (log', x)) \<and> held log' {#} = Some {#})"
proof
  show h: "handles_ok (api_entries (demo_api []))" by (rule demo_handles)
  have c: "llabs 1 = Ret 1" by (simp add: llabs_def)
  obtain m v where m: "cuda_load (demo_api []) demo_artifact [] 0 = Ret (Ok m, v)"
    by (simp add: cuda_load_def load_buffers_def load_finish_def demo_defs demo_artifact_def ad_default_def spd_default_def c Let_def)
  moreover obtain x where "cuda_unload (demo_api []) m v = Ret ((), x)"
    by (simp add: cuda_unload_def act_bind_def demo_free Let_def)
  ultimately show "\<exists>m v x log log'. cuda_load (demo_api []) demo_artifact [] 0 = Ret (Ok m, v) \<and>
      cuda_load (traced_api (demo_api [])) demo_artifact [] ([], 0) = Ret (Ok m, (log, v)) \<and>
      cuda_unload (traced_api (demo_api [])) m (log, v) = Ret ((), (log', x)) \<and> held log' {#} = Some {#}"
    using cuda_resources_released [OF h, of sample_fpu demo_artifact "[]" 0] by blast
qed

section \<open>From compilation to validation\<close>

text \<open>Every value that an action can return satisfies the predicate.\<close>

definition post :: "('w, 'a) act \<Rightarrow> ('a \<Rightarrow> bool) \<Rightarrow> bool" where
  "post m Q \<longleftrightarrow> (\<forall>w x v. m w = Ret (x, v) \<longrightarrow> Q x)"

lemma post_ret: "post (act_ret x) Q \<longleftrightarrow> Q x"
  by (simp add: post_def act_ret_def)

lemma post_bind: "(\<And>x. post (k x) Q) \<Longrightarrow> post (act_bind m k) Q"
  by (auto simp: post_def act_bind_def ebind_def split: eff.splits prod.splits)

lemma post_bind2: "(\<And>x y. post (k x y) Q) \<Longrightarrow> post (act_bind m (\<lambda>(x, y). k x y)) Q"
  by (rule post_bind) (simp add: split_beta)

lemma post_if: "(b \<Longrightarrow> post m Q) \<Longrightarrow> (\<not> b \<Longrightarrow> post k Q) \<Longrightarrow> post (if b then m else k) Q"
  by simp

definition carries :: "CudaSpec \<Rightarrow> BackendOutput result \<Rightarrow> bool" where
  "carries spec r = (case r of Err _ _ \<Rightarrow> True | Ok bo \<Rightarrow>
     spd_datatype (bo_specialization bo) = sp_dt spec \<and> spd_shape (bo_specialization bo) = [ucast (sp_n spec)] \<and>
     spd_launchSpecialization (bo_specialization bo) = spec_encode spec)"

lemma nvrtc_carries: "post (compile_nvrtc a spec) (carries spec)"
  unfolding compile_nvrtc_def Let_def
  by (intro post_bind2 post_if post_bind) (simp_all add: post_ret carries_def nvrtc_output_def split: option.splits)

lemma compile_carries:
  assumes "cuda_compile fpu f a r w = Ret (Ok bo, v)" "parseSource fpu (rq_source r) = Ret prog"
  shows "carries (cuda_spec r prog) (Ok bo)"
proof -
  let ?spec = "cuda_spec r prog"
  have eff: "act_bind (act_eff (Ret p)) k = k p" for p :: "CpuProgram result" and k :: "_ \<Rightarrow> ('a, BackendOutput result) act"
    by (simp add: fun_eq_iff act_bind_def act_eff_def)
  have "post (cuda_compile fpu f a r) (carries ?spec)"
    unfolding cuda_compile_def assms(2) eff Let_def
    by (intro post_if post_bind nvrtc_carries) (simp_all add: post_ret carries_def split: result.splits)
  then show ?thesis using assms(1) by (auto simp: post_def)
qed

lemma cuda_spec_plain: "CHR '';'' \<notin> set (sp_op (cuda_spec r prog))" "sp_dt (cuda_spec r prog) \<noteq> DT_None"
  using opNameFor_plain by (auto simp: cuda_spec_def unit_scale_def sp_default_def Let_def split: result.splits)

text \<open>
  C25: Validation launches an artifact of the CUDA backend the way compilation specified it: from the
  specialization of a compiled output it recovers the operation, the element count, the datatype
  and the grid and block geometry, through NVRTC and through nvcc alike. Only the scalar may
  differ: it is the number that its six printed decimals denote.
\<close>

theorem cuda_launch_agrees:
  assumes "cuda_compile fpu f a r w = Ret (Ok bo, v)" "parseSource fpu (rq_source r) = Ret prog"
    and "ad_specialization d = bo_specialization bo" and "spec = cuda_spec r prog"
  shows "val_dt fpu d = sp_dt spec \<and> val_count fpu d = sp_n spec \<and>
    launch_config (val_spec fpu d) (val_count fpu d) (val_dt fpu d) = launch_config spec (sp_n spec) (sp_dt spec) \<and>
    sp_op (val_spec fpu d) = sp_op spec \<and> sp_scalar (val_spec fpu d) = strtod64 fpu (fmt_f (sp_scalar spec))"
proof -
  have c: "spd_datatype (ad_specialization d) = sp_dt spec" "spd_shape (ad_specialization d) = [ucast (sp_n spec)]"
      "spd_launchSpecialization (ad_specialization d) = spec_encode spec"
    using compile_carries [OF assms(1,2)] assms(3,4) by (simp_all add: carries_def)
  have p: "CHR '';'' \<notin> set (sp_op spec)" "sp_dt spec \<noteq> DT_None" using cuda_spec_plain assms(4) by simp_all
  have s: "val_spec fpu d = spec\<lparr>sp_scalar := strtod64 fpu (fmt_f (sp_scalar spec)),
      sp_dt := (case datatypeFromName (datatypeName (sp_dt spec)) of Some d \<Rightarrow> d | None \<Rightarrow> DT_F32)\<rparr>"
    unfolding val_spec_def c by (rule launch_spec_parsed [OF p(1)])
  have dt: "val_dt fpu d = sp_dt spec" using p(2) by (simp add: val_dt_def c)
  have "sint (ucast (sp_n spec) :: i64) = uint (sp_n spec)" by (rule widen_sint)
  then have n: "val_count fpu d = sp_n spec" by (simp add: val_count_def c)
  show ?thesis by (simp add: n dt) (simp add: s launch_config_def)
qed

definition demo_compiler :: "nat CudaApi" where
  "demo_compiler = api_default\<lparr>api_avail := True, api_entries := no_entries\<lparr>en_createProgram := Some (\<lambda>_ w. ((0, 9), w)),
     en_compileProgram := Some fine, en_getCUBINSize := Some (\<lambda>_ w. ((0, 2), w)), en_getCUBIN := Some (\<lambda>_ w. ((0, [1, 2]), w)),
     en_destroyProgram := Some fine\<rparr>\<rparr>"

definition demo_offline :: "nat Offline" where
  "demo_offline = \<lparr>of_tempDir = [], of_nanos = \<lambda>w. (0, w), of_mkdir = \<lambda>_ w. (0, w), of_write = \<lambda>_ w. (0, w), of_run = \<lambda>_ w. ([], w),
     of_read = \<lambda>_ w. (None, w), of_removeAll = \<lambda>_ w. (0, w)\<rparr>"

definition demo_request :: CompilationRequest where
  "demo_request = rq_default\<lparr>rq_source := ''neg'', rq_staticShape := [5], rq_blockSize := 64\<rparr>"

theorem cuda_launch_agrees_witness:
  "\<exists>bo v d. cuda_compile zero_fpu demo_offline demo_compiler demo_request 0 = Ret (Ok bo, v) \<and>
     ad_specialization d = bo_specialization bo \<and> val_count zero_fpu d = 5 \<and> sp_op (val_spec zero_fpu d) = ''neg''"
proof -
  let ?p = "cp_default\<lparr>cp_name := ''cf-kernel'', cp_shapeN := 1024, cp_ops := [\<lparr>op_kind = OP_Neg, op_scalar = enc False 0, op_n = 1024\<rparr>]\<rparr>"
  have src: "rq_source demo_request = ''neg''" "rq_staticShape demo_request = [5]"
      "rq_backend demo_request = []" "\<not> rq_offlinePreferred demo_request" by (simp_all add: demo_request_def rq_default_def)
  have neg: "parseSource zero_fpu ''neg'' = Ret (Ok ?p)" by code_simp
  then have parsed: "parseSource zero_fpu (rq_source demo_request) = Ret (Ok ?p)" by (simp only: src)
  obtain bo v where run: "cuda_compile zero_fpu demo_offline demo_compiler demo_request 0 = Ret (Ok bo, v)"
    by (simp add: cuda_compile_def neg src demo_compiler_def compile_nvrtc_def ask_size_def ask_image_def cleanupProg_def act_when_def
        no_entries_def api_default_def fresh_def fine_def discard_def act_bind_def act_ret_def act_eff_def call_def Let_def)
  define d where "d = ad_default\<lparr>ad_specialization := bo_specialization bo\<rparr>"
  have "ad_specialization d = bo_specialization bo" by (simp add: d_def)
  moreover have "sp_n (cuda_spec demo_request (Ok ?p)) = 5" "sp_op (cuda_spec demo_request (Ok ?p)) = ''neg''"
    by (simp_all add: cuda_spec_def src opNameFor_def unit_scale_def sp_default_def Let_def)
  ultimately show ?thesis using run cuda_launch_agrees [OF run parsed _ refl, of d] by auto
qed

end
