(* ===== verification/CF_Toolchain.thy ===== *)
theory CF_Toolchain
  imports CF_CudaApi
begin

text \<open>
  Toolchain discovery, \<open>src/Toolchain.cpp\<close>. The machine is an argument: environment
  variable, file system, version resources of executables and the output of commands.
\<close>

section \<open>The machine\<close>

text \<open>
  \<open>pe_popen\<close> is \<open>None\<close> when the command interpreter cannot be started;
  \<open>pe_listing\<close> holds a directory's entries in the order of iteration, with whether each
  is a directory.
\<close>

record ProbeEnv =
  pe_cudaPath :: "string option"
  pe_exists :: "string \<Rightarrow> bool"
  pe_listing :: "string \<Rightarrow> (string \<times> bool) list"
  pe_fileVersion :: "string \<Rightarrow> (u32 \<times> u32) option"
  pe_popen :: "string \<Rightarrow> string option"

datatype 'a probed = Probed 'a | OutOfRange

definition is_blank :: "char \<Rightarrow> bool" where
  "is_blank c \<longleftrightarrow> c = carriage \<or> c = newline \<or> c = CHR '' '' \<or> c = tab"

definition trim :: "string \<Rightarrow> string" where
  "trim s = dropWhile is_blank (rev (dropWhile is_blank (rev s)))"

definition runCapture :: "ProbeEnv \<Rightarrow> string \<Rightarrow> string" where
  "runCapture e cmd = (case pe_popen e (cmd @ '' 2>&1'') of None \<Rightarrow> [] | Some out \<Rightarrow> out)"

definition readFileVersion :: "ProbeEnv \<Rightarrow> string \<Rightarrow> string" where
  "readFileVersion e path = (case pe_fileVersion e path of
     None \<Rightarrow> []
   | Some (ms, ls) \<Rightarrow> dec_int (uint (drop_bit 16 ms)) @ ''.'' @ dec_int (uint (ms AND 0xFFFF)) @ ''.'' @
       dec_int (uint (drop_bit 16 ls)) @ ''.'' @ dec_int (uint (ls AND 0xFFFF)))"

definition failureReason :: "string \<Rightarrow> string" where
  "failureReason tool =
     (if tool = ''msvc'' then ''MSVC cl.exe not found in the Visual Studio toolset''
      else if tool = ''nvcc'' then ''nvcc.exe not found (CUDA toolkit not installed or not on CUDA_PATH)''
      else if tool = ''nvrtc'' then ''NVRTC library (nvrtc64_*.dll) not found on the module load path''
      else if tool = ''cuda-driver'' then ''CUDA driver (nvcuda.dll) not found or cuInit failed''
      else if tool = ''cmake'' then ''cmake not found on PATH''
      else if tool = ''ninja'' then ''ninja not found on PATH''
      else ''unavailable'')"

section \<open>The probes\<close>

definition in_dir :: "string \<Rightarrow> string list \<Rightarrow> string" where
  "in_dir p names = foldl (\<lambda>p n. p @ [backslash] @ n) p names"

definition cuda_path :: "ProbeEnv \<Rightarrow> string" where
  "cuda_path e = (case pe_cudaPath e of Some p \<Rightarrow> p | None \<Rightarrow> default_cuda_path)"

text \<open>The rest of a text from the first occurrence of a pattern.\<close>

fun from_first :: "string \<Rightarrow> string \<Rightarrow> string option" where
  "from_first p s = (if take (length p) s = p then Some s else case s of [] \<Rightarrow> None | _ # t \<Rightarrow> from_first p t)"

declare from_first.simps [simp del]

definition nvcc_release :: "string \<Rightarrow> string" where
  "nvcc_release out = foldl (\<lambda>rel l. case from_first ''release'' l of Some r \<Rightarrow> trim r | None \<Rightarrow> rel) [] (split_lines out)"

definition probe_nvcc :: "ProbeEnv \<Rightarrow> ToolchainDescriptor \<Rightarrow> ToolchainDescriptor" where
  "probe_nvcc e t =
     (let nvcc = in_dir (cuda_path e) [''bin'', ''nvcc.exe''];
          rel = nvcc_release (runCapture e (quoted nvcc @ '' --version''))
      in if cuda_path e \<noteq> [] \<and> pe_exists e nvcc
         then t\<lparr>tcd_nvccPresent := True,
           tcd_nvcc := \<lparr>cd_id = ''nvcc'', cd_version = (if rel = [] then readFileVersion e nvcc else rel), cd_vendor = ''NVIDIA'',
             cd_backendType = ''offline''\<rparr>,
           tcd_cudaToolkitPresent := True, tcd_cudaToolkitPath := cuda_path e\<rparr>
         else t\<lparr>tcd_nvccPresent := False, tcd_nvcc := cd_default\<lparr>cd_id := ''nvcc''\<rparr>, tcd_cudaToolkitPresent := False\<rparr>)"

definition probe_cuda :: "'w CudaApi option \<Rightarrow> ToolchainDescriptor \<Rightarrow> ToolchainDescriptor" where
  "probe_cuda api t = (case api of
     Some a \<Rightarrow>
       if api_avail a
       then t\<lparr>tcd_nvrtcPresent := True, tcd_nvrtcVersion := api_nvrtcVersion a, tcd_cudaDriverPresent := True,
         tcd_cudaDriverVersion := api_driverVersion a\<rparr>
       else t\<lparr>tcd_nvrtcPresent := False, tcd_nvrtcVersion := api_error a, tcd_cudaDriverPresent := False\<rparr>
   | None \<Rightarrow> t\<lparr>tcd_nvrtcPresent := False, tcd_nvrtcVersion := [], tcd_cudaDriverPresent := False\<rparr>)"

definition vs_bases :: "string list" where
  "vs_bases = map (\<lambda>pf. in_dir ''C:'' [pf, ''Microsoft Visual Studio'', ''2022'']) [''Program Files'', ''Program Files (x86)'']"

definition cl_candidates :: "ProbeEnv \<Rightarrow> string list" where
  "cl_candidates e =
     concat (map (\<lambda>base. if \<not> pe_exists e base then [] else
       concat (map (\<lambda>(ed, isDir). let tc = in_dir base [ed, ''VC'', ''Tools'', ''MSVC''] in
         if \<not> isDir \<or> \<not> pe_exists e tc then [] else
           filter (pe_exists e) (map (\<lambda>(vd, _). in_dir tc [vd, ''bin'', ''Hostx64'', ''x64'', ''cl.exe'']) (pe_listing e tc)))
         (pe_listing e base))) vs_bases)"

definition probe_msvc :: "ProbeEnv \<Rightarrow> ToolchainDescriptor \<Rightarrow> ToolchainDescriptor" where
  "probe_msvc e t = (case cl_candidates e of
     cl # _ \<Rightarrow> t\<lparr>tcd_msvcPresent := True, tcd_msvc := \<lparr>cd_id = ''msvc'', cd_version = readFileVersion e cl, cd_vendor = ''Microsoft'',
       cd_backendType = ''host''\<rparr>\<rparr>
   | [] \<Rightarrow> t\<lparr>tcd_msvcPresent := False, tcd_msvc := cd_default\<lparr>cd_id := ''msvc'', cd_vendor := ''Microsoft''\<rparr>\<rparr>)"

definition probe_cmake :: "ProbeEnv \<Rightarrow> ToolchainDescriptor \<Rightarrow> ToolchainDescriptor probed" where
  "probe_cmake e t =
     (let cm = runCapture e ''cmake --version''; k = length ''cmake version''
      in if cm = [] then Probed (t\<lparr>tcd_cmakePresent := False\<rparr>)
         else if length cm < k then OutOfRange
         else Probed (t\<lparr>tcd_cmakePresent := True, tcd_cmakeVersion := trim (drop k cm)\<rparr>))"

definition probe_ninja :: "ProbeEnv \<Rightarrow> ToolchainDescriptor \<Rightarrow> ToolchainDescriptor" where
  "probe_ninja e t =
     (let nj = trim (runCapture e ''ninja --version'')
      in if nj \<noteq> [] then t\<lparr>tcd_ninjaPresent := True, tcd_ninjaVersion := nj\<rparr> else t\<lparr>tcd_ninjaPresent := False\<rparr>)"

definition sdk_dir :: string where
  "sdk_dir = in_dir ''C:'' [''Program Files (x86)'', ''Windows Kits'', ''10'', ''Include'']"

definition sdk_name :: "string \<times> bool \<Rightarrow> bool" where
  "sdk_name d \<longleftrightarrow> snd d \<and> 3 \<le> length (fst d) \<and> is_digit (hd (fst d))"

definition best_sdk :: "ProbeEnv \<Rightarrow> string" where
  "best_sdk e =
     (if \<not> pe_exists e sdk_dir then []
      else foldl (\<lambda>best d. if sdk_name d \<and> (best = [] \<or> best < fst d) then fst d else best) [] (pe_listing e sdk_dir))"

definition probe_sdk :: "ProbeEnv \<Rightarrow> ToolchainDescriptor \<Rightarrow> ToolchainDescriptor" where
  "probe_sdk e t =
     (if best_sdk e \<noteq> [] then t\<lparr>tcd_windowsSdkPresent := True, tcd_windowsSdkVersion := best_sdk e\<rparr>
      else t\<lparr>tcd_windowsSdkPresent := False, tcd_windowsSdkVersion := []\<rparr>)"

definition probe :: "ProbeEnv \<Rightarrow> 'w CudaApi option \<Rightarrow> ToolchainDescriptor probed" where
  "probe e api = (case probe_cmake e (probe_msvc e (probe_cuda api (probe_nvcc e tcd_default))) of
     Probed t \<Rightarrow> Probed (probe_sdk e (probe_ninja e t))
   | OutOfRange \<Rightarrow> OutOfRange)"

section \<open>What a probe reports\<close>

lemma best_sdk_fold:
  fixes ds :: "(string \<times> bool) list"
  shows "foldl (\<lambda>best d. if sdk_name d \<and> (best = [] \<or> best < fst d) then fst d else best) b ds =
    foldl (\<lambda>best n. if best = [] \<or> best < n then n else best) b (map fst (filter sdk_name ds))"
  by (induction ds arbitrary: b) auto

lemma fold_newest:
  fixes ns :: "string list"
  assumes "\<forall>n \<in> set ns. n \<noteq> []"
  shows "foldl (\<lambda>best n. if best = [] \<or> best < n then n else best) b ns = (if b = [] \<and> ns = [] then [] else Max (set (if b = [] then ns else b # ns)))"
  using assms
proof (induction ns arbitrary: b)
  case (Cons n ns)
  have e: "(if b = [] \<or> b < n then n else b) = (if b = [] then n else max b n)" by (auto simp: max_def)
  have ne: "(if b = [] then n else max b n) \<noteq> []" using Cons.prems by (auto simp: max_def)
  show ?case using Cons.IH [of "if b = [] then n else max b n"] Cons.prems ne unfolding foldl_Cons e
    by (cases "ns = []") (auto simp: Max.insert_remove insert_commute max.assoc)
qed simp

text \<open>The SDK version reported is the greatest of the directory names, compared as text.\<close>

lemma best_sdk_max:
  assumes "pe_exists e sdk_dir"
  shows "best_sdk e = (let ns = map fst (filter sdk_name (pe_listing e sdk_dir)) in if ns = [] then [] else Max (set ns))"
proof -
  have "\<forall>n \<in> set (map fst (filter sdk_name (pe_listing e sdk_dir))). n \<noteq> []" by (auto simp: sdk_name_def)
  from fold_newest [OF this, of "[]"] show ?thesis using assms by (simp add: best_sdk_def best_sdk_fold Let_def)
qed

definition has_cl :: "ProbeEnv \<Rightarrow> bool" where
  "has_cl e \<longleftrightarrow> (\<exists>base \<in> set vs_bases. pe_exists e base \<and> (\<exists>ed. (ed, True) \<in> set (pe_listing e base) \<and>
     (let tc = in_dir base [ed, ''VC'', ''Tools'', ''MSVC''] in pe_exists e tc \<and>
       (\<exists>vd b. (vd, b) \<in> set (pe_listing e tc) \<and> pe_exists e (in_dir tc [vd, ''bin'', ''Hostx64'', ''x64'', ''cl.exe''])))))"

lemma cl_candidates_iff: "cl_candidates e \<noteq> [] \<longleftrightarrow> has_cl e"
proof -
  have tools: "filter (pe_exists e) (map (\<lambda>(vd, _). g vd) l) \<noteq> [] \<longleftrightarrow> (\<exists>vd b. (vd, b) \<in> set l \<and> pe_exists e (g vd))"
    for g :: "string \<Rightarrow> string" and l :: "(string \<times> bool) list"
    by (induction l) auto
  have editions: "concat (map (\<lambda>(ed, isDir). if \<not> isDir \<or> \<not> P ed then [] else g ed) l) \<noteq> [] \<longleftrightarrow>
      (\<exists>ed. (ed, True) \<in> set l \<and> P ed \<and> g ed \<noteq> [])" for P and g :: "string \<Rightarrow> string list" and l :: "(string \<times> bool) list"
    by (induction l) (auto split: if_splits)
  have bases: "concat (map (\<lambda>b. if \<not> P b then [] else g b) l) \<noteq> [] \<longleftrightarrow> (\<exists>b \<in> set l. P b \<and> g b \<noteq> [])"
    for P and g :: "string \<Rightarrow> string list" and l
    by (induction l) (auto split: if_splits)
  show ?thesis unfolding cl_candidates_def has_cl_def Let_def bases editions tools by blast
qed

lemma probe_stages [simp]:
  "tcd_nvccPresent (probe_nvcc e t) \<longleftrightarrow> cuda_path e \<noteq> [] \<and> pe_exists e (in_dir (cuda_path e) [''bin'', ''nvcc.exe''])"
  "tcd_cudaDriverPresent (probe_cuda api t) \<longleftrightarrow> (\<exists>a. api = Some a \<and> api_avail a)"
  "tcd_nvrtcPresent (probe_cuda api t) \<longleftrightarrow> (\<exists>a. api = Some a \<and> api_avail a)"
  "tcd_nvccPresent (probe_cuda api t) = tcd_nvccPresent t"
  "tcd_msvcPresent (probe_msvc e t) \<longleftrightarrow> has_cl e"
  "tcd_nvccPresent (probe_msvc e t) = tcd_nvccPresent t" "tcd_nvrtcPresent (probe_msvc e t) = tcd_nvrtcPresent t"
  "tcd_cudaDriverPresent (probe_msvc e t) = tcd_cudaDriverPresent t"
  by (simp_all add: probe_nvcc_def probe_cuda_def probe_msvc_def Let_def cl_candidates_iff [symmetric] split: option.splits list.splits)

lemma probe_last_stages [simp]:
  "tcd_ninjaPresent (probe_ninja e t) \<longleftrightarrow> trim (runCapture e ''ninja --version'') \<noteq> []"
  "tcd_nvccPresent (probe_ninja e t) = tcd_nvccPresent t" "tcd_nvrtcPresent (probe_ninja e t) = tcd_nvrtcPresent t"
  "tcd_cudaDriverPresent (probe_ninja e t) = tcd_cudaDriverPresent t" "tcd_msvcPresent (probe_ninja e t) = tcd_msvcPresent t"
  "tcd_cmakePresent (probe_ninja e t) = tcd_cmakePresent t"
  "tcd_windowsSdkPresent (probe_sdk e t) \<longleftrightarrow> best_sdk e \<noteq> []" "tcd_windowsSdkVersion (probe_sdk e t) = best_sdk e"
  "tcd_nvccPresent (probe_sdk e t) = tcd_nvccPresent t" "tcd_nvrtcPresent (probe_sdk e t) = tcd_nvrtcPresent t"
  "tcd_cudaDriverPresent (probe_sdk e t) = tcd_cudaDriverPresent t" "tcd_msvcPresent (probe_sdk e t) = tcd_msvcPresent t"
  "tcd_cmakePresent (probe_sdk e t) = tcd_cmakePresent t" "tcd_ninjaPresent (probe_sdk e t) = tcd_ninjaPresent t"
  by (simp_all add: probe_ninja_def probe_sdk_def Let_def)

text \<open>
  C40: The toolchain probe escapes with std::out_of_range exactly when the output of cmake --version is
  not empty but shorter than the words cmake version; otherwise it reports nvcc and cl.exe by the
  existence of the files, the driver and NVRTC by the loaded library, the Windows SDK by the
  greatest directory name, as text, that looks like a version, CMake as present when its command
  prints anything and as absent when the output is empty, and Ninja as present when something is
  left of its command's output once that is trimmed. What a command prints includes its standard
  error.
\<close>

theorem probe_reports:
  "(probe e api = OutOfRange \<longleftrightarrow>
     (let cm = runCapture e ''cmake --version'' in cm \<noteq> [] \<and> length cm < length ''cmake version'')) \<and>
   (\<forall>t. probe e api = Probed t \<longrightarrow>
     (tcd_nvccPresent t \<longleftrightarrow> cuda_path e \<noteq> [] \<and> pe_exists e (in_dir (cuda_path e) [''bin'', ''nvcc.exe''])) \<and>
     (tcd_msvcPresent t \<longleftrightarrow> has_cl e) \<and>
     (tcd_cudaDriverPresent t \<longleftrightarrow> (\<exists>a. api = Some a \<and> api_avail a)) \<and> (tcd_nvrtcPresent t \<longleftrightarrow> (\<exists>a. api = Some a \<and> api_avail a)) \<and>
     (tcd_cmakePresent t \<longleftrightarrow> runCapture e ''cmake --version'' \<noteq> []) \<and>
     (tcd_ninjaPresent t \<longleftrightarrow> trim (runCapture e ''ninja --version'') \<noteq> []) \<and>
     (tcd_windowsSdkPresent t \<longleftrightarrow> pe_exists e sdk_dir \<and> filter sdk_name (pe_listing e sdk_dir) \<noteq> []) \<and>
     (tcd_windowsSdkPresent t \<longrightarrow> tcd_windowsSdkVersion t = Max (fst ` set (filter sdk_name (pe_listing e sdk_dir)))))"
proof -
  let ?cm = "runCapture e ''cmake --version''" and ?T = "probe_msvc e (probe_cuda api (probe_nvcc e tcd_default))"
  have sdk: "best_sdk e \<noteq> [] \<longleftrightarrow> pe_exists e sdk_dir \<and> filter sdk_name (pe_listing e sdk_dir) \<noteq> []"
  proof (cases "pe_exists e sdk_dir \<and> filter sdk_name (pe_listing e sdk_dir) \<noteq> []")
    case True
    then have "best_sdk e \<in> set (map fst (filter sdk_name (pe_listing e sdk_dir)))"
      using Max_in [of "set (map fst (filter sdk_name (pe_listing e sdk_dir)))"]
      by (simp add: best_sdk_max Let_def del: set_map set_filter)
    then show ?thesis using True by (auto simp: sdk_name_def)
  qed (auto simp: best_sdk_def best_sdk_fold)
  have newest: "best_sdk e = Max (fst ` set (filter sdk_name (pe_listing e sdk_dir)))" if "best_sdk e \<noteq> []"
    using that sdk by (auto simp: best_sdk_max Let_def)
  have cmake: "tcd_cmakePresent u \<longleftrightarrow> ?cm \<noteq> []" "tcd_nvccPresent u = tcd_nvccPresent ?T" "tcd_msvcPresent u = tcd_msvcPresent ?T"
      "tcd_nvrtcPresent u = tcd_nvrtcPresent ?T" "tcd_cudaDriverPresent u = tcd_cudaDriverPresent ?T"
    if "probe_cmake e ?T = Probed u" for u
    using that by (auto simp: probe_cmake_def Let_def split: if_splits)
  have throws: "probe e api = OutOfRange \<longleftrightarrow> ?cm \<noteq> [] \<and> length ?cm < length ''cmake version''"
    by (auto simp: probe_def probe_cmake_def Let_def split: probed.splits)
  show ?thesis
  proof (rule conjI, simp only: throws Let_def, intro allI impI)
    fix t assume "probe e api = Probed t"
    then obtain u where u: "probe_cmake e ?T = Probed u" "t = probe_sdk e (probe_ninja e u)"
      by (auto simp: probe_def split: probed.splits)
    show "(tcd_nvccPresent t \<longleftrightarrow> cuda_path e \<noteq> [] \<and> pe_exists e (in_dir (cuda_path e) [''bin'', ''nvcc.exe''])) \<and>
     (tcd_msvcPresent t \<longleftrightarrow> has_cl e) \<and>
     (tcd_cudaDriverPresent t \<longleftrightarrow> (\<exists>a. api = Some a \<and> api_avail a)) \<and> (tcd_nvrtcPresent t \<longleftrightarrow> (\<exists>a. api = Some a \<and> api_avail a)) \<and>
     (tcd_cmakePresent t \<longleftrightarrow> runCapture e ''cmake --version'' \<noteq> []) \<and>
     (tcd_ninjaPresent t \<longleftrightarrow> trim (runCapture e ''ninja --version'') \<noteq> []) \<and>
     (tcd_windowsSdkPresent t \<longleftrightarrow> pe_exists e sdk_dir \<and> filter sdk_name (pe_listing e sdk_dir) \<noteq> []) \<and>
     (tcd_windowsSdkPresent t \<longrightarrow> tcd_windowsSdkVersion t = Max (fst ` set (filter sdk_name (pe_listing e sdk_dir))))"
      using newest unfolding u(2) probe_last_stages cmake [OF u(1)] probe_stages sdk by blast
  qed
qed

text \<open>A machine without CMake, whose command interpreter says so: CMake is reported as present.\<close>

definition bare_machine :: ProbeEnv where
  "bare_machine = \<lparr>pe_cudaPath = None, pe_exists = \<lambda>_. False, pe_listing = \<lambda>_. [], pe_fileVersion = \<lambda>_. None,
     pe_popen = \<lambda>cmd. if cmd = ''cmake --version 2>&1'' then Some ''cmake is not recognized as an internal or external command''
       else Some []\<rparr>"

theorem probe_reports_witness:
  "\<exists>t. probe bare_machine (None :: unit CudaApi option) = Probed t \<and> tcd_cmakePresent t \<and> \<not> tcd_ninjaPresent t \<and> \<not> tcd_nvccPresent t"
proof -
  let ?p = "probe bare_machine (None :: unit CudaApi option)"
  have cm: "runCapture bare_machine ''cmake --version'' = ''cmake is not recognized as an internal or external command''"
      "trim (runCapture bare_machine ''ninja --version'') = []" by code_simp+
  have no: "\<not> pe_exists bare_machine f" for f by (simp add: bare_machine_def)
  have "?p \<noteq> OutOfRange" using probe_reports [of bare_machine "None :: unit CudaApi option"] by (simp add: cm)
  then obtain t where t: "?p = Probed t" by (cases ?p) auto
  then have "tcd_cmakePresent t \<and> \<not> tcd_ninjaPresent t \<and> \<not> tcd_nvccPresent t"
    using probe_reports [of bare_machine "None :: unit CudaApi option"] by (simp add: cm no)
  with t show ?thesis by blast
qed

end
