(* ===== verification/CF_Socket.thy ===== *)
theory CF_Socket
  imports CF_Protocol "HOL-Library.Multiset"
begin

text \<open>
  \<open>TcpSocket\<close> of \<open>Protocol.cpp\<close>: an object is the descriptor it owns, -1 when it owns none.
  The operating system's calls are functions of the world; the flag of \<open>initSockets\<close>
  is kept beside the world.
\<close>

section \<open>Operations\<close>

record 'w Os =
  os_startup :: "'w \<Rightarrow> 'w"
  os_cleanup :: "'w \<Rightarrow> 'w"
  os_socket :: "'w \<Rightarrow> i32 \<times> 'w"
  os_connect :: "i32 \<Rightarrow> string \<Rightarrow> u16 \<Rightarrow> 'w \<Rightarrow> i32 \<times> 'w"
  os_reuse :: "i32 \<Rightarrow> 'w \<Rightarrow> 'w"
  os_bind :: "i32 \<Rightarrow> u16 \<Rightarrow> 'w \<Rightarrow> i32 \<times> 'w"
  os_listen :: "i32 \<Rightarrow> i32 \<Rightarrow> 'w \<Rightarrow> i32 \<times> 'w"
  os_accept :: "i32 \<Rightarrow> 'w \<Rightarrow> i32 \<times> 'w"
  os_close :: "i32 \<Rightarrow> 'w \<Rightarrow> 'w"

type_synonym 'w net = "bool \<times> 'w"
type_synonym TcpSocket = i32

definition initSockets :: "'w Os \<Rightarrow> 'w net \<Rightarrow> 'w net" where
  "initSockets os n = (case n of (done, w) \<Rightarrow> if done then n else (True, os_startup os w))"

definition shutdownSockets :: "'w Os \<Rightarrow> 'w net \<Rightarrow> 'w net" where
  "shutdownSockets os n = (case n of (done, w) \<Rightarrow> (done, os_cleanup os w))"

definition sock_valid :: "TcpSocket \<Rightarrow> bool" where "sock_valid fd \<longleftrightarrow> 0 \<le> sint fd"

definition sock_close :: "'w Os \<Rightarrow> TcpSocket \<Rightarrow> 'w net \<Rightarrow> TcpSocket \<times> 'w net" where
  "sock_close os fd n = (if sock_valid fd then (case n of (done, w) \<Rightarrow> (- 1, (done, os_close os fd w))) else (fd, n))"

definition sock_move :: "TcpSocket \<Rightarrow> TcpSocket \<times> TcpSocket" where "sock_move source = (source, - 1)"

definition sock_assign :: "'w Os \<Rightarrow> TcpSocket \<Rightarrow> TcpSocket \<Rightarrow> 'w net \<Rightarrow> (TcpSocket \<times> TcpSocket) \<times> 'w net" where
  "sock_assign os fd source n = (let (_, m) = sock_close os fd n in ((source, - 1), m))"

definition sock_destroy :: "'w Os \<Rightarrow> TcpSocket \<Rightarrow> 'w net \<Rightarrow> 'w net" where
  "sock_destroy os fd n = snd (sock_close os fd n)"

definition connectTo :: "'w Os \<Rightarrow> TcpSocket \<Rightarrow> string \<Rightarrow> u16 \<Rightarrow> 'w net \<Rightarrow> (unit result \<times> TcpSocket) \<times> 'w net" where
  "connectTo os fd host port n =
     (let (d, w) = initSockets os n; (s, w) = os_socket os w
      in if \<not> sock_valid s then ((Err ErrIOError ''socket() failed'', s), (d, w))
         else let (r, w) = os_connect os s host port w
           in if r \<noteq> 0 then let (s, m) = sock_close os s (d, w)
                  in ((Err ErrIOError (''connect failed to '' @ host @ '':'' @ dec_int (uint port)), s), m)
              else ((Ok (), s), (d, w)))"

definition bindListen :: "'w Os \<Rightarrow> TcpSocket \<Rightarrow> u16 \<Rightarrow> 'w net \<Rightarrow> (unit result \<times> TcpSocket) \<times> 'w net" where
  "bindListen os fd port n =
     (let (d, w) = initSockets os n; (s, w) = os_socket os w
      in if \<not> sock_valid s then ((Err ErrIOError ''socket() failed'', s), (d, w))
         else let (r, w) = os_bind os s port (os_reuse os s w)
           in if r \<noteq> 0 then let (s, m) = sock_close os s (d, w)
                  in ((Err ErrIOError (''bind failed on port '' @ dec_int (uint port)), s), m)
              else let (r, w) = os_listen os s 32 w
                in if r \<noteq> 0 then let (s, m) = sock_close os s (d, w) in ((Err ErrIOError ''listen failed'', s), m)
                   else ((Ok (), s), (d, w)))"

definition sock_accept :: "'w Os \<Rightarrow> TcpSocket \<Rightarrow> 'w net \<Rightarrow> TcpSocket result \<times> 'w net" where
  "sock_accept os fd n =
     (case n of (d, w) \<Rightarrow> let (c, w) = os_accept os fd w
        in if \<not> sock_valid c then (Err ErrIOError ''accept failed'', (d, w)) else (Ok c, (d, w)))"

text \<open>The connection of \<open>DistributedClient\<close>, which owns one socket.\<close>

record ClientConnection =
  dc_host :: string
  dc_port :: u16
  dc_sock :: TcpSocket
  dc_connected :: bool

definition client_new :: "string \<Rightarrow> u16 \<Rightarrow> ClientConnection" where
  "client_new host port = \<lparr>dc_host = host, dc_port = port, dc_sock = - 1, dc_connected = False\<rparr>"

definition client_connect :: "'w Os \<Rightarrow> ClientConnection \<Rightarrow> 'w net \<Rightarrow> (unit result \<times> ClientConnection) \<times> 'w net" where
  "client_connect os c n =
     (let ((r, s), m) = connectTo os (dc_sock c) (dc_host c) (dc_port c) (initSockets os n); d = c\<lparr>dc_sock := s\<rparr>
      in case r of Err e t \<Rightarrow> ((Err e t, d), m) | Ok _ \<Rightarrow> ((Ok (), d\<lparr>dc_connected := True\<rparr>), m))"

definition client_close :: "'w Os \<Rightarrow> ClientConnection \<Rightarrow> 'w net \<Rightarrow> ClientConnection \<times> 'w net" where
  "client_close os c n =
     (if dc_connected c then let (s, m) = sock_close os (dc_sock c) n in (c\<lparr>dc_sock := s, dc_connected := False\<rparr>, m)
      else (c\<lparr>dc_connected := False\<rparr>, n))"

section \<open>Ownership\<close>

text \<open>
  The operating system as bookkeeping over any other: the world also holds the multiset of
  open descriptors.
\<close>

definition counting :: "'w Os \<Rightarrow> (i32 multiset \<times> 'w) Os" where
  "counting os = \<lparr>
     os_startup = \<lambda>(M, w). (M, os_startup os w), os_cleanup = \<lambda>(M, w). (M, os_cleanup os w),
     os_socket = \<lambda>(M, w). let (s, v) = os_socket os w in (s, (if sock_valid s then add_mset s M else M, v)),
     os_connect = \<lambda>s h p (M, w). let (r, v) = os_connect os s h p w in (r, (M, v)),
     os_reuse = \<lambda>s (M, w). (M, os_reuse os s w),
     os_bind = \<lambda>s p (M, w). let (r, v) = os_bind os s p w in (r, (M, v)),
     os_listen = \<lambda>s k (M, w). let (r, v) = os_listen os s k w in (r, (M, v)),
     os_accept = \<lambda>s (M, w). let (c, v) = os_accept os s w in (c, (if sock_valid c then add_mset c M else M, v)),
     os_close = \<lambda>s (M, w). (M - {#s#}, os_close os s w)\<rparr>"

definition open_fds :: "(bool \<times> i32 multiset \<times> 'w) \<Rightarrow> i32 multiset" where "open_fds n = fst (snd n)"

lemmas socket_defs = counting_def initSockets_def sock_close_def open_fds_def sock_valid_def Let_def

lemma counting_close: "open_fds (snd (sock_close (counting os) s n)) = (if sock_valid s then open_fds n - {#s#} else open_fds n)"
  "\<not> sock_valid (fst (sock_close (counting os) s n))"
  by (cases n; simp add: socket_defs)+

text \<open>Connecting owns exactly the new descriptor on success and nothing more on failure, and so does listening.\<close>

lemma connectTo_owns:
  "connectTo (counting os) fd host port n = ((r, s), m) \<Longrightarrow>
   (case r of Ok _ \<Rightarrow> sock_valid s \<and> open_fds m = add_mset s (open_fds n) | Err _ _ \<Rightarrow> \<not> sock_valid s \<and> open_fds m = open_fds n)"
  by (cases n) (auto simp: connectTo_def socket_defs split: prod.splits if_splits)

lemma bindListen_owns:
  "bindListen (counting os) fd port n = ((r, s), m) \<Longrightarrow>
   (case r of Ok _ \<Rightarrow> sock_valid s \<and> open_fds m = add_mset s (open_fds n) | Err _ _ \<Rightarrow> \<not> sock_valid s \<and> open_fds m = open_fds n)"
  by (cases n) (auto simp: bindListen_def socket_defs split: prod.splits if_splits)

text \<open>
  A connected socket that is destroyed gives its descriptor back; a socket that is
  connected a second time keeps the first descriptor open for ever.
\<close>

lemma connect_destroy:
  assumes "connectTo (counting os) fd host port n = ((r, s), m)"
  shows "open_fds (sock_destroy (counting os) s m) = open_fds n"
  using connectTo_owns [OF assms] by (cases r) (auto simp: sock_destroy_def counting_close)

lemma reconnect_leaks:
  assumes "connectTo (counting os) fd host port n = ((Ok (), s), m)" "connectTo (counting os) s host port m = ((r, t), k)"
  shows "open_fds (sock_destroy (counting os) t k) = add_mset s (open_fds n)"
  using connect_destroy [OF assms(2)] connectTo_owns [OF assms(1)] by simp

text \<open>A new client that connects and closes leaves no descriptor behind, whether or not the connection succeeds.\<close>

lemma client_session:
  assumes "client_connect (counting os) (client_new host port) n = ((r, c), m)" "client_close (counting os) c m = (d, k)"
  shows "open_fds k = open_fds n"
proof -
  have init: "open_fds (initSockets (counting os) n) = open_fds n" by (cases n) (simp add: socket_defs)
  obtain r' s m' where con: "connectTo (counting os) (- 1) host port (initSockets (counting os) n) = ((r', s), m')"
    by (metis prod.exhaust)
  have "m' = m \<and> (case r' of Err _ _ \<Rightarrow> \<not> dc_connected c | Ok _ \<Rightarrow> dc_connected c \<and> dc_sock c = s)"
    using assms(1) by (cases r') (auto simp: client_connect_def client_new_def con Let_def)
  with con have run: "connectTo (counting os) (- 1) host port (initSockets (counting os) n) = ((r', s), m)"
      "(case r' of Err _ _ \<Rightarrow> \<not> dc_connected c | Ok _ \<Rightarrow> dc_connected c \<and> dc_sock c = s)" by simp_all
  have owns: "case r' of Ok _ \<Rightarrow> sock_valid s \<and> open_fds m = add_mset s (open_fds n) | Err _ _ \<Rightarrow> open_fds m = open_fds n"
    using connectTo_owns [OF run(1)] by (cases r') (simp_all add: init)
  show ?thesis
  proof (cases r')
    case (Ok u)
    then have "k = snd (sock_close (counting os) s m)" using assms(2) run(2) by (auto simp: client_close_def split: prod.splits)
    then show ?thesis using owns Ok by (simp add: counting_close)
  next
    case (Err e t)
    then show ?thesis using assms(2) run(2) owns by (simp add: client_close_def)
  qed
qed

end
