(* ===== verification/CF_Cli.thy ===== *)
theory CF_Cli
  imports CF_CpuBackend
begin

text \<open>
  The command line of \<open>tools/cli/main.cpp\<close>: how an argument vector selects a command, how
  request files are read, what the scratch root of a run does to the temporary directory,
  and the requests of the built-in benchmark. Printing is not modelled.
\<close>

section \<open>Request files\<close>

definition readFile :: "(string \<Rightarrow> string option) \<Rightarrow> string \<Rightarrow> string" where
  "readFile files path = (case files path of None \<Rightarrow> [] | Some txt \<Rightarrow> txt)"

definition loadRequest :: "(string \<Rightarrow> string option) \<Rightarrow> string \<Rightarrow> CompilationRequest" where
  "loadRequest files path = (case json_parse (readFile files path) of
     None \<Rightarrow> rq_default
   | Some j \<Rightarrow> (case rq_fromJson j of None \<Rightarrow> rq_default | Some v \<Rightarrow> v))"

section \<open>The scratch root\<close>

definition inside_dir :: "char \<Rightarrow> string \<Rightarrow> string \<Rightarrow> bool" where
  "inside_dir sep dir f \<longleftrightarrow> f = dir \<or> take (length dir + 1) f = dir @ [sep]"

text \<open>
  The root is a fresh name inside the temporary directory; \<open>p.parent_path ()\<close> is the
  temporary directory itself, and that is what is removed.
\<close>

definition cliRoot :: "char \<Rightarrow> string \<Rightarrow> i64 \<Rightarrow> string list \<Rightarrow> string \<times> string list" where
  "cliRoot sep tmp nanos files =
     (tmp @ [sep] @ ''cf_cli_'' @ dec_int (sint nanos), filter (\<lambda>f. \<not> inside_dir sep tmp f) files)"

definition makeFabric :: "string \<Rightarrow> CompilationFabricConfig" where
  "makeFabric dir = cf_default\<lparr>cf_artifactRoot := (if dir = [] then ''cf-artifacts'' else dir), cf_persistenceEnabled := True,
     cf_allowCuda := True\<rparr>"

section \<open>Commands\<close>

datatype CliCommand = Usage | Serve u16 | WorkerUsage | Worker string u16 u32 | Bench i32 u64
  | DeployUsage | Deploy "Id128 option" | Toolchains | Targets | Stats | Snapshot | Recover | Artifacts
  | MissingRequest string | WithRequest string string

text \<open>\<open>std::atoi\<close>: a value that an \<open>int\<close> cannot hold is undefined behaviour.\<close>

definition atoi :: "string \<Rightarrow> i32 eff" where
  "atoi s =
     (let (neg, r) = scan_sign (dropWhile is_space (c_string s)); n = digits_value (takeWhile is_digit r); v = (if neg then - n else n)
      in if - (2 ^ 31) \<le> v \<and> v < 2 ^ 31 then Ret (of_int v) else Undef)"

definition arg :: "nat \<Rightarrow> string list \<Rightarrow> string option" where
  "arg i argv = (if i < length argv then Some (argv ! i) else None)"

definition atoi_or :: "string option \<Rightarrow> i32 \<Rightarrow> i32 eff" where
  "atoi_or a d = (case a of None \<Rightarrow> Ret d | Some s \<Rightarrow> atoi s)"

definition cli_serve :: "string list \<Rightarrow> CliCommand eff" where
  "cli_serve argv = ebind (atoi_or (arg 2 argv) 4000) (\<lambda>p. Ret (Serve (ucast p)))"

definition cli_worker :: "i64 \<Rightarrow> string list \<Rightarrow> CliCommand eff" where
  "cli_worker nanos argv =
     (if length argv < 4 then Ret WorkerUsage
      else ebind (atoi (argv ! 3)) (\<lambda>port.
        ebind (case arg 4 argv of Some s \<Rightarrow> atoi s | None \<Rightarrow> Ret (of_int (sgn (sint nanos) * (\<bar>sint nanos\<bar> mod 1000)))) (\<lambda>wid.
        Ret (Worker (argv ! 2) (ucast port) wid))))"

definition cli_bench :: "string list \<Rightarrow> CliCommand eff" where
  "cli_bench argv = ebind (atoi_or (arg 2 argv) 1000) (\<lambda>n.
     Ret (Bench n (case arg 3 argv of Some s \<Rightarrow> strtoull10 s | None \<Rightarrow> 1234)))"

definition cli_rooted :: "string \<Rightarrow> string list \<Rightarrow> CliCommand" where
  "cli_rooted cmd argv =
     (if cmd = ''deploy'' then (case arg 2 argv of None \<Rightarrow> DeployUsage | Some h \<Rightarrow> Deploy (id_parse h))
      else if cmd = ''toolchains'' then Toolchains else if cmd = ''targets'' then Targets
      else if cmd = ''stats'' then Stats else if cmd = ''snapshot'' then Snapshot
      else if cmd = ''recover'' then Recover else if cmd = ''artifacts'' then Artifacts
      else (case arg 2 argv of None \<Rightarrow> MissingRequest cmd | Some path \<Rightarrow> WithRequest cmd path))"

definition cli_command :: "i64 \<Rightarrow> string list \<Rightarrow> CliCommand eff" where
  "cli_command nanos argv = (case arg 1 argv of
     None \<Rightarrow> Ret Usage
   | Some cmd \<Rightarrow>
       if cmd = ''help'' \<or> cmd = ''--help'' then Ret Usage
       else if cmd = ''serve'' then cli_serve argv
       else if cmd = ''worker'' then cli_worker nanos argv
       else if cmd = ''bench'' then cli_bench argv
       else Ret (cli_rooted cmd argv))"

text \<open>How often a command makes a scratch root before it does anything else.\<close>

definition cli_roots :: "CliCommand \<Rightarrow> nat" where
  "cli_roots c = (case c of
     Usage \<Rightarrow> 0 | Serve _ \<Rightarrow> 0 | WorkerUsage \<Rightarrow> 0 | Worker _ _ _ \<Rightarrow> 0 | Bench _ _ \<Rightarrow> 0 | WithRequest _ _ \<Rightarrow> 2 | _ \<Rightarrow> 1)"

definition bench_request :: "i32 \<Rightarrow> u64 \<Rightarrow> CompilationRequest" where
  "bench_request i seed =
     (let src = ''name=k'' @ [newline] @ ''shape=256'' @ [newline] @ ''add scalar='' @ dec_int (sint i mod 7) @ [newline]
      in rq_default\<lparr>rq_requestId := fromU64 (of_int (sint (i + 1))), rq_logicalOperation := fromU64 1, rq_source := src,
           rq_sourceDigest := sha256 (bytes_of src), rq_datatype := DT_F32, rq_rank := 1, rq_staticShape := [256],
           rq_backend := ''cpu'', rq_autotuneSeed := seed\<rparr>)"

section \<open>Properties\<close>

text \<open>A missing file, a file that is not JSON and a request that does not decode all run the default request.\<close>

lemma loadRequest_default:
  assumes "files path = None \<or> files path = Some txt \<and> (json_parse txt = None \<or> (\<exists>j. json_parse txt = Some j \<and> rq_fromJson j = None))"
  shows "loadRequest files path = rq_default"
proof -
  have "json_parse [] = None" by code_simp
  then show ?thesis using assms by (auto simp: loadRequest_def readFile_def)
qed

text \<open>The scratch root deletes every file of the temporary directory, other programs' included.\<close>

lemma cliRoot_removes:
  "cliRoot sep tmp nanos files = (path, left) \<Longrightarrow> set left = {f \<in> set files. \<not> inside_dir sep tmp f} \<and> inside_dir sep tmp path"
  by (auto simp: cliRoot_def inside_dir_def)

text \<open>Every argument vector that names something else than the five commands above makes at least one root.\<close>

lemma rooted_roots: "0 < cli_roots (cli_rooted cmd argv)"
  by (simp add: cli_rooted_def cli_roots_def split: option.splits)

end
