(* ===== verification/CF_Main.thy ===== *)
theory CF_Main
  imports CF_EndToEnd CF_Cli
begin

text \<open>
  What the commands of \<open>tools/cli/main.cpp\<close> do: each one makes a runtime, calls it and
  prints. The machine (files, the artifact stores of the
  directories and which of their files can be removed, backends, clocks) is an argument; the
  output is the text on both streams and the exit code. The coordinator
  and the worker, which \<open>serve\<close> and \<open>worker\<close> start, are the subject of other theories,
  so that only their exit codes appear, as does the text of the timing of the benchmark.
\<close>

section \<open>A machine\<close>

record Machine =
  mc_sep :: char
  mc_tmp :: string
  mc_files :: "string \<Rightarrow> string option"
  mc_store :: "string \<Rightarrow> Disk"
  mc_removable :: "string \<Rightarrow> bool"
  mc_cudaOk :: bool
  mc_cudaError :: string
  mc_nvrtc :: string
  mc_toolchain :: ToolchainDescriptor
  mc_cpu :: ICompilerBackend
  mc_cuda :: ICompilerBackend
  mc_env :: Env
  mc_now :: i64
  mc_nanos :: "nat \<Rightarrow> i64"
  mc_lengthError :: string
  mc_timing :: "i32 \<Rightarrow> string"
  mc_serve :: "u16 \<Rightarrow> int"
  mc_work :: "string \<Rightarrow> u16 \<Rightarrow> u32 \<Rightarrow> int"

text \<open>The effect of a scratch root on the files and stores: what lies in the temporary directory is gone.\<close>

definition scratch :: "Machine \<Rightarrow> nat \<Rightarrow> string \<times> Machine" where
  "scratch mc k = (fst (cliRoot (mc_sep mc) (mc_tmp mc) (mc_nanos mc k) []),
     mc\<lparr>mc_files := (\<lambda>f. if inside_dir (mc_sep mc) (mc_tmp mc) f then None else mc_files mc f),
        mc_store := (\<lambda>d. if inside_dir (mc_sep mc) (mc_tmp mc) d then [] else mc_store mc d)\<rparr>)"

definition fabric_at :: "Machine \<Rightarrow> string \<Rightarrow> Impl" where
  "fabric_at mc dir = fabric_init (makeFabric dir) (mc_cudaOk mc) (mc_cpu mc) (mc_cuda mc) (mc_toolchain mc) (mc_store mc dir) (mc_now mc)"

section \<open>Output\<close>

record CliOut =
  co_code :: int
  co_out :: string
  co_err :: string

definition says :: "string \<Rightarrow> CliOut eff" where
  "says t = Ret \<lparr>co_code = 0, co_out = t @ [newline], co_err = []\<rparr>"

definition complains :: "string \<Rightarrow> CliOut eff" where
  "complains t = Ret \<lparr>co_code = 1, co_out = [], co_err = t @ [newline]\<rparr>"

definition quiet :: "CliOut eff" where "quiet = Ret \<lparr>co_code = 0, co_out = [], co_err = []\<rparr>"

text \<open>Text goes through \<open>c_str ()\<close>: printing ends at a NUL.\<close>

definition dumps :: "Json \<Rightarrow> CliOut eff" where
  "dumps j = (case json_dump j of None \<Rightarrow> Undef | Some t \<Rightarrow> says (c_string t))"

definition sp_toJson :: "CompilationFabricSnapshot \<Rightarrow> Json" where
  "sp_toJson ss = json_sets [(''counters'', sp_counters ss), (''events'', sp_events ss), (''artifact_index'', sp_artifactIndex ss),
     (''inflight'', sp_inflight ss), (''generations'', sp_generations ss), (''epoch'', JStr (sp_epochText ss))]"

definition usage_lines :: "string list" where
  "usage_lines = [
     ''Compilation Fabric 1.0.0'',
     ''Usage: compile_fabric <command> [args]'',
     ''Commands:'',
     ''  plan <request.json>              Plan a compilation'',
     ''  compile <request.json>           Compile (or reuse) + validate'',
     ''  submit <request.json>            Alias for compile'',
     ''  lookup <request.json>            Cache lookup + compatibility decision'',
     ''  invalidate <request.json>        Invalidate by key'',
     ''  supersede <request.json> <gen>   Supersede an artifact'',
     ''  deploy <artifact-hex>            Deploy/load an artifact'',
     ''  artifacts                        List artifacts'',
     ''  toolchains                       Show discovered toolchains'',
     ''  targets                          Show discovered targets'',
     ''  stats                            Show runtime stats'',
     ''  snapshot                         Show a full snapshot'',
     ''  explain <request.json>           Explain a compilation key'',
     ''  recover                          Recover persisted state'',
     ''  bench <n> [seed]                 Run a quick benchmark'',
     ''  serve <port>                     Run the distributed coordinator'',
     ''  worker <host> <port> [cuda]      Run a distributed worker'']"

definition printUsage :: "CliOut eff" where
  "printUsage = Ret \<lparr>co_code = 0, co_out = concat (map (\<lambda>l. l @ [newline]) usage_lines), co_err = []\<rparr>"

section \<open>Commands without a request\<close>

definition run_deploy :: "Id128 option \<Rightarrow> Impl \<Rightarrow> CliOut eff" where
  "run_deploy parsed i = (case parsed of None \<Rightarrow> quiet | Some aid \<Rightarrow> (case deploy 0 aid i of
      Ok _ \<Rightarrow> says (''deployed '' @ toHex aid)
    | Err _ msg \<Rightarrow> complains (''deploy failed: '' @ c_string msg)))"

definition run_toolchains :: "Machine \<Rightarrow> Impl \<Rightarrow> CliOut eff" where
  "run_toolchains mc i = (case fabric_toolchains i of
      Ok tt \<Rightarrow> ebind (dumps (tcd_toJson tt)) (\<lambda>co. Ret (co\<lparr>co_err :=
        ''[cuda] avail='' @ (if mc_cudaOk mc then ''1'' else ''0'') @ '' err='' @ c_string (mc_cudaError mc) @
        '' nvrtc='' @ c_string (mc_nvrtc mc) @ [newline]\<rparr>))
    | Err _ _ \<Rightarrow> quiet)"

definition run_targets :: "Impl \<Rightarrow> CliOut eff" where
  "run_targets i = (case fabric_targets i of
      Ok tt \<Rightarrow> Ret \<lparr>co_code = 0, co_out = concat (map (\<lambda>x. c_string (td_deviceName x) @ '' '' @ c_string (td_architecture x) @
        '' cc='' @ c_string (td_computeCapability x) @ [newline]) tt), co_err = []\<rparr>
    | Err _ _ \<Rightarrow> quiet)"

definition run_recover :: "Machine \<Rightarrow> string \<Rightarrow> Impl \<Rightarrow> CliOut eff" where
  "run_recover mc dir i = ebind (fabric_recover (makeFabric dir) (mc_removable mc) (mc_now mc) (map fst (im_disk i)) i) (\<lambda>(rr, _).
     says (''recover: '' @ (case rr of Ok _ \<Rightarrow> ''ok'' | Err _ msg \<Rightarrow> c_string msg)))"

definition run_rooted :: "Machine \<Rightarrow> CliCommand \<Rightarrow> string \<Rightarrow> Impl \<Rightarrow> CliOut eff" where
  "run_rooted mc c dir i = (case c of
      DeployUsage \<Rightarrow> Ret \<lparr>co_code = 1, co_out = ''deploy <artifact-hex>'' @ [newline], co_err = []\<rparr>
    | Deploy aid \<Rightarrow> run_deploy aid i
    | Toolchains \<Rightarrow> run_toolchains mc i
    | Targets \<Rightarrow> run_targets i
    | Stats \<Rightarrow> dumps (fabric_stats i)
    | Snapshot \<Rightarrow> dumps (sp_toJson (snapshot i))
    | Recover \<Rightarrow> run_recover mc dir i
    | Artifacts \<Rightarrow> dumps (sp_artifactIndex (snapshot i))
    | MissingRequest cmd \<Rightarrow> Ret \<lparr>co_code = 1,
        co_out = ''missing request.json argument for '' @ [CHR 0x27] @ c_string cmd @ [CHR 0x27, newline], co_err = []\<rparr>
    | _ \<Rightarrow> quiet)"

section \<open>Commands with a request\<close>

text \<open>A call of \<open>compile\<close> by the only thread: its steps at the given moments, until it returns.\<close>

fun run_alone :: "CompilationFabricConfig \<Rightarrow> Env \<Rightarrow> nat list \<Rightarrow> Thread \<Rightarrow> Impl \<Rightarrow> (CompilationResult result \<times> Impl) option" where
  "run_alone cfg env ms th i = (case fst th of
      Returned r \<Rightarrow> Some (r, i)
    | _ \<Rightarrow> (case ms of [] \<Rightarrow> None | m # ms' \<Rightarrow>
        (case thread_step cfg env m th i of None \<Rightarrow> None | Some (th', i') \<Rightarrow> run_alone cfg env ms' th' i')))"

declare run_alone.simps [simp del]

text \<open>Seven steps suffice; an undefined one ends the program.\<close>

definition lone_compile :: "Machine \<Rightarrow> string \<Rightarrow> u64 \<Rightarrow> CompilationRequest \<Rightarrow> Impl \<Rightarrow> (CompilationResult result \<times> Impl) eff" where
  "lone_compile mc dir planNo r i =
     (case run_alone (makeFabric dir) (mc_env mc) [0, 1, 2, 3, 4, 5, 6]
        (start_compile (makeFabric dir) (mc_cudaOk mc) planNo (mc_now mc) r i) i of None \<Rightarrow> Undef | Some x \<Rightarrow> Ret x)"

definition lone_plan :: "Machine \<Rightarrow> string \<Rightarrow> CompilationRequest \<Rightarrow> Impl \<Rightarrow> CompilationPlan result" where
  "lone_plan mc dir r i = plan (makeFabric dir) (mc_cudaOk mc) (map fst (im_backends i)) (im_targets i) 1 (mc_now mc) r"

text \<open>The toolchain context that three commands write down themselves.\<close>

definition cli_tc :: KeyToolchainContext where
  "cli_tc = tc_default\<lparr>tc_compiler := ''cf-cpu'', tc_backend := ''cpu''\<rparr>"

text \<open>\<open>*plan\<close> of a failed plan throws \<open>std::logic_error\<close>, which \<open>main\<close> catches.\<close>

definition with_key :: "Machine \<Rightarrow> string \<Rightarrow> CompilationRequest \<Rightarrow> Impl \<Rightarrow> (CompilationKey \<Rightarrow> CliOut eff) \<Rightarrow> CliOut eff" where
  "with_key mc dir r i f = (case lone_plan mc dir r i of
      Ok p \<Rightarrow> f (buildCompilationKey r p cli_tc)
    | Err _ _ \<Rightarrow> complains ''error: Result::value() on non-ok result'')"

definition run_request :: "Machine \<Rightarrow> string \<Rightarrow> CompilationRequest \<Rightarrow> string \<Rightarrow> Impl \<Rightarrow> CliOut eff" where
  "run_request mc cmd r dir i =
     (if cmd = ''plan'' then (case lone_plan mc dir r i of
          Ok p \<Rightarrow> dumps (pl_toJson p) | Err _ msg \<Rightarrow> complains (''plan failed: '' @ c_string msg))
      else if cmd = ''compile'' \<or> cmd = ''submit'' then ebind (lone_compile mc dir 1 r i) (\<lambda>(res, _). case res of
          Ok x \<Rightarrow> dumps (rs_toJson x) | Err _ msg \<Rightarrow> complains (''compile failed: '' @ c_string msg))
      else if cmd = ''lookup'' then with_key mc dir r i (\<lambda>key. case lookup (makeFabric dir) key i of
          None \<Rightarrow> LengthError
        | Some (d, _) \<Rightarrow> says (''outcome='' @ compatibilityOutcomeName (de_outcome d) @ '' reusable='' @ (if de_reusable d then ''1'' else ''0'')))
      else if cmd = ''invalidate'' then with_key mc dir r i (\<lambda>_. says ''invalidated'')
      else if cmd = ''explain'' then with_key mc dir r i (\<lambda>key. dumps (fabric_explain key i))
      else printUsage)"

section \<open>The program\<close>

definition run_bench :: "Machine \<Rightarrow> i32 \<Rightarrow> u64 \<Rightarrow> Impl eff" where
  "run_bench mc n seed = fold (\<lambda>k st. ebind st (\<lambda>i.
       ebind (lone_compile mc ''cf-bench'' (of_nat k + 1) (bench_request (of_nat k) seed) i) (\<lambda>(_, i'). Ret i')))
     [0..<nat (sint n)] (Ret (fabric_at mc ''cf-bench''))"

text \<open>A command with a request goes through the scratch block first and makes a second root.\<close>

definition cli_run :: "Machine \<Rightarrow> CliCommand \<Rightarrow> CliOut eff" where
  "cli_run mc c = (case c of
      Usage \<Rightarrow> printUsage
    | Serve port \<Rightarrow> Ret \<lparr>co_code = mc_serve mc port, co_out = [], co_err = []\<rparr>
    | WorkerUsage \<Rightarrow> Ret \<lparr>co_code = 1, co_out = ''usage: worker <host> <port> [id]'' @ [newline], co_err = []\<rparr>
    | Worker host port wid \<Rightarrow> Ret \<lparr>co_code = mc_work mc host port wid, co_out = [], co_err = []\<rparr>
    | Bench n seed \<Rightarrow> ebind (run_bench mc n seed) (\<lambda>_. says (''bench: '' @ dec_int (sint n) @ '' compiles in '' @ mc_timing mc n))
    | WithRequest cmd path \<Rightarrow>
        let (_, mc1) = scratch mc 0; (dir, mc2) = scratch mc1 1
        in run_request mc2 cmd (loadRequest (mc_files mc2) path) dir (fabric_at mc2 dir)
    | _ \<Rightarrow> let (dir, mc1) = scratch mc 0 in run_rooted mc1 c dir (fabric_at mc1 dir))"

text \<open>The handler of \<open>main\<close>: an exception that escaped a command becomes a message and exit code 1.\<close>

definition caught :: "Machine \<Rightarrow> CliOut eff \<Rightarrow> CliOut eff" where
  "caught mc e = (case e of LengthError \<Rightarrow> complains (''error: '' @ mc_lengthError mc) | _ \<Rightarrow> e)"

definition cli_main :: "Machine \<Rightarrow> string list \<Rightarrow> CliOut eff" where
  "cli_main mc argv = caught mc (ebind (cli_command (mc_nanos mc 2) argv) (cli_run mc))"

section \<open>A lone call ends\<close>

fun steps_to_return :: "Pc \<Rightarrow> nat" where
  "steps_to_return AtFast = 7"
| "steps_to_return AtJoin = 6"
| "steps_to_return AtWait = 0"
| "steps_to_return AtBuild = 5"
| "steps_to_return AtName = 4"
| "steps_to_return AtGen = 3"
| "steps_to_return AtCommit = 2"
| "steps_to_return (AtFail _ _ _) = 1"
| "steps_to_return (AtFinish _) = 1"
| "steps_to_return (Returned _) = 0"

definition all_done :: "Impl \<Rightarrow> bool" where
  "all_done i \<longleftrightarrow> (\<forall>(k, h) \<in> set (im_inflight i). fe_done (im_heap i ! h))"

definition lone :: "Thread \<Rightarrow> Impl \<Rightarrow> bool" where
  "lone th i \<longleftrightarrow> fst th \<noteq> AtWait \<and> (fst th = AtFast \<or> fst th = AtJoin \<longrightarrow> all_done i)"

lemma fast_path_flights:
  assumes "fast_path cfg now r p k i = Some (hit, i')"
  shows "im_heap i' = im_heap i \<and> im_inflight i' = im_inflight i"
  using assms by (auto simp: fast_path_def on_obs_def Let_def split: option.splits if_splits)

lemma join_all_done: "all_done i \<Longrightarrow> \<exists>h i'. join_flight k i = (Inr h, i')"
  by (auto simp: join_flight_def all_done_def Let_def dest!: map_of_SomeD split: option.splits)

lemma lone_step:
  assumes "thread_step cfg env m th i = Some (th', i')" "lone th i"
  shows "lone th' i' \<and> steps_to_return (fst th') < steps_to_return (fst th)"
proof (cases th)
  case (Pair pc lv)
  show ?thesis
  proof (cases pc)
    case AtFast
    then show ?thesis using assms Pair
      by (auto simp: thread_step_def lone_def all_done_def split: option.splits dest!: fast_path_flights)
  next
    case AtJoin
    then show ?thesis using assms Pair join_all_done [of i "lo_key lv"]
      by (auto simp: thread_step_def lone_def)
  qed (use assms Pair in \<open>auto simp: thread_step_def lone_def to_name_def validate_step_def Let_def
        split: BuildResult.splits option.splits sum.splits prod.splits if_splits\<close>)
qed

text \<open>
  With as many moments as its position needs, a lone call returns, unless a step of it has
  no defined result: the comparison with a cached entry or the text of the stored metadata.
\<close>

lemma run_alone_returns:
  assumes "lone th i" "steps_to_return (fst th) \<le> length ms"
  shows "(\<exists>r i'. run_alone cfg env ms th i = Some (r, i')) \<or>
    (\<exists>m th' i'. thread_step cfg env m th' i' = None \<and> (fst th' = AtFast \<or> fst th' = AtCommit))"
  using assms
proof (induction ms arbitrary: th i)
  case Nil
  then have "\<exists>r. fst th = Returned r" by (cases "fst th") (auto simp: lone_def)
  then show ?case by (auto simp: run_alone.simps)
next
  case (Cons m ms)
  show ?case
  proof (cases "\<exists>r. fst th = Returned r")
    case True
    then show ?thesis by (auto simp: run_alone.simps)
  next
    case False
    then have e: "run_alone cfg env (m # ms) th i = (case thread_step cfg env m th i of None \<Rightarrow> None
        | Some (th', i') \<Rightarrow> run_alone cfg env ms th' i')"
      by (subst run_alone.simps) (simp split: Pc.splits)
    show ?thesis
    proof (cases "thread_step cfg env m th i")
      case None
      then have "fst th = AtFast \<or> fst th = AtCommit" using False Cons.prems(1)
        by (cases th; cases "fst th") (auto simp: thread_step_def lone_def split: BuildResult.splits sum.splits prod.splits)
      then show ?thesis using None by blast
    next
      case (Some r)
      then obtain th' i' where s: "thread_step cfg env m th i = Some (th', i')" by fastforce
      then show ?thesis using Cons.IH [of th' i'] lone_step [OF s Cons.prems(1)] Cons.prems(2) e by auto
    qed
  qed
qed

section \<open>What a scratch root forgets\<close>

lemma inside_dir_child [simp]: "inside_dir sep dir (dir @ sep # name)"
  by (simp add: inside_dir_def)

lemma scratch_store: "scratch mc k = (dir, mc') \<Longrightarrow> mc_store mc' dir = [] \<and> inside_dir (mc_sep mc) (mc_tmp mc) dir"
  by (auto simp: scratch_def cliRoot_def)

lemma scratch_fields: "scratch mc k = (dir, mc') \<Longrightarrow> mc_sep mc' = mc_sep mc \<and> mc_tmp mc' = mc_tmp mc"
  by (auto simp: scratch_def)

text \<open>A command finds no artifact: every one of them starts from an empty store.\<close>

lemma fabric_at_fresh:
  "scratch mc k = (dir, mc') \<Longrightarrow> im_disk (fabric_at mc' dir) = [] \<and> im_cache (fabric_at mc' dir) = []"
  by (auto simp: fabric_at_def fabric_init_def dest: scratch_store)

lemma cli_deploy_fails: "cli_run mc (Deploy (Some aid)) = complains ''deploy failed: artifact not in cache''"
proof -
  obtain dir mc' where s: "scratch mc 0 = (dir, mc')" by fastforce
  show ?thesis using fabric_at_fresh [OF s]
    by (simp add: cli_run_def s run_rooted_def run_deploy_def deploy_def find_artifact_def c_string_def)
qed

lemma cli_artifacts_none: "cli_run mc Artifacts = says ''[]''"
proof -
  obtain dir mc' where s: "scratch mc 0 = (dir, mc')" by fastforce
  show ?thesis using fabric_at_fresh [OF s]
    by (simp add: cli_run_def s run_rooted_def snapshot_def dumps_def json_dump_def c_string_def commas_def)
qed

lemma cli_lookup_misses:
  assumes "im_cache i = []" "lone_plan mc dir r i = Ok p"
  shows "run_request mc ''lookup'' r dir i = says ''outcome=RecompileRequiredSpecializationChange reusable=0''"
proof -
  have "compatibilityOutcomeName CO_RecompileRequiredSpecializationChange = ''RecompileRequiredSpecializationChange''" by code_simp
  then show ?thesis using assms by (simp add: run_request_def with_key_def lookup_def)
qed

text \<open>What the stores of the machine hold does not matter to any command.\<close>

definition uses_scratch :: "CliCommand \<Rightarrow> bool" where
  "uses_scratch c \<longleftrightarrow> 0 < cli_roots c"

lemma store_unused:
  "lone_plan (mc\<lparr>mc_store := st\<rparr>) dir r i = lone_plan mc dir r i"
  "lone_compile (mc\<lparr>mc_store := st\<rparr>) dir n r i = lone_compile mc dir n r i"
  "run_rooted (mc\<lparr>mc_store := st\<rparr>) c dir i = run_rooted mc c dir i"
  "run_request (mc\<lparr>mc_store := st\<rparr>) cmd r dir i = run_request mc cmd r dir i"
proof -
  show p: "lone_plan (mc\<lparr>mc_store := st\<rparr>) dir r i = lone_plan mc dir r i" for r i by (simp add: lone_plan_def)
  show c: "lone_compile (mc\<lparr>mc_store := st\<rparr>) dir n r i = lone_compile mc dir n r i" for r i n by (simp add: lone_compile_def)
  have f: "mc_cudaOk (mc\<lparr>mc_store := st\<rparr>) = mc_cudaOk mc" "mc_cudaError (mc\<lparr>mc_store := st\<rparr>) = mc_cudaError mc"
      "mc_nvrtc (mc\<lparr>mc_store := st\<rparr>) = mc_nvrtc mc" "mc_now (mc\<lparr>mc_store := st\<rparr>) = mc_now mc"
      "mc_removable (mc\<lparr>mc_store := st\<rparr>) = mc_removable mc"
    by simp_all
  have t: "run_toolchains (mc\<lparr>mc_store := st\<rparr>) i = run_toolchains mc i" "run_recover (mc\<lparr>mc_store := st\<rparr>) dir i = run_recover mc dir i"
    unfolding run_toolchains_def run_recover_def f by (rule refl)+
  show "run_rooted (mc\<lparr>mc_store := st\<rparr>) c dir i = run_rooted mc c dir i"
    unfolding run_rooted_def t by (rule refl)
  show "run_request (mc\<lparr>mc_store := st\<rparr>) cmd r dir i = run_request mc cmd r dir i"
    by (simp only: run_request_def with_key_def p c)
qed

lemma fabric_at_store: "st dir = mc_store mc dir \<Longrightarrow> fabric_at (mc\<lparr>mc_store := st\<rparr>) dir = fabric_at mc dir"
  by (simp add: fabric_at_def)

lemma scratch_other_store:
  assumes "scratch mc k = (dir, mc')"
  obtains st where "scratch (mc\<lparr>mc_store := s\<rparr>) k = (dir, mc'\<lparr>mc_store := st\<rparr>)" "st dir = mc_store mc' dir"
proof -
  let ?st = "\<lambda>d. if inside_dir (mc_sep mc) (mc_tmp mc) d then [] else s d"
  have "scratch (mc\<lparr>mc_store := s\<rparr>) k = (dir, mc'\<lparr>mc_store := ?st\<rparr>)" using assms by (auto simp: scratch_def cliRoot_def cong: if_cong)
  moreover have "?st dir = mc_store mc' dir" using scratch_store [OF assms] by simp
  ultimately show thesis by (rule that)
qed

lemma cli_forgets:
  assumes "0 < cli_roots c"
  shows "cli_run (mc\<lparr>mc_store := s\<rparr>) c = cli_run mc c"
proof -
  obtain dir mc1 where s1: "scratch mc 0 = (dir, mc1)" by fastforce
  obtain st where t1: "scratch (mc\<lparr>mc_store := s\<rparr>) 0 = (dir, mc1\<lparr>mc_store := st\<rparr>)" "st dir = mc_store mc1 dir"
    using scratch_other_store [OF s1] .
  obtain dir2 mc2 where s2: "scratch mc1 1 = (dir2, mc2)" by fastforce
  obtain st2 where t2: "scratch (mc1\<lparr>mc_store := st\<rparr>) 1 = (dir2, mc2\<lparr>mc_store := st2\<rparr>)" "st2 dir2 = mc_store mc2 dir2"
    using scratch_other_store [OF s2] .
  show ?thesis using assms
    by (cases c) (simp_all add: cli_roots_def cli_run_def s1 t1 s2 t2 fabric_at_store store_unused del: One_nat_def)
qed

text \<open>A request file in the temporary directory is deleted before it is read.\<close>

lemma cli_request_lost:
  assumes "inside_dir (mc_sep mc) (mc_tmp mc) path"
  shows "cli_run mc (WithRequest cmd path) = (let (_, mc1) = scratch mc 0; (dir, mc2) = scratch mc1 1
     in run_request mc2 cmd rq_default dir (fabric_at mc2 dir))"
proof -
  have "mc_files (snd (scratch (snd (scratch mc 0)) 1)) path = None" using assms by (simp add: scratch_def)
  then show ?thesis using loadRequest_default [of "mc_files (snd (scratch (snd (scratch mc 0)) 1))" path]
    by (simp add: cli_run_def Let_def split: prod.splits) (metis snd_conv)
qed

text \<open>The key that \<open>lookup\<close>, \<open>invalidate\<close> and \<open>explain\<close> compute is never the key of \<open>compile\<close>.\<close>

lemma cli_key_differs:
  assumes "plan cfg ok bs ts n now r = Ok p"
  shows "buildCompilationKey r p cli_tc \<noteq> request_key toolchain cfg' r p"
proof
  assume "buildCompilationKey r p cli_tc = request_key toolchain cfg' r p"
  then have "tc_frontend cli_tc = tc_frontend (makeTc p toolchain cfg')"
    unfolding request_key_def build_inputs_iff inputs_iff same_inputs_def by blast
  moreover have "pl_frontend p = ''cf-frontend''" using assms by (auto simp: plan_def Let_def split: if_splits)
  ultimately show False by (simp add: cli_tc_def tc_default_def makeTc_def Let_def split: if_splits)
qed

end
