(* ===== verification/Spec2Isabelle.thy ===== *)
theory Spec2Isabelle
  imports CF_Sha256 CF_Identity CF_Lifecycle CF_Compatibility CF_Observability CF_Persistence CF_Results CF_EndToEnd CF_Generations CF_Registry CF_Progress CF_Leases
    CF_Cluster CF_Worker CF_CudaTrace CF_Toolchain CF_Socket CF_Main
begin

text \<open>
  Compilation Fabric: verification development.

  \<^bold>\<open>The program.\<close> Compilation Fabric is a C++ runtime that turns compilation requests into
  validated, cached and persisted artifacts. A request is planned (\<open>Fabric.cpp\<close>), identified by a
  canonical compilation key (\<open>Request.cpp\<close>, \<open>Key.cpp\<close>, \<open>Canonical.cpp\<close>, \<open>Core.cpp\<close> for
  SHA-256), looked up in a cache where a compatibility decision says whether a stored artifact may
  be reused (\<open>Compatibility.cpp\<close>), otherwise compiled once for all callers that ask for the same key
  (single flight, \<open>Fabric.cpp\<close>) by a backend (\<open>CpuBackend.cpp\<close>, \<open>Cuda.cpp\<close>), validated,
  walked through a guarded lifecycle (\<open>Lifecycle.cpp\<close>) and stored (\<open>Persistence.cpp\<close>).
  Invalidations advance generations so that what was compiled before them is not published after
  them. \<open>Distributed.cpp\<close> spreads the work over processes: a coordinator that clients and workers
  reach through framed messages (\<open>Protocol.cpp\<close>). Descriptors and requests travel as JSON
  (\<open>Descriptor.cpp\<close>, \<open>Request.cpp\<close>, \<open>Json.cpp\<close>). \<open>Toolchain.cpp\<close> discovers compilers, and
  \<open>tools/cli/main.cpp\<close> is the command line.

  \<^bold>\<open>Foundations.\<close> \<open>CF_Prelude\<close>: the C++ integer types as words, byte strings, big-endian numerals,
  \<open>std::map\<close> as a sorted association list behind the locale \<open>ordered_map\<close>. \<open>CF_Core\<close>: error
  codes, \<open>Result\<close> as the datatype \<open>result\<close> (\<open>Ok\<close>, \<open>Err\<close>), identities and hexadecimal text.
  \<open>CF_Identity\<close>: the typed identities, their order, names and hash.
  \<open>CF_Fips180\<close> states the hash function of the standard by itself: its constants from the roots of
  the first primes, its functions, padding and schedule as the standard writes them. \<open>CF_Sha256\<close>: the
  streaming context of \<open>Core.cpp\<close>; however the input is cut into updates, the digest is that of
  \<open>CF_Fips180\<close>. \<open>CF_Canonical\<close>: writer, reader with its wrapping bounds
  check and key fields; the locales \<open>codec\<close> and \<open>strict_codec\<close> state what a reader owes its writer
  and are interpreted on every primitive. \<open>CF_Semantic\<close>: the enumerations, which do not survive
  their own names. \<open>CF_Json\<close>: values, printer and recursive-descent parser, with the round trip for
  values whose numbers are exact. \<open>CF_Descriptor\<close> and \<open>CF_Request\<close>: every structure as a record
  with its JSON form (locale \<open>json_codec\<close>), and \<open>buildCompilationKey\<close>, which two requests map to
  the same key exactly when the fields it reads agree.

  \<^bold>\<open>Components.\<close> \<open>CF_Key\<close>: the key as a sorted map of tagged fields; set and get, equality and
  order against canonical bytes. \<open>CF_Lifecycle\<close>: the transition table; an artifact that lost its
  authority does not regain it. \<open>CF_Compatibility\<close>: the decision procedure; reuse is decided only
  when the fields that matter agree, and the reasons are the differences. \<open>CF_Observability\<close>:
  counters and the bounded event ring. \<open>CF_Persistence\<close>: the two files of an artifact on a disk
  that is a map from names to bytes, with a failure possible at every call; a store is all or
  nothing, and recovery returns what was stored, whichever temporary files it manages to remove. \<open>CF_Plan\<close>: the backend interface as a record of
  functions of the moment of the call, and planning. \<open>CF_Double\<close>: IEEE binary64 on bit patterns.
  \<open>CF_CpuBackend\<close>: source parser, bytecode, execution, optimiser, compile, validate, load; the
  optimiser keeps every value, bytecode is decoded exactly, a compilation validates unless an output
  is a NaN. \<open>CF_CudaSpec\<close>: launch specifications, kernel source and the meaning of the kernels; the
  reduction combines every element exactly when the block is a power of two. \<open>CF_CudaApi\<close>: the
  loaded libraries as optional functions over an arbitrary world, and how they are loaded. \<open>CF_Cuda\<close>:
  discovery, compilation through NVRTC and nvcc, validation, loading. \<open>CF_CudaTrace\<close>: for every
  driver, what a passed validation implies about the calls made and the values compared, that everything acquired is released
  once and in order, and that validation launches what compilation specified. \<open>CF_Toolchain\<close>: the
  probe as a function of the machine. \<open>CF_Protocol\<close>: frames, envelopes, payload codecs, and
  transport over a stream that may deliver partial data, end or fail; what is sent is what is
  received, and transport ends. \<open>CF_Socket\<close>: ownership of descriptors. \<open>CF_Cli\<close>: selection of
  commands, request files, the scratch root. \<open>CF_Main\<close>: every command over a machine, whose files,
  artifact stores, clocks and backends are an argument, with the text on both streams and the exit
  code; because each command works in a fresh root, none of them sees what another one stored.

  \<^bold>\<open>Concurrency of the runtime.\<close> \<open>CF_Fabric\<close> holds the shared state \<open>Impl\<close>; every section of
  \<open>Fabric.cpp\<close> under the mutex, and every access to a counter outside it, is one function on it.
  \<open>CF_Interleaving\<close> lets any number of threads call \<open>compile\<close> while others invalidate, supersede,
  lease, recover and register backends. A recovery is two steps, the scan of the store, which runs
  without the mutex, and later the adoption of what that scan found; a scan is one step with respect
  to the files. \<open>wstep\<close> is one such function by one thread, chosen by a label, and
  \<open>CF_Runs\<close> holds the locales \<open>step_invariant\<close>, \<open>step_counter\<close> and \<open>simulation\<close> for runs of such systems.
  \<open>CF_Registry\<close> states the whole contract as an abstract registry of offers and numbered tickets, which
  records who opened a ticket, who joined it and how it ended, and shows that every schedule of the
  runtime, recovery included, is a run of it. Proved:
  at most one attempt per key is in flight and it has one owner (\<open>CF_Interleaving\<close>); every result,
  fresh, reused or taken from another caller, carries an artifact that a backend compiled for a
  request with the same key and whose validation under that key passed (\<open>CF_Results\<close>); an attempt publishes only under the generations it was opened
  with, and no call that looks the key up in the cache after an invalidation is answered with what was
  cached before it (\<open>CF_Generations\<close>); a waiting thread is released by a bounded number of steps of the
  thread that owns its entry (\<open>CF_Progress\<close>); leases
  refine a counter per artifact (\<open>CF_Leases\<close>). \<open>CF_EndToEnd\<close> plugs the model of the CPU backend into
  the runtime, through the locale \<open>cpu_backends\<close>: whatever the interleaving, the artifact that a
  caller gets computes what the source in the caller's own request computes, and a caller that runs
  alone with a sound source is served.

  \<^bold>\<open>The distributed control plane.\<close> \<open>CF_Distributed\<close> models the coordinator with one thread per
  connection, stopped between any two sections (\<open>dstep\<close>), the worker's answer to a dispatch and the
  client calls; broken connections and failed sends are events. \<open>CF_Worker\<close> is a whole run of a
  worker: what it answers, and when and how it ends. \<open>CF_Coordinator\<close> holds the locales
  \<open>thread_invariant\<close> and \<open>state_order\<close> with their interpretations; \<open>CF_Authority\<close> proves how a
  result is handled on every branch, that a promise is fulfilled once and by the result for its
  request, that recorded generations do not go back, and that an invalidation by a client has no
  effect. \<open>CF_Cluster\<close> composes worker and coordinator: a failed compilation is never answered, and
  in a complete run, from submission to the client's result, the worker's artifact arrives.

  \<^bold>\<open>Conventions.\<close> An operation that may throw \<open>std::length_error\<close> or run into undefined behaviour
  returns \<open>eff\<close>, whose constructor \<open>Undef\<close> stands for the latter; an out-of-range substring of the
  probe is \<open>OutOfRange\<close>. An enumeration that the sources cast from integers is a datatype over its
  word. Clocks, identifiers drawn from clocks, directory orders, backends, drivers, the operating
  system and the transport are arguments. Memory allocation is assumed to succeed.

  \<^bold>\<open>Bounds.\<close> Counters are 64-bit words and wrap in the model as in the code; where a statement needs
  that a generation is not used twice, its premise \<open>room\<close> says how far the counter is from 2 to the
  64. Codecs are stated for texts and structures whose encoded size fits a 64-bit length (\<open>small\<close>).
  The number of steps an owner needs is at most five (\<open>steps_left\<close>). \<open>kMaxLeases\<close> is the constant of
  the source. A caller that runs alone (\<open>run_alone\<close>, \<open>drive\<close>) is given seven moments, and returns
  within them (\<open>run_alone_returns\<close>). No other fuel is used: loops are structural, have a termination measure or are runs of
  labelled steps. Floating point assumes round to nearest without contraction, little-endian memory
  and the C locale. The code builds on Windows only: \<open>unsigned long\<close> has 32 bits, and the text of a NaN
  is that of the Windows run time.

  \<^bold>\<open>Not modelled.\<close> The libraries that the program loads or links (NVRTC, the CUDA driver, the C and
  C++ run time, the operating system) are arguments with named assumptions. 
  \<open>tools/bench.cpp\<close>, the examples and the tests are left out: they hold no state of their own. Of the
  commands \<open>serve\<close> and \<open>worker\<close> the command line shows the exit codes only, and the text of the timings
  that \<open>bench\<close> prints is an argument: time is not measured. The interleaving is sequentially
  consistent at the grain of mutex sections and atomic accesses, so data races inside the code, such
  as statistics read without the mutex, are reported as findings and not as steps.
\<close>

end
